(* ===== verification/Prelude.thy ===== *)
theory Prelude
  imports Main "HOL-Library.Sublist" "HOL-Library.List_Lexorder" "HOL-Library.Char_ord"
begin

text \<open>
  Shared ground of the development: the parts of Go's \<^verbatim>\<open>strings\<close> and
  \<^verbatim>\<open>strconv\<close> packages that booth-storage uses, on byte strings (a Go string is a
  sequence of bytes, an Isabelle \<^typ>\<open>char\<close> is a byte), and the generic lemmas the
  components share.  Byte-wise string order (\<^verbatim>\<open><\<close> and \<^verbatim>\<open>strings.Compare\<close> in Go) is
  the lexicographic order that List\_Lexorder and Char\_ord put on \<^typ>\<open>string\<close>.
\<close>


section \<open>Prefixes and suffixes\<close>

text \<open>\<^verbatim>\<open>strings.HasPrefix\<close>, \<^verbatim>\<open>HasSuffix\<close>, \<^verbatim>\<open>TrimPrefix\<close> and \<^verbatim>\<open>TrimSuffix\<close>.\<close>

abbreviation HasPrefix :: "string \<Rightarrow> string \<Rightarrow> bool" where
  "HasPrefix s p \<equiv> prefix p s"

abbreviation HasSuffix :: "string \<Rightarrow> string \<Rightarrow> bool" where
  "HasSuffix s p \<equiv> suffix p s"

definition TrimPrefix :: "string \<Rightarrow> string \<Rightarrow> string" where
  "TrimPrefix s p = (if prefix p s then drop (length p) s else s)"

definition TrimSuffix :: "string \<Rightarrow> string \<Rightarrow> string" where
  "TrimSuffix s p = (if suffix p s then take (length s - length p) s else s)"

lemma TrimPrefix_append [simp]: "TrimPrefix (p @ s) p = s"
  by (simp add: TrimPrefix_def)

lemma TrimPrefix_restore: "prefix p s \<Longrightarrow> p @ TrimPrefix s p = s"
  by (auto simp: TrimPrefix_def prefix_def)

lemma suffix_append_self [simp]: "suffix p (s @ p)"
  by (simp add: suffix_def)

lemma TrimSuffix_append [simp]: "TrimSuffix (s @ p) p = s"
  by (simp add: TrimSuffix_def)

lemma TrimSuffix_no: "\<not> suffix p s \<Longrightarrow> TrimSuffix s p = s"
  by (simp add: TrimSuffix_def)

lemma TrimSuffix_cases:
  obtains "suffix p s" "s = TrimSuffix s p @ p" | "\<not> suffix p s" "TrimSuffix s p = s"
  by (cases "suffix p s") (auto simp: TrimSuffix_def suffix_def)

lemma length_TrimSuffix: "length (TrimSuffix s p) \<le> length s"
  by (simp add: TrimSuffix_def)

lemma suffix_single: "suffix [c] s \<longleftrightarrow> s \<noteq> [] \<and> last s = c"
  by (metis append_Nil append_butlast_last_id last_snoc snoc_eq_iff_butlast suffix_def)

lemma suffix_single_snoc [simp]: "suffix [c] (s @ [d]) \<longleftrightarrow> c = d"
  by (auto simp: suffix_single)

section \<open>Splitting and joining\<close>

text \<open>\<^verbatim>\<open>strings.Split\<close> and \<^verbatim>\<open>strings.Join\<close> with a one-byte separator.\<close>

fun split_on :: "char \<Rightarrow> string \<Rightarrow> string list" where
  "split_on c [] = [[]]"
| "split_on c (x # xs) =
     (if x = c then [] # split_on c xs
      else (case split_on c xs of [] \<Rightarrow> [[x]] | y # ys \<Rightarrow> (x # y) # ys))"

fun join_with :: "char \<Rightarrow> string list \<Rightarrow> string" where
  "join_with c [] = []"
| "join_with c [x] = x"
| "join_with c (x # y # ys) = x @ c # join_with c (y # ys)"

lemma split_on_nonempty [simp]: "split_on c s \<noteq> []"
  by (induction s) (auto split: list.splits)

lemma split_on_no_sep: "c \<notin> set s \<Longrightarrow> split_on c s = [s]"
  by (induction s) auto

lemma split_on_segs: "seg \<in> set (split_on c s) \<Longrightarrow> c \<notin> set seg"
  by (induction s arbitrary: seg) (auto split: list.splits if_splits)

lemma join_with_cons: "xs \<noteq> [] \<Longrightarrow> join_with c (x # xs) = x @ c # join_with c xs"
  by (cases xs) auto

lemma join_with_hd: "join_with c ((a # x) # xs) = a # join_with c (x # xs)"
  by (cases xs) auto

lemma join_split [simp]: "join_with c (split_on c s) = s"
proof (induction s)
  case (Cons a s)
  then show ?case
    by (auto simp: join_with_cons join_with_hd split: list.splits)
qed simp

lemma split_on_app: "c \<notin> set x \<Longrightarrow> split_on c (x @ c # s) = x # split_on c s"
  by (induction x) auto

lemma split_join:
  "xs \<noteq> [] \<Longrightarrow> \<forall>x \<in> set xs. c \<notin> set x \<Longrightarrow> split_on c (join_with c xs) = xs"
  by (induction c xs rule: join_with.induct) (auto simp: split_on_no_sep split_on_app)

lemma split_on_inj: "split_on c s = split_on c t \<Longrightarrow> s = t"
  by (metis join_split)

lemma split_on_append_sep: "split_on c (s @ c # t) = split_on c s @ split_on c t"
  by (induction s) (auto split: list.splits)

section \<open>Bytes, classes of bytes, case and white space\<close>

abbreviation byte :: "char \<Rightarrow> nat" where
  "byte c \<equiv> of_char c"

definition is_digit :: "char \<Rightarrow> bool" where
  "is_digit c \<longleftrightarrow> 48 \<le> byte c \<and> byte c \<le> 57"

definition is_lower :: "char \<Rightarrow> bool" where
  "is_lower c \<longleftrightarrow> 97 \<le> byte c \<and> byte c \<le> 122"

definition is_upper :: "char \<Rightarrow> bool" where
  "is_upper c \<longleftrightarrow> 65 \<le> byte c \<and> byte c \<le> 90"

text \<open>\<open>[a-z0-9]\<close> and \<open>[a-z0-9-]\<close>, the byte classes of the source's regular expressions.\<close>

definition is_alnum :: "char \<Rightarrow> bool" where
  "is_alnum c \<longleftrightarrow> is_lower c \<or> is_digit c"

definition is_slug :: "char \<Rightarrow> bool" where
  "is_slug c \<longleftrightarrow> is_alnum c \<or> c = CHR ''-''"

lemma slug_no_slash: "list_all is_slug ws \<Longrightarrow> CHR ''/'' \<notin> set ws"
  by (auto simp: list_all_iff is_slug_def is_alnum_def is_lower_def is_digit_def)

lemma slug_no_colon: "list_all is_slug ws \<Longrightarrow> CHR '':'' \<notin> set ws"
  by (auto simp: list_all_iff is_slug_def is_alnum_def is_lower_def is_digit_def)

definition lower_byte :: "char \<Rightarrow> char" where
  "lower_byte c = (if is_upper c then char_of (byte c + 32) else c)"

text \<open>
  \<^verbatim>\<open>strings.ToLower\<close>.  ASCII letters are lowered, and so are the only two other runes
  whose lower case is ASCII: the Kelvin sign (bytes E2 84 AA, to \<open>k\<close>) and the dotted capital
  I (C4 B0, to \<open>i\<close>).  Other non-ASCII runes stay as they are here; in Go they map to
  non-ASCII runes, and every use of the result compares it with ASCII text only.
\<close>

fun ToLower :: "string \<Rightarrow> string" where
  "ToLower (a # b # c # s) =
     (if byte a = 226 \<and> byte b = 132 \<and> byte c = 170 then CHR ''k'' # ToLower s
      else if byte a = 196 \<and> byte b = 176 then CHR ''i'' # ToLower (c # s)
      else lower_byte a # ToLower (b # c # s))"
| "ToLower [a, b] =
     (if byte a = 196 \<and> byte b = 176 then [CHR ''i''] else [lower_byte a, lower_byte b])"
| "ToLower [a] = [lower_byte a]"
| "ToLower [] = []"

text \<open>
  \<^verbatim>\<open>strings.EqualFold\<close> against a text without the letters \<open>k\<close> and \<open>s\<close> (whose folding
  orbits alone leave ASCII): equality up to ASCII case.
\<close>

definition EqualFoldAscii :: "string \<Rightarrow> string \<Rightarrow> bool" where
  "EqualFoldAscii s t \<longleftrightarrow> map lower_byte s = map lower_byte t"

text \<open>
  \<^verbatim>\<open>strings.TrimSpace\<close> removes Unicode white space, so the encodings of all such runes are
  listed: six ASCII bytes, NEL and NBSP (two bytes), and the three-byte ones.
\<close>

definition spaces :: "string list" where
  "spaces = map (map char_of)
     [[9], [10], [11], [12], [13], [32], [194, 133], [194, 160 :: nat],
      [225, 154, 128], [226, 128, 128], [226, 128, 129], [226, 128, 130], [226, 128, 131],
      [226, 128, 132], [226, 128, 133], [226, 128, 134], [226, 128, 135], [226, 128, 136],
      [226, 128, 137], [226, 128, 138], [226, 128, 168], [226, 128, 169], [226, 128, 175],
      [226, 129, 159], [227, 128, 128]]"

definition strip1 :: "(string \<Rightarrow> string \<Rightarrow> bool) \<Rightarrow> string \<Rightarrow> nat" where
  "strip1 at s = (case find (\<lambda>sp. at sp s) spaces of None \<Rightarrow> 0 | Some sp \<Rightarrow> length sp)"

function trim_left :: "string \<Rightarrow> string" where
  "trim_left s = (let n = strip1 prefix s in if n = 0 \<or> s = [] then s else trim_left (drop n s))"
  by pat_completeness auto
termination
  by (relation "measure length") (auto simp: Let_def)

function trim_right :: "string \<Rightarrow> string" where
  "trim_right s =
     (let n = strip1 suffix s in if n = 0 \<or> s = [] then s else trim_right (take (length s - n) s))"
  by pat_completeness auto
termination
  by (relation "measure length") (auto simp: Let_def)

declare trim_left.simps [simp del] trim_right.simps [simp del]

definition TrimSpace :: "string \<Rightarrow> string" where
  "TrimSpace s = trim_right (trim_left s)"

text \<open>\<^verbatim>\<open>strings.Trim\<close> with a one-byte cutset.\<close>

definition TrimByte :: "char \<Rightarrow> string \<Rightarrow> string" where
  "TrimByte c s = rev (dropWhile (\<lambda>x. x = c) (rev (dropWhile (\<lambda>x. x = c) s)))"

definition TrimRightByte :: "char \<Rightarrow> string \<Rightarrow> string" where
  "TrimRightByte c s = rev (dropWhile (\<lambda>x. x = c) (rev s))"

lemma dropWhile_ne_hd: "s = [] \<or> hd s \<noteq> c \<Longrightarrow> dropWhile (\<lambda>x. x = c) s = s"
  by (cases s) auto

lemma TrimByte_id: "s = [] \<or> (hd s \<noteq> c \<and> last s \<noteq> c) \<Longrightarrow> TrimByte c s = s"
  by (auto simp: TrimByte_def dropWhile_ne_hd hd_rev)

section \<open>First and last occurrence of a byte\<close>

text \<open>
  \<^verbatim>\<open>strings.IndexByte\<close>, \<^verbatim>\<open>LastIndexByte\<close> and \<^verbatim>\<open>Cut\<close>, always used by the source
  to slice the string there: the parts before and after the byte.
\<close>

definition cut_first :: "char \<Rightarrow> string \<Rightarrow> (string \<times> string) option" where
  "cut_first c s =
     (if c \<in> set s then Some (takeWhile (\<lambda>x. x \<noteq> c) s, tl (dropWhile (\<lambda>x. x \<noteq> c) s)) else None)"

definition cut_last :: "char \<Rightarrow> string \<Rightarrow> (string \<times> string) option" where
  "cut_last c s = (case cut_first c (rev s) of None \<Rightarrow> None | Some (a, b) \<Rightarrow> Some (rev b, rev a))"

lemma cut_first_None [simp]: "cut_first c s = None \<longleftrightarrow> c \<notin> set s"
  by (simp add: cut_first_def)

lemma cut_first_append [simp]: "c \<notin> set a \<Longrightarrow> cut_first c (a @ c # b) = Some (a, b)"
  by (simp add: cut_first_def takeWhile_append dropWhile_append)

lemma cut_first_Some: "cut_first c s = Some (a, b) \<longleftrightarrow> s = a @ c # b \<and> c \<notin> set a"
proof
  assume "cut_first c s = Some (a, b)"
  then have "c \<in> set s" by (metis cut_first_None option.discI)
  then obtain xs ys where "s = xs @ c # ys" "c \<notin> set xs" by (metis split_list_first)
  with \<open>cut_first c s = Some (a, b)\<close> show "s = a @ c # b \<and> c \<notin> set a" by simp
qed auto

lemma cut_last_None [simp]: "cut_last c s = None \<longleftrightarrow> c \<notin> set s"
  by (auto simp: cut_last_def cut_first_def)

lemma cut_last_Some: "cut_last c s = Some (a, b) \<longleftrightarrow> s = a @ c # b \<and> c \<notin> set b"
proof -
  have "cut_last c s = Some (a, b) \<longleftrightarrow> cut_first c (rev s) = Some (rev b, rev a)"
    by (cases "cut_first c (rev s)")
      (auto simp: cut_last_def simp del: cut_first_None split: option.splits)
  also have "\<dots> \<longleftrightarrow> rev s = rev b @ c # rev a \<and> c \<notin> set b"
    by (simp add: cut_first_Some)
  also have "\<dots> \<longleftrightarrow> s = a @ c # b \<and> c \<notin> set b"
    by (metis append.assoc append_Cons append_Nil rev.simps(2) rev_append rev_rev_ident)
  finally show ?thesis .
qed

section \<open>Decimal integers\<close>

text \<open>
  \<^verbatim>\<open>strconv.ParseInt(s, 10, 64)\<close> (and \<^verbatim>\<open>strconv.Atoi\<close> on a 64-bit platform): an
  optional sign, at least one digit, digits only, and a value inside the signed 64-bit
  range.  \<^verbatim>\<open>strconv.FormatInt\<close> and \<^verbatim>\<open>%d\<close> write the decimal digits.
\<close>

definition int64_min :: int where "int64_min = - (2 ^ 63)"
definition int64_max :: int where "int64_max = 2 ^ 63 - 1"

definition in_int64 :: "int \<Rightarrow> bool" where
  "in_int64 n \<longleftrightarrow> int64_min \<le> n \<and> n \<le> int64_max"

fun digits_val :: "nat \<Rightarrow> string \<Rightarrow> nat option" where
  "digits_val acc [] = Some acc"
| "digits_val acc (c # cs) =
     (if is_digit c then digits_val (acc * 10 + (byte c - 48)) cs else None)"

definition ParseUnsigned :: "string \<Rightarrow> nat option" where
  "ParseUnsigned s = (if s = [] then None else digits_val 0 s)"

definition ParseInt64 :: "string \<Rightarrow> int option" where
  "ParseInt64 s =
     (let neg = prefix ''-'' s;
          body = (if neg \<or> prefix ''+'' s then tl s else s)
      in case ParseUnsigned body of
           None \<Rightarrow> None
         | Some n \<Rightarrow> (let v = (if neg then - int n else int n) in if in_int64 v then Some v else None))"

fun dec_nat :: "nat \<Rightarrow> string" where
  "dec_nat n = (if n < 10 then [char_of (n + 48)] else dec_nat (n div 10) @ [char_of (n mod 10 + 48)])"

declare dec_nat.simps [simp del]

definition dec_int :: "int \<Rightarrow> string" where
  "dec_int n = (if n < 0 then CHR ''-'' # dec_nat (nat (- n)) else dec_nat (nat n))"

lemma ParseInt64_range: "ParseInt64 s = Some n \<Longrightarrow> in_int64 n"
  by (auto simp: ParseInt64_def Let_def split: option.splits if_splits)

lemma digits_val_append:
  "digits_val acc (xs @ ys) = (case digits_val acc xs of None \<Rightarrow> None | Some a \<Rightarrow> digits_val a ys)"
  by (induction acc xs rule: digits_val.induct) auto

lemma is_digit_char_of: "n < 10 \<Longrightarrow> is_digit (char_of (n + 48 :: nat))"
  by (simp add: is_digit_def)

lemma digits_val_dec: "digits_val 0 (dec_nat n) = Some n"
proof (induction n rule: dec_nat.induct)
  case (1 n)
  show ?case
  proof (cases "n < 10")
    case True
    then show ?thesis by (simp add: dec_nat.simps [of n] is_digit_char_of)
  next
    case False
    have "is_digit (char_of (n mod 10 + 48))" by (simp add: is_digit_char_of)
    with False 1 show ?thesis
      by (simp add: dec_nat.simps [of n] digits_val_append)
  qed
qed

lemma dec_nat_digits: "c \<in> set (dec_nat n) \<Longrightarrow> is_digit c"
proof (induction n rule: dec_nat.induct)
  case (1 n)
  then show ?case
    by (auto simp: dec_nat.simps [of n] is_digit_char_of split: if_splits)
qed

lemma dec_nat_nonempty [simp]: "dec_nat n \<noteq> []"
  by (simp add: dec_nat.simps [of n])

lemma dec_nat_hd: "\<not> is_digit c \<Longrightarrow> \<not> prefix [c] (dec_nat n)"
  by (metis dec_nat_digits dec_nat_nonempty list.set_sel(1) prefix_def append_Cons list.sel(1))

lemma ParseInt64_dec: "int n \<le> int64_max \<Longrightarrow> ParseInt64 (dec_nat n) = Some (int n)"
proof -
  assume n: "int n \<le> int64_max"
  have "\<not> prefix ''-'' (dec_nat n)" "\<not> prefix ''+'' (dec_nat n)"
    by (auto intro!: dec_nat_hd simp: is_digit_def)
  with n show ?thesis
    by (simp add: ParseInt64_def ParseUnsigned_def digits_val_dec in_int64_def int64_min_def)
qed

section \<open>Small lemmas on lists, maps and sums\<close>

lemma map_of_filter_ne: "map_of (filter (\<lambda>p. fst p \<noteq> k) al) = (map_of al)(k := None)"
  by (induction al) auto

lemma map_of_filter_key: "map_of (filter (\<lambda>p. P (fst p)) al) k = (if P k then map_of al k else None)"
  by (induction al) auto

lemma find_Some_mem: "find P xs = Some x \<Longrightarrow> x \<in> set xs \<and> P x"
  by (induction xs) (auto split: if_splits)

lemma last_take_nth: "0 < n \<Longrightarrow> n \<le> length xs \<Longrightarrow> last (take n xs) = xs ! (n - 1)"
  by (cases xs) (auto simp: last_conv_nth)

lemma TrimSpace_word: "s \<noteq> [] \<Longrightarrow> list_all is_alnum s \<Longrightarrow> TrimSpace s = s"
proof -
  assume s: "s \<noteq> []" "list_all is_alnum s"
  have no: "\<not> prefix sp s \<and> \<not> suffix sp s" if "sp \<in> set spaces" for sp
  proof -
    have "sp \<noteq> [] \<and> \<not> is_alnum (hd sp)"
      using that by (auto simp: spaces_def is_alnum_def is_lower_def is_digit_def)
    then obtain c r where "sp = c # r" "\<not> is_alnum c" by (cases sp) auto
    then show ?thesis using s(2) by (auto simp: prefix_def suffix_def list_all_iff)
  qed
  then have "strip1 prefix s = 0" "strip1 suffix s = 0"
    by (auto simp: strip1_def split: option.splits dest!: find_Some_mem)
  then show "TrimSpace s = s"
    by (simp add: TrimSpace_def trim_left.simps [of s] trim_right.simps [of s])
qed

end
