(* ===== verification/Backend_Core.thy ===== *)
theory Backend_Core
  imports Prelude
begin

text \<open>
  \<^verbatim>\<open>internal/backend/backend.go\<close>: the storage kinds, the sentinel errors, the shapes
  every backend exchanges, and the path rules (\<^verbatim>\<open>CleanPath\<close>, \<^verbatim>\<open>CleanPrefix\<close>,
  \<^verbatim>\<open>CleanFolder\<close>, \<^verbatim>\<open>checkSegments\<close>) every kind applies before it touches storage.
  An error is represented by what the code can branch on: the sentinel that \<^verbatim>\<open>errors.Is\<close>
  finds in the chain.  Message texts are not modelled.
\<close>

section \<open>Kinds\<close>

type_synonym kind = string

definition KindS3 :: kind where [simp]: "KindS3 = ''s3''"
definition KindFilesystem :: kind where [simp]: "KindFilesystem = ''filesystem''"
definition KindAzure :: kind where [simp]: "KindAzure = ''azure''"
definition KindGCS :: kind where [simp]: "KindGCS = ''gcs''"

definition Kinds :: "kind list" where
  "Kinds = [KindS3, KindFilesystem, KindAzure, KindGCS]"

fun kind_in :: "kind \<Rightarrow> kind list \<Rightarrow> bool" where
  "kind_in k [] = False"
| "kind_in k (known # ks) = (if k = known then True else kind_in k ks)"

definition kind_Valid :: "kind \<Rightarrow> bool" where
  "kind_Valid k = kind_in k Kinds"

lemma kind_in_iff: "kind_in k ks \<longleftrightarrow> k \<in> set ks"
  by (induction ks) auto

section \<open>Errors\<close>

text \<open>
  The sentinels of the package, the two foreign errors the HTTP layer recognises (a
  cancelled context, \<^verbatim>\<open>http.MaxBytesError\<close>), and any other error of a storage service.
\<close>

datatype berr =
    ErrNotFound
  | ErrInvalidPath
  | ErrConflict
  | ErrPreconditionFailed
  | ErrInvalidRange
  | ErrCanceled
  | ErrTooBig
  | ErrOther string

section \<open>Object information, listing and writing\<close>

text \<open>\<^verbatim>\<open>ModTime\<close> is in nanoseconds since the epoch; \<^const>\<open>None\<close> is Go's zero time.\<close>

record object_info =
  oiPath :: string
  oiSize :: int
  oiModTime :: "int option"
  oiContentType :: string
  oiETag :: string
  oiIsDir :: bool

definition dir_entry :: "string \<Rightarrow> object_info" where
  "dir_entry p = \<lparr>oiPath = p, oiSize = 0, oiModTime = None, oiContentType = [], oiETag = [], oiIsDir = True\<rparr>"

definition QuoteETag :: "string \<Rightarrow> string" where
  "QuoteETag raw =
     (let r = TrimByte (CHR 0x22) raw in if r = [] then [] else [CHR 0x22] @ r @ [CHR 0x22])"

record byte_range =
  brStart :: int
  brEnd :: int

record list_options =
  loPrefix :: string
  loRecursive :: bool
  loLimit :: int
  loCursor :: string
  loMarkers :: bool

definition DefaultListLimit :: int where "DefaultListLimit = 200"
definition MaxListLimit :: int where "MaxListLimit = 1000"

definition EffectiveLimit :: "list_options \<Rightarrow> int" where
  "EffectiveLimit opts =
     (if loLimit opts \<le> 0 then DefaultListLimit
      else if loLimit opts > MaxListLimit then MaxListLimit
      else loLimit opts)"

record list_result =
  lrEntries :: "object_info list"
  lrNextCursor :: string

record write_options =
  woContentType :: string
  woCreateOnly :: bool

text \<open>
  An \<^verbatim>\<open>io.Reader\<close> handed to \<^verbatim>\<open>Write\<close>: the bytes it delivers, and the error that ends
  it (\<^const>\<open>None\<close> for \<^verbatim>\<open>io.EOF\<close>).
\<close>

record reader =
  rdBytes :: string
  rdErr :: "berr option"

text \<open>
  The \<^verbatim>\<open>Backend\<close> interface over a storage state \<^typ>\<open>'s\<close>.  A method that returns only an
  \<^verbatim>\<open>error\<close> yields \<^typ>\<open>berr option\<close> (\<^const>\<open>None\<close> is nil).  The two folder operations
  page through a listing of the service and so may fail to return at all: their
  result is an option over the whole outcome.
\<close>

record 's backend =
  bList :: "list_options \<Rightarrow> 's \<Rightarrow> (berr + list_result) \<times> 's"
  bRead :: "string \<Rightarrow> 's \<Rightarrow> (berr + reader \<times> object_info) \<times> 's"
  bReadRange :: "string \<Rightarrow> byte_range \<Rightarrow> 's \<Rightarrow> (berr + reader \<times> object_info) \<times> 's"
  bStat :: "string \<Rightarrow> 's \<Rightarrow> (berr + object_info) \<times> 's"
  bWrite :: "string \<Rightarrow> reader \<Rightarrow> write_options \<Rightarrow> 's \<Rightarrow> (berr + object_info) \<times> 's"
  bMkdir :: "string \<Rightarrow> 's \<Rightarrow> berr option \<times> 's"
  bDeleteObject :: "string \<Rightarrow> 's \<Rightarrow> berr option \<times> 's"
  bDeleteFolder :: "string \<Rightarrow> 's \<Rightarrow> ((nat \<times> berr option) \<times> 's) option"
  bMoveObject :: "string \<Rightarrow> string \<Rightarrow> 's \<Rightarrow> berr option \<times> 's"
  bMoveFolder :: "string \<Rightarrow> string \<Rightarrow> 's \<Rightarrow> (berr option \<times> 's) option"
  bCheck :: "'s \<Rightarrow> berr option \<times> 's"

section \<open>Path rules\<close>

definition maxPathLen :: nat where "maxPathLen = 1024"

abbreviation slash :: char where "slash \<equiv> CHR ''/''"

fun check_segs :: "string list \<Rightarrow> berr option" where
  "check_segs [] = None"
| "check_segs (seg # segs) =
     (if seg = [] then Some ErrInvalidPath
      else if seg = ''.'' \<or> seg = ''..'' then Some ErrInvalidPath
      else check_segs segs)"

definition checkSegments :: "string \<Rightarrow> berr option" where
  "checkSegments p =
     (if length p > maxPathLen then Some ErrInvalidPath
      else if CHR 0x00 \<in> set p \<or> CHR 0x5C \<in> set p then Some ErrInvalidPath
      else check_segs (split_on slash (TrimSuffix p ''/'')))"

definition CleanPath :: "string \<Rightarrow> berr + string" where
  "CleanPath p =
     (if p = [] then Inl ErrInvalidPath
      else case checkSegments p of
             Some e \<Rightarrow> Inl e
           | None \<Rightarrow> if HasSuffix p ''/'' then Inl ErrInvalidPath else Inr p)"

definition CleanPrefix :: "string \<Rightarrow> berr + string" where
  "CleanPrefix p0 =
     (let p = TrimSuffix p0 ''/'' in
      if p = [] then Inr []
      else case checkSegments p of Some e \<Rightarrow> Inl e | None \<Rightarrow> Inr (p @ ''/''))"

definition CleanFolder :: "string \<Rightarrow> berr + string" where
  "CleanFolder p =
     (case CleanPrefix p of
        Inl e \<Rightarrow> Inl e
      | Inr pre \<Rightarrow> if pre = [] then Inl ErrInvalidPath else Inr pre)"

section \<open>What the path rules accept\<close>

text \<open>The declarative reading: a path of good segments, short enough, without NUL or backslash.\<close>

definition seg_ok :: "string \<Rightarrow> bool" where
  "seg_ok seg \<longleftrightarrow> seg \<noteq> [] \<and> seg \<noteq> ''.'' \<and> seg \<noteq> ''..''"

definition bytes_ok :: "string \<Rightarrow> bool" where
  "bytes_ok p \<longleftrightarrow> CHR 0x00 \<notin> set p \<and> CHR 0x5C \<notin> set p"

definition wf_path :: "string \<Rightarrow> bool" where
  "wf_path p \<longleftrightarrow> length p \<le> maxPathLen \<and> bytes_ok p \<and> (\<forall>seg \<in> set (split_on slash p). seg_ok seg)"

lemma check_segs_None: "check_segs segs = None \<longleftrightarrow> (\<forall>seg \<in> set segs. seg_ok seg)"
  by (induction segs) (auto simp: seg_ok_def)

lemma check_segs_error: "check_segs segs = Some e \<Longrightarrow> e = ErrInvalidPath"
proof (induction segs)
  case (Cons seg segs)
  then show ?case
    by (cases "seg = []"; cases "seg = ''.'' \<or> seg = ''..''") (simp_all split: if_split_asm)
qed simp

lemma checkSegments_error: "checkSegments p = Some e \<Longrightarrow> e = ErrInvalidPath"
  by (auto simp: checkSegments_def dest: check_segs_error split: if_splits)

lemma checkSegments_None:
  "checkSegments p = None \<longleftrightarrow>
     length p \<le> maxPathLen \<and> bytes_ok p \<and>
     (\<forall>seg \<in> set (split_on slash (TrimSuffix p ''/'')). seg_ok seg)"
  by (auto simp: checkSegments_def check_segs_None bytes_ok_def)

lemma not_wf_path_Nil [simp]: "\<not> wf_path []"
  by (simp add: wf_path_def seg_ok_def)

lemma wf_path_nonempty: "wf_path p \<Longrightarrow> p \<noteq> []"
  by (cases p) simp_all

lemma wf_path_no_trailing: "wf_path p \<Longrightarrow> \<not> suffix ''/'' p"
proof
  assume p: "wf_path p" and "suffix ''/'' p"
  then obtain r where "p = r @ slash # []" by (auto simp: suffix_def)
  then have "[] \<in> set (split_on slash p)" by (simp add: split_on_append_sep)
  with p show False by (auto simp: wf_path_def seg_ok_def)
qed

lemma wf_path_last: "wf_path p \<Longrightarrow> last p \<noteq> slash"
  by (metis wf_path_no_trailing wf_path_nonempty suffix_single)

lemma wf_path_TrimSuffix [simp]: "wf_path p \<Longrightarrow> TrimSuffix p ''/'' = p"
  by (simp add: TrimSuffix_no wf_path_no_trailing)

lemma wf_path_hd: "wf_path p \<Longrightarrow> hd p \<noteq> slash"
  by (cases p) (auto simp: wf_path_def seg_ok_def split: if_splits)

lemma CleanPath_error: "CleanPath p = Inl e \<Longrightarrow> e = ErrInvalidPath"
  by (auto simp: CleanPath_def dest: checkSegments_error split: if_splits option.splits)

lemma CleanPrefix_error: "CleanPrefix p = Inl e \<Longrightarrow> e = ErrInvalidPath"
  by (auto simp: CleanPrefix_def Let_def dest: checkSegments_error split: if_splits option.splits)

lemma CleanFolder_error: "CleanFolder p = Inl e \<Longrightarrow> e = ErrInvalidPath"
  by (auto simp: CleanFolder_def dest: CleanPrefix_error split: sum.splits if_splits)

lemma CleanPath_Inr: "CleanPath p = Inr q \<longleftrightarrow> q = p \<and> wf_path p"
proof
  assume r: "CleanPath p = Inr q"
  then have "checkSegments p = None" "\<not> suffix ''/'' p" "q = p"
    by (auto simp: CleanPath_def split: if_splits option.splits)
  then show "q = p \<and> wf_path p"
    by (simp add: checkSegments_None TrimSuffix_no wf_path_def)
next
  assume "q = p \<and> wf_path p"
  then show "CleanPath p = Inr q"
    using wf_path_nonempty [of p] wf_path_no_trailing [of p]
    by (auto simp: CleanPath_def checkSegments_None wf_path_def TrimSuffix_no
        split: option.splits dest: checkSegments_error)
qed

lemma CleanPath_cases:
  obtains "CleanPath p = Inl ErrInvalidPath" "\<not> wf_path p" | "CleanPath p = Inr p" "wf_path p"
  by (metis CleanPath_Inr CleanPath_error sum.exhaust)

text \<open>
  The text before a prefix's final slash.  \<^verbatim>\<open>CleanPrefix\<close> trims one trailing slash and
  \<^verbatim>\<open>checkSegments\<close> trims one more before it splits, so a doubled trailing slash passes:
  the cleaned prefix then keeps an empty last segment.
\<close>

definition prefix_stem :: "string \<Rightarrow> bool" where
  "prefix_stem p \<longleftrightarrow> wf_path p \<or> (\<exists>r. p = r @ ''/'' \<and> wf_path r \<and> length r < maxPathLen)"

lemma checkSegments_stem: "p \<noteq> [] \<Longrightarrow> checkSegments p = None \<longleftrightarrow> prefix_stem p"
proof (cases p "''/''" rule: TrimSuffix_cases)
  case 1
  then obtain r where r: "p = r @ ''/''" by blast
  have "\<not> wf_path (r @ ''/'')" using wf_path_no_trailing [of "r @ ''/''"] by auto
  with r show ?thesis
    by (auto simp: checkSegments_None prefix_stem_def wf_path_def bytes_ok_def)
next
  case 2
  then show ?thesis
    by (auto simp: checkSegments_None prefix_stem_def wf_path_def)
qed

lemma prefix_stem_nonempty: "prefix_stem p \<Longrightarrow> p \<noteq> []"
  by (auto simp: prefix_stem_def dest: wf_path_nonempty)

lemma CleanPrefix_Inr:
  "CleanPrefix p = Inr q \<longleftrightarrow>
     (p = [] \<or> p = ''/'') \<and> q = [] \<or>
     q \<noteq> [] \<and> q = TrimSuffix p ''/'' @ ''/'' \<and> prefix_stem (TrimSuffix p ''/'')"
proof -
  have empty: "TrimSuffix p ''/'' = [] \<longleftrightarrow> p = [] \<or> p = ''/''"
    by (cases p "''/''" rule: TrimSuffix_cases) auto
  show ?thesis
  proof (cases "TrimSuffix p ''/'' = []")
    case True
    with empty show ?thesis
      by (auto simp: CleanPrefix_def dest: prefix_stem_nonempty)
  next
    case False
    with empty checkSegments_stem [OF False] show ?thesis
      by (auto simp: CleanPrefix_def Let_def split: option.splits)
  qed
qed

lemma CleanPrefix_shape: "CleanPrefix p = Inr q \<Longrightarrow> q = [] \<or> suffix ''/'' q"
  by (auto simp: CleanPrefix_Inr)

lemma CleanPrefix_idem: "CleanPrefix p = Inr q \<Longrightarrow> CleanPrefix q = Inr q"
  by (auto simp: CleanPrefix_Inr)

lemma CleanFolder_Inr:
  "CleanFolder p = Inr q \<longleftrightarrow> q = TrimSuffix p ''/'' @ ''/'' \<and> prefix_stem (TrimSuffix p ''/'')"
proof -
  have "CleanFolder p = Inr q \<longleftrightarrow> CleanPrefix p = Inr q \<and> q \<noteq> []"
    by (auto simp: CleanFolder_def split: sum.splits if_splits)
  then show ?thesis
    by (auto simp: CleanPrefix_Inr)
qed

lemma EffectiveLimit_bounds: "1 \<le> EffectiveLimit opts \<and> EffectiveLimit opts \<le> MaxListLimit"
  by (auto simp: EffectiveLimit_def DefaultListLimit_def MaxListLimit_def)

end
