(* ===== verification/Flat_Store.thy ===== *)
theory Flat_Store
  imports Backend_Core
begin

text \<open>
  \<^verbatim>\<open>internal/backend/flatstore.go\<close>: folder delete and object/folder moves, built once for the
  flat-key object stores over the four calls of the \<^verbatim>\<open>FlatStore\<close> interface.  The paging loop
  of \<^verbatim>\<open>keysUnder\<close> stops only when the service stops handing out cursors, so it is a
  partial function into \<^typ>\<open>'a option\<close>; \<^const>\<open>None\<close> is "does not return".
\<close>

section \<open>The interface and the operations over it\<close>

record 's flat_ops =
  foList :: "list_options \<Rightarrow> 's \<Rightarrow> (berr + list_result) \<times> 's"
  foCopyKey :: "string \<Rightarrow> string \<Rightarrow> 's \<Rightarrow> berr option \<times> 's"
  foDeleteKey :: "string \<Rightarrow> 's \<Rightarrow> berr option \<times> 's"
  foKeyExists :: "string \<Rightarrow> 's \<Rightarrow> (berr + bool) \<times> 's"

definition maxFolderObjects :: nat where "maxFolderObjects = 100000"

definition keys_page :: "string \<Rightarrow> string \<Rightarrow> list_options" where
  "keys_page pre cursor =
     \<lparr>loPrefix = pre, loRecursive = True, loLimit = MaxListLimit, loCursor = cursor, loMarkers = True\<rparr>"

partial_function (option) keysUnder_loop ::
    "'s flat_ops \<Rightarrow> string \<Rightarrow> nat \<Rightarrow> string list \<Rightarrow> string \<Rightarrow> 's \<Rightarrow> ((berr + string list) \<times> 's) option"
where
  "keysUnder_loop ops pre limit keys cursor s =
     (case foList ops (keys_page pre cursor) s of
        (Inl e, s1) \<Rightarrow> Some (Inl e, s1)
      | (Inr res, s1) \<Rightarrow>
          (if length (keys @ map oiPath (lrEntries res)) > limit
           then Some (Inl (ErrOther ''too large''), s1)
           else if lrNextCursor res = [] then Some (Inr (keys @ map oiPath (lrEntries res)), s1)
           else keysUnder_loop ops pre limit (keys @ map oiPath (lrEntries res)) (lrNextCursor res) s1))"

definition keysUnder ::
    "'s flat_ops \<Rightarrow> string \<Rightarrow> nat \<Rightarrow> 's \<Rightarrow> ((berr + string list) \<times> 's) option" where
  "keysUnder ops pre limit s = keysUnder_loop ops pre limit [] [] s"

text \<open>The delete loop: the count of removed objects (placeholders not counted), and the first error.\<close>

fun delete_keys :: "'s flat_ops \<Rightarrow> string list \<Rightarrow> nat \<Rightarrow> 's \<Rightarrow> (nat \<times> berr option) \<times> 's" where
  "delete_keys ops [] removed s = ((removed, None), s)"
| "delete_keys ops (k # ks) removed s =
     (case foDeleteKey ops k s of
        (Some e, s1) \<Rightarrow> ((removed, Some e), s1)
      | (None, s1) \<Rightarrow> delete_keys ops ks (if HasSuffix k ''/'' then removed else Suc removed) s1)"

definition DeleteFolderFlat ::
    "'s flat_ops \<Rightarrow> string \<Rightarrow> 's \<Rightarrow> ((nat \<times> berr option) \<times> 's) option" where
  "DeleteFolderFlat ops folder s =
     (case keysUnder ops folder maxFolderObjects s of
        None \<Rightarrow> None
      | Some (Inl e, s1) \<Rightarrow> Some ((0, Some e), s1)
      | Some (Inr keys, s1) \<Rightarrow>
          if keys = [] then Some ((0, Some ErrNotFound), s1)
          else Some (delete_keys ops keys 0 s1))"

definition MoveObjectFlat :: "'s flat_ops \<Rightarrow> string \<Rightarrow> string \<Rightarrow> 's \<Rightarrow> berr option \<times> 's" where
  "MoveObjectFlat ops src dst s =
     (if src = dst then (None, s)
      else case foKeyExists ops src s of
             (Inl e, s1) \<Rightarrow> (Some e, s1)
           | (Inr False, s1) \<Rightarrow> (Some ErrNotFound, s1)
           | (Inr True, s1) \<Rightarrow>
               (case foKeyExists ops dst s1 of
                  (Inl e, s2) \<Rightarrow> (Some e, s2)
                | (Inr True, s2) \<Rightarrow> (Some ErrConflict, s2)
                | (Inr False, s2) \<Rightarrow>
                    (case foCopyKey ops src dst s2 of
                       (Some e, s3) \<Rightarrow> (Some e, s3)
                     | (None, s3) \<Rightarrow> foDeleteKey ops src s3)))"

text \<open>The three loops of a folder move: copy, roll back, remove the originals.\<close>

fun rollback :: "'s flat_ops \<Rightarrow> string list \<Rightarrow> 's \<Rightarrow> 's" where
  "rollback ops [] s = s"
| "rollback ops (k # ks) s = rollback ops ks (snd (foDeleteKey ops k s))"

fun copy_keys ::
    "'s flat_ops \<Rightarrow> string \<Rightarrow> string \<Rightarrow> string list \<Rightarrow> string list \<Rightarrow> 's \<Rightarrow> berr option \<times> 's" where
  "copy_keys ops src dst [] copied s = (None, s)"
| "copy_keys ops src dst (k # ks) copied s =
     (case foCopyKey ops k (dst @ TrimPrefix k src) s of
        (Some e, s1) \<Rightarrow> (Some e, rollback ops copied s1)
      | (None, s1) \<Rightarrow> copy_keys ops src dst ks (copied @ [dst @ TrimPrefix k src]) s1)"

fun remove_originals :: "'s flat_ops \<Rightarrow> string list \<Rightarrow> 's \<Rightarrow> berr option \<times> 's" where
  "remove_originals ops [] s = (None, s)"
| "remove_originals ops (k # ks) s =
     (case foDeleteKey ops k s of
        (Some e, s1) \<Rightarrow> (Some e, s1)
      | (None, s1) \<Rightarrow> remove_originals ops ks s1)"

definition probe_opts :: "string \<Rightarrow> list_options" where
  "probe_opts dst =
     \<lparr>loPrefix = dst, loRecursive = True, loLimit = 1, loCursor = [], loMarkers = True\<rparr>"

definition MoveFolderFlat ::
    "'s flat_ops \<Rightarrow> string \<Rightarrow> string \<Rightarrow> 's \<Rightarrow> (berr option \<times> 's) option" where
  "MoveFolderFlat ops src dst s =
     (if src = dst then Some (None, s)
      else if HasPrefix dst src then Some (Some ErrInvalidPath, s)
      else case keysUnder ops src maxFolderObjects s of
             None \<Rightarrow> None
           | Some (Inl e, s1) \<Rightarrow> Some (Some e, s1)
           | Some (Inr keys, s1) \<Rightarrow>
               if keys = [] then Some (Some ErrNotFound, s1)
               else Some
                 (case foList ops (probe_opts dst) s1 of
                    (Inl e, s2) \<Rightarrow> (Some e, s2)
                  | (Inr probe, s2) \<Rightarrow>
                      if lrEntries probe \<noteq> [] then (Some ErrConflict, s2)
                      else case copy_keys ops src dst keys [] s2 of
                             (Some e, s3) \<Rightarrow> (Some e, s3)
                           | (None, s3) \<Rightarrow> remove_originals ops keys s3))"

subsection \<open>For evaluation\<close>

text \<open>
  The loop by turns, where a turn goes on only once its page is known, and with the limit
  compared as an integer.
\<close>

definition keys_loop :: "'s flat_ops \<Rightarrow> string \<Rightarrow> string list \<Rightarrow> string \<Rightarrow> 's \<Rightarrow> ((berr + string list) \<times> 's) option" where
  "keys_loop ops pre keys cursor s = keysUnder_loop ops pre maxFolderObjects keys cursor s"

definition keys_next :: "'s flat_ops \<Rightarrow> string \<Rightarrow> string list \<Rightarrow> string \<Rightarrow> 's \<Rightarrow> ((berr + string list) \<times> 's) option" where
  "keys_next ops pre keys cursor s = (if cursor = [] then Some (Inr keys, s) else keys_loop ops pre keys cursor s)"

definition keys_turn ::
    "'s flat_ops \<Rightarrow> string \<Rightarrow> string list \<Rightarrow> (berr + list_result) \<times> 's \<Rightarrow> ((berr + string list) \<times> 's) option" where
  "keys_turn ops pre keys page =
     (case page of
        (Inl e, s1) \<Rightarrow> Some (Inl e, s1)
      | (Inr res, s1) \<Rightarrow>
          (if 100000 < int (length (keys @ map oiPath (lrEntries res))) then Some (Inl (ErrOther ''too large''), s1)
           else keys_next ops pre (keys @ map oiPath (lrEntries res)) (lrNextCursor res) s1))"

lemma keys_loop_code [code]:
  "keys_loop ops pre keys cursor s = keys_turn ops pre keys (foList ops (keys_page pre cursor) s)"
  "keys_turn ops pre keys (Inl e, s1) = Some (Inl e, s1)"
  "keys_turn ops pre keys (Inr res, s1) =
     (if 100000 < int (length (keys @ map oiPath (lrEntries res))) then Some (Inl (ErrOther ''too large''), s1)
      else keys_next ops pre (keys @ map oiPath (lrEntries res)) (lrNextCursor res) s1)"
  "keys_next ops pre keys [] s = Some (Inr keys, s)"
  "keys_next ops pre keys (c # cs) s = keys_loop ops pre keys (c # cs) s"
  by (simp_all add: keys_loop_def keysUnder_loop.simps [of ops pre] keys_turn_def keys_next_def maxFolderObjects_def
      split: prod.splits sum.splits)

lemma folder_operations_code [code]:
  "DeleteFolderFlat ops folder s =
     (case keys_loop ops folder [] [] s of
        None \<Rightarrow> None
      | Some (Inl e, s1) \<Rightarrow> Some ((0, Some e), s1)
      | Some (Inr keys, s1) \<Rightarrow>
          if keys = [] then Some ((0, Some ErrNotFound), s1)
          else Some (delete_keys ops keys 0 s1))"
  "MoveFolderFlat ops src dst s =
     (if src = dst then Some (None, s)
      else if HasPrefix dst src then Some (Some ErrInvalidPath, s)
      else case keys_loop ops src [] [] s of
             None \<Rightarrow> None
           | Some (Inl e, s1) \<Rightarrow> Some (Some e, s1)
           | Some (Inr keys, s1) \<Rightarrow>
               if keys = [] then Some (Some ErrNotFound, s1)
               else Some
                 (case foList ops (probe_opts dst) s1 of
                    (Inl e, s2) \<Rightarrow> (Some e, s2)
                  | (Inr probe, s2) \<Rightarrow>
                      if lrEntries probe \<noteq> [] then (Some ErrConflict, s2)
                      else case copy_keys ops src dst keys [] s2 of
                             (Some e, s3) \<Rightarrow> (Some e, s3)
                           | (None, s3) \<Rightarrow> remove_originals ops keys s3))"
  by (simp_all add: DeleteFolderFlat_def MoveFolderFlat_def keysUnder_def keys_loop_def)

lemma not_in_prefix_image: "\<not> prefix p x \<Longrightarrow> x \<notin> (\<lambda>k. p @ f k) ` A"
  by (auto simp: prefix_def)

section \<open>State predicates every call keeps\<close>

text \<open>
  Whatever the four calls keep, the folder operations keep.  No contract is needed: this is
  how confinement to a key prefix is carried from the calls to the folder operations.
\<close>

definition ops_keep :: "'s flat_ops \<Rightarrow> ('s \<Rightarrow> bool) \<Rightarrow> bool" where
  "ops_keep ops P \<longleftrightarrow>
     (\<forall>s. P s \<longrightarrow>
        (\<forall>opts. P (snd (foList ops opts s))) \<and> (\<forall>a b. P (snd (foCopyKey ops a b s))) \<and>
        (\<forall>a. P (snd (foDeleteKey ops a s))) \<and> (\<forall>a. P (snd (foKeyExists ops a s))))"

lemma ops_keep_calls:
  assumes "ops_keep ops P" "P s"
  shows "foList ops opts s = (r1, s') \<Longrightarrow> P s'" "foCopyKey ops a b s = (r2, s') \<Longrightarrow> P s'"
    "foDeleteKey ops a s = (r2, s') \<Longrightarrow> P s'" "foKeyExists ops a s = (r4, s') \<Longrightarrow> P s'"
  using assms by (metis ops_keep_def snd_conv)+

lemma keysUnder_loop_keep:
  assumes "keysUnder_loop ops pre limit keys cursor s = Some (r, s')" "ops_keep ops P" "P s"
  shows "P s'"
proof -
  have "ops_keep ops P \<longrightarrow> P s \<longrightarrow> P (snd (r, s'))"
  proof (rule keysUnder_loop.raw_induct [where P = "\<lambda>ops pre limit keys cursor s out.
        ops_keep ops P \<longrightarrow> P s \<longrightarrow> P (snd out)", OF _ assms(1)], goal_cases)
    case (1 loop ops pre limit keys cursor s out)
    then show ?case
      by (cases out) (fastforce split: prod.splits sum.splits if_splits dest: ops_keep_calls(1))
  qed
  with assms show ?thesis by simp
qed

lemma delete_keys_keep: "ops_keep ops P \<Longrightarrow> P s \<Longrightarrow> P (snd (delete_keys ops ks n s))"
  by (induction ks arbitrary: n s)
    (auto split: prod.splits option.splits dest: ops_keep_calls(3))

lemma rollback_keep: "ops_keep ops P \<Longrightarrow> P s \<Longrightarrow> P (rollback ops ks s)"
  by (induction ks arbitrary: s) (auto dest: ops_keep_calls(3) simp: ops_keep_def)

lemma copy_keys_keep: "ops_keep ops P \<Longrightarrow> P s \<Longrightarrow> P (snd (copy_keys ops src dst ks copied s))"
  by (induction ks arbitrary: copied s)
    (auto split: prod.splits option.splits intro: rollback_keep dest: ops_keep_calls(2))

lemma remove_originals_keep: "ops_keep ops P \<Longrightarrow> P s \<Longrightarrow> P (snd (remove_originals ops ks s))"
  by (induction ks arbitrary: s)
    (auto split: prod.splits option.splits dest: ops_keep_calls(3))

lemma keysUnder_keep:
  "keysUnder ops pre limit s = Some (r, s') \<Longrightarrow> ops_keep ops P \<Longrightarrow> P s \<Longrightarrow> P s'"
  unfolding keysUnder_def by (rule keysUnder_loop_keep)

lemma DeleteFolderFlat_keep:
  assumes "DeleteFolderFlat ops f s = Some (r, s')" "ops_keep ops P" "P s"
  shows "P s'"
proof -
  from assms(1) obtain q s1 where u: "keysUnder ops f maxFolderObjects s = Some (q, s1)"
    by (auto simp: DeleteFolderFlat_def split: option.splits)
  with assms keysUnder_keep [OF u, of P] delete_keys_keep [of ops P s1 "projr q" 0] show ?thesis
    by (cases q) (auto simp: DeleteFolderFlat_def split: if_splits)
qed

lemma MoveFolderFlat_keep:
  assumes "MoveFolderFlat ops src dst s = Some (r, s')" "ops_keep ops P" "P s"
  shows "P s'"
proof (cases "src = dst \<or> prefix src dst")
  case True
  with assms show ?thesis by (auto simp: MoveFolderFlat_def split: if_splits)
next
  case False
  from assms(1) False obtain q s1 where u: "keysUnder ops src maxFolderObjects s = Some (q, s1)"
    by (auto simp: MoveFolderFlat_def split: option.splits)
  obtain p s2 where l: "foList ops (probe_opts dst) s1 = (p, s2)"
    by (cases "foList ops (probe_opts dst) s1")
  obtain c s3 where cp: "copy_keys ops src dst (projr q) [] s2 = (c, s3)"
    by (cases "copy_keys ops src dst (projr q) [] s2")
  have P1: "P s1" using keysUnder_keep [OF u] assms by blast
  have P2: "P s2" using ops_keep_calls(1) [OF assms(2) P1 l] .
  have P3: "P s3" using copy_keys_keep [OF assms(2) P2, of src dst "projr q" "[]"] cp by simp
  show ?thesis
    using assms(1) False u l cp P1 P2 P3 remove_originals_keep [OF assms(2) P3, of "projr q"]
    by (auto simp: MoveFolderFlat_def split: sum.splits if_splits option.splits)
qed

lemma MoveObjectFlat_keep:
  assumes keep: "ops_keep ops P" and "P s"
  shows "P (snd (MoveObjectFlat ops src dst s))"
proof -
  obtain q1 s1 where e1: "foKeyExists ops src s = (q1, s1)" by (cases "foKeyExists ops src s")
  obtain q2 s2 where e2: "foKeyExists ops dst s1 = (q2, s2)" by (cases "foKeyExists ops dst s1")
  obtain c s3 where cp: "foCopyKey ops src dst s2 = (c, s3)" by (cases "foCopyKey ops src dst s2")
  obtain d s4 where dl: "foDeleteKey ops src s3 = (d, s4)" by (cases "foDeleteKey ops src s3")
  have "P s1" using ops_keep_calls(4) [OF assms e1] .
  moreover from this have "P s2" using ops_keep_calls(4) [OF keep _ e2] by simp
  moreover from this have "P s3" using ops_keep_calls(2) [OF keep _ cp] by simp
  moreover from this have "P s4" using ops_keep_calls(3) [OF keep _ dl] by simp
  ultimately show ?thesis using e1 e2 cp dl assms(2)
    by (auto simp: MoveObjectFlat_def split: sum.splits bool.splits option.splits)
qed

section \<open>The contract of a flat-key store\<close>

text \<open>
  What the folder operations rely on.  \<open>view s k\<close> is the object stored under key \<open>k\<close>;
  \<open>pending s p c\<close> the keys under prefix \<open>p\<close> that a recursive listing still has to deliver from
  cursor \<open>c\<close> (the empty cursor starts it), and \<open>fuel\<close> a bound on its remaining pages.
  Every call may fail.  A failed read changes nothing; a failed copy may have
  touched its destination only, and a failed delete its own key only.
\<close>

text \<open>The keys after a rename of one prefix to another, as the user sees it.\<close>

definition moved_view :: "string \<Rightarrow> string \<Rightarrow> (string \<Rightarrow> 'o option) \<Rightarrow> string \<Rightarrow> 'o option" where
  "moved_view src dst v k =
     (if prefix dst k then v (src @ drop (length dst) k)
      else if prefix src k then None
      else v k)"

text \<open>The prefixes the folder operations list: those \<^verbatim>\<open>CleanPrefix\<close> leaves as they are.\<close>

definition clean_prefix :: "string \<Rightarrow> bool" where
  "clean_prefix p \<longleftrightarrow> CleanPrefix p = Inr p"

lemma CleanFolder_clean: "CleanFolder p = Inr q \<Longrightarrow> clean_prefix q"
  by (auto simp: clean_prefix_def CleanFolder_def dest: CleanPrefix_idem split: sum.splits if_splits)

locale paged_store =
  fixes ops :: "'s flat_ops"
    and view :: "'s \<Rightarrow> string \<Rightarrow> 'o option"
    and pending :: "'s \<Rightarrow> string \<Rightarrow> string \<Rightarrow> string list"
    and fuel :: "'s \<Rightarrow> string \<Rightarrow> string \<Rightarrow> nat"
  assumes pending_set: "clean_prefix p \<Longrightarrow> set (pending s p []) = {k. prefix p k \<and> view s k \<noteq> None}"
    and pending_distinct: "clean_prefix p \<Longrightarrow> distinct (pending s p [])"
    and pending_view: "view s' = view s \<Longrightarrow> pending s' = pending s"
    and list_view: "foList ops opts s = (r, s') \<Longrightarrow> view s' = view s"
    and list_page: "clean_prefix (loPrefix opts) \<Longrightarrow> loRecursive opts \<Longrightarrow> loMarkers opts \<Longrightarrow> foList ops opts s = (Inr res, s') \<Longrightarrow>
        pending s (loPrefix opts) (loCursor opts) =
          map oiPath (lrEntries res) @
          (if lrNextCursor res = [] then [] else pending s (loPrefix opts) (lrNextCursor res))"
    and list_progress: "clean_prefix (loPrefix opts) \<Longrightarrow> loRecursive opts \<Longrightarrow> loMarkers opts \<Longrightarrow> foList ops opts s = (Inr res, s') \<Longrightarrow>
        lrNextCursor res \<noteq> [] \<Longrightarrow>
        fuel s' (loPrefix opts) (lrNextCursor res) < fuel s (loPrefix opts) (loCursor opts)"
    and copy_ok: "foCopyKey ops a b s = (None, s') \<Longrightarrow> view s a \<noteq> None \<and> view s' = (view s)(b := view s a)"
    and copy_fail: "foCopyKey ops a b s = (Some e, s') \<Longrightarrow> k \<noteq> b \<Longrightarrow> view s' k = view s k"
    and delete_ok: "foDeleteKey ops a s = (None, s') \<Longrightarrow> view s' = (view s)(a := None)"
    and delete_fail: "foDeleteKey ops a s = (Some e, s') \<Longrightarrow> k \<noteq> a \<Longrightarrow> view s' k = view s k"
    and exists_ok: "foKeyExists ops a s = (Inr found, s') \<Longrightarrow> found \<longleftrightarrow> view s a \<noteq> None"
    and exists_view: "foKeyExists ops a s = (q, s') \<Longrightarrow> view s' = view s"
begin

lemma delete_other: "k \<noteq> a \<Longrightarrow> view (snd (foDeleteKey ops a s)) k = view s k"
  by (cases "foDeleteKey ops a s"; cases "fst (foDeleteKey ops a s)")
    (auto dest: delete_ok delete_fail)

subsection \<open>Listing every key under a prefix\<close>

lemma keysUnder_loop_returns:
  "clean_prefix pre \<Longrightarrow> \<exists>r s'. keysUnder_loop ops pre limit keys cursor s = Some (r, s')"
proof (induction "fuel s pre cursor" arbitrary: keys cursor s rule: less_induct)
  case less
  show ?case
  proof (cases "foList ops (keys_page pre cursor) s")
    case (Pair r s1)
    show ?thesis
    proof (cases r)
      case (Inl e)
      with Pair show ?thesis by (simp add: keysUnder_loop.simps)
    next
      case (Inr res)
      with Pair less.prems list_progress [of "keys_page pre cursor" s res s1]
      have "lrNextCursor res \<noteq> [] \<Longrightarrow> fuel s1 pre (lrNextCursor res) < fuel s pre cursor"
        by (simp add: keys_page_def)
      with less Inr Pair show ?thesis
        by (subst keysUnder_loop.simps) simp
    qed
  qed
qed

lemma keysUnder_loop_result:
  "clean_prefix pre \<Longrightarrow> keysUnder_loop ops pre limit keys cursor s = Some (r, s') \<Longrightarrow>
     view s' = view s \<and> (\<forall>ks. r = Inr ks \<longrightarrow> ks = keys @ pending s pre cursor)"
proof (induction "fuel s pre cursor" arbitrary: keys cursor s rule: less_induct)
  case less
  obtain q s1 where call: "foList ops (keys_page pre cursor) s = (q, s1)"
    by (cases "foList ops (keys_page pre cursor) s")
  have v1: "view s1 = view s" using list_view [OF call] .
  show ?case
  proof (cases q)
    case (Inl e)
    with less.prems call v1 show ?thesis by (auto simp: keysUnder_loop.simps)
  next
    case (Inr res)
    note page = list_page [of "keys_page pre cursor" s res s1]
    show ?thesis
    proof (cases "length (keys @ map oiPath (lrEntries res)) > limit \<or> lrNextCursor res = []")
      case True
      with less.prems call v1 Inr page show ?thesis
        by (auto simp: keysUnder_loop.simps keys_page_def split: if_splits)
    next
      case False
      with less.prems call Inr
      have rec: "keysUnder_loop ops pre limit (keys @ map oiPath (lrEntries res)) (lrNextCursor res) s1
          = Some (r, s')"
        by (simp add: keysUnder_loop.simps)
      have "fuel s1 pre (lrNextCursor res) < fuel s pre cursor"
        using False call Inr less.prems(1) list_progress [of "keys_page pre cursor" s res s1]
        by (simp add: keys_page_def)
      from less.hyps [OF this less.prems(1) rec] page less.prems(1) False call Inr v1 pending_view [OF v1] show ?thesis
        by (auto simp: keys_page_def)
    qed
  qed
qed

lemma keysUnder_returns: "clean_prefix pre \<Longrightarrow> \<exists>r s'. keysUnder ops pre limit s = Some (r, s')"
  using keysUnder_loop_returns by (simp add: keysUnder_def)

lemma keysUnder_view: "clean_prefix pre \<Longrightarrow> keysUnder ops pre limit s = Some (r, s') \<Longrightarrow> view s' = view s"
  using keysUnder_loop_result by (simp add: keysUnder_def)

lemma keysUnder_Inr:
  "clean_prefix pre \<Longrightarrow> keysUnder ops pre limit s = Some (Inr ks, s') \<Longrightarrow>
     distinct ks \<and> set ks = {k. prefix pre k \<and> view s k \<noteq> None}"
  using keysUnder_loop_result [of pre limit "[]" "[]" s "Inr ks" s'] pending_set pending_distinct
  by (simp add: keysUnder_def)

subsection \<open>Deleting a list of keys\<close>

lemma delete_keys_frame: "k \<notin> set ks \<Longrightarrow> view (snd (delete_keys ops ks n s)) k = view s k"
proof (induction ks arbitrary: n s)
  case (Cons a ks)
  then show ?case
    by (auto split: prod.splits option.splits dest: delete_ok delete_fail)
qed simp

lemma delete_keys_ok:
  "delete_keys ops ks n s = ((m, None), s') \<Longrightarrow>
     view s' = (\<lambda>k. if k \<in> set ks then None else view s k) \<and>
     m = n + length (filter (\<lambda>k. \<not> suffix ''/'' k) ks)"
proof (induction ks arbitrary: n s)
  case (Cons a ks)
  then obtain s1 where "foDeleteKey ops a s = (None, s1)"
    and "delete_keys ops ks (if HasSuffix a ''/'' then n else Suc n) s1 = ((m, None), s')"
    by (auto split: prod.splits option.splits)
  with Cons.IH [OF this(2)] show ?case
    by (auto dest!: delete_ok simp: fun_eq_iff)
qed simp

lemma delete_keys_error:
  "delete_keys ops ks n s = ((m, Some e), s') \<Longrightarrow>
     \<exists>done k rest. ks = done @ k # rest \<and> m = n + length (filter (\<lambda>k. \<not> suffix ''/'' k) done)"
proof (induction ks arbitrary: n s)
  case (Cons a ks)
  show ?case
  proof (cases "fst (foDeleteKey ops a s)")
    case None
    with Cons.prems obtain s1 where
      "delete_keys ops ks (if HasSuffix a ''/'' then n else Suc n) s1 = ((m, Some e), s')"
      by (auto split: prod.splits)
    then obtain dn k rest where "ks = dn @ k # rest"
      "m = (if HasSuffix a ''/'' then n else Suc n) + length (filter (\<lambda>k. \<not> suffix ''/'' k) dn)"
      using Cons.IH by blast
    then show ?thesis by (intro exI [of _ "a # dn"]) auto
  next
    case (Some e')
    with Cons.prems have "m = n" by (auto split: prod.splits)
    then show ?thesis by (intro exI [of _ "[]"] exI [of _ a] exI [of _ ks]) simp
  qed
qed simp

lemma remove_originals_frame: "k \<notin> set ks \<Longrightarrow> view (snd (remove_originals ops ks s)) k = view s k"
proof (induction ks arbitrary: s)
  case (Cons a ks)
  then show ?case
    by (auto split: prod.splits option.splits dest: delete_ok delete_fail)
qed simp

lemma remove_originals_ok:
  "remove_originals ops ks s = (None, s') \<Longrightarrow> view s' = (\<lambda>k. if k \<in> set ks then None else view s k)"
proof (induction ks arbitrary: s)
  case (Cons a ks)
  then obtain s1 where "foDeleteKey ops a s = (None, s1)" "remove_originals ops ks s1 = (None, s')"
    by (auto split: prod.splits option.splits)
  with Cons.IH [OF this(2)] show ?case
    by (auto dest!: delete_ok simp: fun_eq_iff)
qed simp

subsection \<open>Copying a list of keys\<close>

lemma rollback_frame: "k \<notin> set ks \<Longrightarrow> view (rollback ops ks s) k = view s k"
  by (induction ks arbitrary: s) (auto simp: delete_other)

lemma copy_keys_frame:
  "x \<notin> set copied \<Longrightarrow> x \<notin> (\<lambda>k. dst @ TrimPrefix k src) ` set ks \<Longrightarrow>
     view (snd (copy_keys ops src dst ks copied s)) x = view s x"
proof (induction ks arbitrary: copied s)
  case (Cons a ks)
  show ?case
  proof (cases "foCopyKey ops a (dst @ TrimPrefix a src) s")
    case (Pair r s1)
    show ?thesis
    proof (cases r)
      case None
      with Pair Cons show ?thesis by (auto dest!: copy_ok)
    next
      case (Some e)
      with Pair Cons.prems show ?thesis by (auto simp: rollback_frame dest: copy_fail)
    qed
  qed
qed simp

lemma copy_keys_ok_frame:
  "copy_keys ops src dst ks copied s = (None, s') \<Longrightarrow>
     x \<notin> (\<lambda>k. dst @ TrimPrefix k src) ` set ks \<Longrightarrow> view s' x = view s x"
proof (induction ks arbitrary: copied s)
  case (Cons a ks)
  then show ?case
    by (auto split: prod.splits option.splits dest!: copy_ok)
qed simp

lemma copy_keys_ok:
  assumes "copy_keys ops src dst ks copied s = (None, s')"
    and "\<forall>k \<in> set ks. prefix src k" and "\<forall>k \<in> set ks. \<not> prefix dst k" and "k \<in> set ks"
  shows "view s' (dst @ TrimPrefix k src) = view s k"
  using assms
proof (induction ks arbitrary: copied s)
  case (Cons a ks)
  then obtain s1 where call: "foCopyKey ops a (dst @ TrimPrefix a src) s = (None, s1)"
    and rest: "copy_keys ops src dst ks (copied @ [dst @ TrimPrefix a src]) s1 = (None, s')"
    by (auto split: prod.splits option.splits)
  have v1: "view s1 = (view s)(dst @ TrimPrefix a src := view s a)"
    using copy_ok [OF call] by simp
  show ?case
  proof (cases "k \<in> set ks")
    case True
    moreover have "k \<noteq> dst @ TrimPrefix a src"
      using Cons.prems(3,4) by (metis prefixI)
    ultimately show ?thesis
      using Cons.IH [OF rest] Cons.prems v1 by simp
  next
    case False
    then have "k = a" using Cons.prems by simp
    moreover have "dst @ TrimPrefix a src \<notin> (\<lambda>k. dst @ TrimPrefix k src) ` set ks"
      using False Cons.prems(2) \<open>k = a\<close>
      by (auto simp: TrimPrefix_def prefix_def)
    ultimately show ?thesis
      using copy_keys_ok_frame [OF rest] v1 by simp
  qed
qed simp

subsection \<open>Folder deletion and moves\<close>

lemma DeleteFolderFlat_returns: "clean_prefix f \<Longrightarrow> \<exists>r s'. DeleteFolderFlat ops f s = Some (r, s')"
proof -
  assume "clean_prefix f"
  then obtain r s1 where "keysUnder ops f maxFolderObjects s = Some (r, s1)"
    using keysUnder_returns by blast
  then show ?thesis
    by (cases r; cases "delete_keys ops (projr r) 0 s1") (auto simp: DeleteFolderFlat_def)
qed

lemma MoveFolderFlat_returns: "clean_prefix src \<Longrightarrow> \<exists>r s'. MoveFolderFlat ops src dst s = Some (r, s')"
proof -
  assume "clean_prefix src"
  then obtain r s1 where k: "keysUnder ops src maxFolderObjects s = Some (r, s1)"
    using keysUnder_returns by blast
  show ?thesis
  proof (cases r)
    case (Inr keys)
    with k show ?thesis
      by (simp add: MoveFolderFlat_def)
  qed (use k in \<open>simp add: MoveFolderFlat_def\<close>)
qed

lemma DeleteFolderFlat_ok:
  assumes cl: "clean_prefix f" and call: "DeleteFolderFlat ops f s = Some ((n, None), s')"
  shows "view s' = (\<lambda>k. if prefix f k then None else view s k) \<and>
    n = card {k. prefix f k \<and> view s k \<noteq> None \<and> \<not> suffix ''/'' k} \<and>
    (\<exists>k. prefix f k \<and> view s k \<noteq> None)"
proof -
  from assms obtain keys s1 where u: "keysUnder ops f maxFolderObjects s = Some (Inr keys, s1)"
    and "keys \<noteq> []" and d: "delete_keys ops keys 0 s1 = ((n, None), s')"
    by (auto simp: DeleteFolderFlat_def split: option.splits sum.splits if_splits)
  have ks: "distinct keys" "set keys = {k. prefix f k \<and> view s k \<noteq> None}"
    using keysUnder_Inr [OF cl u] by auto
  have "n = length (filter (\<lambda>k. \<not> suffix ''/'' k) keys)"
    using delete_keys_ok [OF d] by simp
  also have "\<dots> = card (set (filter (\<lambda>k. \<not> suffix ''/'' k) keys))"
    by (rule distinct_card [symmetric]) (simp add: ks)
  finally have "n = card {k. prefix f k \<and> view s k \<noteq> None \<and> \<not> suffix ''/'' k}"
    by (simp add: ks conj_assoc)
  moreover have "view s' = (\<lambda>k. if prefix f k then None else view s k)"
    using delete_keys_ok [OF d] keysUnder_view [OF cl u] ks by (auto simp: fun_eq_iff)
  moreover have "\<exists>k. prefix f k \<and> view s k \<noteq> None"
    using \<open>keys \<noteq> []\<close> ks(2) by (metis (mono_tags, lifting) list.set_sel(1) mem_Collect_eq)
  ultimately show ?thesis by blast
qed

lemma DeleteFolderFlat_frame:
  assumes cl: "clean_prefix f" and call: "DeleteFolderFlat ops f s = Some (r, s')" and "\<not> prefix f k"
  shows "view s' k = view s k"
proof -
  from call obtain q s1 where u: "keysUnder ops f maxFolderObjects s = Some (q, s1)"
    by (auto simp: DeleteFolderFlat_def split: option.splits)
  note v = keysUnder_view [OF cl u]
  show ?thesis
  proof (cases q)
    case (Inr keys)
    then have "k \<notin> set keys" using keysUnder_Inr [of f _ s keys s1] u cl assms(3) by auto
    with call u v Inr delete_keys_frame [of k keys 0 s1] show ?thesis
      by (auto simp: DeleteFolderFlat_def split: if_splits)
  qed (use call u v in \<open>simp add: DeleteFolderFlat_def\<close>)
qed

text \<open>
  A folder move that returns either stopped before its first copy, with every object in
  place, or copied a complete listing of the source to an empty destination.
\<close>

subsection \<open>Moving one object\<close>

lemma MoveObjectFlat_cases:
  assumes "MoveObjectFlat ops src dst s = (r, s')" and ne: "src \<noteq> dst"
  obtains e where "r = Some e" "view s' = view s"
  | s2 c s3 where "view s2 = view s" "view s src \<noteq> None" "view s dst = None"
    "foCopyKey ops src dst s2 = (c, s3)" "c \<noteq> None \<Longrightarrow> r = c \<and> s' = s3"
    "c = None \<Longrightarrow> foDeleteKey ops src s3 = (r, s')"
proof -
  obtain q1 s1 where e1: "foKeyExists ops src s = (q1, s1)" by (cases "foKeyExists ops src s")
  obtain q2 s2 where e2: "foKeyExists ops dst s1 = (q2, s2)" by (cases "foKeyExists ops dst s1")
  obtain c s3 where cp: "foCopyKey ops src dst s2 = (c, s3)" by (cases "foCopyKey ops src dst s2")
  note v = exists_view [OF e1] exists_view [OF e2]
  show ?thesis
  proof (cases "q1 = Inr True \<and> q2 = Inr False")
    case True
    show ?thesis
    proof (rule that(2) [OF _ _ _ cp])
      show "view s2 = view s" using v by simp
      show "view s src \<noteq> None" using exists_ok [of src s True s1] e1 True by simp
      show "view s dst = None" using exists_ok [of dst s1 False s2] e2 True v by simp
      show "c \<noteq> None \<Longrightarrow> r = c \<and> s' = s3" "c = None \<Longrightarrow> foDeleteKey ops src s3 = (r, s')"
        using assms e1 e2 cp True by (auto simp: MoveObjectFlat_def)
    qed
  next
    case False
    have "(\<exists>e. r = Some e) \<and> view s' = view s"
    proof (cases "q1 = Inr True")
      case True
      with False assms e1 e2 v show ?thesis
        by (cases q2) (auto simp: MoveObjectFlat_def split: bool.splits)
    next
      case False
      with assms e1 v show ?thesis
        by (cases q1) (auto simp: MoveObjectFlat_def split: bool.splits)
    qed
    then show ?thesis using that(1) by blast
  qed
qed

lemma MoveObjectFlat_ok:
  assumes "MoveObjectFlat ops src dst s = (None, s')" and "src \<noteq> dst"
  shows "view s src \<noteq> None \<and> view s dst = None \<and> view s' = (view s)(dst := view s src, src := None)"
  using assms
proof (rule MoveObjectFlat_cases)
  fix s2 c s3
  assume h: "view s2 = view s" "view s src \<noteq> None" "view s dst = None"
    "foCopyKey ops src dst s2 = (c, s3)" "c \<noteq> None \<Longrightarrow> None = c \<and> s' = s3"
    "c = None \<Longrightarrow> foDeleteKey ops src s3 = (None, s')"
  then have "c = None" by (cases c) auto
  with h copy_ok [of src dst s2 s3] delete_ok [of src s3 s'] show ?thesis by simp
qed auto

lemma MoveObjectFlat_keeps:
  assumes "MoveObjectFlat ops src dst s = (r, s')" and obj: "view s k = Some obj"
  shows "view s' k = Some obj \<or> k = src \<and> view s' dst = Some obj"
proof (cases "src = dst")
  case True
  with assms show ?thesis by (simp add: MoveObjectFlat_def)
next
  case False
  from assms(1) False show ?thesis
  proof (rule MoveObjectFlat_cases)
    fix s2 c s3
    assume h: "view s2 = view s" "view s src \<noteq> None" "view s dst = None"
      "foCopyKey ops src dst s2 = (c, s3)" "c \<noteq> None \<Longrightarrow> r = c \<and> s' = s3"
      "c = None \<Longrightarrow> foDeleteKey ops src s3 = (r, s')"
    show ?thesis
    proof (cases c)
      case None
      with h obj copy_ok [of src dst s2 s3] delete_other [of _ src s3] False show ?thesis
        by (cases "k = src") auto
    next
      case (Some e)
      with h obj have "k \<noteq> dst" by auto
      with Some h obj copy_fail [of src dst s2 e s3 k] show ?thesis by auto
    qed
  qed (use obj in simp)
qed

end

text \<open>
  The destination probe of a folder move looks at the first page of a listing only, so a move
  needs one promise more: that the first page is empty only when nothing matches.
\<close>

locale flat_store = paged_store +
  assumes list_first: "clean_prefix (loPrefix opts) \<Longrightarrow> loRecursive opts \<Longrightarrow> loMarkers opts \<Longrightarrow> loCursor opts = [] \<Longrightarrow>
      foList ops opts s = (Inr res, s') \<Longrightarrow> lrEntries res = [] \<Longrightarrow> pending s (loPrefix opts) [] = []"
begin

subsection \<open>Folder moves\<close>

lemma MoveFolderFlat_cases:
  assumes cl: "clean_prefix src" "clean_prefix dst" and call: "MoveFolderFlat ops src dst s = Some (r, s')" and "src \<noteq> dst"
  obtains e where "r = Some e" "view s' = view s"
  | keys s2 c s3 where "\<not> prefix src dst" "distinct keys" "keys \<noteq> []"
    "set keys = {k. prefix src k \<and> view s k \<noteq> None}" "\<forall>k. prefix dst k \<longrightarrow> view s k = None"
    "view s2 = view s" "copy_keys ops src dst keys [] s2 = (c, s3)"
    "c \<noteq> None \<Longrightarrow> r = c \<and> s' = s3" "c = None \<Longrightarrow> remove_originals ops keys s3 = (r, s')"
proof (cases "prefix src dst")
  case True
  with assms show ?thesis by (intro that(1)) (auto simp: MoveFolderFlat_def)
next
  case np: False
  from assms np obtain q s1 where u: "keysUnder ops src maxFolderObjects s = Some (q, s1)"
    by (auto simp: MoveFolderFlat_def split: option.splits)
  note v1 = keysUnder_view [OF cl(1) u]
  obtain p s2 where l: "foList ops (probe_opts dst) s1 = (p, s2)"
    by (cases "foList ops (probe_opts dst) s1")
  note v2 = list_view [OF l]
  show ?thesis
  proof (cases "\<exists>keys probe. q = Inr keys \<and> keys \<noteq> [] \<and> p = Inr probe \<and> lrEntries probe = []")
    case False
    with assms np u l v1 v2 have "(\<exists>e. r = Some e) \<and> view s' = view s"
      by (auto simp: MoveFolderFlat_def split: sum.splits if_splits)
    then show ?thesis using that(1) by blast
  next
    case True
    then obtain keys probe where q: "q = Inr keys" "keys \<noteq> []" "p = Inr probe" "lrEntries probe = []"
      by blast
    have "pending s1 dst [] = []"
      using list_first [of "probe_opts dst" s1 probe s2] l q cl by (simp add: probe_opts_def)
    then have empty: "\<forall>k. prefix dst k \<longrightarrow> view s k = None"
      using pending_set [of dst s1] v1 cl by auto
    obtain c s3 where cp: "copy_keys ops src dst keys [] s2 = (c, s3)"
      by (cases "copy_keys ops src dst keys [] s2")
    show ?thesis
    proof (rule that(2) [OF np _ q(2) _ empty _ cp])
      show "distinct keys" "set keys = {k. prefix src k \<and> view s k \<noteq> None}"
        using keysUnder_Inr [of src _ s keys s1] u q cl by auto
      show "view s2 = view s" using v1 v2 by simp
      show "c \<noteq> None \<Longrightarrow> r = c \<and> s' = s3" "c = None \<Longrightarrow> remove_originals ops keys s3 = (r, s')"
        using assms np u q l cp by (auto simp: MoveFolderFlat_def split: option.splits)
    qed
  qed
qed

lemma MoveFolderFlat_error:
  assumes cl: "clean_prefix src" "clean_prefix dst" and call: "MoveFolderFlat ops src dst s = Some (Some e, s')"
    and obj: "view s k = Some obj" and "prefix src k"
  shows "view s' k = Some obj \<or> view s' (dst @ TrimPrefix k src) = Some obj"
proof (cases "src = dst")
  case True
  with assms show ?thesis by (simp add: MoveFolderFlat_def)
next
  case False
  from cl call False show ?thesis
  proof (rule MoveFolderFlat_cases)
    fix e' assume "view s' = view s"
    with obj show ?thesis by simp
  next
    fix keys s2 c s3
    assume np: "\<not> prefix src dst" and ks: "set keys = {k. prefix src k \<and> view s k \<noteq> None}"
      and empty: "\<forall>k. prefix dst k \<longrightarrow> view s k = None" and v2: "view s2 = view s"
      and cp: "copy_keys ops src dst keys [] s2 = (c, s3)"
      and err: "c \<noteq> None \<Longrightarrow> Some e = c \<and> s' = s3"
      and rm: "c = None \<Longrightarrow> remove_originals ops keys s3 = (Some e, s')"
    have nt: "\<not> prefix dst x" if "x \<in> set keys" for x using that ks empty by auto
    have k: "k \<in> set keys" using ks obj \<open>prefix src k\<close> by simp
    have notdst: "x \<noteq> dst @ TrimPrefix y src" if "x \<in> set keys" for x y
      using nt [OF that] by (metis prefixI)
    show ?thesis
    proof (cases c)
      case (Some e')
      have "view (snd (copy_keys ops src dst keys [] s2)) k = view s2 k"
        by (rule copy_keys_frame) (use notdst k in auto)
      with Some err cp v2 obj show ?thesis by simp
    next
      case None
      have "view s3 (dst @ TrimPrefix k src) = view s2 k"
        using copy_keys_ok [OF cp [unfolded None]] ks k nt by auto
      moreover have "view s' (dst @ TrimPrefix k src) = view s3 (dst @ TrimPrefix k src)"
        using remove_originals_frame [of "dst @ TrimPrefix k src" keys s3] rm None nt
        by (metis prefixI snd_conv)
      ultimately show ?thesis using v2 obj by simp
    qed
  qed
qed

lemma MoveFolderFlat_ok:
  assumes cl: "clean_prefix src" "clean_prefix dst" and call: "MoveFolderFlat ops src dst s = Some (None, s')" and "src \<noteq> dst"
  shows "view s' = moved_view src dst (view s) \<and> (\<forall>k. prefix dst k \<longrightarrow> view s k = None) \<and>
    (\<exists>k. prefix src k \<and> view s k \<noteq> None)"
  using assms
proof (rule MoveFolderFlat_cases)
  fix keys s2 c s3
  assume np: "\<not> prefix src dst" and ne: "keys \<noteq> []" and ks: "set keys = {k. prefix src k \<and> view s k \<noteq> None}"
    and empty: "\<forall>k. prefix dst k \<longrightarrow> view s k = None" and v2: "view s2 = view s"
    and cp: "copy_keys ops src dst keys [] s2 = (c, s3)"
    and err: "c \<noteq> None \<Longrightarrow> None = c \<and> s' = s3"
    and rm: "c = None \<Longrightarrow> remove_originals ops keys s3 = (None, s')"
  have c: "c = None" using err by (cases c) auto
  have nt: "\<not> prefix dst x" if "x \<in> set keys" for x using that ks empty by auto
  have v': "view s' = (\<lambda>k. if k \<in> set keys then None else view s3 k)"
    using remove_originals_ok rm c by simp
  have "view s' x = moved_view src dst (view s) x" for x
  proof (cases "prefix dst x")
    case True
    then obtain r where r: "x = dst @ r" by (auto simp: prefix_def)
    have x: "x \<notin> set keys" using nt True by blast
    show ?thesis
    proof (cases "src @ r \<in> set keys")
      case True
      then have "view s3 (dst @ TrimPrefix (src @ r) src) = view s2 (src @ r)"
        using copy_keys_ok [OF cp [unfolded c], of "src @ r"] ks nt by blast
      with x r v' v2 show ?thesis by (simp add: moved_view_def)
    next
      case False
      then have "x \<notin> (\<lambda>k. dst @ TrimPrefix k src) ` set keys"
        using ks r by (auto dest: TrimPrefix_restore)
      with copy_keys_ok_frame [OF cp [unfolded c]] x v' v2 empty True
      have "view s' x = None" by simp
      with False ks r show ?thesis by (auto simp: moved_view_def)
    qed
  next
    case False
    have "view s3 x = view s2 x"
      by (rule copy_keys_ok_frame [OF cp [unfolded c]]) (rule not_in_prefix_image [OF False])
    with False v' v2 ks show ?thesis by (auto simp: moved_view_def)
  qed
  moreover have "hd keys \<in> {k. prefix src k \<and> view s k \<noteq> None}"
    using ne ks by (metis list.set_sel(1))
  ultimately show ?thesis using empty by blast
qed auto

lemma MoveFolderFlat_frame:
  assumes cl: "clean_prefix src" "clean_prefix dst" and call: "MoveFolderFlat ops src dst s = Some (r, s')" and "\<not> prefix src k" and "\<not> prefix dst k"
  shows "view s' k = view s k"
proof (cases "src = dst")
  case True
  with assms show ?thesis by (simp add: MoveFolderFlat_def)
next
  case False
  from cl call False show ?thesis
  proof (rule MoveFolderFlat_cases)
    fix keys s2 c s3
    assume ks: "set keys = {k. prefix src k \<and> view s k \<noteq> None}" and v2: "view s2 = view s"
      and cp: "copy_keys ops src dst keys [] s2 = (c, s3)"
      and err: "c \<noteq> None \<Longrightarrow> r = c \<and> s' = s3"
      and rm: "c = None \<Longrightarrow> remove_originals ops keys s3 = (r, s')"
    have "view s3 k = view s2 k"
      using copy_keys_frame [of k "[]" dst src keys s2, OF _ not_in_prefix_image [OF assms(5)]] cp
      by simp
    moreover have "view s' k = view s3 k"
      using remove_originals_frame [of k keys s3] err rm ks assms(4) by (cases c) auto
    ultimately show ?thesis using v2 by simp
  qed simp
qed

end

section \<open>A store that reports failures cleanly\<close>

text \<open>
  The stronger contract under which the roll-back of a folder move restores the store: a
  failed copy left no trace and deletes go through.
\<close>

locale reliable_flat_store = flat_store +
  assumes copy_clean: "foCopyKey ops a b s = (Some e, s') \<Longrightarrow> view s' = view s"
    and delete_succeeds: "fst (foDeleteKey ops a s) = None"
begin

lemma delete_view: "view (snd (foDeleteKey ops a s)) = (view s)(a := None)"
  using delete_succeeds [of a s] delete_ok [of a s "snd (foDeleteKey ops a s)"]
  by (metis prod.collapse)

lemma rollback_view: "view (rollback ops ks s) = (\<lambda>k. if k \<in> set ks then None else view s k)"
  by (induction ks arbitrary: s) (auto simp: delete_view fun_eq_iff)

lemma copy_keys_undone:
  assumes "copy_keys ops src dst ks copied s = (Some e, s')"
    and "\<And>x. x \<notin> set copied \<Longrightarrow> view s x = v x"
    and "\<And>x. x \<in> set copied \<Longrightarrow> v x = None" and "\<And>x. prefix dst x \<Longrightarrow> v x = None"
  shows "view s' = v"
  using assms
proof (induction ks arbitrary: copied s)
  case (Cons a ks)
  show ?case
  proof (cases "foCopyKey ops a (dst @ TrimPrefix a src) s")
    case (Pair c s1)
    show ?thesis
    proof (cases c)
      case None
      with Pair Cons.prems(1)
      have "copy_keys ops src dst ks (copied @ [dst @ TrimPrefix a src]) s1 = (Some e, s')" by simp
      moreover have "view s1 = (view s)(dst @ TrimPrefix a src := view s a)"
        using copy_ok [of a "dst @ TrimPrefix a src" s s1] Pair None by simp
      ultimately show ?thesis
        using Cons.prems(2-4) by (intro Cons.IH [of "copied @ [dst @ TrimPrefix a src]" s1]) auto
    next
      case (Some e')
      with Pair Cons.prems copy_clean [of a "dst @ TrimPrefix a src" s e' s1] show ?thesis
        by (auto simp: rollback_view fun_eq_iff)
    qed
  qed
qed simp

lemma remove_originals_total: "fst (remove_originals ops ks s) = None"
proof (induction ks arbitrary: s)
  case (Cons a ks)
  then show ?case
    using delete_succeeds [of a s] by (cases "foDeleteKey ops a s") auto
qed simp

lemma MoveFolderFlat_atomic:
  assumes cl: "clean_prefix src" "clean_prefix dst"
    and call: "MoveFolderFlat ops src dst s = Some (Some e, s')"
  shows "view s' = view s"
proof (cases "src = dst")
  case True
  with call show ?thesis by (simp add: MoveFolderFlat_def)
next
  case False
  from cl call False show ?thesis
  proof (rule MoveFolderFlat_cases)
    fix keys s2 c s3
    assume empty: "\<forall>k. prefix dst k \<longrightarrow> view s k = None" and v2: "view s2 = view s"
      and cp: "copy_keys ops src dst keys [] s2 = (c, s3)"
      and err: "c \<noteq> None \<Longrightarrow> Some e = c \<and> s' = s3"
      and rm: "c = None \<Longrightarrow> remove_originals ops keys s3 = (Some e, s')"
    have "c \<noteq> None" using rm remove_originals_total [of keys s3] by (cases c) auto
    then have "copy_keys ops src dst keys [] s2 = (Some e, s')" using err cp by simp
    then show ?thesis
      by (rule copy_keys_undone) (use v2 empty in auto)
  qed simp
qed

end

end
