(* ===== verification/Cloud_Store.thy ===== *)
theory Cloud_Store
  imports Flat_Store
begin

text \<open>
  What the three object-store kinds (\<^verbatim>\<open>s3\<close>, \<^verbatim>\<open>azure\<close>, \<^verbatim>\<open>gcs\<close>) share: keys under a prefix of one
  bucket or container, listed in pages, and the methods of the \<^verbatim>\<open>Backend\<close> interface over them.
  \<open>key_listing\<close> is the contract of a flat listing, \<open>cloud_store\<close> that of a kind's methods; its
  lemmas are proved once for all kinds.
\<close>

section \<open>A listing of full keys\<close>

text \<open>\<open>rest s p t\<close>: the keys under \<open>p\<close> a flat listing has still to deliver from token \<open>t\<close>.\<close>

locale key_listing =
  fixes objs :: "'s \<Rightarrow> string \<Rightarrow> 'o option" and rest :: "'s \<Rightarrow> string \<Rightarrow> string \<Rightarrow> string list"
  assumes rest_set: "set (rest s p []) = {k. prefix p k \<and> objs s k \<noteq> None}"
    and rest_distinct: "distinct (rest s p [])"
    and rest_objs: "(\<And>k. prefix p k \<Longrightarrow> objs s' k = objs s k) \<Longrightarrow> rest s' p = rest s p"
begin

text \<open>The same listing relative to the backend's own prefix.\<close>

definition below :: "string \<Rightarrow> 's \<Rightarrow> string \<Rightarrow> string \<Rightarrow> string list" where
  "below pre s p t = map (\<lambda>k. TrimPrefix k pre) (rest s (pre @ p) t)"

lemma below_set: "set (below pre s p []) = {k. prefix p k \<and> objs s (pre @ k) \<noteq> None}"
proof (rule set_eqI)
  fix x
  show "x \<in> set (below pre s p []) \<longleftrightarrow> x \<in> {k. prefix p k \<and> objs s (pre @ k) \<noteq> None}"
    using image_eqI [of x "\<lambda>k. TrimPrefix k pre" "pre @ x" "set (rest s (pre @ p) [])"]
    by (auto simp: below_def rest_set elim!: prefixE)
qed

lemma below_distinct: "distinct (below pre s p [])"
proof -
  have "inj_on (\<lambda>k. TrimPrefix k pre) (set (rest s (pre @ p) []))"
    by (rule inj_on_inverseI [where g = "\<lambda>r. pre @ r"]) (auto simp: rest_set TrimPrefix_restore prefix_def)
  then show ?thesis by (simp add: below_def distinct_map rest_distinct)
qed

lemma below_view: "(\<lambda>k. objs s' (pre @ k)) = (\<lambda>k. objs s (pre @ k)) \<Longrightarrow> below pre s' = below pre s"
proof (intro ext)
  fix p t assume v: "(\<lambda>k. objs s' (pre @ k)) = (\<lambda>k. objs s (pre @ k))"
  have "rest s' (pre @ p) = rest s (pre @ p)"
    by (rule rest_objs) (use v in \<open>auto simp: fun_eq_iff elim!: prefixE\<close>)
  then show "below pre s' p t = below pre s p t" by (simp add: below_def)
qed

end

section \<open>The methods over a key store\<close>

text \<open>The folder operations and the object move, as every kind composes them.\<close>

definition cloud_DeleteFolder :: "'s flat_ops \<Rightarrow> string \<Rightarrow> 's \<Rightarrow> ((nat \<times> berr option) \<times> 's) option" where
  "cloud_DeleteFolder ops path s =
     (case CleanFolder path of Inl e \<Rightarrow> Some ((0, Some e), s) | Inr folder \<Rightarrow> DeleteFolderFlat ops folder s)"

definition cloud_MoveObject :: "'s flat_ops \<Rightarrow> string \<Rightarrow> string \<Rightarrow> 's \<Rightarrow> berr option \<times> 's" where
  "cloud_MoveObject ops src dst s =
     (case CleanPath src of
        Inl e \<Rightarrow> (Some e, s)
      | Inr f \<Rightarrow> (case CleanPath dst of Inl e \<Rightarrow> (Some e, s) | Inr t \<Rightarrow> MoveObjectFlat ops f t s))"

definition cloud_MoveFolder :: "'s flat_ops \<Rightarrow> string \<Rightarrow> string \<Rightarrow> 's \<Rightarrow> (berr option \<times> 's) option" where
  "cloud_MoveFolder ops src dst s =
     (case CleanFolder src of
        Inl e \<Rightarrow> Some (Some e, s)
      | Inr f \<Rightarrow> (case CleanFolder dst of Inl e \<Rightarrow> Some (Some e, s) | Inr t \<Rightarrow> MoveFolderFlat ops f t s))"

text \<open>The states in which one call of a backend can leave the store.\<close>

inductive backend_step :: "'s backend \<Rightarrow> 's \<Rightarrow> 's \<Rightarrow> bool" for m where
  list: "backend_step m s (snd (bList m opts s))"
| read: "backend_step m s (snd (bRead m p s))"
| read_range: "backend_step m s (snd (bReadRange m p rg s))"
| stat: "backend_step m s (snd (bStat m p s))"
| upload: "backend_step m s (snd (bWrite m p r wo s))"
| mkdir: "backend_step m s (snd (bMkdir m p s))"
| delete_object: "backend_step m s (snd (bDeleteObject m p s))"
| delete_folder: "bDeleteFolder m p s = Some (r, s') \<Longrightarrow> backend_step m s s'"
| move_object: "backend_step m s (snd (bMoveObject m p q s))"
| move_folder: "bMoveFolder m p q s = Some (e, s') \<Longrightarrow> backend_step m s s'"
| check: "backend_step m s (snd (bCheck m s))"

text \<open>Nothing outside the prefix is other than in \<open>v\<close>.\<close>

definition kept_outside :: "string \<Rightarrow> ('s \<Rightarrow> string \<Rightarrow> 'o) \<Rightarrow> (string \<Rightarrow> 'o) \<Rightarrow> 's \<Rightarrow> bool" where
  "kept_outside pre objs v s \<longleftrightarrow> (\<forall>k. \<not> prefix pre k \<longrightarrow> objs s k = v k)"

locale cloud_store =
  F: paged_store ops "\<lambda>s k. objs s (pre @ k)" pending fuel
  for ops :: "'s flat_ops" and objs :: "'s \<Rightarrow> string \<Rightarrow> 'o option" and pre :: string and pending fuel
    and m :: "'s backend" +
  assumes quiet_calls: "objs (snd (bList m opts s)) = objs s" "objs (snd (bRead m p s)) = objs s"
      "objs (snd (bReadRange m p rg s)) = objs s" "objs (snd (bStat m p s)) = objs s" "objs (snd (bCheck m s)) = objs s"
      "objs (snd (foList ops opts s)) = objs s" "objs (snd (foKeyExists ops a s)) = objs s"
    and write_frame: "k \<noteq> pre @ p \<Longrightarrow> objs (snd (bWrite m p r wo s)) k = objs s k"
    and mkdir_frame: "\<not> prefix pre k \<Longrightarrow> objs (snd (bMkdir m p s)) k = objs s k"
    and delete_frame: "k \<noteq> pre @ p \<Longrightarrow> objs (snd (bDeleteObject m p s)) k = objs s k"
    and copy_frame: "k \<noteq> pre @ b \<Longrightarrow> objs (snd (foCopyKey ops a b s)) k = objs s k"
    and remove_frame: "k \<noteq> pre @ a \<Longrightarrow> objs (snd (foDeleteKey ops a s)) k = objs s k"
    and composed: "bDeleteFolder m = cloud_DeleteFolder ops" "bMoveObject m = cloud_MoveObject ops" "bMoveFolder m = cloud_MoveFolder ops"
    and create_only: "woCreateOnly wo \<Longrightarrow> objs s (pre @ p) = Some old \<Longrightarrow> isl (fst (bWrite m p r wo s)) \<and> objs (snd (bWrite m p r wo s)) = objs s"
    and broken_body: "rdErr r \<noteq> None \<Longrightarrow> isl (fst (bWrite m p r wo s)) \<and> objs (snd (bWrite m p r wo s)) = objs s"
begin

lemma flat_keep: "ops_keep ops (kept_outside pre objs v)"
proof -
  have "objs (snd (foCopyKey ops a b s)) k = objs s k" "objs (snd (foDeleteKey ops a s)) k = objs s k" if "\<not> prefix pre k" for a b s k
    using that by (auto intro!: copy_frame remove_frame)
  then show ?thesis by (simp add: ops_keep_def kept_outside_def quiet_calls)
qed

lemma step_keep: "backend_step m s s' \<Longrightarrow> kept_outside pre objs v s \<Longrightarrow> kept_outside pre objs v s'"
proof (induction rule: backend_step.induct)
  case (upload s p r wo)
  have "objs (snd (bWrite m p r wo s)) k = objs s k" if "\<not> prefix pre k" for k
    using that by (auto intro!: write_frame)
  with upload show ?case by (simp add: kept_outside_def)
next
  case (delete_object s p)
  have "objs (snd (bDeleteObject m p s)) k = objs s k" if "\<not> prefix pre k" for k
    using that by (auto intro!: delete_frame)
  with delete_object show ?case by (simp add: kept_outside_def)
next
  case (delete_folder p s r s')
  then show ?case
    by (auto simp: composed cloud_DeleteFolder_def split: sum.splits intro: DeleteFolderFlat_keep flat_keep)
next
  case (move_object s p q)
  then show ?case
    by (auto simp: composed cloud_MoveObject_def split: sum.splits intro: MoveObjectFlat_keep flat_keep)
next
  case (move_folder p q s e s')
  then show ?case
    by (auto simp: composed cloud_MoveFolder_def split: sum.splits intro: MoveFolderFlat_keep flat_keep)
qed (auto simp: kept_outside_def quiet_calls mkdir_frame)

lemma confined:
  assumes "(backend_step m)\<^sup>*\<^sup>* s s'" "\<not> prefix pre k"
  shows "objs s' k = objs s k"
proof -
  from assms(1) have "kept_outside pre objs (objs s) s'"
    by (induction rule: rtranclp_induct) (auto simp: kept_outside_def [of pre objs "objs s" s] intro: step_keep)
  with assms(2) show ?thesis by (simp add: kept_outside_def)
qed

lemma folders_return: "(\<exists>r s'. bDeleteFolder m p s = Some (r, s')) \<and> (\<exists>r s'. bMoveFolder m p q s = Some (r, s'))"
proof
  show "\<exists>r s'. bDeleteFolder m p s = Some (r, s')"
    using F.DeleteFolderFlat_returns by (cases "CleanFolder p") (auto simp: composed cloud_DeleteFolder_def dest: CleanFolder_clean)
  show "\<exists>r s'. bMoveFolder m p q s = Some (r, s')"
    using F.MoveFolderFlat_returns
    by (cases "CleanFolder p"; cases "CleanFolder q") (auto simp: composed cloud_MoveFolder_def dest: CleanFolder_clean)
qed

lemma failed_write: "woCreateOnly wo \<and> objs s (pre @ p) \<noteq> None \<or> rdErr r \<noteq> None \<Longrightarrow> bWrite m p r wo s = (w, s') \<Longrightarrow> isl w \<and> objs s' = objs s"
  using create_only [of wo s p _ r] broken_body [of r p wo s] by auto

end

end
