(* ===== verification/Mem_Service.thy ===== *)
theory Mem_Service
  imports Backend_Core
begin

text \<open>
  A reference object service: a bucket as an association list, listed in key order, in pages,
  with a token that names the last key delivered.  The clients of the flat-key kinds are
  instantiated with it to show that the documented behaviour the kinds rely on is met by a
  real service, and to run the kinds on concrete buckets.
\<close>

type_synonym bucket = "(string \<times> string) list"

definition mem_put :: "string \<Rightarrow> string \<Rightarrow> bucket \<Rightarrow> bucket" where
  "mem_put k v s = (k, v) # filter (\<lambda>p. fst p \<noteq> k) s"

definition mem_del :: "string \<Rightarrow> bucket \<Rightarrow> bucket" where
  "mem_del k s = filter (\<lambda>p. fst p \<noteq> k) s"

definition mem_keys :: "bucket \<Rightarrow> string list" where
  "mem_keys s = sort (remdups (map fst s))"

definition mem_rest :: "bucket \<Rightarrow> string \<Rightarrow> string \<Rightarrow> string list" where
  "mem_rest s p t =
     (let ks = filter (prefix p) (mem_keys s) in
      case t of [] \<Rightarrow> ks | _ # after \<Rightarrow> filter (\<lambda>k. after < k) ks)"

text \<open>A page of at most \<open>n\<close> keys and the next token, empty at the end.\<close>

definition mem_page :: "bucket \<Rightarrow> string \<Rightarrow> string \<Rightarrow> int \<Rightarrow> string list \<times> string" where
  "mem_page s p t n =
     (let ks = mem_rest s p t in
      if length ks \<le> nat n then (ks, []) else (take (nat n) ks, CHR ''k'' # last (take (nat n) ks)))"

text \<open>A page of a delimited listing: the common prefixes, the direct keys, and the next token.\<close>

definition mem_collapsed :: "bucket \<Rightarrow> string \<Rightarrow> string \<Rightarrow> string list" where
  "mem_collapsed s p t =
     (let es = remdups (map (\<lambda>k. case cut_first slash (TrimPrefix k p) of
                 None \<Rightarrow> k | Some (d, _) \<Rightarrow> p @ d @ ''/'') (mem_rest s p [])) in
      case t of [] \<Rightarrow> es | _ # after \<Rightarrow> filter (\<lambda>k. after < k) es)"

definition mem_delimited :: "bucket \<Rightarrow> string \<Rightarrow> string \<Rightarrow> int \<Rightarrow> string list \<times> string list \<times> string" where
  "mem_delimited s p t n =
     (let es = mem_collapsed s p t; pg = take (nat n) es; dir = (\<lambda>e. e \<noteq> p \<and> suffix ''/'' e) in
      (filter dir pg, filter (\<lambda>e. \<not> dir e) pg, if length es \<le> nat n then [] else CHR ''k'' # last pg))"

lemma map_of_mem_put: "map_of (mem_put k v s) = (map_of s)(k \<mapsto> v)"
  by (simp add: mem_put_def map_of_filter_ne)

lemma map_of_mem_del: "map_of (mem_del k s) = (map_of s)(k := None)"
  by (simp add: mem_del_def map_of_filter_ne)

lemma set_mem_keys: "set (mem_keys s) = dom (map_of s)"
  by (simp add: mem_keys_def dom_map_of_conv_image_fst)

lemma mem_keys_sorted: "sorted_wrt (<) (mem_keys s)"
  by (simp add: mem_keys_def strict_sorted_iff)

lemma mem_rest_sorted: "sorted_wrt (<) (mem_rest s p t)"
  by (auto simp: mem_rest_def Let_def intro!: sorted_wrt_filter mem_keys_sorted split: list.splits)

lemma mem_rest_distinct: "distinct (mem_rest s p t)"
  using mem_rest_sorted [of s p t] by (simp add: strict_sorted_iff)

lemma set_mem_rest: "set (mem_rest s p []) = {k. prefix p k \<and> map_of s k \<noteq> None}"
  by (auto simp: mem_rest_def set_mem_keys)

lemma mem_rest_view:
  assumes "\<And>k. prefix p k \<Longrightarrow> map_of s' k = map_of s k"
  shows "mem_rest s' p = mem_rest s p"
proof
  fix t
  have "filter (prefix p) (mem_keys s') = filter (prefix p) (mem_keys s)"
    by (rule strict_sorted_equal)
      (use assms in \<open>auto simp: set_mem_keys intro!: sorted_wrt_filter mem_keys_sorted\<close>)
  then show "mem_rest s' p t = mem_rest s p t" by (simp add: mem_rest_def)
qed

lemma filter_above_sorted:
  "sorted_wrt (<) (xs :: string list) \<Longrightarrow> 0 < n \<Longrightarrow> n \<le> length xs \<Longrightarrow>
     filter (\<lambda>k. xs ! (n - 1) < k) xs = drop n xs"
proof (induction xs arbitrary: n)
  case (Cons x xs)
  show ?case
  proof (cases "n = 1")
    case True
    with Cons.prems show ?thesis by (auto simp: filter_id_conv)
  next
    case False
    with Cons.prems have "xs ! (n - 1 - 1) \<in> set xs" by simp
    with Cons.prems have "\<not> xs ! (n - 1 - 1) < x" by auto
    moreover have "filter (\<lambda>k. xs ! (n - 1 - 1) < k) xs = drop (n - 1) xs"
      using Cons.prems False by (intro Cons.IH) auto
    ultimately show ?thesis using False Cons.prems(2)
      by (cases n) (auto simp: nth_Cons')
  qed
qed simp

lemma mem_rest_token:
  assumes "k \<in> set (mem_rest s p t)"
  shows "mem_rest s p (c # k) = filter (\<lambda>x. k < x) (mem_rest s p t)"
  using assms
  by (cases t) (auto simp: mem_rest_def Let_def intro!: filter_cong)

lemma mem_page_rest:
  assumes "0 < n" "mem_page s p t n = (ks, t')"
  shows "mem_rest s p t = ks @ (if t' = [] then [] else mem_rest s p t')"
    and "t' \<noteq> [] \<Longrightarrow> length (mem_rest s p t') < length (mem_rest s p t)"
    and "ks = [] \<Longrightarrow> mem_rest s p t = []"
proof -
  let ?r = "mem_rest s p t" and ?n = "nat n"
  have n: "0 < ?n" using assms(1) by simp
  have eq: "mem_rest s p t' = drop ?n ?r" if "t' \<noteq> []"
  proof -
    have long: "\<not> length ?r \<le> ?n" and t': "t' = CHR ''k'' # last (take ?n ?r)"
      using that assms(2) by (auto simp: mem_page_def Let_def split: if_splits)
    have l: "last (take ?n ?r) = ?r ! (?n - 1)" using long n by (intro last_take_nth) auto
    have "?r ! (?n - 1) \<in> set ?r" using long n by auto
    then have "mem_rest s p t' = filter (\<lambda>x. ?r ! (?n - 1) < x) ?r"
      using mem_rest_token t' l by simp
    also have "\<dots> = drop ?n ?r"
      using long n by (intro filter_above_sorted mem_rest_sorted) auto
    finally show ?thesis .
  qed
  then show "?r = ks @ (if t' = [] then [] else mem_rest s p t')"
    using assms(2) by (auto simp: mem_page_def Let_def split: if_splits)
  show "length (mem_rest s p t') < length ?r" if "t' \<noteq> []"
    using eq [OF that] that assms(2) n by (auto simp: mem_page_def Let_def split: if_splits)
  show "?r = []" if "ks = []"
    using that assms(2) n by (auto simp: mem_page_def Let_def split: if_splits)
qed

end
