(* ===== verification/S3_Backend.thy ===== *)
theory S3_Backend
  imports Cloud_Store Mem_Service
begin

text \<open>
  \<^verbatim>\<open>internal/backend/s3/s3.go\<close>: the S3 kind over a MinIO client.  The client is a
  third-party package, so its calls are a record of functions over the service state
  \<^typ>\<open>'s\<close>, an argument of every method; this theory models what the methods do around
  those calls: path rules, the key prefix that confines the backend, folder markers, the
  cursor, and the translation of service errors.
\<close>

section \<open>The client the methods use\<close>

text \<open>
  A service error has an S3 error code (the two that the package names as constants are
  constructors) or is any other error the client passes through, such as a cancelled
  context or an error of the body reader.
\<close>

datatype s3_error =
    S3Code string
  | MinioPreconditionFailed
  | MinioInvalidRange
  | S3Raw berr

record s3_object =
  soKey :: string
  soSize :: int
  soModTime :: int
  soContentType :: string
  soETag :: string

record s3_listing =
  slContents :: "s3_object list"
  slCommonPrefixes :: "string list"
  slIsTruncated :: bool
  slNextToken :: string

text \<open>\<^verbatim>\<open>GetObject\<close> is lazy: the handle it returns answers \<^verbatim>\<open>Stat\<close>, which forces the request.\<close>

record s3_put =
  spContentType :: string
  spIfNoneMatch :: "string option"

record 's s3_client =
  mListObjectsV2 :: "string \<Rightarrow> string \<Rightarrow> string \<Rightarrow> string \<Rightarrow> string \<Rightarrow> int \<Rightarrow> 's \<Rightarrow> (s3_error + s3_listing) \<times> 's"
  mSetRange :: "int \<Rightarrow> int \<Rightarrow> s3_error option"
  mGetObject :: "string \<Rightarrow> string \<Rightarrow> byte_range option \<Rightarrow> 's \<Rightarrow> (s3_error + (s3_error + s3_object \<times> reader)) \<times> 's"
  mStatObject :: "string \<Rightarrow> string \<Rightarrow> 's \<Rightarrow> (s3_error + s3_object) \<times> 's"
  mPutObject :: "string \<Rightarrow> string \<Rightarrow> reader \<Rightarrow> int \<Rightarrow> s3_put \<Rightarrow> 's \<Rightarrow> (s3_error + s3_object) \<times> 's"
  mCopyObject :: "string \<Rightarrow> string \<Rightarrow> string \<Rightarrow> string \<Rightarrow> 's \<Rightarrow> s3_error option \<times> 's"
  mRemoveObject :: "string \<Rightarrow> string \<Rightarrow> 's \<Rightarrow> s3_error option \<times> 's"

section \<open>Errors\<close>

definition s3_describe :: "s3_error \<Rightarrow> berr" where
  "s3_describe err =
     (case err of
        S3Code code \<Rightarrow>
          if code = ''NoSuchKey'' then ErrNotFound
          else if code = ''NoSuchBucket'' then ErrOther ''bucket does not exist''
          else if code = ''AccessDenied'' \<or> code = ''InvalidAccessKeyId'' \<or> code = ''SignatureDoesNotMatch''
               then ErrOther ''access denied by the storage service''
          else ErrOther code
      | MinioPreconditionFailed \<Rightarrow> ErrPreconditionFailed
      | MinioInvalidRange \<Rightarrow> ErrInvalidRange
      | S3Raw e \<Rightarrow> e)"

definition s3_describe_opt :: "s3_error option \<Rightarrow> berr option" where
  "s3_describe_opt e = map_option s3_describe e"

section \<open>The backend and its methods\<close>

record s3_backend =
  sbBucket :: string
  sbPrefix :: string

definition s3_Check :: "'s s3_client \<Rightarrow> s3_backend \<Rightarrow> 's \<Rightarrow> berr option \<times> 's" where
  "s3_Check c b s =
     (case mListObjectsV2 c (sbBucket b) (sbPrefix b) [] [] ''/'' 1 s of
        (Inl e, s1) \<Rightarrow> (Some (s3_describe e), s1)
      | (Inr _, s1) \<Rightarrow> (None, s1))"

definition s3_listed :: "s3_backend \<Rightarrow> s3_object \<Rightarrow> object_info" where
  "s3_listed b obj =
     \<lparr>oiPath = TrimPrefix (soKey obj) (sbPrefix b), oiSize = soSize obj, oiModTime = Some (soModTime obj),
      oiContentType = soContentType obj, oiETag = [], oiIsDir = False\<rparr>"

definition s3_List :: "'s s3_client \<Rightarrow> s3_backend \<Rightarrow> list_options \<Rightarrow> 's \<Rightarrow> (berr + list_result) \<times> 's" where
  "s3_List c b opts s =
     (case CleanPrefix (loPrefix opts) of
        Inl e \<Rightarrow> (Inl e, s)
      | Inr pre \<Rightarrow>
          (case mListObjectsV2 c (sbBucket b) (sbPrefix b @ pre) [] (loCursor opts)
                  (if loRecursive opts then [] else ''/'') (EffectiveLimit opts) s of
             (Inl e, s1) \<Rightarrow> (Inl (s3_describe e), s1)
           | (Inr res, s1) \<Rightarrow>
               (Inr \<lparr>lrEntries =
                       map (\<lambda>cp. dir_entry (TrimPrefix cp (sbPrefix b))) (slCommonPrefixes res) @
                       map (s3_listed b)
                         (filter (\<lambda>obj. \<not> (HasSuffix (soKey obj) ''/'' \<and> \<not> (loRecursive opts \<and> loMarkers opts)))
                            (slContents res)),
                     lrNextCursor = (if slIsTruncated res then slNextToken res else [])\<rparr>, s1)))"

definition s3_info :: "string \<Rightarrow> s3_object \<Rightarrow> object_info" where
  "s3_info clean st =
     \<lparr>oiPath = clean, oiSize = soSize st, oiModTime = Some (soModTime st),
      oiContentType = soContentType st, oiETag = QuoteETag (soETag st), oiIsDir = False\<rparr>"

definition s3_open ::
    "'s s3_client \<Rightarrow> s3_backend \<Rightarrow> string \<Rightarrow> byte_range option \<Rightarrow> 's \<Rightarrow> (berr + reader \<times> object_info) \<times> 's" where
  "s3_open c b clean rg s =
     (case mGetObject c (sbBucket b) (sbPrefix b @ clean) rg s of
        (Inl e, s1) \<Rightarrow> (Inl (s3_describe e), s1)
      | (Inr (Inl e), s1) \<Rightarrow> (Inl (s3_describe e), s1)
      | (Inr (Inr (st, body)), s1) \<Rightarrow> (Inr (body, s3_info clean st), s1))"

definition s3_Read :: "'s s3_client \<Rightarrow> s3_backend \<Rightarrow> string \<Rightarrow> 's \<Rightarrow> (berr + reader \<times> object_info) \<times> 's" where
  "s3_Read c b p s =
     (case CleanPath p of Inl e \<Rightarrow> (Inl e, s) | Inr clean \<Rightarrow> s3_open c b clean None s)"

definition s3_ReadRange ::
    "'s s3_client \<Rightarrow> s3_backend \<Rightarrow> string \<Rightarrow> byte_range \<Rightarrow> 's \<Rightarrow> (berr + reader \<times> object_info) \<times> 's" where
  "s3_ReadRange c b p rg s =
     (case CleanPath p of
        Inl e \<Rightarrow> (Inl e, s)
      | Inr clean \<Rightarrow>
          (case mSetRange c (brStart rg) (brEnd rg) of
             Some _ \<Rightarrow> (Inl ErrInvalidRange, s)
           | None \<Rightarrow> s3_open c b clean (Some rg) s))"

definition s3_Stat :: "'s s3_client \<Rightarrow> s3_backend \<Rightarrow> string \<Rightarrow> 's \<Rightarrow> (berr + object_info) \<times> 's" where
  "s3_Stat c b p s =
     (case CleanPath p of
        Inl e \<Rightarrow> (Inl e, s)
      | Inr clean \<Rightarrow>
          (case mStatObject c (sbBucket b) (sbPrefix b @ clean) s of
             (Inl e, s1) \<Rightarrow> (Inl (s3_describe e), s1)
           | (Inr st, s1) \<Rightarrow> (Inr (s3_info clean st), s1)))"

text \<open>
  A plain write streams the reader (size -1).  A create-only write first reads the whole
  body; a reader error ends the call before anything is sent.
\<close>

definition s3_put_result ::
    "write_options \<Rightarrow> string \<Rightarrow> (s3_error + s3_object) \<times> 's \<Rightarrow> (berr + object_info) \<times> 's" where
  "s3_put_result opts clean r =
     (case r of
        (Inl e, s1) \<Rightarrow> (Inl (s3_describe e), s1)
      | (Inr info, s1) \<Rightarrow>
          (Inr \<lparr>oiPath = clean, oiSize = soSize info, oiModTime = Some (soModTime info),
                oiContentType = woContentType opts, oiETag = [], oiIsDir = False\<rparr>, s1))"

definition s3_Write ::
    "'s s3_client \<Rightarrow> s3_backend \<Rightarrow> string \<Rightarrow> reader \<Rightarrow> write_options \<Rightarrow> 's \<Rightarrow> (berr + object_info) \<times> 's" where
  "s3_Write c b p r opts s =
     (case CleanPath p of
        Inl e \<Rightarrow> (Inl e, s)
      | Inr clean \<Rightarrow>
          if \<not> woCreateOnly opts then
            s3_put_result opts clean
              (mPutObject c (sbBucket b) (sbPrefix b @ clean) r (- 1)
                 \<lparr>spContentType = woContentType opts, spIfNoneMatch = None\<rparr> s)
          else
            (case rdErr r of
               Some e \<Rightarrow> (Inl e, s)
             | None \<Rightarrow>
                 s3_put_result opts clean
                   (mPutObject c (sbBucket b) (sbPrefix b @ clean)
                      \<lparr>rdBytes = rdBytes r, rdErr = None\<rparr> (int (length (rdBytes r)))
                      \<lparr>spContentType = woContentType opts, spIfNoneMatch = Some ''*''\<rparr> s)))"

section \<open>Folder operations and raw keys\<close>

definition s3_KeyExists :: "'s s3_client \<Rightarrow> s3_backend \<Rightarrow> string \<Rightarrow> 's \<Rightarrow> (berr + bool) \<times> 's" where
  "s3_KeyExists c b key s =
     (case mStatObject c (sbBucket b) (sbPrefix b @ key) s of
        (Inr _, s1) \<Rightarrow> (Inr True, s1)
      | (Inl e, s1) \<Rightarrow> if s3_describe e = ErrNotFound then (Inr False, s1) else (Inl (s3_describe e), s1))"

definition s3_CopyKey :: "'s s3_client \<Rightarrow> s3_backend \<Rightarrow> string \<Rightarrow> string \<Rightarrow> 's \<Rightarrow> berr option \<times> 's" where
  "s3_CopyKey c b src dst s =
     (case mCopyObject c (sbBucket b) (sbPrefix b @ dst) (sbBucket b) (sbPrefix b @ src) s of
        (e, s1) \<Rightarrow> (s3_describe_opt e, s1))"

definition s3_DeleteKey :: "'s s3_client \<Rightarrow> s3_backend \<Rightarrow> string \<Rightarrow> 's \<Rightarrow> berr option \<times> 's" where
  "s3_DeleteKey c b key s =
     (case mRemoveObject c (sbBucket b) (sbPrefix b @ key) s of (e, s1) \<Rightarrow> (s3_describe_opt e, s1))"

definition s3_flat :: "'s s3_client \<Rightarrow> s3_backend \<Rightarrow> 's flat_ops" where
  "s3_flat c b =
     \<lparr>foList = s3_List c b, foCopyKey = s3_CopyKey c b,
      foDeleteKey = s3_DeleteKey c b, foKeyExists = s3_KeyExists c b\<rparr>"

definition s3_Mkdir :: "'s s3_client \<Rightarrow> s3_backend \<Rightarrow> string \<Rightarrow> 's \<Rightarrow> berr option \<times> 's" where
  "s3_Mkdir c b path s =
     (case CleanFolder path of
        Inl e \<Rightarrow> (Some e, s)
      | Inr folder \<Rightarrow>
          (case mPutObject c (sbBucket b) (sbPrefix b @ folder) \<lparr>rdBytes = [], rdErr = None\<rparr> 0
                  \<lparr>spContentType = [], spIfNoneMatch = None\<rparr> s of
             (Inl e, s1) \<Rightarrow> (Some (s3_describe e), s1)
           | (Inr _, s1) \<Rightarrow> (None, s1)))"

definition s3_DeleteObject :: "'s s3_client \<Rightarrow> s3_backend \<Rightarrow> string \<Rightarrow> 's \<Rightarrow> berr option \<times> 's" where
  "s3_DeleteObject c b path s =
     (case CleanPath path of
        Inl e \<Rightarrow> (Some e, s)
      | Inr clean \<Rightarrow>
          (case s3_KeyExists c b clean s of
             (Inl e, s1) \<Rightarrow> (Some e, s1)
           | (Inr False, s1) \<Rightarrow> (Some ErrNotFound, s1)
           | (Inr True, s1) \<Rightarrow> s3_DeleteKey c b clean s1))"

definition s3_DeleteFolder ::
    "'s s3_client \<Rightarrow> s3_backend \<Rightarrow> string \<Rightarrow> 's \<Rightarrow> ((nat \<times> berr option) \<times> 's) option" where
  "s3_DeleteFolder c b path s =
     (case CleanFolder path of
        Inl e \<Rightarrow> Some ((0, Some e), s)
      | Inr folder \<Rightarrow> DeleteFolderFlat (s3_flat c b) folder s)"

definition s3_MoveObject ::
    "'s s3_client \<Rightarrow> s3_backend \<Rightarrow> string \<Rightarrow> string \<Rightarrow> 's \<Rightarrow> berr option \<times> 's" where
  "s3_MoveObject c b src dst s =
     (case CleanPath src of
        Inl e \<Rightarrow> (Some e, s)
      | Inr f \<Rightarrow> (case CleanPath dst of
                     Inl e \<Rightarrow> (Some e, s)
                   | Inr t \<Rightarrow> MoveObjectFlat (s3_flat c b) f t s))"

definition s3_MoveFolder ::
    "'s s3_client \<Rightarrow> s3_backend \<Rightarrow> string \<Rightarrow> string \<Rightarrow> 's \<Rightarrow> (berr option \<times> 's) option" where
  "s3_MoveFolder c b src dst s =
     (case CleanFolder src of
        Inl e \<Rightarrow> Some (Some e, s)
      | Inr f \<Rightarrow> (case CleanFolder dst of
                     Inl e \<Rightarrow> Some (Some e, s)
                   | Inr t \<Rightarrow> MoveFolderFlat (s3_flat c b) f t s))"

definition s3_methods :: "'s s3_client \<Rightarrow> s3_backend \<Rightarrow> 's backend" where
  "s3_methods c b =
     \<lparr>bList = s3_List c b, bRead = s3_Read c b, bReadRange = s3_ReadRange c b, bStat = s3_Stat c b,
      bWrite = s3_Write c b, bMkdir = s3_Mkdir c b, bDeleteObject = s3_DeleteObject c b,
      bDeleteFolder = s3_DeleteFolder c b, bMoveObject = s3_MoveObject c b,
      bMoveFolder = s3_MoveFolder c b, bCheck = s3_Check c b\<rparr>"

section \<open>What the service documents\<close>

text \<open>
  The behaviour of ListObjectsV2, StatObject, CopyObject and RemoveObject the backend relies
  on, for its own bucket: \<open>objs s k\<close> is the object under full key \<open>k\<close>, \<open>rest s p t\<close> the keys
  a flat listing of prefix \<open>p\<close> has still to deliver from token \<open>t\<close>, \<open>pages\<close> a bound on its
  remaining pages.  A first page is empty only if nothing matches.
\<close>

locale s3_service = key_listing objs rest
  for c :: "'s s3_client"
    and b :: s3_backend
    and objs :: "'s \<Rightarrow> string \<Rightarrow> 'o option"
    and rest :: "'s \<Rightarrow> string \<Rightarrow> string \<Rightarrow> string list"
    and pages :: "'s \<Rightarrow> string \<Rightarrow> string \<Rightarrow> nat" +
  assumes list_objs: "mListObjectsV2 c (sbBucket b) p a t d n s = (r, s') \<Longrightarrow> objs s' = objs s"
    and list_flat: "0 < n \<Longrightarrow> mListObjectsV2 c (sbBucket b) p [] t [] n s = (Inr res, s') \<Longrightarrow>
        slCommonPrefixes res = [] \<and>
        rest s p t = map soKey (slContents res) @ (if slIsTruncated res then rest s p (slNextToken res) else [])"
    and list_token: "0 < n \<Longrightarrow> mListObjectsV2 c (sbBucket b) p [] t [] n s = (Inr res, s') \<Longrightarrow>
        slIsTruncated res \<Longrightarrow> slNextToken res \<noteq> [] \<and> pages s' p (slNextToken res) < pages s p t"
    and list_some: "0 < n \<Longrightarrow> mListObjectsV2 c (sbBucket b) p [] [] [] n s = (Inr res, s') \<Longrightarrow>
        slContents res = [] \<Longrightarrow> rest s p [] = []"
    and stat_found: "mStatObject c (sbBucket b) k s = (Inr st, s') \<Longrightarrow> objs s k \<noteq> None"
    and stat_missing: "mStatObject c (sbBucket b) k s = (Inl e, s') \<Longrightarrow> s3_describe e = ErrNotFound \<Longrightarrow> objs s k = None"
    and stat_objs: "mStatObject c (sbBucket b) k s = (q, s') \<Longrightarrow> objs s' = objs s"
    and copy_done: "mCopyObject c (sbBucket b) y (sbBucket b) x s = (None, s') \<Longrightarrow>
        objs s x \<noteq> None \<and> objs s' = (objs s)(y := objs s x)"
    and copy_failed: "mCopyObject c (sbBucket b) y (sbBucket b) x s = (Some e, s') \<Longrightarrow> k \<noteq> y \<Longrightarrow> objs s' k = objs s k"
    and remove_done: "mRemoveObject c (sbBucket b) x s = (None, s') \<Longrightarrow> objs s' = (objs s)(x := None)"
    and remove_failed: "mRemoveObject c (sbBucket b) x s = (Some e, s') \<Longrightarrow> k \<noteq> x \<Longrightarrow> objs s' k = objs s k"
    and put_frame: "mPutObject c (sbBucket b) x rd n po s = (w, s') \<Longrightarrow> k \<noteq> x \<Longrightarrow> objs s' k = objs s k"
    and put_done: "mPutObject c (sbBucket b) x rd n po s = (Inr info, s') \<Longrightarrow> objs s' x \<noteq> None"
    and put_taken: "mPutObject c (sbBucket b) x rd n po s = (w, s') \<Longrightarrow> spIfNoneMatch po = Some ''*'' \<Longrightarrow>
        objs s x \<noteq> None \<Longrightarrow> isl w \<and> objs s' x = objs s x"
    and put_broken: "mPutObject c (sbBucket b) x rd n po s = (w, s') \<Longrightarrow> rdErr rd \<noteq> None \<Longrightarrow> isl w \<and> objs s' = objs s"
    and get_objs: "mGetObject c (sbBucket b) x rg s = (g, s') \<Longrightarrow> objs s' = objs s"

lemma s3_List_page:
  assumes "clean_prefix (loPrefix opts)" and "loRecursive opts" and "loMarkers opts"
    and "s3_List c b opts s = (Inr res, s')"
  obtains l where
    "mListObjectsV2 c (sbBucket b) (sbPrefix b @ loPrefix opts) [] (loCursor opts) [] (EffectiveLimit opts) s
       = (Inr l, s')"
    "lrEntries res = map (\<lambda>cp. dir_entry (TrimPrefix cp (sbPrefix b))) (slCommonPrefixes l) @
       map (s3_listed b) (slContents l)"
    "lrNextCursor res = (if slIsTruncated l then slNextToken l else [])"
  using assms
  by (auto simp: s3_List_def clean_prefix_def split: prod.splits sum.splits)

sublocale s3_service \<subseteq> flat: flat_store "s3_flat c b" "\<lambda>s k. objs s (sbPrefix b @ k)"
  "below (sbPrefix b)" "\<lambda>s p t. pages s (sbPrefix b @ p) t"
proof (unfold_locales, goal_cases)
  case (1 p s) show ?case by (rule below_set)
next
  case (2 p s) show ?case by (rule below_distinct)
next
  case (3 s' s) then show ?case by (rule below_view)
next
  case (4 opts s r s')
  then show ?case
    by (auto simp: s3_flat_def s3_List_def split: sum.splits prod.splits dest: list_objs)
next
  case (5 opts s res s')
  then obtain l where "mListObjectsV2 c (sbBucket b) (sbPrefix b @ loPrefix opts) [] (loCursor opts) []
      (EffectiveLimit opts) s = (Inr l, s')"
    "lrEntries res = map (\<lambda>cp. dir_entry (TrimPrefix cp (sbPrefix b))) (slCommonPrefixes l) @
       map (s3_listed b) (slContents l)"
    "lrNextCursor res = (if slIsTruncated l then slNextToken l else [])"
    by (auto simp: s3_flat_def elim: s3_List_page)
  with list_flat [OF _ this(1)] list_token [OF _ this(1)] EffectiveLimit_bounds [of opts] show ?case
    by (auto simp: s3_listed_def below_def)
next
  case (6 opts s res s')
  then obtain l where "mListObjectsV2 c (sbBucket b) (sbPrefix b @ loPrefix opts) [] (loCursor opts) []
      (EffectiveLimit opts) s = (Inr l, s')"
    "lrNextCursor res = (if slIsTruncated l then slNextToken l else [])"
    by (auto simp: s3_flat_def elim: s3_List_page)
  with list_token [OF _ this(1)] EffectiveLimit_bounds [of opts] 6 show ?case
    by (auto split: if_splits)
next
  case (7 x y s s')
  then show ?case
    by (auto simp: s3_flat_def s3_CopyKey_def s3_describe_opt_def fun_eq_iff split: prod.splits
        dest!: copy_done)
next
  case (8 x y s e s' k)
  then show ?case
    by (auto simp: s3_flat_def s3_CopyKey_def s3_describe_opt_def split: prod.splits dest: copy_failed)
next
  case (9 x s s')
  then show ?case
    by (auto simp: s3_flat_def s3_DeleteKey_def s3_describe_opt_def fun_eq_iff split: prod.splits
        dest!: remove_done)
next
  case (10 x s e s' k)
  then show ?case
    by (auto simp: s3_flat_def s3_DeleteKey_def s3_describe_opt_def split: prod.splits dest: remove_failed)
next
  case (11 x s found s')
  then show ?case
    by (auto simp: s3_flat_def s3_KeyExists_def split: prod.splits sum.splits if_splits
        dest: stat_found stat_missing)
next
  case (12 x s q s')
  then show ?case
    by (auto simp: s3_flat_def s3_KeyExists_def split: prod.splits sum.splits if_splits
        dest: stat_objs)
next
  case (13 opts s res s')
  then obtain l where "mListObjectsV2 c (sbBucket b) (sbPrefix b @ loPrefix opts) [] (loCursor opts) []
      (EffectiveLimit opts) s = (Inr l, s')"
    "lrEntries res = map (\<lambda>cp. dir_entry (TrimPrefix cp (sbPrefix b))) (slCommonPrefixes l) @
       map (s3_listed b) (slContents l)"
    by (auto simp: s3_flat_def elim: s3_List_page)
  with list_some [of "EffectiveLimit opts"] EffectiveLimit_bounds [of opts] 13 show ?case
    by (auto simp: below_def)
qed

section \<open>The kind as a key store\<close>

lemma s3_composed: "s3_DeleteFolder c b = cloud_DeleteFolder (s3_flat c b)"
  "s3_MoveObject c b = cloud_MoveObject (s3_flat c b)" "s3_MoveFolder c b = cloud_MoveFolder (s3_flat c b)"
  by (simp_all add: fun_eq_iff s3_DeleteFolder_def s3_MoveObject_def s3_MoveFolder_def
      cloud_DeleteFolder_def cloud_MoveObject_def cloud_MoveFolder_def)

context s3_service
begin

lemma delete_key_frame: "k \<noteq> sbPrefix b @ x \<Longrightarrow> objs (snd (s3_DeleteKey c b x s)) k = objs s k"
proof -
  assume "k \<noteq> sbPrefix b @ x"
  moreover obtain e s' where "mRemoveObject c (sbBucket b) (sbPrefix b @ x) s = (e, s')"
    by fastforce
  ultimately show ?thesis
    by (cases e) (auto simp: s3_DeleteKey_def dest: remove_done remove_failed)
qed

lemma copy_key_frame: "k \<noteq> sbPrefix b @ y \<Longrightarrow> objs (snd (s3_CopyKey c b x y s)) k = objs s k"
proof -
  assume "k \<noteq> sbPrefix b @ y"
  moreover obtain e s' where "mCopyObject c (sbBucket b) (sbPrefix b @ y) (sbBucket b) (sbPrefix b @ x) s = (e, s')"
    by fastforce
  ultimately show ?thesis
    by (cases e) (auto simp: s3_CopyKey_def dest: copy_done copy_failed)
qed

lemma key_exists_objs: "s3_KeyExists c b x s = (r, s') \<Longrightarrow> objs s' = objs s"
  by (auto simp: s3_KeyExists_def split: prod.splits sum.splits if_splits dest: stat_objs)

lemma quiet:
  "objs (snd (s3_List c b opts s)) = objs s" "objs (snd (s3_Read c b p s)) = objs s"
  "objs (snd (s3_ReadRange c b p rg s)) = objs s" "objs (snd (s3_Stat c b p s)) = objs s"
  "objs (snd (s3_Check c b s)) = objs s" "objs (snd (s3_KeyExists c b k s)) = objs s"
  by (auto simp: s3_List_def s3_Read_def s3_ReadRange_def s3_open_def s3_Stat_def s3_Check_def s3_KeyExists_def
      split: sum.splits prod.splits option.splits dest: list_objs get_objs stat_objs)

lemma mkdir_key_frame: "\<not> prefix (sbPrefix b) k \<Longrightarrow> objs (snd (s3_Mkdir c b p s)) k = objs s k"
  by (auto simp: s3_Mkdir_def split: sum.splits prod.splits dest!: put_frame [where k = k])

lemma write_key_frame: "k \<noteq> sbPrefix b @ p \<Longrightarrow> objs (snd (s3_Write c b p r wo s)) k = objs s k"
  by (auto simp: s3_Write_def s3_put_result_def CleanPath_Inr split: sum.splits prod.splits option.splits
      dest: put_frame)

lemma delete_object_frame: "k \<noteq> sbPrefix b @ p \<Longrightarrow> objs (snd (s3_DeleteObject c b p s)) k = objs s k"
  by (auto simp: s3_DeleteObject_def CleanPath_Inr delete_key_frame split: sum.splits prod.splits bool.splits
      dest!: key_exists_objs)

lemma create_only_keeps:
  assumes "woCreateOnly wo" "objs s (sbPrefix b @ p) = Some old" "s3_Write c b p r wo s = (w, s')"
  shows "isl w \<and> objs s' = objs s"
proof -
  have same: "objs s' = objs s"
    if u: "mPutObject c (sbBucket b) (sbPrefix b @ p) rd n po s = (u, s')" and "spIfNoneMatch po = Some ''*''" for rd n po u
    using that put_frame [OF u] put_taken [OF u] assms(2) by (metis ext option.distinct(1))
  show ?thesis using assms
    by (auto simp: s3_Write_def s3_put_result_def CleanPath_Inr split: sum.splits option.splits prod.splits
        intro: same dest: put_taken)
qed

lemma broken_write:
  assumes "rdErr r \<noteq> None"
  shows "isl (fst (s3_Write c b p r wo s)) \<and> objs (snd (s3_Write c b p r wo s)) = objs s"
  using assms by (auto simp: s3_Write_def s3_put_result_def split: sum.splits option.splits prod.splits dest!: put_broken)

end

sublocale s3_service \<subseteq> store: cloud_store "s3_flat c b" objs "sbPrefix b" "below (sbPrefix b)"
  "\<lambda>s p t. pages s (sbPrefix b @ p) t" "s3_methods c b"
  by unfold_locales
    (simp_all add: s3_methods_def s3_flat_def s3_composed quiet mkdir_key_frame write_key_frame
      delete_object_frame copy_key_frame delete_key_frame create_only_keeps [OF _ _ surjective_pairing] broken_write)

context s3_service
begin

lemma store_contract: "cloud_store (s3_flat c b) objs (sbPrefix b) (below (sbPrefix b)) (\<lambda>s p t. pages s (sbPrefix b @ p) t) (s3_methods c b)"
  by (rule store.cloud_store_axioms)

end

text \<open>A service whose failed copies leave no trace and whose deletes go through.\<close>

locale reliable_s3_service = s3_service +
  assumes copy_clean: "mCopyObject c (sbBucket b) y (sbBucket b) x s = (Some e, s') \<Longrightarrow> objs s' = objs s"
    and remove_succeeds: "fst (mRemoveObject c (sbBucket b) x s) = None"

sublocale reliable_s3_service \<subseteq> rflat: reliable_flat_store "s3_flat c b" "\<lambda>s k. objs s (sbPrefix b @ k)"
  "below (sbPrefix b)" "\<lambda>s p t. pages s (sbPrefix b @ p) t"
proof (unfold_locales, goal_cases)
  case (1 x y s e s')
  then show ?case
    by (auto simp: s3_flat_def s3_CopyKey_def s3_describe_opt_def split: prod.splits dest: copy_clean)
next
  case (2 x s)
  show ?case using remove_succeeds [of "sbPrefix b @ x" s]
    by (auto simp: s3_flat_def s3_DeleteKey_def s3_describe_opt_def split: prod.splits)
qed

section \<open>The reference service behind the client interface\<close>

text \<open>
  The client of the reference bucket.  Copies to a key of \<open>cf\<close> and removals of a key of \<open>rf\<close>
  fail; a reader that ends in an error stores nothing.
\<close>

definition mem_object :: "string \<Rightarrow> string \<Rightarrow> s3_object" where
  "mem_object k v =
     \<lparr>soKey = k, soSize = int (length v), soModTime = 0, soContentType = ''text/plain'', soETag = ''etag''\<rparr>"

definition mem_lookup :: "bucket \<Rightarrow> string \<Rightarrow> s3_error + s3_object" where
  "mem_lookup s k = (case map_of s k of None \<Rightarrow> Inl (S3Code ''NoSuchKey'') | Some v \<Rightarrow> Inr (mem_object k v))"

definition mem_list :: "bucket \<Rightarrow> string \<Rightarrow> string \<Rightarrow> string \<Rightarrow> int \<Rightarrow> s3_listing" where
  "mem_list s p t d n =
     (if d = [] then
        (let pg = mem_page s p t n in
         \<lparr>slContents = map (\<lambda>k. mem_object k []) (fst pg), slCommonPrefixes = [],
          slIsTruncated = snd pg \<noteq> [], slNextToken = snd pg\<rparr>)
      else (case mem_delimited s p t n of (ds, fs, nx) \<Rightarrow>
        \<lparr>slContents = map (\<lambda>k. mem_object k []) fs, slCommonPrefixes = ds, slIsTruncated = nx \<noteq> [], slNextToken = nx\<rparr>))"

definition mem_slice :: "byte_range option \<Rightarrow> string \<Rightarrow> string" where
  "mem_slice rg v =
     (case rg of None \<Rightarrow> v
      | Some r \<Rightarrow> take (nat (brEnd r - brStart r + 1)) (drop (nat (brStart r)) v))"

definition mem_s3 :: "string list \<Rightarrow> string list \<Rightarrow> bucket s3_client" where
  "mem_s3 cf rf =
     \<lparr>mListObjectsV2 = (\<lambda>_ p _ t d n s. (Inr (mem_list s p t d n), s)),
      mSetRange = (\<lambda>a z. if 0 \<le> a \<and> a \<le> z then None else Some (S3Raw ErrInvalidRange)),
      mGetObject = (\<lambda>_ k rg s. (Inr (case mem_lookup s k of
          Inl e \<Rightarrow> Inl e
        | Inr st \<Rightarrow>
            if rg \<noteq> None \<and> soSize st \<le> brStart (the rg) then Inl MinioInvalidRange
            else Inr (st, \<lparr>rdBytes = mem_slice rg (the (map_of s k)), rdErr = None\<rparr>)), s)),
      mStatObject = (\<lambda>_ k s. (mem_lookup s k, s)),
      mPutObject = (\<lambda>_ k r _ o1 s.
         case rdErr r of Some e \<Rightarrow> (Inl (S3Raw e), s)
         | None \<Rightarrow>
             if spIfNoneMatch o1 = Some ''*'' \<and> map_of s k \<noteq> None then (Inl MinioPreconditionFailed, s)
             else (Inr (mem_object k (rdBytes r)), mem_put k (rdBytes r) s)),
      mCopyObject = (\<lambda>_ y _ x s.
         case map_of s x of None \<Rightarrow> (Some (S3Code ''NoSuchKey''), s)
         | Some v \<Rightarrow> if y \<in> set cf then (Some (S3Code ''SlowDown''), s) else (None, mem_put y v s)),
      mRemoveObject = (\<lambda>_ k s.
         if k \<in> set rf then (Some (S3Code ''SlowDown''), s) else (None, mem_del k s))\<rparr>"

lemma mem_s3_sel [simp]:
  "mListObjectsV2 (mem_s3 cf rf) bk p a t d n s = (Inr (mem_list s p t d n), s)"
  "mStatObject (mem_s3 cf rf) bk k s = (mem_lookup s k, s)"
  by (simp_all add: mem_s3_def)

lemma mem_list_flat:
  "slCommonPrefixes (mem_list s p t [] n) = []"
  "map soKey (slContents (mem_list s p t [] n)) = fst (mem_page s p t n)"
  "slContents (mem_list s p t [] n) = [] \<longleftrightarrow> fst (mem_page s p t n) = []"
  "slIsTruncated (mem_list s p t [] n) \<longleftrightarrow> snd (mem_page s p t n) \<noteq> []"
  "slNextToken (mem_list s p t [] n) = snd (mem_page s p t n)"
  by (simp_all add: mem_list_def Let_def comp_def mem_object_def)

interpretation mem: s3_service "mem_s3 cf rf" b map_of mem_rest "\<lambda>s p t. length (mem_rest s p t)"
  for cf rf :: "string list" and b :: s3_backend
proof (unfold_locales, goal_cases)
  case (1 s p) show ?case by (rule set_mem_rest)
next
  case (2 s p) show ?case by (rule mem_rest_distinct)
next
  case (3 p s' s) then show ?case by (rule mem_rest_view)
next
  case 4 then show ?case by simp
next
  case (5 n p t s res s')
  then show ?case
    using mem_page_rest(1) [of n s p t "fst (mem_page s p t n)" "snd (mem_page s p t n)"]
    by (auto simp: mem_list_flat)
next
  case (6 n p t s res s')
  then show ?case
    using mem_page_rest(2) [of n s p t "fst (mem_page s p t n)" "snd (mem_page s p t n)"]
    by (auto simp: mem_list_flat)
next
  case (7 n p s res s')
  then show ?case
    using mem_page_rest(3) [of n s p "[]" "fst (mem_page s p [] n)" "snd (mem_page s p [] n)"]
    by (auto simp: mem_list_flat)
qed (auto simp: mem_s3_def mem_lookup_def s3_describe_def map_of_mem_put map_of_mem_del
    split: option.splits if_splits)

interpretation reliable_mem: reliable_s3_service "mem_s3 cf []" b map_of mem_rest "\<lambda>s p t. length (mem_rest s p t)"
  for cf :: "string list" and b :: s3_backend
  by unfold_locales (auto simp: mem_s3_def split: option.splits if_splits)

text \<open>Equations that run the S3 kind on a concrete bucket.\<close>

lemmas mem_eval = mem_keys_def less_char_def mem_rest_def mem_page_def mem_list_def mem_lookup_def
  mem_object_def mem_put_def mem_del_def mem_s3_def
  s3_flat_def s3_List_def s3_listed_def s3_CopyKey_def s3_DeleteKey_def s3_KeyExists_def
  s3_describe_opt_def s3_describe_def
  keys_page_def probe_opts_def keysUnder_def keysUnder_loop.simps EffectiveLimit_def MaxListLimit_def
  CleanPrefix_def CleanFolder_def checkSegments_def TrimSuffix_def TrimPrefix_def suffix_def
  maxPathLen_def maxFolderObjects_def

end
