(* ===== verification/Flat_Claims.thy ===== *)
theory Flat_Claims
  imports S3_Backend
begin

text \<open>
  What the folder operations promise on every flat-key store that meets the contract of
  \<^verbatim>\<open>Flat_Store\<close>, and what the S3 kind promises over a service as \<^verbatim>\<open>S3_Backend\<close> documents it,
  each shown on a concrete bucket of the reference service.
\<close>

definition example_backend :: s3_backend where
  "example_backend = \<lparr>sbBucket = ''data'', sbPrefix = ''t/''\<rparr>"

definition example_bucket :: bucket where
  "example_bucket = [(''t/a/x'', ''1''), (''t/a/y'', ''2''), (''t/b'', ''3''), (''other'', ''4'')]"

lemmas run = mem_eval example_backend_def example_bucket_def MoveFolderFlat_def DeleteFolderFlat_def







text \<open>
  C18. A folder delete that succeeds empties exactly the folder: every key under it is gone,
  no other key changes, the count it reports is the number of objects removed without the
  folder placeholders, and it never succeeds on a folder with no key.  A delete that fails
  still touches nothing outside the folder.
\<close>

theorem folder_delete_exact:
  assumes "paged_store ops view pending fuel" and "CleanFolder a = Inr f"
    and "DeleteFolderFlat ops f s = Some ((n, r), s')"
  shows "(\<forall>k. \<not> prefix f k \<longrightarrow> view s' k = view s k) \<and>
    (r = None \<longrightarrow>
       (\<forall>k. prefix f k \<longrightarrow> view s' k = None) \<and>
       n = card {k. prefix f k \<and> view s k \<noteq> None \<and> \<not> suffix ''/'' k} \<and>
       (\<exists>k. prefix f k \<and> view s k \<noteq> None))"
  using paged_store.DeleteFolderFlat_frame [OF assms(1) CleanFolder_clean [OF assms(2)] assms(3)]
    paged_store.DeleteFolderFlat_ok [OF assms(1) CleanFolder_clean [OF assms(2)], of s n s'] assms(3)
  by auto

lemma folder_delete_exact_witness:
  "\<exists>s'. DeleteFolderFlat (s3_flat (mem_s3 [] []) example_backend) ''a/'' example_bucket = Some ((2, None), s') \<and>
       map_of s' (''t/'' @ ''a/x'') = None \<and> map_of s' (''t/'' @ ''b'') = Some ''3''"
proof -
  let ?s' = "[(''t/b'', ''3''), (''other'', ''4'')]"
  have call: "DeleteFolderFlat (s3_flat (mem_s3 [] []) example_backend) ''a/'' example_bucket
      = Some ((2, None), ?s')"
    by (simp add: run numeral_2_eq_2)
  have cl: "CleanFolder ''a'' = Inr ''a/''"
    by (simp add: run)
  have "map_of ?s' (''t/'' @ ''a/x'') = None" "map_of ?s' (''t/'' @ ''b'') = map_of example_bucket (''t/'' @ ''b'')"
    using folder_delete_exact [OF mem.flat.paged_store_axioms cl call] by (simp_all add: run)
  with call show ?thesis by (simp add: run)
qed

text \<open>On S3, over a service as documented: no method leaves the key prefix, and a create-only
  write never touches an object that exists.\<close>

lemma s3_confined_to_prefix:
  assumes "s3_service c b objs rest pages" and "(backend_step (s3_methods c b))\<^sup>*\<^sup>* s s'" and "\<not> prefix (sbPrefix b) k"
  shows "objs s' k = objs s k"
  using cloud_store.confined [OF s3_service.store_contract [OF assms(1)] assms(2,3)] .

lemma s3_create_only_keeps_existing:
  assumes "s3_service c b objs rest pages" and "woCreateOnly wo" and "objs s (sbPrefix b @ p) = Some old"
    and "s3_Write c b p rd wo s = (w, s')"
  shows "(\<exists>e. w = Inl e) \<and> objs s' = objs s"
  using s3_service.create_only_keeps [OF assms] by (auto simp: isl_def)

text \<open>
  Moving one object never loses or overwrites anything: afterwards each object is under
  its old key, or is the moved one under its new key; and a move that succeeds left the new
  key free before and the old key free after.
\<close>

theorem object_move_safe:
  assumes "paged_store ops view pending fuel" and "MoveObjectFlat ops src dst s = (r, s')"
  shows "(\<forall>k obj. view s k = Some obj \<longrightarrow> view s' k = Some obj \<or> k = src \<and> view s' dst = Some obj) \<and>
    (r = None \<and> src \<noteq> dst \<longrightarrow>
      view s src \<noteq> None \<and> view s dst = None \<and> view s' = (view s)(dst := view s src, src := None))"
  using paged_store.MoveObjectFlat_keeps [OF assms] paged_store.MoveObjectFlat_ok [OF assms(1), of src dst s s']
    assms(2) by auto

lemma object_move_safe_witness:
  "\<exists>s'. MoveObjectFlat (s3_flat (mem_s3 [] []) example_backend) ''b'' ''d'' example_bucket = (None, s') \<and>
     map_of s' (''t/'' @ ''d'') = Some ''3''"
proof -
  let ?s' = "[(''t/d'', ''3''), (''t/a/x'', ''1''), (''t/a/y'', ''2''), (''other'', ''4'')]"
  have call: "MoveObjectFlat (s3_flat (mem_s3 [] []) example_backend) ''b'' ''d'' example_bucket = (None, ?s')"
    by (simp add: run MoveObjectFlat_def)
  with object_move_safe [OF mem.flat.paged_store_axioms call] show ?thesis
    by (auto simp: run dest: fun_cong [of _ _ "''d''"])
qed

end
