(* ===== verification/Azure_Backend.thy ===== *)
theory Azure_Backend
  imports Cloud_Store Mem_Service
begin

text \<open>
  \<^verbatim>\<open>internal/backend/azure/azure.go\<close>: the Azure kind over a container client of the Azure SDK.
  The client's calls are a record of functions over the service state, an argument of every
  method; a pointer field of a response is an option.  \<open>azure_service\<close> is what the methods
  rely on of the service, and a reference container whose copies finish late is an instance.
\<close>

section \<open>The client the methods use\<close>

text \<open>
  The \<^verbatim>\<open>bloberror\<close> codes the package tells apart; every other code is \<open>OtherCode\<close>.  An error
  without a service code (a cancelled context, an error of the body reader) is \<open>AzRaw\<close>.
\<close>

datatype bloberror =
    BlobNotFound | ContainerNotFound | AuthenticationFailed | AuthorizationFailure
  | AuthorizationPermissionMismatch | InvalidAuthenticationInfo | BlobAlreadyExists | ConditionNotMet
  | InvalidRange | OtherCode string

datatype az_error = AzCode bloberror | AzRaw berr

datatype copy_status = CopySuccess | CopyPending | CopyOther string

record az_props =
  apContentLength :: "int option"
  apLastModified :: "int option"
  apContentType :: "string option"
  apETag :: "string option"
  apCopyStatus :: "copy_status option"

text \<open>\<^verbatim>\<open>container.BlobItem\<close>: its properties carry no ETag or copy status the methods read.\<close>

record az_item =
  aiName :: "string option"
  aiMetadata :: "(string \<times> string option) list"
  aiProperties :: "az_props option"

record az_segment =
  asItems :: "az_item list"
  asPrefixes :: "string option list"
  asNext :: "string option"

record az_upload =
  auContentType :: "string option"
  auIfNoneMatch :: "string option"

text \<open>
  The flag of the two listings asks for the blobs' metadata.  The last two fields are the request's context as the copy loop sees it: how many waits of
  200 ms it allows before it ends, and the error it then reports.
\<close>

record 's az_client =
  zListFlat :: "string \<Rightarrow> int \<Rightarrow> string option \<Rightarrow> bool \<Rightarrow> 's \<Rightarrow> (az_error + az_segment) \<times> 's"
  zListHierarchy :: "string \<Rightarrow> string \<Rightarrow> int \<Rightarrow> string option \<Rightarrow> bool \<Rightarrow> 's \<Rightarrow> (az_error + az_segment) \<times> 's"
  zDownloadStream :: "string \<Rightarrow> (int \<times> int) option \<Rightarrow> 's \<Rightarrow> (az_error + az_props \<times> reader) \<times> 's"
  zGetProperties :: "string \<Rightarrow> 's \<Rightarrow> (az_error + az_props) \<times> 's"
  zUploadStream :: "string \<Rightarrow> reader \<Rightarrow> az_upload \<Rightarrow> 's \<Rightarrow> az_error option \<times> 's"
  zUpload :: "string \<Rightarrow> string \<Rightarrow> 's \<Rightarrow> az_error option \<times> 's"
  zDelete :: "string \<Rightarrow> 's \<Rightarrow> az_error option \<times> 's"
  zStartCopyFromURL :: "string \<Rightarrow> string \<Rightarrow> 's \<Rightarrow> az_error option \<times> 's"
  zWaits :: nat
  zCtxErr :: berr

section \<open>Errors\<close>

definition az_describe :: "az_error \<Rightarrow> berr" where
  "az_describe err =
     (case err of
        AzRaw e \<Rightarrow> e
      | AzCode code \<Rightarrow>
          (case code of
             BlobNotFound \<Rightarrow> ErrNotFound
           | ContainerNotFound \<Rightarrow> ErrOther ''container does not exist''
           | AuthenticationFailed \<Rightarrow> ErrOther ''access denied by Azure Blob Storage''
           | AuthorizationFailure \<Rightarrow> ErrOther ''access denied by Azure Blob Storage''
           | AuthorizationPermissionMismatch \<Rightarrow> ErrOther ''access denied by Azure Blob Storage''
           | InvalidAuthenticationInfo \<Rightarrow> ErrOther ''access denied by Azure Blob Storage''
           | BlobAlreadyExists \<Rightarrow> ErrPreconditionFailed
           | ConditionNotMet \<Rightarrow> ErrPreconditionFailed
           | InvalidRange \<Rightarrow> ErrInvalidRange
           | OtherCode c \<Rightarrow> ErrOther c))"

section \<open>Listing\<close>

record az_backend =
  abPrefix :: string

definition az_Check :: "'s az_client \<Rightarrow> az_backend \<Rightarrow> 's \<Rightarrow> berr option \<times> 's" where
  "az_Check c b s =
     (case zListFlat c (abPrefix b) 1 None False s of
        (Inl e, s1) \<Rightarrow> (Some (az_describe e), s1)
      | (Inr _, s1) \<Rightarrow> (None, s1))"

text \<open>
  \<^verbatim>\<open>EqualFold\<close> with \<^verbatim>\<open>hdi_isfolder\<close>: beside the ASCII letters, the long s (bytes C5 BF) folds
  to \<open>s\<close>.
\<close>

fun fold_long_s :: "string \<Rightarrow> string" where
  "fold_long_s (a # b # s) =
     (if byte a = 197 \<and> byte b = 191 then CHR ''s'' # fold_long_s s else a # fold_long_s (b # s))"
| "fold_long_s s = s"

definition isFolderMarker :: "(string \<times> string option) list \<Rightarrow> bool" where
  "isFolderMarker md \<longleftrightarrow>
     list_ex (\<lambda>(k, v). EqualFoldAscii (fold_long_s k) ''hdi_isfolder'' \<and>
        (case v of None \<Rightarrow> False | Some t \<Rightarrow> EqualFoldAscii t ''true'')) md"

definition az_num :: "int option \<Rightarrow> int" where
  "az_num n = (case n of None \<Rightarrow> 0 | Some k \<Rightarrow> k)"

definition az_text :: "string option \<Rightarrow> string" where
  "az_text t = (case t of None \<Rightarrow> [] | Some x \<Rightarrow> x)"

definition az_entry :: "az_backend \<Rightarrow> string \<Rightarrow> az_item \<Rightarrow> object_info" where
  "az_entry b name it =
     (case aiProperties it of
        None \<Rightarrow> \<lparr>oiPath = TrimPrefix name (abPrefix b), oiSize = 0, oiModTime = None, oiContentType = [],
                 oiETag = [], oiIsDir = False\<rparr>
      | Some p \<Rightarrow> \<lparr>oiPath = TrimPrefix name (abPrefix b), oiSize = az_num (apContentLength p),
                   oiModTime = apLastModified p, oiContentType = az_text (apContentType p),
                   oiETag = [], oiIsDir = False\<rparr>)"

fun az_items :: "az_backend \<Rightarrow> bool \<Rightarrow> az_item list \<Rightarrow> object_info list" where
  "az_items b keep_markers [] = []"
| "az_items b keep_markers (it # its) =
     (case aiName it of
        None \<Rightarrow> az_items b keep_markers its
      | Some name \<Rightarrow>
          if (HasSuffix name ''/'' \<or> isFolderMarker (aiMetadata it)) \<and> \<not> keep_markers
          then az_items b keep_markers its
          else az_entry b name it # az_items b keep_markers its)"

fun az_prefixes :: "az_backend \<Rightarrow> string option list \<Rightarrow> object_info list" where
  "az_prefixes b [] = []"
| "az_prefixes b (p # ps) =
     (case p of None \<Rightarrow> az_prefixes b ps
      | Some name \<Rightarrow> dir_entry (TrimPrefix name (abPrefix b)) # az_prefixes b ps)"

definition az_List :: "'s az_client \<Rightarrow> az_backend \<Rightarrow> list_options \<Rightarrow> 's \<Rightarrow> (berr + list_result) \<times> 's" where
  "az_List c b opts s =
     (case CleanPrefix (loPrefix opts) of
        Inl e \<Rightarrow> (Inl e, s)
      | Inr pre \<Rightarrow>
          (let full = abPrefix b @ pre; most = EffectiveLimit opts;
               marker = (if loCursor opts \<noteq> [] then Some (loCursor opts) else None) in
           case (if loRecursive opts then zListFlat c full most marker True s
                 else zListHierarchy c ''/'' full most marker True s) of
             (Inl e, s1) \<Rightarrow> (Inl (az_describe e), s1)
           | (Inr seg, s1) \<Rightarrow>
               (Inr \<lparr>lrEntries =
                       (if loRecursive opts then [] else az_prefixes b (asPrefixes seg)) @
                       az_items b (loRecursive opts \<and> loMarkers opts) (asItems seg),
                     lrNextCursor = az_text (asNext seg)\<rparr>, s1)))"

section \<open>Reading and writing objects\<close>

definition infoFromDownload :: "string \<Rightarrow> az_props \<Rightarrow> object_info" where
  "infoFromDownload path resp =
     \<lparr>oiPath = path, oiSize = az_num (apContentLength resp), oiModTime = apLastModified resp,
      oiContentType = az_text (apContentType resp),
      oiETag = (case apETag resp of None \<Rightarrow> [] | Some t \<Rightarrow> QuoteETag t), oiIsDir = False\<rparr>"

definition az_Read :: "'s az_client \<Rightarrow> az_backend \<Rightarrow> string \<Rightarrow> 's \<Rightarrow> (berr + reader \<times> object_info) \<times> 's" where
  "az_Read c b p s =
     (case CleanPath p of
        Inl e \<Rightarrow> (Inl e, s)
      | Inr clean \<Rightarrow>
          (case zDownloadStream c (abPrefix b @ clean) None s of
             (Inl e, s1) \<Rightarrow> (Inl (az_describe e), s1)
           | (Inr (resp, body), s1) \<Rightarrow> (Inr (body, infoFromDownload clean resp), s1)))"

text \<open>A short answer to a ranged read (Azure gives one past the end of the blob) is refused.\<close>

definition az_ReadRange ::
    "'s az_client \<Rightarrow> az_backend \<Rightarrow> string \<Rightarrow> byte_range \<Rightarrow> 's \<Rightarrow> (berr + reader \<times> object_info) \<times> 's" where
  "az_ReadRange c b p rg s =
     (case CleanPath p of
        Inl e \<Rightarrow> (Inl e, s)
      | Inr clean \<Rightarrow>
          (let wantLen = brEnd rg - brStart rg + 1 in
           case zDownloadStream c (abPrefix b @ clean) (Some (brStart rg, wantLen)) s of
             (Inl e, s1) \<Rightarrow> (Inl (az_describe e), s1)
           | (Inr (resp, body), s1) \<Rightarrow>
               if apContentLength resp \<noteq> Some wantLen then (Inl ErrInvalidRange, s1)
               else (Inr (body, infoFromDownload clean resp), s1)))"

definition az_Stat :: "'s az_client \<Rightarrow> az_backend \<Rightarrow> string \<Rightarrow> 's \<Rightarrow> (berr + object_info) \<times> 's" where
  "az_Stat c b p s =
     (case CleanPath p of
        Inl e \<Rightarrow> (Inl e, s)
      | Inr clean \<Rightarrow>
          (case zGetProperties c (abPrefix b @ clean) s of
             (Inl e, s1) \<Rightarrow> (Inl (az_describe e), s1)
           | (Inr props, s1) \<Rightarrow>
               (Inr \<lparr>oiPath = clean, oiSize = az_num (apContentLength props), oiModTime = apLastModified props,
                     oiContentType = az_text (apContentType props),
                     oiETag = (case apETag props of None \<Rightarrow> [] | Some t \<Rightarrow> QuoteETag t), oiIsDir = False\<rparr>, s1)))"

definition az_Write ::
    "'s az_client \<Rightarrow> az_backend \<Rightarrow> string \<Rightarrow> reader \<Rightarrow> write_options \<Rightarrow> 's \<Rightarrow> (berr + object_info) \<times> 's" where
  "az_Write c b p r opts s =
     (case CleanPath p of
        Inl e \<Rightarrow> (Inl e, s)
      | Inr clean \<Rightarrow>
          (case zUploadStream c (abPrefix b @ clean) r
                  \<lparr>auContentType = (if woContentType opts \<noteq> [] then Some (woContentType opts) else None),
                   auIfNoneMatch = (if woCreateOnly opts then Some ''*'' else None)\<rparr> s of
             (Some e, s1) \<Rightarrow> (Inl (az_describe e), s1)
           | (None, s1) \<Rightarrow>
               (case zGetProperties c (abPrefix b @ clean) s1 of
                  (Inl e, s2) \<Rightarrow> (Inl (az_describe e), s2)
                | (Inr props, s2) \<Rightarrow>
                    (Inr \<lparr>oiPath = clean, oiSize = az_num (apContentLength props), oiModTime = apLastModified props,
                          oiContentType = az_text (apContentType props), oiETag = [], oiIsDir = False\<rparr>, s2))))"

section \<open>Folder operations and raw keys\<close>

definition az_Mkdir :: "'s az_client \<Rightarrow> az_backend \<Rightarrow> string \<Rightarrow> 's \<Rightarrow> berr option \<times> 's" where
  "az_Mkdir c b path s =
     (case CleanFolder path of
        Inl e \<Rightarrow> (Some e, s)
      | Inr folder \<Rightarrow>
          (case zUpload c (abPrefix b @ folder) [] s of (e, s1) \<Rightarrow> (map_option az_describe e, s1)))"

definition az_DeleteObject :: "'s az_client \<Rightarrow> az_backend \<Rightarrow> string \<Rightarrow> 's \<Rightarrow> berr option \<times> 's" where
  "az_DeleteObject c b path s =
     (case CleanPath path of
        Inl e \<Rightarrow> (Some e, s)
      | Inr clean \<Rightarrow>
          (case zDelete c (abPrefix b @ clean) s of (e, s1) \<Rightarrow> (map_option az_describe e, s1)))"

text \<open>The loop that waits for a server-side copy; \<open>n\<close> is the number of waits left.\<close>

fun await_copy :: "'s az_client \<Rightarrow> string \<Rightarrow> nat \<Rightarrow> 's \<Rightarrow> berr option \<times> 's" where
  "await_copy c dst n s =
     (case zGetProperties c dst s of
        (Inl e, s1) \<Rightarrow> (Some (az_describe e), s1)
      | (Inr props, s1) \<Rightarrow>
          (case apCopyStatus props of
             None \<Rightarrow> (None, s1)
           | Some CopySuccess \<Rightarrow> (None, s1)
           | Some (CopyOther st) \<Rightarrow> (Some (ErrOther st), s1)
           | Some CopyPending \<Rightarrow>
               (case n of 0 \<Rightarrow> (Some (zCtxErr c), s1) | Suc m \<Rightarrow> await_copy c dst m s1)))"

declare await_copy.simps [simp del]

text \<open>The loop by turns, for evaluation: a turn waits only once the status is known.\<close>

definition await_turn :: "'s az_client \<Rightarrow> string \<Rightarrow> nat \<Rightarrow> (az_error + az_props) \<times> 's \<Rightarrow> berr option \<times> 's" where
  "await_turn c dst n answer =
     (case answer of
        (Inl e, s1) \<Rightarrow> (Some (az_describe e), s1)
      | (Inr props, s1) \<Rightarrow>
          (case apCopyStatus props of
             None \<Rightarrow> (None, s1)
           | Some CopySuccess \<Rightarrow> (None, s1)
           | Some (CopyOther st) \<Rightarrow> (Some (ErrOther st), s1)
           | Some CopyPending \<Rightarrow>
               (case n of 0 \<Rightarrow> (Some (zCtxErr c), s1) | Suc m \<Rightarrow> await_copy c dst m s1)))"

definition await_status :: "'s az_client \<Rightarrow> string \<Rightarrow> nat \<Rightarrow> copy_status option \<Rightarrow> 's \<Rightarrow> berr option \<times> 's" where
  "await_status c dst n st s1 = await_turn c dst n (Inr \<lparr>apContentLength = None, apLastModified = None,
     apContentType = None, apETag = None, apCopyStatus = st\<rparr>, s1)"

lemma await_code [code]:
  "await_copy c dst n s = await_turn c dst n (zGetProperties c dst s)"
  "await_turn c dst n (Inl e, s1) = (Some (az_describe e), s1)"
  "await_turn c dst n (Inr props, s1) = await_status c dst n (apCopyStatus props) s1"
  "await_status c dst n None s1 = (None, s1)"
  "await_status c dst n (Some CopySuccess) s1 = (None, s1)"
  "await_status c dst n (Some (CopyOther st)) s1 = (Some (ErrOther st), s1)"
  "await_status c dst 0 (Some CopyPending) s1 = (Some (zCtxErr c), s1)"
  "await_status c dst (Suc m) (Some CopyPending) s1 = await_copy c dst m s1"
  by (simp_all add: await_copy.simps [of c dst n s] await_turn_def await_status_def)

definition az_CopyKey :: "'s az_client \<Rightarrow> az_backend \<Rightarrow> string \<Rightarrow> string \<Rightarrow> 's \<Rightarrow> berr option \<times> 's" where
  "az_CopyKey c b src dst s =
     (case zStartCopyFromURL c (abPrefix b @ dst) (abPrefix b @ src) s of
        (Some e, s1) \<Rightarrow> (Some (az_describe e), s1)
      | (None, s1) \<Rightarrow> await_copy c (abPrefix b @ dst) (zWaits c) s1)"

definition az_DeleteKey :: "'s az_client \<Rightarrow> az_backend \<Rightarrow> string \<Rightarrow> 's \<Rightarrow> berr option \<times> 's" where
  "az_DeleteKey c b key s =
     (case zDelete c (abPrefix b @ key) s of
        (e, s1) \<Rightarrow> if e = Some (AzCode BlobNotFound) then (None, s1) else (map_option az_describe e, s1))"

definition az_KeyExists :: "'s az_client \<Rightarrow> az_backend \<Rightarrow> string \<Rightarrow> 's \<Rightarrow> (berr + bool) \<times> 's" where
  "az_KeyExists c b key s =
     (case zGetProperties c (abPrefix b @ key) s of
        (Inr _, s1) \<Rightarrow> (Inr True, s1)
      | (Inl e, s1) \<Rightarrow> if e = AzCode BlobNotFound then (Inr False, s1) else (Inl (az_describe e), s1))"

definition az_flat :: "'s az_client \<Rightarrow> az_backend \<Rightarrow> 's flat_ops" where
  "az_flat c b =
     \<lparr>foList = az_List c b, foCopyKey = az_CopyKey c b,
      foDeleteKey = az_DeleteKey c b, foKeyExists = az_KeyExists c b\<rparr>"

definition az_DeleteFolder ::
    "'s az_client \<Rightarrow> az_backend \<Rightarrow> string \<Rightarrow> 's \<Rightarrow> ((nat \<times> berr option) \<times> 's) option" where
  "az_DeleteFolder c b path s =
     (case CleanFolder path of
        Inl e \<Rightarrow> Some ((0, Some e), s)
      | Inr folder \<Rightarrow> DeleteFolderFlat (az_flat c b) folder s)"

definition az_MoveObject :: "'s az_client \<Rightarrow> az_backend \<Rightarrow> string \<Rightarrow> string \<Rightarrow> 's \<Rightarrow> berr option \<times> 's" where
  "az_MoveObject c b src dst s =
     (case CleanPath src of
        Inl e \<Rightarrow> (Some e, s)
      | Inr f \<Rightarrow> (case CleanPath dst of
                     Inl e \<Rightarrow> (Some e, s)
                   | Inr t \<Rightarrow> MoveObjectFlat (az_flat c b) f t s))"

definition az_MoveFolder :: "'s az_client \<Rightarrow> az_backend \<Rightarrow> string \<Rightarrow> string \<Rightarrow> 's \<Rightarrow> (berr option \<times> 's) option" where
  "az_MoveFolder c b src dst s =
     (case CleanFolder src of
        Inl e \<Rightarrow> Some (Some e, s)
      | Inr f \<Rightarrow> (case CleanFolder dst of
                     Inl e \<Rightarrow> Some (Some e, s)
                   | Inr t \<Rightarrow> MoveFolderFlat (az_flat c b) f t s))"

lemma az_composed: "az_DeleteFolder c b = cloud_DeleteFolder (az_flat c b)"
  "az_MoveObject c b = cloud_MoveObject (az_flat c b)" "az_MoveFolder c b = cloud_MoveFolder (az_flat c b)"
  by (simp_all add: fun_eq_iff az_DeleteFolder_def az_MoveObject_def az_MoveFolder_def
      cloud_DeleteFolder_def cloud_MoveObject_def cloud_MoveFolder_def)

definition az_methods :: "'s az_client \<Rightarrow> az_backend \<Rightarrow> 's backend" where
  "az_methods c b =
     \<lparr>bList = az_List c b, bRead = az_Read c b, bReadRange = az_ReadRange c b, bStat = az_Stat c b,
      bWrite = az_Write c b, bMkdir = az_Mkdir c b, bDeleteObject = az_DeleteObject c b,
      bDeleteFolder = az_DeleteFolder c b, bMoveObject = az_MoveObject c b,
      bMoveFolder = az_MoveFolder c b, bCheck = az_Check c b\<rparr>"

section \<open>What the service documents\<close>

text \<open>
  \<open>objs s k\<close> is the blob \<open>k\<close> holds once the copies under way into it have ended, \<open>source s k\<close>
  the blob a copy started into \<open>k\<close> was taken from, and \<open>rest\<close>, \<open>pages\<close> are as for S3, with the
  empty token for a missing marker.  A page may be empty although more follow, so nothing is
  said here about an empty first page (\<open>filled_azure_service\<close> adds it).
\<close>

locale azure_service = key_listing objs rest
  for c :: "'s az_client"
    and b :: az_backend
    and objs :: "'s \<Rightarrow> string \<Rightarrow> 'o option"
    and rest :: "'s \<Rightarrow> string \<Rightarrow> string \<Rightarrow> string list"
    and pages :: "'s \<Rightarrow> string \<Rightarrow> string \<Rightarrow> nat"
    and source :: "'s \<Rightarrow> string \<Rightarrow> 'o option" +
  assumes list_objs: "zListFlat c p n m meta s = (r, s') \<Longrightarrow> objs s' = objs s"
    and hierarchy_objs: "zListHierarchy c d p n m meta s = (r, s') \<Longrightarrow> objs s' = objs s"
    and list_flat: "0 < n \<Longrightarrow> zListFlat c p n m meta s = (Inr seg, s') \<Longrightarrow>
        (\<exists>names. map aiName (asItems seg) = map Some names \<and>
           rest s p (az_text m) = names @ (if az_text (asNext seg) = [] then [] else rest s p (az_text (asNext seg))))"
    and list_token: "0 < n \<Longrightarrow> zListFlat c p n m meta s = (Inr seg, s') \<Longrightarrow> az_text (asNext seg) \<noteq> [] \<Longrightarrow>
        pages s' p (az_text (asNext seg)) < pages s p (az_text m)"
    and download_objs: "zDownloadStream c k rg s = (g, s') \<Longrightarrow> objs s' = objs s"
    and props_found: "zGetProperties c k s = (Inr props, s') \<Longrightarrow> objs s k \<noteq> None"
    and props_missing: "zGetProperties c k s = (Inl (AzCode BlobNotFound), s') \<Longrightarrow> objs s k = None"
    and props_objs: "zGetProperties c k s = (q, s') \<Longrightarrow> objs s' = objs s \<and> source s' = source s"
    and props_copied: "zGetProperties c k s = (Inr props, s') \<Longrightarrow> apCopyStatus props \<in> {None, Some CopySuccess} \<Longrightarrow>
        source s k = Some v \<Longrightarrow> objs s k = Some v"
    and copy_started: "zStartCopyFromURL c y x s = (None, s') \<Longrightarrow> objs s x \<noteq> None \<and> source s' y = objs s x"
    and copy_touches: "zStartCopyFromURL c y x s = (w, s') \<Longrightarrow> k \<noteq> y \<Longrightarrow> objs s' k = objs s k"
    and delete_done: "zDelete c x s = (None, s') \<Longrightarrow> objs s' = (objs s)(x := None)"
    and delete_missing: "zDelete c x s = (Some (AzCode BlobNotFound), s') \<Longrightarrow> objs s x = None \<and> objs s' = objs s"
    and delete_failed: "zDelete c x s = (Some e, s') \<Longrightarrow> k \<noteq> x \<Longrightarrow> objs s' k = objs s k"
    and upload_frame: "zUpload c x body s = (w, s') \<Longrightarrow> k \<noteq> x \<Longrightarrow> objs s' k = objs s k"
    and stream_frame: "zUploadStream c x rd uo s = (w, s') \<Longrightarrow> k \<noteq> x \<Longrightarrow> objs s' k = objs s k"
    and stream_taken: "zUploadStream c x rd uo s = (w, s') \<Longrightarrow> auIfNoneMatch uo = Some ''*'' \<Longrightarrow>
        objs s x \<noteq> None \<Longrightarrow> w \<noteq> None \<and> objs s' x = objs s x"
    and stream_broken: "zUploadStream c x rd uo s = (w, s') \<Longrightarrow> rdErr rd \<noteq> None \<Longrightarrow> w \<noteq> None \<and> objs s' = objs s"

text \<open>A service whose first page of a listing is empty only when nothing matches.\<close>

locale filled_azure_service = azure_service +
  assumes list_some: "0 < n \<Longrightarrow> zListFlat c p n None meta s = (Inr seg, s') \<Longrightarrow> asItems seg = [] \<Longrightarrow> rest s p [] = []"

section \<open>The kind as a key store\<close>

lemma az_items_markers: "map aiName its = map Some names \<Longrightarrow>
    map oiPath (az_items b True its) = map (\<lambda>k. TrimPrefix k (abPrefix b)) names"
  by (induction its arbitrary: names) (auto simp: az_entry_def split: option.splits)

lemma az_List_page:
  assumes "clean_prefix (loPrefix opts)" "loRecursive opts" "loMarkers opts" "az_List c b opts s = (Inr res, s')"
  obtains seg meta where
    "zListFlat c (abPrefix b @ loPrefix opts) (EffectiveLimit opts)
       (if loCursor opts \<noteq> [] then Some (loCursor opts) else None) meta s = (Inr seg, s')"
    "lrEntries res = az_items b True (asItems seg)" "lrNextCursor res = az_text (asNext seg)"
  using assms by (auto simp: az_List_def clean_prefix_def Let_def split: prod.splits sum.splits)

lemma az_text_simps [simp]: "az_text None = []" "az_text (Some t) = t"
  "az_text (if t \<noteq> [] then Some t else None) = t"
  by (simp_all add: az_text_def)

context azure_service
begin

lemma await_copy_step: "await_copy c y n s = (w, s') \<Longrightarrow> objs s' = objs s \<and> (w = None \<longrightarrow> source s y = Some v \<longrightarrow> objs s y = Some v)"
proof (induction n arbitrary: s)
  case 0
  obtain q s1 where g: "zGetProperties c y s = (q, s1)" by fastforce
  with props_objs [OF g] 0 show ?case
    by (auto simp: await_copy.simps split: sum.splits option.splits copy_status.splits dest: props_copied)
next
  case (Suc n)
  obtain q s1 where g: "zGetProperties c y s = (q, s1)" by fastforce
  with props_objs [OF g] Suc.prems Suc.IH [of s1] show ?case
    by (auto simp: await_copy.simps [of c y "Suc n" s] split: sum.splits option.splits copy_status.splits dest: props_copied)
qed

lemmas await_frame = await_copy_step [OF surjective_pairing, THEN conjunct1]

lemma await_done: "await_copy c y n s = (None, s') \<Longrightarrow> source s y = Some v \<Longrightarrow> objs s y = Some v"
  using await_copy_step by blast

lemma copy_key_frame: "k \<noteq> abPrefix b @ y \<Longrightarrow> objs (snd (az_CopyKey c b x y s)) k = objs s k"
  by (auto simp: az_CopyKey_def await_frame split: prod.splits option.splits dest: copy_touches)

lemma copy_key_ok:
  assumes "az_CopyKey c b x y s = (None, s')"
  shows "objs s (abPrefix b @ x) \<noteq> None \<and> objs s' (abPrefix b @ y) = objs s (abPrefix b @ x)"
proof -
  obtain w s1 where start: "zStartCopyFromURL c (abPrefix b @ y) (abPrefix b @ x) s = (w, s1)" by fastforce
  with assms have w: "w = None" and wait: "await_copy c (abPrefix b @ y) (zWaits c) s1 = (None, s')"
    by (auto simp: az_CopyKey_def split: option.splits)
  from copy_started start w obtain v where "objs s (abPrefix b @ x) = Some v" "source s1 (abPrefix b @ y) = Some v"
    by fastforce
  with await_done [OF wait] await_frame [of "abPrefix b @ y" "zWaits c" s1] wait show ?thesis by simp
qed

lemma delete_key_frame: "k \<noteq> abPrefix b @ x \<Longrightarrow> objs (snd (az_DeleteKey c b x s)) k = objs s k"
proof -
  assume "k \<noteq> abPrefix b @ x"
  moreover obtain e s' where "zDelete c (abPrefix b @ x) s = (e, s')" by fastforce
  ultimately show ?thesis by (cases e) (auto simp: az_DeleteKey_def dest: delete_done delete_failed)
qed

lemma quiet:
  "objs (snd (az_List c b opts s)) = objs s" "objs (snd (az_Read c b p s)) = objs s"
  "objs (snd (az_ReadRange c b p rg s)) = objs s" "objs (snd (az_Stat c b p s)) = objs s"
  "objs (snd (az_Check c b s)) = objs s" "objs (snd (az_KeyExists c b k s)) = objs s"
  by (auto simp: az_List_def az_Read_def az_ReadRange_def az_Stat_def az_Check_def az_KeyExists_def Let_def
      split: sum.splits prod.splits if_splits dest: list_objs hierarchy_objs download_objs props_objs)

lemma write_key_frame: "k \<noteq> abPrefix b @ p \<Longrightarrow> objs (snd (az_Write c b p r wo s)) k = objs s k"
proof -
  assume k: "k \<noteq> abPrefix b @ p"
  let ?uo = "\<lparr>auContentType = (if woContentType wo \<noteq> [] then Some (woContentType wo) else None),
      auIfNoneMatch = (if woCreateOnly wo then Some ''*'' else None)\<rparr>"
  obtain w s1 where u: "zUploadStream c (abPrefix b @ p) r ?uo s = (w, s1)" by fastforce
  obtain q s2 where g: "zGetProperties c (abPrefix b @ p) s1 = (q, s2)" by fastforce
  from stream_frame [OF u k] props_objs [OF g] u g show ?thesis
    by (auto simp: az_Write_def CleanPath_Inr split: sum.splits option.splits)
qed

lemma mkdir_key_frame: "\<not> prefix (abPrefix b) k \<Longrightarrow> objs (snd (az_Mkdir c b p s)) k = objs s k"
  by (auto simp: az_Mkdir_def split: sum.splits prod.splits dest!: upload_frame [where k = k])

lemma delete_object_frame: "k \<noteq> abPrefix b @ p \<Longrightarrow> objs (snd (az_DeleteObject c b p s)) k = objs s k"
proof -
  assume "k \<noteq> abPrefix b @ p"
  moreover obtain e s' where "zDelete c (abPrefix b @ p) s = (e, s')" by fastforce
  ultimately show ?thesis
    by (cases e) (auto simp: az_DeleteObject_def CleanPath_Inr split: sum.splits dest: delete_done delete_failed)
qed

lemma create_only_keeps:
  assumes "woCreateOnly wo" "objs s (abPrefix b @ p) = Some old"
  shows "isl (fst (az_Write c b p r wo s)) \<and> objs (snd (az_Write c b p r wo s)) = objs s"
proof (cases "wf_path p")
  case True
  let ?uo = "\<lparr>auContentType = (if woContentType wo \<noteq> [] then Some (woContentType wo) else None),
      auIfNoneMatch = Some ''*''\<rparr>"
  obtain w s1 where u: "zUploadStream c (abPrefix b @ p) r ?uo s = (w, s1)" by fastforce
  have w: "w \<noteq> None" and "objs s1 (abPrefix b @ p) = objs s (abPrefix b @ p)"
    using stream_taken [OF u] assms(2) by simp_all
  with stream_frame [OF u] have "objs s1 = objs s" by (metis ext)
  moreover from True have "CleanPath p = Inr p" by (simp add: CleanPath_Inr)
  ultimately show ?thesis using w u assms(1) by (auto simp: az_Write_def)
next
  case False
  then have "isl (CleanPath p)" by (cases "CleanPath p") (auto simp: CleanPath_Inr)
  then show ?thesis by (auto simp: az_Write_def split: sum.splits)
qed

lemma broken_write:
  assumes "rdErr r \<noteq> None"
  shows "isl (fst (az_Write c b p r wo s)) \<and> objs (snd (az_Write c b p r wo s)) = objs s"
proof -
  let ?uo = "\<lparr>auContentType = (if woContentType wo \<noteq> [] then Some (woContentType wo) else None),
      auIfNoneMatch = (if woCreateOnly wo then Some ''*'' else None)\<rparr>"
  obtain w s1 where u: "zUploadStream c (abPrefix b @ p) r ?uo s = (w, s1)" by fastforce
  from stream_broken [OF u assms] u show ?thesis
    by (auto simp: az_Write_def CleanPath_Inr split: sum.splits)
qed

end

sublocale azure_service \<subseteq> paged: paged_store "az_flat c b" "\<lambda>s k. objs s (abPrefix b @ k)"
  "below (abPrefix b)" "\<lambda>s p t. pages s (abPrefix b @ p) t"
proof (unfold_locales, goal_cases)
  case (1 p s) show ?case by (rule below_set)
next
  case (2 p s) show ?case by (rule below_distinct)
next
  case (3 s' s) then show ?case by (rule below_view)
next
  case (4 opts s r s')
  then show ?case using quiet(1) [of opts s] by (simp add: az_flat_def)
next
  case (5 opts s res s')
  then obtain seg meta where "zListFlat c (abPrefix b @ loPrefix opts) (EffectiveLimit opts)
       (if loCursor opts \<noteq> [] then Some (loCursor opts) else None) meta s = (Inr seg, s')"
    and r: "lrEntries res = az_items b True (asItems seg)" "lrNextCursor res = az_text (asNext seg)"
    by (auto simp: az_flat_def elim: az_List_page)
  with list_flat [OF _ this(1)] EffectiveLimit_bounds [of opts] obtain names where
    "map aiName (asItems seg) = map Some names"
    "rest s (abPrefix b @ loPrefix opts) (loCursor opts) = names @
       (if az_text (asNext seg) = [] then [] else rest s (abPrefix b @ loPrefix opts) (az_text (asNext seg)))"
    by auto
  with r show ?case by (simp add: below_def az_items_markers)
next
  case (6 opts s res s')
  then obtain seg meta where "zListFlat c (abPrefix b @ loPrefix opts) (EffectiveLimit opts)
       (if loCursor opts \<noteq> [] then Some (loCursor opts) else None) meta s = (Inr seg, s')"
    and "lrNextCursor res = az_text (asNext seg)"
    by (auto simp: az_flat_def elim: az_List_page)
  with list_token [OF _ this(1)] EffectiveLimit_bounds [of opts] 6 show ?case by simp
next
  case (7 x y s s')
  then show ?case using copy_key_ok [of x y s s'] copy_key_frame [of _ y x s]
    by (auto simp: az_flat_def fun_eq_iff)
next
  case (8 x y s e s' k)
  then show ?case using copy_key_frame [of "abPrefix b @ k" y x s] by (simp add: az_flat_def)
next
  case (9 x s s')
  then show ?case
    by (auto simp: az_flat_def az_DeleteKey_def fun_eq_iff split: prod.splits if_splits
        dest: delete_done delete_missing)
next
  case (10 x s e s' k)
  then show ?case using delete_key_frame [of "abPrefix b @ k" x s] by (simp add: az_flat_def)
next
  case (11 x s found s')
  then show ?case
    by (auto simp: az_flat_def az_KeyExists_def split: prod.splits sum.splits if_splits
        dest: props_found props_missing)
next
  case (12 x s q s')
  then show ?case using quiet(6) [of x s] by (simp add: az_flat_def)
qed

sublocale filled_azure_service \<subseteq> flat: flat_store "az_flat c b" "\<lambda>s k. objs s (abPrefix b @ k)"
  "below (abPrefix b)" "\<lambda>s p t. pages s (abPrefix b @ p) t"
proof (unfold_locales, goal_cases)
  case (1 opts s res s')
  then obtain seg meta where page: "zListFlat c (abPrefix b @ loPrefix opts) (EffectiveLimit opts) None meta s = (Inr seg, s')"
    and r: "lrEntries res = az_items b True (asItems seg)"
    by (auto simp: az_flat_def elim: az_List_page)
  obtain names where "map aiName (asItems seg) = map Some names"
    using list_flat [OF _ page] EffectiveLimit_bounds [of opts] by auto
  with r 1 have "asItems seg = []" using az_items_markers [of "asItems seg" names b] by simp
  with list_some [OF _ page] EffectiveLimit_bounds [of opts] show ?case by (simp add: below_def)
qed

sublocale azure_service \<subseteq> store: cloud_store "az_flat c b" objs "abPrefix b" "below (abPrefix b)"
  "\<lambda>s p t. pages s (abPrefix b @ p) t" "az_methods c b"
  by unfold_locales
    (simp_all add: az_methods_def az_composed az_flat_def quiet mkdir_key_frame write_key_frame
      delete_object_frame copy_key_frame delete_key_frame create_only_keeps broken_write)

context azure_service
begin

lemma store_contract: "cloud_store (az_flat c b) objs (abPrefix b) (below (abPrefix b)) (\<lambda>s p t. pages s (abPrefix b @ p) t) (az_methods c b)"
  by (rule store.cloud_store_axioms)

end

section \<open>A reference container\<close>

text \<open>
  The blobs, and for each blob written by a copy the number of times it will still answer
  "pending" and the content it copies.  Copies take \<open>d\<close> polls; copies to a key of \<open>cf\<close> and
  deletes of a key of \<open>rf\<close> fail; with \<open>gap\<close> every listing starts with an empty page.
\<close>

type_synonym az_state = "bucket \<times> (string \<times> nat \<times> string) list"

definition az_forget :: "string \<Rightarrow> az_state \<Rightarrow> (string \<times> nat \<times> string) list" where
  "az_forget k s = filter (\<lambda>p. fst p \<noteq> k) (snd s)"

definition az_blob :: "string \<Rightarrow> copy_status option \<Rightarrow> az_props" where
  "az_blob v st =
     \<lparr>apContentLength = Some (int (length v)), apLastModified = Some 0, apContentType = Some ''text/plain'',
      apETag = Some ''etag'', apCopyStatus = st\<rparr>"

definition az_status :: "az_state \<Rightarrow> string \<Rightarrow> copy_status option" where
  "az_status s k =
     (case map_of (snd s) k of
        None \<Rightarrow> None
      | Some (n, v) \<Rightarrow>
          if map_of (fst s) k \<noteq> Some v then Some (CopyOther ''failed'')
          else if 0 < n then Some CopyPending else Some CopySuccess)"

definition az_tick :: "string \<Rightarrow> az_state \<Rightarrow> az_state" where
  "az_tick k s = (fst s, map (\<lambda>(x, n, v). (x, if x = k then n - 1 else n, v)) (snd s))"

definition az_mem_rest :: "az_state \<Rightarrow> string \<Rightarrow> string \<Rightarrow> string list" where
  "az_mem_rest s p t = mem_rest (fst s) p (if t = ''start'' then [] else t)"

definition az_mem_pages :: "az_state \<Rightarrow> string \<Rightarrow> string \<Rightarrow> nat" where
  "az_mem_pages s p t = (if t = [] then 1 else 0) + length (az_mem_rest s p t)"

definition az_segment_of :: "bucket \<Rightarrow> string list \<Rightarrow> string \<Rightarrow> az_segment" where
  "az_segment_of s ks t =
     \<lparr>asItems = map (\<lambda>k. \<lparr>aiName = Some k, aiMetadata = [],
         aiProperties = map_option (\<lambda>v. az_blob v None) (map_of s k)\<rparr>) ks,
      asPrefixes = [], asNext = Some t\<rparr>"

definition az_page :: "bool \<Rightarrow> string \<Rightarrow> int \<Rightarrow> string option \<Rightarrow> az_state \<Rightarrow> az_segment" where
  "az_page gap p n m s =
     (if gap \<and> m = None then az_segment_of (fst s) [] ''start''
      else case mem_page (fst s) p (if m = Some ''start'' then [] else az_text m) n of
             (ks, t) \<Rightarrow> az_segment_of (fst s) ks t)"

definition mem_az :: "bool \<Rightarrow> nat \<Rightarrow> string list \<Rightarrow> string list \<Rightarrow> az_state az_client" where
  "mem_az gap d cf rf =
     \<lparr>zListFlat = (\<lambda>p n m _ s. (Inr (az_page gap p n m s), s)),
      zListHierarchy = (\<lambda>_ p n m _ s.
        (case mem_delimited (fst s) p (az_text m) n of
           (ds, fs, nx) \<Rightarrow> Inr ((az_segment_of (fst s) fs nx)\<lparr>asPrefixes := map Some ds\<rparr>), s)),
      zDownloadStream = (\<lambda>k rg s.
        (case map_of (fst s) k of
           None \<Rightarrow> Inl (AzCode BlobNotFound)
         | Some v \<Rightarrow>
             (let part = (case rg of None \<Rightarrow> v | Some (off, cnt) \<Rightarrow> take (nat cnt) (drop (nat off) v)) in
              Inr (az_blob part None, \<lparr>rdBytes = part, rdErr = None\<rparr>)), s)),
      zGetProperties = (\<lambda>k s.
        case map_of (fst s) k of
          None \<Rightarrow> (Inl (AzCode BlobNotFound), s)
        | Some v \<Rightarrow> (Inr (az_blob v (az_status s k)), az_tick k s)),
      zUploadStream = (\<lambda>k r uo s.
        case rdErr r of
          Some e \<Rightarrow> (Some (AzRaw e), s)
        | None \<Rightarrow>
            if auIfNoneMatch uo = Some ''*'' \<and> map_of (fst s) k \<noteq> None then (Some (AzCode BlobAlreadyExists), s)
            else (None, (mem_put k (rdBytes r) (fst s), az_forget k s))),
      zUpload = (\<lambda>k v s. (None, (mem_put k v (fst s), az_forget k s))),
      zDelete = (\<lambda>k s.
        if k \<in> set rf then (Some (AzCode (OtherCode ''ServerBusy'')), s)
        else if map_of (fst s) k = None then (Some (AzCode BlobNotFound), s)
        else (None, (mem_del k (fst s), az_forget k s))),
      zStartCopyFromURL = (\<lambda>y x s.
        case map_of (fst s) x of
          None \<Rightarrow> (Some (AzCode BlobNotFound), s)
        | Some v \<Rightarrow>
            if y \<in> set cf then (Some (AzCode (OtherCode ''ServerBusy'')), s)
            else (None, (mem_put y v (fst s), (y, d, v) # az_forget y s))),
      zWaits = 10, zCtxErr = ErrCanceled\<rparr>"

lemma az_tick_fst [simp]: "fst (az_tick k s) = fst s"
  by (simp add: az_tick_def)

lemma az_tick_source: "map_option snd (map_of (snd (az_tick k s)) x) = map_option snd (map_of (snd s) x)"
proof -
  have "map_option snd (map_of (map (\<lambda>(x, n, v). (x, if x = k then n - 1 else n, v)) cs) x) = map_option snd (map_of cs x)"
    for cs :: "(string \<times> nat \<times> string) list"
    by (induction cs) auto
  then show ?thesis by (simp add: az_tick_def)
qed

lemma az_segment_of_sel [simp]:
  "map aiName (asItems (az_segment_of s ks t)) = map Some ks" "az_text (asNext (az_segment_of s ks t)) = t"
  "asItems (az_segment_of s ks t) = [] \<longleftrightarrow> ks = []"
  by (simp_all add: az_segment_of_def az_text_def)

lemma mem_page_token: "mem_page s p t n = (ks, t') \<Longrightarrow> t' \<noteq> ''start''"
  by (auto simp: mem_page_def Let_def split: if_splits)

interpretation mem_azure: azure_service "mem_az gap d cf rf" b "\<lambda>s. map_of (fst s)" az_mem_rest az_mem_pages
  "\<lambda>s k. map_option snd (map_of (snd s) k)"
  for gap :: bool and d :: nat and cf rf :: "string list" and b :: az_backend
proof (unfold_locales, goal_cases)
  case (1 s p) show ?case by (simp add: az_mem_rest_def set_mem_rest)
next
  case (2 s p) show ?case by (simp add: az_mem_rest_def mem_rest_distinct)
next
  case (3 p s' s)
  then have "mem_rest (fst s') p = mem_rest (fst s) p" by (rule mem_rest_view)
  then show ?case by (simp add: az_mem_rest_def fun_eq_iff)
next
  case (6 n p m meta s seg s')
  obtain ks t where pg: "mem_page (fst s) p (if m = Some ''start'' then [] else az_text m) n = (ks, t)" by fastforce
  from mem_page_rest(1) [OF 6(1) pg] mem_page_token [OF pg] 6 pg show ?case
    by (cases "gap \<and> m = None"; cases m) (auto simp: mem_az_def az_page_def az_mem_rest_def)
next
  case (7 n p m meta s seg s')
  obtain ks t where pg: "mem_page (fst s) p (if m = Some ''start'' then [] else az_text m) n = (ks, t)" by fastforce
  from mem_page_rest(2) [OF 7(1) pg] mem_page_token [OF pg] 7 pg show ?case
    by (cases "gap \<and> m = None"; cases m) (auto simp: mem_az_def az_page_def az_mem_rest_def az_mem_pages_def)
qed (auto simp: mem_az_def az_blob_def az_status_def az_tick_source map_of_mem_put map_of_mem_del
    split: option.splits if_splits)

interpretation filled_azure: filled_azure_service "mem_az False d cf rf" b "\<lambda>s. map_of (fst s)" az_mem_rest az_mem_pages
  "\<lambda>s k. map_option snd (map_of (snd s) k)"
  for d :: nat and cf rf :: "string list" and b :: az_backend
proof (unfold_locales, goal_cases)
  case (1 n p meta s seg s')
  obtain ks t where pg: "mem_page (fst s) p [] n = (ks, t)" by fastforce
  from mem_page_rest(3) [OF 1(1) pg] 1 pg show ?case
    by (auto simp: mem_az_def az_page_def az_mem_rest_def)
qed

end
