(* ===== verification/GCS_Backend.thy ===== *)
theory GCS_Backend
  imports Cloud_Store Mem_Service
begin

text \<open>
  \<^verbatim>\<open>internal/backend/gcs/gcs.go\<close>: the GCS kind over a bucket handle of the Cloud Storage
  client.  The client's calls are a record of functions over the service state, an argument of
  every method; \<open>gcs_service\<close> is what the methods rely on of the service.
\<close>

section \<open>The client the methods use\<close>

text \<open>
  The two sentinels of the client, an API error by its HTTP status, and any other error the
  client passes through (a cancelled context, an error of the body reader).
\<close>

datatype gcs_error = GObjectNotExist | GBucketNotExist | GApi nat string | GRaw berr

text \<open>\<^verbatim>\<open>storage.ObjectAttrs\<close> (a collapsed directory of a listing has only \<open>gaPrefix\<close> set) and
  \<^verbatim>\<open>storage.ReaderObjectAttrs\<close>, which has no ETag.\<close>

record gcs_attrs =
  gaName :: string
  gaPrefix :: string
  gaSize :: int
  gaUpdated :: int
  gaContentType :: string
  gaEtag :: string

record gcs_read_attrs =
  grSize :: int
  grLastModified :: int
  grContentType :: string

text \<open>
  \<open>gNextPage\<close> is one page of \<^verbatim>\<open>iterator.NewPager\<close> over \<^verbatim>\<open>Objects\<close> (prefix, delimiter, size,
  token).  An upload is \<open>gSend\<close>, the \<^verbatim>\<open>io.Copy\<close> into a new writer of a key, and
  \<open>gClose\<close>, which hands in the bytes sent; both are given the \<^verbatim>\<open>DoesNotExist\<close> condition and the
  content type of the writer.
\<close>

record 's gcs_client =
  gNextPage :: "string \<Rightarrow> string \<Rightarrow> int \<Rightarrow> string \<Rightarrow> 's \<Rightarrow> (gcs_error + gcs_attrs list \<times> string) \<times> 's"
  gNewReader :: "string \<Rightarrow> 's \<Rightarrow> (gcs_error + gcs_read_attrs \<times> reader) \<times> 's"
  gNewRangeReader :: "string \<Rightarrow> int \<Rightarrow> int \<Rightarrow> 's \<Rightarrow> (gcs_error + gcs_read_attrs \<times> reader) \<times> 's"
  gAttrs :: "string \<Rightarrow> 's \<Rightarrow> (gcs_error + gcs_attrs) \<times> 's"
  gSend :: "string \<Rightarrow> bool \<Rightarrow> string \<Rightarrow> reader \<Rightarrow> 's \<Rightarrow> gcs_error option \<times> 's"
  gClose :: "string \<Rightarrow> bool \<Rightarrow> string \<Rightarrow> string \<Rightarrow> 's \<Rightarrow> (gcs_error + gcs_attrs) \<times> 's"
  gDelete :: "string \<Rightarrow> 's \<Rightarrow> gcs_error option \<times> 's"
  gCopyRun :: "string \<Rightarrow> string \<Rightarrow> 's \<Rightarrow> gcs_error option \<times> 's"

section \<open>Errors\<close>

definition gcs_describe :: "gcs_error \<Rightarrow> berr" where
  "gcs_describe err =
     (case err of
        GObjectNotExist \<Rightarrow> ErrNotFound
      | GBucketNotExist \<Rightarrow> ErrOther ''bucket does not exist''
      | GApi code msg \<Rightarrow>
          if code = 401 \<or> code = 403 then ErrOther ''access denied by Google Cloud Storage''
          else if code = 404 then ErrOther ''bucket does not exist''
          else if code = 412 then ErrPreconditionFailed
          else if code = 416 then ErrInvalidRange
          else ErrOther msg
      | GRaw e \<Rightarrow> e)"

section \<open>Listing, reading and writing\<close>

record gcs_backend =
  gbPrefix :: string

definition gcs_infoFor :: "string \<Rightarrow> gcs_attrs \<Rightarrow> object_info" where
  "gcs_infoFor p a =
     \<lparr>oiPath = p, oiSize = gaSize a, oiModTime = Some (gaUpdated a), oiContentType = gaContentType a,
      oiETag = QuoteETag (gaEtag a), oiIsDir = False\<rparr>"

definition gcs_Check :: "'s gcs_client \<Rightarrow> gcs_backend \<Rightarrow> 's \<Rightarrow> berr option \<times> 's" where
  "gcs_Check c b s =
     (case gNextPage c (gbPrefix b) ''/'' 1 [] s of
        (Inl e, s1) \<Rightarrow> (Some (gcs_describe e), s1)
      | (Inr _, s1) \<Rightarrow> (None, s1))"

fun gcs_entries :: "gcs_backend \<Rightarrow> bool \<Rightarrow> gcs_attrs list \<Rightarrow> object_info list" where
  "gcs_entries b keep_markers [] = []"
| "gcs_entries b keep_markers (a # as) =
     (if gaPrefix a \<noteq> [] then dir_entry (TrimPrefix (gaPrefix a) (gbPrefix b)) # gcs_entries b keep_markers as
      else if HasSuffix (gaName a) ''/'' \<and> \<not> keep_markers then gcs_entries b keep_markers as
      else gcs_infoFor (TrimPrefix (gaName a) (gbPrefix b)) a # gcs_entries b keep_markers as)"

definition gcs_List :: "'s gcs_client \<Rightarrow> gcs_backend \<Rightarrow> list_options \<Rightarrow> 's \<Rightarrow> (berr + list_result) \<times> 's" where
  "gcs_List c b opts s =
     (case CleanPrefix (loPrefix opts) of
        Inl e \<Rightarrow> (Inl e, s)
      | Inr pre \<Rightarrow>
          (case gNextPage c (gbPrefix b @ pre) (if loRecursive opts then [] else ''/'') (EffectiveLimit opts)
                  (loCursor opts) s of
             (Inl e, s1) \<Rightarrow> (Inl (gcs_describe e), s1)
           | (Inr (as, nx), s1) \<Rightarrow>
               (Inr \<lparr>lrEntries = gcs_entries b (loRecursive opts \<and> loMarkers opts) as, lrNextCursor = nx\<rparr>, s1)))"

definition gcs_read_info :: "string \<Rightarrow> gcs_read_attrs \<Rightarrow> object_info" where
  "gcs_read_info clean a =
     \<lparr>oiPath = clean, oiSize = grSize a, oiModTime = Some (grLastModified a), oiContentType = grContentType a,
      oiETag = [], oiIsDir = False\<rparr>"

definition gcs_Read :: "'s gcs_client \<Rightarrow> gcs_backend \<Rightarrow> string \<Rightarrow> 's \<Rightarrow> (berr + reader \<times> object_info) \<times> 's" where
  "gcs_Read c b p s =
     (case CleanPath p of
        Inl e \<Rightarrow> (Inl e, s)
      | Inr clean \<Rightarrow>
          (case gNewReader c (gbPrefix b @ clean) s of
             (Inl e, s1) \<Rightarrow> (Inl (gcs_describe e), s1)
           | (Inr (a, body), s1) \<Rightarrow> (Inr (body, gcs_read_info clean a), s1)))"

definition gcs_ReadRange ::
    "'s gcs_client \<Rightarrow> gcs_backend \<Rightarrow> string \<Rightarrow> byte_range \<Rightarrow> 's \<Rightarrow> (berr + reader \<times> object_info) \<times> 's" where
  "gcs_ReadRange c b p rg s =
     (case CleanPath p of
        Inl e \<Rightarrow> (Inl e, s)
      | Inr clean \<Rightarrow>
          (case gNewRangeReader c (gbPrefix b @ clean) (brStart rg) (brEnd rg - brStart rg + 1) s of
             (Inl e, s1) \<Rightarrow> (Inl (gcs_describe e), s1)
           | (Inr (a, body), s1) \<Rightarrow> (Inr (body, gcs_read_info clean a), s1)))"

definition gcs_Stat :: "'s gcs_client \<Rightarrow> gcs_backend \<Rightarrow> string \<Rightarrow> 's \<Rightarrow> (berr + object_info) \<times> 's" where
  "gcs_Stat c b p s =
     (case CleanPath p of
        Inl e \<Rightarrow> (Inl e, s)
      | Inr clean \<Rightarrow>
          (case gAttrs c (gbPrefix b @ clean) s of
             (Inl e, s1) \<Rightarrow> (Inl (gcs_describe e), s1)
           | (Inr a, s1) \<Rightarrow> (Inr (gcs_infoFor clean a), s1)))"

text \<open>An upload whose body fails is cancelled, not closed: closing would commit the part sent.\<close>

definition gcs_Write ::
    "'s gcs_client \<Rightarrow> gcs_backend \<Rightarrow> string \<Rightarrow> reader \<Rightarrow> write_options \<Rightarrow> 's \<Rightarrow> (berr + object_info) \<times> 's" where
  "gcs_Write c b p r opts s =
     (case CleanPath p of
        Inl e \<Rightarrow> (Inl e, s)
      | Inr clean \<Rightarrow>
          (case gSend c (gbPrefix b @ clean) (woCreateOnly opts) (woContentType opts) r s of
             (Some e, s1) \<Rightarrow> (Inl (gcs_describe e), s1)
           | (None, s1) \<Rightarrow>
               (case gClose c (gbPrefix b @ clean) (woCreateOnly opts) (woContentType opts) (rdBytes r) s1 of
                  (Inl e, s2) \<Rightarrow> (Inl (gcs_describe e), s2)
                | (Inr a, s2) \<Rightarrow> (Inr (gcs_infoFor clean a), s2))))"

section \<open>Folder operations and raw keys\<close>

definition gcs_Mkdir :: "'s gcs_client \<Rightarrow> gcs_backend \<Rightarrow> string \<Rightarrow> 's \<Rightarrow> berr option \<times> 's" where
  "gcs_Mkdir c b path s =
     (case CleanFolder path of
        Inl e \<Rightarrow> (Some e, s)
      | Inr folder \<Rightarrow>
          (case gClose c (gbPrefix b @ folder) False [] [] s of
             (Inl e, s1) \<Rightarrow> (Some (gcs_describe e), s1)
           | (Inr _, s1) \<Rightarrow> (None, s1)))"

definition gcs_DeleteObject :: "'s gcs_client \<Rightarrow> gcs_backend \<Rightarrow> string \<Rightarrow> 's \<Rightarrow> berr option \<times> 's" where
  "gcs_DeleteObject c b path s =
     (case CleanPath path of
        Inl e \<Rightarrow> (Some e, s)
      | Inr clean \<Rightarrow>
          (case gDelete c (gbPrefix b @ clean) s of (e, s1) \<Rightarrow> (map_option gcs_describe e, s1)))"

definition gcs_CopyKey :: "'s gcs_client \<Rightarrow> gcs_backend \<Rightarrow> string \<Rightarrow> string \<Rightarrow> 's \<Rightarrow> berr option \<times> 's" where
  "gcs_CopyKey c b src dst s =
     (case gCopyRun c (gbPrefix b @ dst) (gbPrefix b @ src) s of (e, s1) \<Rightarrow> (map_option gcs_describe e, s1))"

definition gcs_DeleteKey :: "'s gcs_client \<Rightarrow> gcs_backend \<Rightarrow> string \<Rightarrow> 's \<Rightarrow> berr option \<times> 's" where
  "gcs_DeleteKey c b key s =
     (case gDelete c (gbPrefix b @ key) s of
        (e, s1) \<Rightarrow> if e = Some GObjectNotExist then (None, s1) else (map_option gcs_describe e, s1))"

definition gcs_KeyExists :: "'s gcs_client \<Rightarrow> gcs_backend \<Rightarrow> string \<Rightarrow> 's \<Rightarrow> (berr + bool) \<times> 's" where
  "gcs_KeyExists c b key s =
     (case gAttrs c (gbPrefix b @ key) s of
        (Inr _, s1) \<Rightarrow> (Inr True, s1)
      | (Inl e, s1) \<Rightarrow> if e = GObjectNotExist then (Inr False, s1) else (Inl (gcs_describe e), s1))"

definition gcs_flat :: "'s gcs_client \<Rightarrow> gcs_backend \<Rightarrow> 's flat_ops" where
  "gcs_flat c b =
     \<lparr>foList = gcs_List c b, foCopyKey = gcs_CopyKey c b,
      foDeleteKey = gcs_DeleteKey c b, foKeyExists = gcs_KeyExists c b\<rparr>"

definition gcs_DeleteFolder ::
    "'s gcs_client \<Rightarrow> gcs_backend \<Rightarrow> string \<Rightarrow> 's \<Rightarrow> ((nat \<times> berr option) \<times> 's) option" where
  "gcs_DeleteFolder c b path s =
     (case CleanFolder path of
        Inl e \<Rightarrow> Some ((0, Some e), s)
      | Inr folder \<Rightarrow> DeleteFolderFlat (gcs_flat c b) folder s)"

definition gcs_MoveObject :: "'s gcs_client \<Rightarrow> gcs_backend \<Rightarrow> string \<Rightarrow> string \<Rightarrow> 's \<Rightarrow> berr option \<times> 's" where
  "gcs_MoveObject c b src dst s =
     (case CleanPath src of
        Inl e \<Rightarrow> (Some e, s)
      | Inr f \<Rightarrow> (case CleanPath dst of
                     Inl e \<Rightarrow> (Some e, s)
                   | Inr t \<Rightarrow> MoveObjectFlat (gcs_flat c b) f t s))"

definition gcs_MoveFolder :: "'s gcs_client \<Rightarrow> gcs_backend \<Rightarrow> string \<Rightarrow> string \<Rightarrow> 's \<Rightarrow> (berr option \<times> 's) option" where
  "gcs_MoveFolder c b src dst s =
     (case CleanFolder src of
        Inl e \<Rightarrow> Some (Some e, s)
      | Inr f \<Rightarrow> (case CleanFolder dst of
                     Inl e \<Rightarrow> Some (Some e, s)
                   | Inr t \<Rightarrow> MoveFolderFlat (gcs_flat c b) f t s))"

lemma gcs_composed: "gcs_DeleteFolder c b = cloud_DeleteFolder (gcs_flat c b)"
  "gcs_MoveObject c b = cloud_MoveObject (gcs_flat c b)" "gcs_MoveFolder c b = cloud_MoveFolder (gcs_flat c b)"
  by (simp_all add: fun_eq_iff gcs_DeleteFolder_def gcs_MoveObject_def gcs_MoveFolder_def
      cloud_DeleteFolder_def cloud_MoveObject_def cloud_MoveFolder_def)

definition gcs_methods :: "'s gcs_client \<Rightarrow> gcs_backend \<Rightarrow> 's backend" where
  "gcs_methods c b =
     \<lparr>bList = gcs_List c b, bRead = gcs_Read c b, bReadRange = gcs_ReadRange c b, bStat = gcs_Stat c b,
      bWrite = gcs_Write c b, bMkdir = gcs_Mkdir c b, bDeleteObject = gcs_DeleteObject c b,
      bDeleteFolder = gcs_DeleteFolder c b, bMoveObject = gcs_MoveObject c b,
      bMoveFolder = gcs_MoveFolder c b, bCheck = gcs_Check c b\<rparr>"

section \<open>What the service documents\<close>

text \<open>
  \<open>objs\<close>, \<open>rest\<close> and \<open>pages\<close> are as for S3.  A page of the client's pager is filled unless the
  listing ends, so a first page is empty only if nothing matches; a cancelled upload stores
  nothing.
\<close>

locale gcs_service = key_listing objs rest
  for c :: "'s gcs_client"
    and b :: gcs_backend
    and objs :: "'s \<Rightarrow> string \<Rightarrow> 'o option"
    and rest :: "'s \<Rightarrow> string \<Rightarrow> string \<Rightarrow> string list"
    and pages :: "'s \<Rightarrow> string \<Rightarrow> string \<Rightarrow> nat" +
  assumes page_objs: "gNextPage c p d n t s = (r, s') \<Longrightarrow> objs s' = objs s"
    and page_flat: "0 < n \<Longrightarrow> gNextPage c p [] n t s = (Inr (as, nx), s') \<Longrightarrow>
        (\<forall>a \<in> set as. gaPrefix a = []) \<and> rest s p t = map gaName as @ (if nx = [] then [] else rest s p nx)"
    and page_token: "0 < n \<Longrightarrow> gNextPage c p [] n t s = (Inr (as, nx), s') \<Longrightarrow> nx \<noteq> [] \<Longrightarrow>
        pages s' p nx < pages s p t"
    and page_some: "0 < n \<Longrightarrow> gNextPage c p [] n [] s = (Inr ([], nx), s') \<Longrightarrow> rest s p [] = []"
    and reader_objs: "gNewReader c k s = (g, s') \<Longrightarrow> objs s' = objs s"
    and range_objs: "gNewRangeReader c k off len s = (g, s') \<Longrightarrow> objs s' = objs s"
    and attrs_found: "gAttrs c k s = (Inr a, s') \<Longrightarrow> objs s k \<noteq> None"
    and attrs_missing: "gAttrs c k s = (Inl GObjectNotExist, s') \<Longrightarrow> objs s k = None"
    and attrs_objs: "gAttrs c k s = (q, s') \<Longrightarrow> objs s' = objs s"
    and send_objs: "gSend c k cond ct rd s = (w, s') \<Longrightarrow> objs s' = objs s"
    and send_broken: "gSend c k cond ct rd s = (w, s') \<Longrightarrow> rdErr rd \<noteq> None \<Longrightarrow> w \<noteq> None"
    and close_frame: "gClose c x cond ct body s = (cl, s') \<Longrightarrow> k \<noteq> x \<Longrightarrow> objs s' k = objs s k"
    and close_taken: "gClose c x True ct body s = (cl, s') \<Longrightarrow> objs s x \<noteq> None \<Longrightarrow> isl cl \<and> objs s' x = objs s x"
    and delete_done: "gDelete c x s = (None, s') \<Longrightarrow> objs s' = (objs s)(x := None)"
    and delete_missing: "gDelete c x s = (Some GObjectNotExist, s') \<Longrightarrow> objs s x = None \<and> objs s' = objs s"
    and delete_failed: "gDelete c x s = (Some e, s') \<Longrightarrow> k \<noteq> x \<Longrightarrow> objs s' k = objs s k"
    and copy_done: "gCopyRun c y x s = (None, s') \<Longrightarrow> objs s x \<noteq> None \<and> objs s' = (objs s)(y := objs s x)"
    and copy_failed: "gCopyRun c y x s = (Some e, s') \<Longrightarrow> k \<noteq> y \<Longrightarrow> objs s' k = objs s k"

section \<open>The kind as a key store\<close>

lemma gcs_entries_markers: "\<forall>a \<in> set as. gaPrefix a = [] \<Longrightarrow>
    map oiPath (gcs_entries b True as) = map (\<lambda>k. TrimPrefix k (gbPrefix b)) (map gaName as)"
  by (induction as) (auto simp: gcs_infoFor_def)

lemma gcs_List_page:
  assumes "clean_prefix (loPrefix opts)" "loRecursive opts" "loMarkers opts" "gcs_List c b opts s = (Inr res, s')"
  obtains as where
    "gNextPage c (gbPrefix b @ loPrefix opts) [] (EffectiveLimit opts) (loCursor opts) s = (Inr (as, lrNextCursor res), s')"
    "lrEntries res = gcs_entries b True as"
  using assms by (auto simp: gcs_List_def clean_prefix_def split: prod.splits sum.splits)

context gcs_service
begin

lemma delete_key_frame: "k \<noteq> gbPrefix b @ x \<Longrightarrow> objs (snd (gcs_DeleteKey c b x s)) k = objs s k"
proof -
  assume "k \<noteq> gbPrefix b @ x"
  moreover obtain e s' where "gDelete c (gbPrefix b @ x) s = (e, s')" by fastforce
  ultimately show ?thesis by (cases e) (auto simp: gcs_DeleteKey_def dest: delete_done delete_failed)
qed

lemma delete_object_frame: "k \<noteq> gbPrefix b @ p \<Longrightarrow> objs (snd (gcs_DeleteObject c b p s)) k = objs s k"
proof -
  assume "k \<noteq> gbPrefix b @ p"
  moreover obtain e s' where "gDelete c (gbPrefix b @ p) s = (e, s')" by fastforce
  ultimately show ?thesis
    by (cases e) (auto simp: gcs_DeleteObject_def CleanPath_Inr split: sum.splits dest: delete_done delete_failed)
qed

lemma copy_key_frame: "k \<noteq> gbPrefix b @ y \<Longrightarrow> objs (snd (gcs_CopyKey c b x y s)) k = objs s k"
proof -
  assume "k \<noteq> gbPrefix b @ y"
  moreover obtain e s' where "gCopyRun c (gbPrefix b @ y) (gbPrefix b @ x) s = (e, s')" by fastforce
  ultimately show ?thesis by (cases e) (auto simp: gcs_CopyKey_def dest: copy_done copy_failed)
qed

lemma quiet:
  "objs (snd (gcs_List c b opts s)) = objs s" "objs (snd (gcs_Read c b p s)) = objs s"
  "objs (snd (gcs_ReadRange c b p rg s)) = objs s" "objs (snd (gcs_Stat c b p s)) = objs s"
  "objs (snd (gcs_Check c b s)) = objs s" "objs (snd (gcs_KeyExists c b k s)) = objs s"
  by (auto simp: gcs_List_def gcs_Read_def gcs_ReadRange_def gcs_Stat_def gcs_Check_def gcs_KeyExists_def
      split: sum.splits prod.splits if_splits dest: page_objs reader_objs range_objs attrs_objs)

lemma write_key_frame: "k \<noteq> gbPrefix b @ p \<Longrightarrow> objs (snd (gcs_Write c b p r wo s)) k = objs s k"
proof -
  assume k: "k \<noteq> gbPrefix b @ p"
  obtain w s1 where u: "gSend c (gbPrefix b @ p) (woCreateOnly wo) (woContentType wo) r s = (w, s1)" by fastforce
  obtain q s2 where g: "gClose c (gbPrefix b @ p) (woCreateOnly wo) (woContentType wo) (rdBytes r) s1 = (q, s2)"
    by fastforce
  from send_objs [OF u] close_frame [OF g k] u g show ?thesis
    by (auto simp: gcs_Write_def CleanPath_Inr split: sum.splits option.splits)
qed

lemma mkdir_key_frame: "\<not> prefix (gbPrefix b) k \<Longrightarrow> objs (snd (gcs_Mkdir c b p s)) k = objs s k"
  by (auto simp: gcs_Mkdir_def split: sum.splits prod.splits dest!: close_frame [where k = k])

lemma create_only_keeps:
  assumes "woCreateOnly wo" "objs s (gbPrefix b @ p) = Some old"
  shows "isl (fst (gcs_Write c b p r wo s)) \<and> objs (snd (gcs_Write c b p r wo s)) = objs s"
proof -
  obtain w s1 where u: "gSend c (gbPrefix b @ p) True (woContentType wo) r s = (w, s1)" by fastforce
  obtain q s2 where g: "gClose c (gbPrefix b @ p) True (woContentType wo) (rdBytes r) s1 = (q, s2)" by fastforce
  have q: "isl q" "objs s2 (gbPrefix b @ p) = objs s1 (gbPrefix b @ p)"
    using close_taken [OF g] send_objs [OF u] assms(2) by simp_all
  with close_frame [OF g] have "objs s2 = objs s1" by (metis ext)
  with q(1) u g assms(1) send_objs [OF u] show ?thesis
    by (auto simp: gcs_Write_def CleanPath_Inr isl_def split: sum.splits option.splits)
qed

lemma broken_write:
  assumes "rdErr r \<noteq> None"
  shows "isl (fst (gcs_Write c b p r wo s)) \<and> objs (snd (gcs_Write c b p r wo s)) = objs s"
proof -
  obtain w s1 where u: "gSend c (gbPrefix b @ p) (woCreateOnly wo) (woContentType wo) r s = (w, s1)" by fastforce
  from send_broken [OF u assms] send_objs [OF u] u show ?thesis
    by (auto simp: gcs_Write_def CleanPath_Inr split: sum.splits)
qed

end

sublocale gcs_service \<subseteq> flat: flat_store "gcs_flat c b" "\<lambda>s k. objs s (gbPrefix b @ k)"
  "below (gbPrefix b)" "\<lambda>s p t. pages s (gbPrefix b @ p) t"
proof (unfold_locales, goal_cases)
  case (1 p s) show ?case by (rule below_set)
next
  case (2 p s) show ?case by (rule below_distinct)
next
  case (3 s' s) then show ?case by (rule below_view)
next
  case (4 opts s r s')
  then show ?case using quiet(1) [of opts s] by (simp add: gcs_flat_def)
next
  case (5 opts s res s')
  then obtain as where page: "gNextPage c (gbPrefix b @ loPrefix opts) [] (EffectiveLimit opts) (loCursor opts) s
      = (Inr (as, lrNextCursor res), s')" and r: "lrEntries res = gcs_entries b True as"
    by (auto simp: gcs_flat_def elim: gcs_List_page)
  have "(\<forall>a \<in> set as. gaPrefix a = []) \<and> rest s (gbPrefix b @ loPrefix opts) (loCursor opts) =
      map gaName as @ (if lrNextCursor res = [] then [] else rest s (gbPrefix b @ loPrefix opts) (lrNextCursor res))"
    using page_flat [OF _ page] EffectiveLimit_bounds [of opts] by simp
  with r show ?case by (simp add: below_def gcs_entries_markers)
next
  case (6 opts s res s')
  then obtain as where "gNextPage c (gbPrefix b @ loPrefix opts) [] (EffectiveLimit opts) (loCursor opts) s
      = (Inr (as, lrNextCursor res), s')"
    by (auto simp: gcs_flat_def elim: gcs_List_page)
  with page_token [OF _ this] EffectiveLimit_bounds [of opts] 6 show ?case by simp
next
  case (7 x y s s')
  then show ?case
    by (auto simp: gcs_flat_def gcs_CopyKey_def fun_eq_iff split: prod.splits dest!: copy_done)
next
  case (8 x y s e s' k)
  then show ?case using copy_key_frame [of "gbPrefix b @ k" y x s] by (simp add: gcs_flat_def)
next
  case (9 x s s')
  then show ?case
    by (auto simp: gcs_flat_def gcs_DeleteKey_def fun_eq_iff split: prod.splits if_splits
        dest: delete_done delete_missing)
next
  case (10 x s e s' k)
  then show ?case using delete_key_frame [of "gbPrefix b @ k" x s] by (simp add: gcs_flat_def)
next
  case (11 x s found s')
  then show ?case
    by (auto simp: gcs_flat_def gcs_KeyExists_def split: prod.splits sum.splits if_splits
        dest: attrs_found attrs_missing)
next
  case (12 x s q s')
  then show ?case using quiet(6) [of x s] by (simp add: gcs_flat_def)
next
  case (13 opts s res s')
  then obtain as where page: "gNextPage c (gbPrefix b @ loPrefix opts) [] (EffectiveLimit opts) (loCursor opts) s
      = (Inr (as, lrNextCursor res), s')" and r: "lrEntries res = gcs_entries b True as"
    by (auto simp: gcs_flat_def elim: gcs_List_page)
  have "\<forall>a \<in> set as. gaPrefix a = []"
    using page_flat [OF _ page] EffectiveLimit_bounds [of opts] by simp
  with r 13 have "as = []" using gcs_entries_markers [of as b] by simp
  with page page_some [of "EffectiveLimit opts"] EffectiveLimit_bounds [of opts] 13 show ?case
    by (simp add: below_def)
qed

sublocale gcs_service \<subseteq> store: cloud_store "gcs_flat c b" objs "gbPrefix b" "below (gbPrefix b)"
  "\<lambda>s p t. pages s (gbPrefix b @ p) t" "gcs_methods c b"
  by unfold_locales
    (simp_all add: gcs_methods_def gcs_composed gcs_flat_def quiet mkdir_key_frame write_key_frame
      delete_object_frame copy_key_frame delete_key_frame create_only_keeps broken_write)

context gcs_service
begin

lemma store_contract: "cloud_store (gcs_flat c b) objs (gbPrefix b) (below (gbPrefix b)) (\<lambda>s p t. pages s (gbPrefix b @ p) t) (gcs_methods c b)"
  by (rule store.cloud_store_axioms)

end

section \<open>The reference bucket behind the client\<close>

text \<open>
  Copies to a key of \<open>cf\<close> and deletes of a key of \<open>rf\<close> fail; a body that fails ends the
  upload before it is closed.
\<close>

definition mem_attrs :: "string \<Rightarrow> string \<Rightarrow> gcs_attrs" where
  "mem_attrs k v =
     \<lparr>gaName = k, gaPrefix = [], gaSize = int (length v), gaUpdated = 0, gaContentType = ''text/plain'',
      gaEtag = ''etag''\<rparr>"

definition mem_gcs_dir :: "string \<Rightarrow> gcs_attrs" where
  "mem_gcs_dir d = (mem_attrs [] [])\<lparr>gaPrefix := d\<rparr>"

definition mem_gcs :: "string list \<Rightarrow> string list \<Rightarrow> bucket gcs_client" where
  "mem_gcs cf rf =
     \<lparr>gNextPage = (\<lambda>p d n t s.
        (Inr (if d = [] then (case mem_page s p t n of (ks, nx) \<Rightarrow> (map (\<lambda>k. mem_attrs k []) ks, nx))
              else (case mem_delimited s p t n of
                      (ds, fs, nx) \<Rightarrow> (map mem_gcs_dir ds @ map (\<lambda>k. mem_attrs k []) fs, nx))), s)),
      gNewReader = (\<lambda>k s.
        (case map_of s k of None \<Rightarrow> Inl GObjectNotExist
         | Some v \<Rightarrow> Inr (\<lparr>grSize = int (length v), grLastModified = 0, grContentType = ''text/plain''\<rparr>,
             \<lparr>rdBytes = v, rdErr = None\<rparr>), s)),
      gNewRangeReader = (\<lambda>k off len s.
        (case map_of s k of None \<Rightarrow> Inl GObjectNotExist
         | Some v \<Rightarrow>
             if int (length v) \<le> off then Inl (GApi 416 ''range'')
             else Inr (\<lparr>grSize = int (length v), grLastModified = 0, grContentType = ''text/plain''\<rparr>,
               \<lparr>rdBytes = take (nat len) (drop (nat off) v), rdErr = None\<rparr>), s)),
      gAttrs = (\<lambda>k s. (case map_of s k of None \<Rightarrow> Inl GObjectNotExist | Some v \<Rightarrow> Inr (mem_attrs k v), s)),
      gSend = (\<lambda>_ _ _ r s. (map_option GRaw (rdErr r), s)),
      gClose = (\<lambda>k cond _ v s.
        if cond \<and> map_of s k \<noteq> None then (Inl (GApi 412 ''exists''), s) else (Inr (mem_attrs k v), mem_put k v s)),
      gDelete = (\<lambda>k s.
        if k \<in> set rf then (Some (GApi 503 ''busy''), s)
        else if map_of s k = None then (Some GObjectNotExist, s) else (None, mem_del k s)),
      gCopyRun = (\<lambda>y x s.
        case map_of s x of None \<Rightarrow> (Some GObjectNotExist, s)
        | Some v \<Rightarrow> if y \<in> set cf then (Some (GApi 503 ''busy''), s) else (None, mem_put y v s))\<rparr>"

interpretation mem_google: gcs_service "mem_gcs cf rf" b map_of mem_rest "\<lambda>s p t. length (mem_rest s p t)"
  for cf rf :: "string list" and b :: gcs_backend
proof (unfold_locales, goal_cases)
  case (1 s p) show ?case by (rule set_mem_rest)
next
  case (2 s p) show ?case by (rule mem_rest_distinct)
next
  case (3 p s' s) then show ?case by (rule mem_rest_view)
next
  case (5 n p t s as nx s')
  then show ?case
    using mem_page_rest(1) [of n s p t "fst (mem_page s p t n)" "snd (mem_page s p t n)"]
    by (auto simp: mem_gcs_def mem_attrs_def comp_def split: prod.splits)
next
  case (6 n p t s as nx s')
  then show ?case
    using mem_page_rest(2) [of n s p t "fst (mem_page s p t n)" "snd (mem_page s p t n)"]
    by (auto simp: mem_gcs_def split: prod.splits)
next
  case (7 n p s nx s')
  then show ?case
    using mem_page_rest(3) [of n s p "[]" "fst (mem_page s p [] n)" "snd (mem_page s p [] n)"]
    by (auto simp: mem_gcs_def split: prod.splits)
qed (auto simp: mem_gcs_def map_of_mem_put map_of_mem_del split: option.splits if_splits)

end
