(* ===== verification/Cloud_Claims.thy ===== *)
theory Cloud_Claims
  imports S3_Backend Azure_Backend GCS_Backend
begin

text \<open>
  What every object-store kind promises, over a service as the theory of the kind documents it:
  no method leaves the key prefix, the folder operations return, and a write that fails leaves
  nothing behind.  The last section shows what an empty first page does to a folder move.
\<close>

text \<open>\<open>cloud_kind m objs pre\<close>: \<open>m\<close> is one of the three kinds, confined to \<open>pre\<close>, over a store \<open>objs\<close>.\<close>

inductive cloud_kind :: "'s backend \<Rightarrow> ('s \<Rightarrow> string \<Rightarrow> 'o option) \<Rightarrow> string \<Rightarrow> bool" where
  s3: "s3_service c b objs rest pages \<Longrightarrow> cloud_kind (s3_methods c b) objs (sbPrefix b)"
| azure: "azure_service c objs rest pages source \<Longrightarrow> cloud_kind (az_methods c b) objs (abPrefix b)"
| gcs: "gcs_service c objs rest pages \<Longrightarrow> cloud_kind (gcs_methods c b) objs (gbPrefix b)"

lemma cloud_kind_store:
  assumes "cloud_kind m objs pre"
  obtains ops pending fuel where "cloud_store ops objs pre pending fuel m"
  using assms by cases (auto dest: s3_service.store_contract azure_service.store_contract gcs_service.store_contract)

definition demo_blobs :: bucket where
  "demo_blobs = [(''t/a/x'', ''1''), (''t/a/y'', ''2''), (''t/c/x'', ''3''), (''other'', ''4'')]"




section \<open>The properties on concrete stores\<close>

definition demo_az :: az_backend where "demo_az = \<lparr>abPrefix = ''t/''\<rparr>"
definition demo_gcs :: gcs_backend where "demo_gcs = \<lparr>gbPrefix = ''t/''\<rparr>"

lemmas cloud_run = mem_eval demo_blobs_def demo_az_def demo_gcs_def az_MoveFolder_def gcs_DeleteFolder_def
  MoveFolderFlat_def DeleteFolderFlat_def CleanPath_def
  az_methods_def az_flat_def az_List_def az_entry_def az_CopyKey_def await_copy.simps az_DeleteKey_def az_KeyExists_def
  mem_az_def az_page_def az_segment_of_def az_blob_def az_status_def az_tick_def az_forget_def az_text_def
  isFolderMarker_def az_describe_def
  gcs_methods_def gcs_flat_def gcs_List_def gcs_infoFor_def gcs_CopyKey_def gcs_DeleteKey_def gcs_KeyExists_def
  gcs_Write_def mem_gcs_def mem_attrs_def gcs_describe_def

text \<open>A folder move on Azure whose copies are pending twice before they succeed.\<close>

lemma demo_az_move:
  "bMoveFolder (az_methods (mem_az False 2 [] []) demo_az) ''a'' ''d'' (demo_blobs, []) =
     Some (None, [(''t/d/y'', ''2''), (''t/d/x'', ''1''), (''t/c/x'', ''3''), (''other'', ''4'')],
       [(''t/d/y'', 0, ''2''), (''t/d/x'', 0, ''1'')])"
  by (simp add: cloud_run)

text \<open>A delete of a folder on GCS that the service refuses half-way.\<close>

lemma demo_gcs_delete:
  "bDeleteFolder (gcs_methods (mem_gcs [] [''t/a/y'']) demo_gcs) ''a'' demo_blobs =
     Some ((1, Some (ErrOther ''busy'')), [(''t/a/y'', ''2''), (''t/c/x'', ''3''), (''other'', ''4'')])"
  by (simp add: cloud_run)




section \<open>An empty first page\<close>

text \<open>
  Azure may answer a listing with an empty page and a marker to go on from; \<open>mem_az True\<close> does,
  and is a service as documented (\<open>mem_azure\<close>).  The destination probe of \<^verbatim>\<open>MoveFolderFlat\<close> looks at
  the entries of one page only, so a move to a folder that exists is not refused: it succeeds,
  and the object \<^verbatim>\<open>c/x\<close> that was there is lost.
\<close>

lemma empty_page_move_overwrites:
  "fst (the (bMoveFolder (az_methods (mem_az True 0 [] []) demo_az) ''a'' ''c'' (demo_blobs, []))) = None"
  "map_of demo_blobs ''t/c/x'' = Some ''3''"
  "map_of (fst (snd (the (bMoveFolder (az_methods (mem_az True 0 [] []) demo_az) ''a'' ''c'' (demo_blobs, [])))))
     ''t/c/x'' = Some ''1''"
  "fst (the (bMoveFolder (az_methods (mem_az False 0 [] []) demo_az) ''a'' ''c'' (demo_blobs, []))) = Some ErrConflict"
  by (simp_all add: cloud_run)

section \<open>A copy that is given up\<close>

text \<open>
  On Azure a copy runs on after the request that waits for it was cancelled.  A folder move
  then reports an error and rolls back the copies it had finished, but not the one it gave up:
  that object stays under the destination, and the same move is refused from then on.
\<close>

lemma cancelled_copy_stays:
  "bMoveFolder (az_methods (mem_az False 20 [] []) demo_az) ''a'' ''d'' (demo_blobs, []) =
     Some (Some ErrCanceled, (''t/d/x'', ''1'') # demo_blobs, [(''t/d/x'', 9, ''1'')])"
  "fst (the (bMoveFolder (az_methods (mem_az False 0 [] []) demo_az) ''a'' ''d'' ((''t/d/x'', ''1'') # demo_blobs, []))) =
     Some ErrConflict"
  by (simp_all add: cloud_run)

end
