(* ===== verification/Conformance.thy ===== *)
theory Conformance
  imports Backend_Core
begin

text \<open>
  \<^verbatim>\<open>internal/backend/backendtest\<close>: the conformance suite every kind of backend has to pass, as
  executable predicates on a backend and its empty store.  A test is a sequence of calls with an
  expectation on each result; it passes if all of them hold (where the code stops at the first
  failure, the rest cannot change the verdict).
\<close>

section \<open>Tests\<close>

type_synonym 's test = "'s \<Rightarrow> bool \<times> 's"

fun steps :: "'s test list \<Rightarrow> 's test" where
  "steps [] s = (True, s)"
| "steps (t # ts) s = (case t s of (ok, s1) \<Rightarrow> (case steps ts s1 of (ok', s2) \<Rightarrow> (ok \<and> ok', s2)))"

definition passes :: "'s test \<Rightarrow> 's \<Rightarrow> bool" where
  "passes t s = fst (t s)"

definition expect :: "('s \<Rightarrow> 'r \<times> 's) \<Rightarrow> ('r \<Rightarrow> bool) \<Rightarrow> 's test" where
  "expect call good s = (case call s of (r, s1) \<Rightarrow> (good r, s1))"

text \<open>The folder operations may fail to return; a test then does not pass.\<close>

definition expect_return :: "('s \<Rightarrow> ('r \<times> 's) option) \<Rightarrow> ('r \<Rightarrow> bool) \<Rightarrow> 's test" where
  "expect_return call good s = (case call s of None \<Rightarrow> (False, s) | Some (r, s1) \<Rightarrow> (good r, s1))"

fun succeeds :: "berr + 'r \<Rightarrow> ('r \<Rightarrow> bool) \<Rightarrow> bool" where
  "succeeds (Inl e) good = False"
| "succeeds (Inr r) good = good r"

fun fails_with :: "berr \<Rightarrow> berr + 'r \<Rightarrow> bool" where
  "fails_with err (Inl e) = (e = err)"
| "fails_with err (Inr r) = False"

text \<open>A request body that delivers its bytes and ends.\<close>

definition body :: "string \<Rightarrow> reader" where
  "body content = \<lparr>rdBytes = content, rdErr = None\<rparr>"

definition plain :: write_options where
  "plain = \<lparr>woContentType = [], woCreateOnly = False\<rparr>"

definition typed :: "string \<Rightarrow> write_options" where
  "typed ct = \<lparr>woContentType = ct, woCreateOnly = False\<rparr>"

definition fresh_only :: write_options where
  "fresh_only = \<lparr>woContentType = [], woCreateOnly = True\<rparr>"

definition listing :: "string \<Rightarrow> bool \<Rightarrow> list_options" where
  "listing pre rec = \<lparr>loPrefix = pre, loRecursive = rec, loLimit = 0, loCursor = [], loMarkers = False\<rparr>"

definition mustWrite :: "'s backend \<Rightarrow> string \<Rightarrow> string \<Rightarrow> 's test" where
  "mustWrite b path content = expect (bWrite b path (body content) plain) (\<lambda>r. succeeds r (\<lambda>_. True))"

definition readAll :: "'s backend \<Rightarrow> string \<Rightarrow> (string \<Rightarrow> object_info \<Rightarrow> bool) \<Rightarrow> 's test" where
  "readAll b path good =
     expect (bRead b path) (\<lambda>r. succeeds r (\<lambda>(rc, info). rdErr rc = None \<and> good (rdBytes rc) info))"

definition reads :: "'s backend \<Rightarrow> string \<Rightarrow> string \<Rightarrow> 's test" where
  "reads b path content = readAll b path (\<lambda>data _. data = content)"

definition paths :: "object_info list \<Rightarrow> string list" where
  "paths entries = sort (map oiPath entries)"

definition assertPaths :: "object_info list \<Rightarrow> string list \<Rightarrow> bool" where
  "assertPaths entries want = (paths entries = sort want)"

definition lists :: "'s backend \<Rightarrow> string \<Rightarrow> bool \<Rightarrow> (object_info list \<Rightarrow> bool) \<Rightarrow> 's test" where
  "lists b pre rec good = expect (bList b (listing pre rec)) (\<lambda>r. succeeds r (\<lambda>res. good (lrEntries res)))"

definition isDirPath :: "string \<Rightarrow> bool" where
  "isDirPath p = (p \<noteq> [] \<and> last p = slash)"

section \<open>Reading, writing and listing\<close>

definition checkSucceeds :: "'s backend \<Rightarrow> 's test" where
  "checkSucceeds b = expect (bCheck b) (\<lambda>e. e = None)"

definition writeThenRead :: "'s backend \<Rightarrow> 's test" where
  "writeThenRead b = steps
     [expect (bWrite b ''greeting.txt'' (body ''hello, booth'') (typed ''text/plain''))
        (\<lambda>r. succeeds r (\<lambda>info. oiPath info = ''greeting.txt'' \<and> oiSize info = 12)),
      readAll b ''greeting.txt''
        (\<lambda>data info. data = ''hello, booth'' \<and> oiPath info = ''greeting.txt'' \<and> oiSize info = 12)]"

definition writeOverwrites :: "'s backend \<Rightarrow> 's test" where
  "writeOverwrites b = steps
     [mustWrite b ''f.txt'' ''first version, longer'', mustWrite b ''f.txt'' ''second'',
      readAll b ''f.txt'' (\<lambda>data info. data = ''second'' \<and> oiSize info = 6)]"

definition writeEmptyObject :: "'s backend \<Rightarrow> 's test" where
  "writeEmptyObject b = steps
     [mustWrite b ''empty'' [], readAll b ''empty'' (\<lambda>data info. data = [] \<and> oiSize info = 0)]"

definition writeNestedPath :: "'s backend \<Rightarrow> 's test" where
  "writeNestedPath b = steps [mustWrite b ''a/b/c/deep.txt'' ''deep'', reads b ''a/b/c/deep.txt'' ''deep'']"

definition readMissingIsNotFound :: "'s backend \<Rightarrow> 's test" where
  "readMissingIsNotFound b = steps
     [expect (bRead b ''nope.txt'') (fails_with ErrNotFound),
      expect (bRead b ''no/such/dir/nope.txt'') (fails_with ErrNotFound)]"

definition bad_paths :: "string list" where
  "bad_paths =
     [[], ''../escape'', ''a/../../escape'', ''a/./b'', ''a//b'', ''/../x'', ''/leading'', ''//double'', ''trailing/'',
      ''back'' @ CHR 0x5C # ''slash'', ''nul'' @ CHR 0x00 # ''byte'']"

definition invalidPathsRejected :: "'s backend \<Rightarrow> 's test" where
  "invalidPathsRejected b = steps
     (concat (map (\<lambda>p. [expect (bRead b p) (fails_with ErrInvalidPath),
                         expect (bWrite b p (body ''x'') plain) (fails_with ErrInvalidPath)]) bad_paths) @
      map (\<lambda>p. expect (bList b (listing p False)) (fails_with ErrInvalidPath))
        [''../'', ''a/../b'', ''a//b'', ''/leading'', ''//'', ''back'' @ CHR 0x5C # ''slash''])"

definition listEmptyPrefix :: "'s backend \<Rightarrow> 's test" where
  "listEmptyPrefix b = steps
     [expect (bList b (listing [] False)) (\<lambda>r. succeeds r (\<lambda>res. lrEntries res = [] \<and> lrNextCursor res = [])),
      lists b ''does/not/exist'' False (\<lambda>es. es = [])]"

definition seedTree :: "'s backend \<Rightarrow> 's test" where
  "seedTree b = steps (map (\<lambda>p. mustWrite b p ''x'')
     [''top.txt'', ''data/one.csv'', ''data/two.csv'', ''data/sub/three.csv'', ''logs/app.log''])"

definition listNonRecursiveShowsDirs :: "'s backend \<Rightarrow> 's test" where
  "listNonRecursiveShowsDirs b = steps
     (seedTree b #
      lists b [] False (\<lambda>es. assertPaths es [''top.txt'', ''data/'', ''logs/''] \<and>
        list_all (\<lambda>e. isDirPath (oiPath e) = oiIsDir e) es) #
      map (\<lambda>pre. lists b pre False (\<lambda>es. assertPaths es [''data/one.csv'', ''data/two.csv'', ''data/sub/'']))
        [''data'', ''data/''])"

definition listRecursive :: "'s backend \<Rightarrow> 's test" where
  "listRecursive b = steps
     [seedTree b,
      lists b [] True (\<lambda>es.
        assertPaths es [''top.txt'', ''data/one.csv'', ''data/two.csv'', ''data/sub/three.csv'', ''logs/app.log''] \<and>
        list_all (\<lambda>e. \<not> oiIsDir e) es),
      lists b ''data'' True (\<lambda>es. assertPaths es [''data/one.csv'', ''data/two.csv'', ''data/sub/three.csv''])]"

definition listPrefixIsDirBoundary :: "'s backend \<Rightarrow> 's test" where
  "listPrefixIsDirBoundary b = steps
     [mustWrite b ''a/b/x.txt'' ''x'', mustWrite b ''a/bc/y.txt'' ''y'',
      lists b ''a/b'' True (\<lambda>es. assertPaths es [''a/b/x.txt''])]"

text \<open>The loop over at most \<open>n\<close> pages: the paths collected, \<^const>\<open>None\<close> if a page is an error or too long.\<close>

fun page_paths :: "'s backend \<Rightarrow> nat \<Rightarrow> string \<Rightarrow> string list \<Rightarrow> 's \<Rightarrow> string list option \<times> 's" where
  "page_paths b 0 cursor got s = (Some got, s)"
| "page_paths b (Suc n) cursor got s =
     (case bList b \<lparr>loPrefix = ''p'', loRecursive = False, loLimit = 2, loCursor = cursor, loMarkers = False\<rparr> s of
        (Inl e, s1) \<Rightarrow> (None, s1)
      | (Inr res, s1) \<Rightarrow>
          if length (lrEntries res) > 2 then (None, s1)
          else if lrNextCursor res = [] then (Some (got @ paths (lrEntries res)), s1)
          else page_paths b n (lrNextCursor res) (got @ paths (lrEntries res)) s1)"

definition listPagination :: "'s backend \<Rightarrow> 's test" where
  "listPagination b = steps
     (map (\<lambda>p. mustWrite b p ''x'') [''p/0'', ''p/1'', ''p/2'', ''p/3'', ''p/4''] @
      [expect (page_paths b 10 [] [])
         (\<lambda>r. map_option sort r = Some [''p/0'', ''p/1'', ''p/2'', ''p/3'', ''p/4''])])"

text \<open>\<^verbatim>\<open>erroringReader\<close>: 64 KiB, then an error that is none of the sentinels.\<close>

definition errSimulated :: berr where "errSimulated = ErrOther ''simulated mid-upload failure''"

definition erroringReader :: reader where
  "erroringReader = \<lparr>rdBytes = replicate (64 * 1024) CHR ''z'', rdErr = Some errSimulated\<rparr>"

definition failed_upload :: "reader \<Rightarrow> 's backend \<Rightarrow> 's test" where
  "failed_upload r b = steps
     [expect (bWrite b ''partial.bin'' r plain) isl,
      expect (bRead b ''partial.bin'') (fails_with ErrNotFound),
      lists b [] True (\<lambda>es. es = [])]"

definition failedWriteLeavesNoObject :: "'s backend \<Rightarrow> 's test" where
  "failedWriteLeavesNoObject b = failed_upload erroringReader b"

text \<open>The payload of the large object is random: 17 MiB of any content.\<close>

definition largeObjectRoundTrip :: "string \<Rightarrow> 's backend \<Rightarrow> 's test" where
  "largeObjectRoundTrip payload b = steps
     [expect (bWrite b ''big.bin'' (body payload) plain) (\<lambda>r. succeeds r (\<lambda>info. oiSize info = int (length payload))),
      reads b ''big.bin'' payload]"

definition binary_round_trip :: "string \<Rightarrow> 's backend \<Rightarrow> 's test" where
  "binary_round_trip payload b = steps
     [expect (bWrite b ''bytes.bin'' (body payload) (typed ''application/octet-stream'')) (\<lambda>r. succeeds r (\<lambda>_. True)),
      reads b ''bytes.bin'' payload]"

definition contentIsBinarySafe :: "'s backend \<Rightarrow> 's test" where
  "contentIsBinarySafe b = binary_round_trip (map (\<lambda>i. char_of (i mod 256)) [0..<4096]) b"

definition special_paths :: "string list" where
  "special_paths =
     [''with space.txt'',
      ''unicode-'' @ [CHR 0xC3, CHR 0xA9, CHR ''-'', CHR 0xE6, CHR 0x97, CHR 0xA5, CHR 0xE6, CHR 0x9C, CHR 0xAC] @ ''.txt'',
      ''plus+and&amp=eq.txt'', ''dir with space/file.txt'']"

definition specialCharactersInPath :: "'s backend \<Rightarrow> 's test" where
  "specialCharactersInPath b = steps
     (concat (map (\<lambda>p. [mustWrite b p p, reads b p p]) special_paths) @
      [lists b [] True (\<lambda>es. assertPaths es special_paths)])"

section \<open>Folders, deletes and moves\<close>

text \<open>\<^verbatim>\<open>dirEntries\<close>: the listing of one folder as a map from path to \<^verbatim>\<open>IsDir\<close>.\<close>

definition dirEntries :: "'s backend \<Rightarrow> string \<Rightarrow> ((string \<times> bool) list \<Rightarrow> bool) \<Rightarrow> 's test" where
  "dirEntries b pre good = lists b pre False (\<lambda>es. good (map (\<lambda>e. (oiPath e, oiIsDir e)) es))"

definition is_dir_in :: "(string \<times> bool) list \<Rightarrow> string \<Rightarrow> bool" where
  "is_dir_in got p = (map_of (rev got) p = Some True)"

definition distinct_paths :: "(string \<times> bool) list \<Rightarrow> nat" where
  "distinct_paths got = length (remdups (map fst got))"

definition mkdirCreatesEmptyFolder :: "'s backend \<Rightarrow> 's test" where
  "mkdirCreatesEmptyFolder b = steps
     [expect (bMkdir b ''reports/2026'') (\<lambda>e. e = None),
      dirEntries b [] (\<lambda>got. is_dir_in got ''reports/''),
      dirEntries b ''reports'' (\<lambda>got. is_dir_in got ''reports/2026/''),
      dirEntries b ''reports/2026'' (\<lambda>got. got = []),
      lists b [] True (\<lambda>es. es = []),
      mustWrite b ''reports/2026/q1.csv'' ''x'',
      dirEntries b ''reports/2026'' (\<lambda>got. distinct_paths got = 1 \<and> \<not> is_dir_in got ''reports/2026/q1.csv'')]"

definition mkdirIsIdempotent :: "'s backend \<Rightarrow> 's test" where
  "mkdirIsIdempotent b = steps
     [expect (bMkdir b ''same'') (\<lambda>e. e = None), expect (bMkdir b ''same'') (\<lambda>e. e = None),
      mustWrite b ''keep/f.txt'' ''x'', expect (bMkdir b ''keep'') (\<lambda>e. e = None), reads b ''keep/f.txt'' ''x'']"

definition mkdirRejectsInvalidPaths :: "'s backend \<Rightarrow> 's test" where
  "mkdirRejectsInvalidPaths b = steps (map (\<lambda>p. expect (bMkdir b p) (\<lambda>e. e = Some ErrInvalidPath))
     [[], ''/'', ''..'', ''a/../b'', ''a//b'', ''/abs'', ''back'' @ CHR 0x5C # ''slash'', ''nul'' @ CHR 0x00 # ''byte''])"

definition deleteObjectRemovesOnlyThatOne :: "'s backend \<Rightarrow> 's test" where
  "deleteObjectRemovesOnlyThatOne b = steps
     [mustWrite b ''a/x.txt'' ''x'', mustWrite b ''a/y.txt'' ''y'', expect (bDeleteObject b ''a/x.txt'') (\<lambda>e. e = None),
      expect (bRead b ''a/x.txt'') (fails_with ErrNotFound), reads b ''a/y.txt'' ''y'']"

definition deleteObjectMissingIsNotFound :: "'s backend \<Rightarrow> 's test" where
  "deleteObjectMissingIsNotFound b = steps
     ([expect (bDeleteObject b ''nope.txt'') (\<lambda>e. e = Some ErrNotFound), mustWrite b ''dir/f.txt'' ''x'',
       expect (bDeleteObject b ''dir'') (\<lambda>e. e = Some ErrNotFound),
       expect (bRead b ''dir/f.txt'') (\<lambda>r. \<not> isl r)] @
      map (\<lambda>p. expect (bDeleteObject b p) (\<lambda>e. e = Some ErrInvalidPath)) [[], ''../x'', ''a//b'', ''/x'', ''trailing/''])"

definition deleteFolderRemovesTree :: "'s backend \<Rightarrow> 's test" where
  "deleteFolderRemovesTree b = steps
     [seedTree b, expect (bMkdir b ''data/emptysub'') (\<lambda>e. e = None),
      expect_return (bDeleteFolder b ''data'') (\<lambda>(n, e). e = None \<and> n = 3),
      dirEntries b [] (\<lambda>got. \<not> is_dir_in got ''data/'' \<and> distinct_paths got = 2),
      lists b [] True (\<lambda>es. assertPaths es [''top.txt'', ''logs/app.log''])]"

definition deleteFolderHonoursDirBoundary :: "'s backend \<Rightarrow> 's test" where
  "deleteFolderHonoursDirBoundary b = steps
     [mustWrite b ''a/b/x.txt'' ''x'', mustWrite b ''a/bc/y.txt'' ''y'',
      expect_return (bDeleteFolder b ''a/b'') (\<lambda>(_, e). e = None), reads b ''a/bc/y.txt'' ''y'']"

definition deleteFolderMissingAndRoot :: "'s backend \<Rightarrow> 's test" where
  "deleteFolderMissingAndRoot b = steps
     ([mustWrite b ''keep.txt'' ''x'',
       expect_return (bDeleteFolder b ''no/such'') (\<lambda>(_, e). e = Some ErrNotFound)] @
      map (\<lambda>p. expect_return (bDeleteFolder b p) (\<lambda>(_, e). e = Some ErrInvalidPath)) [[], ''/'', ''.''] @
      [expect (bRead b ''keep.txt'') (\<lambda>r. \<not> isl r),
       expect_return (bDeleteFolder b ''keep.txt'') (\<lambda>(_, e). e = Some ErrNotFound),
       expect (bRead b ''keep.txt'') (\<lambda>r. \<not> isl r)])"

definition moveObjectRenames :: "'s backend \<Rightarrow> 's test" where
  "moveObjectRenames b = steps
     ([expect (bWrite b ''old/name.csv'' (body ''payload'') (typed ''text/csv'')) (\<lambda>r. \<not> isl r),
       expect (bMoveObject b ''old/name.csv'' ''new/place/renamed.csv'') (\<lambda>e. e = None),
       readAll b ''new/place/renamed.csv'' (\<lambda>data info. data = ''payload'' \<and> oiPath info = ''new/place/renamed.csv''),
       expect (bRead b ''old/name.csv'') (fails_with ErrNotFound),
       expect (bMoveObject b ''missing.txt'' ''x.txt'') (\<lambda>e. e = Some ErrNotFound)] @
      map (\<lambda>(src, dst). expect (bMoveObject b src dst) (\<lambda>e. e = Some ErrInvalidPath))
        [(''a'', ''../b''), (''../a'', ''b''), (''a'', ''/b''), (''a'', []), (''a'', ''b/'')])"

definition moveObjectNeverClobbers :: "'s backend \<Rightarrow> 's test" where
  "moveObjectNeverClobbers b = steps
     [mustWrite b ''src.txt'' ''source'', mustWrite b ''dst.txt'' ''precious'',
      expect (bMoveObject b ''src.txt'' ''dst.txt'') (\<lambda>e. e = Some ErrConflict),
      reads b ''dst.txt'' ''precious'', reads b ''src.txt'' ''source'']"

definition moveFolderMovesWholeTree :: "'s backend \<Rightarrow> 's test" where
  "moveFolderMovesWholeTree b = steps
     [seedTree b, expect (bMkdir b ''data/emptysub'') (\<lambda>e. e = None),
      expect_return (bMoveFolder b ''data'' ''archive/2026'') (\<lambda>e. e = None),
      lists b ''archive'' True (\<lambda>es.
        assertPaths es [''archive/2026/one.csv'', ''archive/2026/two.csv'', ''archive/2026/sub/three.csv'']),
      dirEntries b ''archive/2026'' (\<lambda>got. is_dir_in got ''archive/2026/emptysub/''),
      reads b ''archive/2026/sub/three.csv'' ''x'',
      dirEntries b [] (\<lambda>got. \<not> is_dir_in got ''data/''),
      expect (bRead b ''top.txt'') (\<lambda>r. \<not> isl r)]"

definition moveFolderNeverClobbers :: "'s backend \<Rightarrow> 's test" where
  "moveFolderNeverClobbers b = steps
     [mustWrite b ''from/a.txt'' ''a'', mustWrite b ''to/existing.txt'' ''keep me'',
      expect_return (bMoveFolder b ''from'' ''to'') (\<lambda>e. e = Some ErrConflict),
      reads b ''to/existing.txt'' ''keep me'', reads b ''from/a.txt'' ''a'',
      expect (bMkdir b ''emptydst'') (\<lambda>e. e = None),
      expect_return (bMoveFolder b ''from'' ''emptydst'') (\<lambda>e. e = Some ErrConflict)]"

definition moveFolderEdgeCases :: "'s backend \<Rightarrow> 's test" where
  "moveFolderEdgeCases b = steps
     ([mustWrite b ''a/x.txt'' ''x'', mustWrite b ''ab/y.txt'' ''y'',
       expect_return (bMoveFolder b ''a'' ''a/inner'') (\<lambda>e. e = Some ErrInvalidPath),
       expect_return (bMoveFolder b ''missing'' ''x'') (\<lambda>e. e = Some ErrNotFound)] @
      map (\<lambda>(src, dst). expect_return (bMoveFolder b src dst) (\<lambda>e. e = Some ErrInvalidPath))
        [([], ''x''), (''a'', []), (''a'', ''../b''), (''/a'', ''b'')] @
      [expect_return (bMoveFolder b ''a'' ''ab2'') (\<lambda>e. e = None), reads b ''ab/y.txt'' ''y'', reads b ''ab2/x.txt'' ''x'',
       mustWrite b ''file.txt'' ''f'',
       expect_return (bMoveFolder b ''file.txt'' ''elsewhere'') (\<lambda>e. e = Some ErrNotFound)])"

definition listPrefixNamingAFileIsEmpty :: "'s backend \<Rightarrow> 's test" where
  "listPrefixNamingAFileIsEmpty b = steps
     ([mustWrite b ''hello.txt'' ''hi'', mustWrite b ''dir/real.txt'' ''x''] @
      concat (map (\<lambda>pre. [lists b pre False (\<lambda>es. es = []), lists b pre True (\<lambda>es. es = [])])
        [''hello.txt'', ''hello.txt/'', ''hello.txt/sub'', ''dir/real.txt'']) @
      [reads b ''hello.txt'' ''hi'',
       dirEntries b ''dir'' (\<lambda>got. distinct_paths got = 1 \<and> map_of (rev got) ''dir/real.txt'' = Some False)])"

definition readThroughAFileIsNotFound :: "'s backend \<Rightarrow> 's test" where
  "readThroughAFileIsNotFound b = steps
     (mustWrite b ''report.csv'' ''x'' #
      concat (map (\<lambda>p. [expect (bRead b p) (fails_with ErrNotFound), expect (bDeleteObject b p) (\<lambda>e. e = Some ErrNotFound)])
        [''report.csv/inner.txt'', ''report.csv/a/b.txt'']) @
      [reads b ''report.csv'' ''x''])"

section \<open>Create-only writes\<close>

definition createOnlySucceedsOnNewKey :: "'s backend \<Rightarrow> 's test" where
  "createOnlySucceedsOnNewKey b = steps
     [expect (bWrite b ''fresh.txt'' (body ''first'') fresh_only)
        (\<lambda>r. succeeds r (\<lambda>info. oiPath info = ''fresh.txt'' \<and> oiSize info = 5)),
      reads b ''fresh.txt'' ''first'']"

definition createOnlyRejectsExistingObject :: "'s backend \<Rightarrow> 's test" where
  "createOnlyRejectsExistingObject b = steps
     [mustWrite b ''taken.txt'' ''original'',
      expect (bWrite b ''taken.txt'' (body ''overwrite attempt'') fresh_only) (fails_with ErrPreconditionFailed)]"

definition createOnlyNeverClobbersOnConflict :: "'s backend \<Rightarrow> 's test" where
  "createOnlyNeverClobbersOnConflict b = steps
     [mustWrite b ''keep.txt'' ''the original, kept'',
      expect (bWrite b ''keep.txt'' (body ''x'') fresh_only) (fails_with ErrPreconditionFailed),
      readAll b ''keep.txt'' (\<lambda>data info. data = ''the original, kept'' \<and> oiSize info = 18)]"

text \<open>The eight writers, in the order in which their calls take effect (\<open>Write\<close> is atomic in the model).\<close>

fun race :: "'s backend \<Rightarrow> string \<Rightarrow> nat \<Rightarrow> nat \<Rightarrow> nat \<Rightarrow> 's \<Rightarrow> (nat \<times> nat \<times> nat) \<times> 's" where
  "race b [] succeeded refused other s = ((succeeded, refused, other), s)"
| "race b (w # ws) succeeded refused other s =
     (case bWrite b ''race.txt'' (body (''writer '' @ [w])) fresh_only s of
        (Inr _, s1) \<Rightarrow> race b ws (Suc succeeded) refused other s1
      | (Inl e, s1) \<Rightarrow>
          if e = ErrPreconditionFailed then race b ws succeeded (Suc refused) other s1
          else race b ws succeeded refused (Suc other) s1)"

definition createOnlyConcurrentSameKeyRace :: "string \<Rightarrow> 's backend \<Rightarrow> 's test" where
  "createOnlyConcurrentSameKeyRace order b = steps
     [expect (race b order 0 0 0) (\<lambda>(n, refused, other). n = 1 \<and> other = 0 \<and> refused + n + other = 8),
      expect (bRead b ''race.txt'') (\<lambda>r. \<not> isl r)]"

section \<open>Ranges and Stat\<close>

definition statMatchesWriteAndRead :: "'s backend \<Rightarrow> 's test" where
  "statMatchesWriteAndRead b s =
     (case bWrite b ''stat.txt'' (body ''hello, stat'') (typed ''text/plain'') s of
        (Inl e, s1) \<Rightarrow> (False, s1)
      | (Inr written, s1) \<Rightarrow>
          (case bStat b ''stat.txt'' s1 of
             (Inl e, s2) \<Rightarrow> (False, s2)
           | (Inr st, s2) \<Rightarrow>
               steps [\<lambda>s. (oiPath st = ''stat.txt'' \<and> oiSize st = oiSize written, s),
                 readAll b ''stat.txt'' (\<lambda>_ info. oiSize st = oiSize info)] s2))"

definition statMissingIsNotFound :: "'s backend \<Rightarrow> 's test" where
  "statMissingIsNotFound b = expect (bStat b ''nope.txt'') (fails_with ErrNotFound)"

definition rangeContent :: string where "rangeContent = ''0123456789abcdefghij''"

definition readRangeSlice :: "'s backend \<Rightarrow> int \<Rightarrow> int \<Rightarrow> string \<Rightarrow> 's test" where
  "readRangeSlice b from to want = steps
     [mustWrite b ''range.txt'' rangeContent,
      expect (bReadRange b ''range.txt'' \<lparr>brStart = from, brEnd = to\<rparr>)
        (\<lambda>r. succeeds r (\<lambda>(rc, _). rdErr rc = None \<and> int (length (rdBytes rc)) = to - from + 1 \<and> rdBytes rc = want))]"

definition readRangeMiddleSlice :: "'s backend \<Rightarrow> 's test" where
  "readRangeMiddleSlice b = readRangeSlice b 5 9 ''56789''"

definition readRangeFromStart :: "'s backend \<Rightarrow> 's test" where
  "readRangeFromStart b = readRangeSlice b 0 3 ''0123''"

definition readRangeToEnd :: "'s backend \<Rightarrow> 's test" where
  "readRangeToEnd b = readRangeSlice b 15 19 ''fghij''"

definition readRangeSingleByte :: "'s backend \<Rightarrow> 's test" where
  "readRangeSingleByte b = readRangeSlice b 7 7 ''7''"

definition readRangeWholeObject :: "'s backend \<Rightarrow> 's test" where
  "readRangeWholeObject b = readRangeSlice b 0 19 rangeContent"

definition readRangeOutOfBoundsIsInvalidRange :: "'s backend \<Rightarrow> 's test" where
  "readRangeOutOfBoundsIsInvalidRange b = steps
     (mustWrite b ''range.txt'' rangeContent #
      map (\<lambda>(from, to). expect (bReadRange b ''range.txt'' \<lparr>brStart = from, brEnd = to\<rparr>) (fails_with ErrInvalidRange))
        [(20, 24), (30, 40)])"

definition readRangeETagMatchesWholeRead :: "'s backend \<Rightarrow> 's test" where
  "readRangeETagMatchesWholeRead b s =
     (case mustWrite b ''range.txt'' rangeContent s of
        (False, s1) \<Rightarrow> (False, s1)
      | (True, s1) \<Rightarrow>
          (case bRead b ''range.txt'' s1 of
             (Inl e, s2) \<Rightarrow> (False, s2)
           | (Inr (_, whole), s2) \<Rightarrow>
               if oiETag whole = [] then (True, s2)
               else expect (bReadRange b ''range.txt'' \<lparr>brStart = 2, brEnd = 5\<rparr>)
                      (\<lambda>r. succeeds r (\<lambda>(_, partial). oiETag partial = oiETag whole)) s2))"

section \<open>The suite\<close>

text \<open>The tests of \<^verbatim>\<open>Run\<close>, each on a fresh backend; the race and the large object come last, for every
  order of the writers and every payload.\<close>

definition basic_tests :: "('s backend \<Rightarrow> 's test) list" where
  "basic_tests =
     [checkSucceeds, writeThenRead, writeOverwrites, writeEmptyObject, writeNestedPath, readMissingIsNotFound,
      invalidPathsRejected, listEmptyPrefix, listNonRecursiveShowsDirs, listRecursive, listPrefixIsDirBoundary,
      listPagination, specialCharactersInPath]"

definition bulk_tests :: "('s backend \<Rightarrow> 's test) list" where
  "bulk_tests = [failedWriteLeavesNoObject, contentIsBinarySafe]"

definition writeTests :: "('s backend \<Rightarrow> 's test) list" where
  "writeTests =
     [mkdirCreatesEmptyFolder, mkdirIsIdempotent, mkdirRejectsInvalidPaths, deleteObjectRemovesOnlyThatOne,
      deleteObjectMissingIsNotFound, deleteFolderRemovesTree, deleteFolderHonoursDirBoundary, deleteFolderMissingAndRoot,
      moveObjectRenames, moveObjectNeverClobbers, moveFolderMovesWholeTree, moveFolderNeverClobbers, moveFolderEdgeCases,
      listPrefixNamingAFileIsEmpty, readThroughAFileIsNotFound]"

definition createOnlyTests :: "('s backend \<Rightarrow> 's test) list" where
  "createOnlyTests =
     [createOnlySucceedsOnNewKey, createOnlyRejectsExistingObject, createOnlyNeverClobbersOnConflict]"

definition rangeTests :: "('s backend \<Rightarrow> 's test) list" where
  "rangeTests =
     [statMatchesWriteAndRead, statMissingIsNotFound, readRangeMiddleSlice, readRangeFromStart, readRangeToEnd,
      readRangeSingleByte, readRangeWholeObject, readRangeOutOfBoundsIsInvalidRange, readRangeETagMatchesWholeRead]"

definition pass_all :: "('s backend \<Rightarrow> 's test) list \<Rightarrow> 's backend \<Rightarrow> 's \<Rightarrow> bool" where
  "pass_all tests b fresh \<longleftrightarrow> list_all (\<lambda>t. passes (t b) fresh) tests"

definition conforms :: "'s backend \<Rightarrow> 's \<Rightarrow> bool" where
  "conforms b fresh \<longleftrightarrow>
     pass_all (basic_tests @ bulk_tests @ writeTests @ createOnlyTests @ rangeTests) b fresh \<and>
     (\<forall>order. distinct order \<and> set order = set ''ABCDEFGH'' \<longrightarrow> passes (createOnlyConcurrentSameKeyRace order b) fresh) \<and>
     (\<forall>payload. length payload = 17 * 2 ^ 20 \<longrightarrow> passes (largeObjectRoundTrip payload b) fresh)"

lemma eight_writers:
  assumes "distinct order" "set order = set ''ABCDEFGH''"
  obtains w1 w2 w3 w4 w5 w6 w7 w8 where "order = [w1, w2, w3, w4, w5, w6, w7, w8]"
proof -
  have "length order = card (set order)" using assms(1) by (simp add: distinct_card)
  then have "length order = 8" by (simp add: assms(2))
  then show ?thesis using that by (auto simp: eval_nat_numeral length_Suc_conv)
qed

lemma conformsI:
  assumes "pass_all basic_tests b fresh" "pass_all writeTests b fresh" "pass_all createOnlyTests b fresh"
    "pass_all rangeTests b fresh" "\<And>content. passes (failed_upload \<lparr>rdBytes = content, rdErr = Some errSimulated\<rparr> b) fresh"
    "\<And>payload. passes (binary_round_trip payload b) fresh" "\<And>payload. passes (largeObjectRoundTrip payload b) fresh"
    "\<And>w1 w2 w3 w4 w5 w6 w7 w8. passes (createOnlyConcurrentSameKeyRace [w1, w2, w3, w4, w5, w6, w7, w8] b) fresh"
  shows "conforms b fresh"
proof -
  have "pass_all bulk_tests b fresh"
    using assms(5,6) by (simp add: pass_all_def bulk_tests_def failedWriteLeavesNoObject_def erroringReader_def contentIsBinarySafe_def)
  moreover have "passes (createOnlyConcurrentSameKeyRace order b) fresh" if "distinct order" "set order = set ''ABCDEFGH''" for order
    using eight_writers [OF that] assms(8) by metis
  ultimately show ?thesis using assms(1-4,7) by (simp add: conforms_def pass_all_def)
qed

end
