(* ===== verification/Fs_Tree.thy ===== *)
theory Fs_Tree
  imports Backend_Core
begin

text \<open>
  A directory tree and the calls of Go's \<^verbatim>\<open>os.Root\<close> on it, as the filesystem kind uses them.
  A path is the list of its segments below the root.  Nodes are regular files (content and
  modification time), directories, and special files (devices, sockets, links, which the
  backend never follows or lists); symbolic links that stay inside the root are not modelled.
\<close>

section \<open>Trees\<close>

datatype node = File string int | Dir "(string \<times> node) list" | Special

datatype fs_err = ENOENT | ENOTDIR | EEXIST | EISDIR | ENOTEMPTY | EINVAL | EESCAPE | EIO string

fun wf_tree :: "node \<Rightarrow> bool" where
  "wf_tree (Dir es) \<longleftrightarrow> distinct (map fst es) \<and>
     (\<forall>e \<in> set es. fst e \<noteq> [] \<and> slash \<notin> set (fst e) \<and> wf_tree (snd e))"
| "wf_tree _ \<longleftrightarrow> True"

fun is_dir :: "node \<Rightarrow> bool" where
  "is_dir (Dir _) = True" | "is_dir _ = False"

fun is_regular :: "node \<Rightarrow> bool" where
  "is_regular (File _ _) = True" | "is_regular _ = False"

fun get :: "node \<Rightarrow> string list \<Rightarrow> fs_err + node" where
  "get n [] = Inr n"
| "get (Dir es) (k # ks) = (case map_of es k of None \<Rightarrow> Inl ENOENT | Some m \<Rightarrow> get m ks)"
| "get _ (_ # _) = Inl ENOTDIR"

text \<open>Entry updates in one directory, and at the end of a path whose parent is a directory.\<close>

definition upd_entry :: "string \<Rightarrow> node option \<Rightarrow> (string \<times> node) list \<Rightarrow> (string \<times> node) list" where
  "upd_entry k x es = (case x of None \<Rightarrow> [] | Some m \<Rightarrow> [(k, m)]) @ filter (\<lambda>e. fst e \<noteq> k) es"

fun set_at :: "string list \<Rightarrow> node option \<Rightarrow> node \<Rightarrow> node" where
  "set_at [k] x (Dir es) = Dir (upd_entry k x es)"
| "set_at (k # ks) x (Dir es) =
     (case map_of es k of None \<Rightarrow> Dir es | Some m \<Rightarrow> Dir (upd_entry k (Some (set_at ks x m)) es))"
| "set_at _ _ n = n"

lemma map_of_upd [simp]: "map_of (upd_entry k x es) = (map_of es)(k := x)"
  by (auto simp: upd_entry_def map_of_filter_ne split: option.splits)

lemma upd_entry_names:
  "distinct (map fst es) \<Longrightarrow> distinct (map fst (upd_entry k x es))"
  by (auto simp: upd_entry_def distinct_map_filter split: option.splits)

lemma wf_get: "wf_tree t \<Longrightarrow> get t p = Inr n \<Longrightarrow> wf_tree n"
proof (induction t p rule: get.induct)
  case (2 es k ks)
  then obtain m where m: "map_of es k = Some m" "get m ks = Inr n" by (auto split: option.splits)
  then have "wf_tree m" using 2(2) map_of_SomeD [OF m(1)] by auto
  with 2(1) m show ?case by blast
qed auto

lemma wf_set_at:
  "wf_tree t \<Longrightarrow> (\<And>m. x = Some m \<Longrightarrow> wf_tree m) \<Longrightarrow> \<forall>k \<in> set p. k \<noteq> [] \<and> slash \<notin> set k \<Longrightarrow>
     wf_tree (set_at p x t)"
proof (induction p x t rule: set_at.induct)
  case (1 k x es)
  then show ?case using upd_entry_names [of es k x]
    by (auto simp: upd_entry_def split: option.splits)
next
  case (2 k k' ks x es)
  show ?case
  proof (cases "map_of es k")
    case (Some m)
    have "wf_tree m" using 2(2) map_of_SomeD [OF Some] by auto
    with 2 Some have "wf_tree (set_at (k' # ks) x m)" by simp
    with 2 Some show ?thesis using upd_entry_names [of es k "Some (set_at (k' # ks) x m)"]
      by (auto simp: upd_entry_def)
  qed (use 2 in simp)
qed simp_all

lemma get_nondir [simp]: "get (File c m) p \<noteq> Inr (Dir es)" "get Special p \<noteq> Inr (Dir es)"
  by (cases p; simp)+

text \<open>What a path names after an update at another path.\<close>

definition parent_ok :: "node \<Rightarrow> string list \<Rightarrow> bool" where
  "parent_ok t p \<longleftrightarrow> p \<noteq> [] \<and> (\<exists>es. get t (butlast p) = Inr (Dir es))"

lemma get_append: "get t (p @ q) = (case get t p of Inl e \<Rightarrow> Inl e | Inr n \<Rightarrow> get n q)"
  by (induction t p rule: get.induct) (auto split: option.splits sum.splits intro: list.exhaust [of q])

lemma parent_ok_Cons:
  "parent_ok (Dir es) (k # k' # ks) \<longleftrightarrow> (\<exists>m. map_of es k = Some m \<and> parent_ok m (k' # ks))"
  by (auto simp: parent_ok_def split: option.splits)

lemma parent_ok_cases:
  assumes "parent_ok t p"
  obtains es k where "t = Dir es" "p = [k]" | es k k' ks m where "t = Dir es" "p = k # k' # ks"
    "map_of es k = Some m" "parent_ok m (k' # ks)"
proof (cases t)
  case (Dir es)
  from assms have "p \<noteq> []" by (simp add: parent_ok_def)
  then obtain k ks where p: "p = k # ks" by (cases p) auto
  show ?thesis
  proof (cases ks)
    case Nil
    with Dir p show ?thesis using that(1) by simp
  next
    case (Cons k' ks')
    with Dir p assms show ?thesis using that(2) by (auto simp: parent_ok_Cons)
  qed
qed (use assms in \<open>auto simp: parent_ok_def neq_Nil_conv split: if_splits\<close>)

lemma get_set_at_under:
  "parent_ok t p \<Longrightarrow> get (set_at p x t) (p @ q) = (case x of None \<Rightarrow> Inl ENOENT | Some m \<Rightarrow> get m q)"
proof (induction p x t rule: set_at.induct)
  case (2 k k' ks x es)
  then show ?case by (auto simp: parent_ok_Cons)
qed (auto simp: parent_ok_def split: option.splits)

definition file_at :: "node \<Rightarrow> string list \<Rightarrow> (string \<times> int) option" where
  "file_at t p = (case get t p of Inr (File c m) \<Rightarrow> Some (c, m) | _ \<Rightarrow> None)"

lemma file_at_Dir: "file_at (Dir es) [] = None"
  by (simp add: file_at_def)

lemma file_at_Cons: "file_at (Dir es) (k # ks) = (case map_of es k of None \<Rightarrow> None | Some m \<Rightarrow> file_at m ks)"
  by (simp add: file_at_def split: option.splits)

lemma file_at_set_at:
  "parent_ok t p \<Longrightarrow> \<not> prefix p q \<Longrightarrow> file_at (set_at p x t) q = file_at t q"
proof (induction p x t arbitrary: q rule: set_at.induct)
  case (1 k x es)
  then show ?case by (cases q) (auto simp: file_at_Dir file_at_Cons)
next
  case (2 k k' ks x es)
  then obtain m where m: "map_of es k = Some m" "parent_ok m (k' # ks)" by (auto simp: parent_ok_Cons)
  show ?case
  proof (cases q)
    case (Cons a q')
    with 2 m show ?thesis by (auto simp: file_at_Cons)
  qed (use m in \<open>simp add: file_at_Dir\<close>)
qed simp_all

lemma file_at_set_under:
  "parent_ok t p \<Longrightarrow> file_at (set_at p x t) (p @ q) = (case x of None \<Rightarrow> None | Some m \<Rightarrow> file_at m q)"
  by (simp add: file_at_def get_set_at_under split: option.splits)

section \<open>The calls of a root\<close>

text \<open>
  The segments of a path string: empty segments (doubled or trailing slashes) are skipped, as
  the OS does, and \<^verbatim>\<open>"."\<close> is the root itself.
\<close>

definition segs :: "string \<Rightarrow> string list" where
  "segs p = (if p = ''.'' then [] else filter (\<lambda>s. s \<noteq> []) (split_on slash p))"

definition root_Stat :: "string \<Rightarrow> node \<Rightarrow> fs_err + node" where
  "root_Stat p t = get t (segs p)"

definition root_parent :: "string list \<Rightarrow> node \<Rightarrow> fs_err + (string \<times> node) list" where
  "root_parent p t =
     (case get t (butlast p) of
        Inl e \<Rightarrow> Inl e | Inr (Dir es) \<Rightarrow> Inr es | Inr _ \<Rightarrow> Inl ENOTDIR)"

definition root_Mkdir :: "string \<Rightarrow> node \<Rightarrow> fs_err option \<times> node" where
  "root_Mkdir p t =
     (if segs p = [] then (Some EEXIST, t)
      else case root_parent (segs p) t of
             Inl e \<Rightarrow> (Some e, t)
           | Inr es \<Rightarrow>
               if map_of es (last (segs p)) \<noteq> None then (Some EEXIST, t)
               else (None, set_at (segs p) (Some (Dir [])) t))"

text \<open>\<^verbatim>\<open>OpenFile\<close> with \<^verbatim>\<open>O_WRONLY|O_CREATE|O_EXCL\<close>: a new empty file.\<close>

definition root_CreateExcl :: "string \<Rightarrow> int \<Rightarrow> node \<Rightarrow> fs_err option \<times> node" where
  "root_CreateExcl p now t =
     (if segs p = [] then (Some EISDIR, t)
      else case root_parent (segs p) t of
             Inl e \<Rightarrow> (Some e, t)
           | Inr es \<Rightarrow>
               if map_of es (last (segs p)) \<noteq> None then (Some EEXIST, t)
               else (None, set_at (segs p) (Some (File [] now)) t))"

text \<open>Writing through the open handle of the file just created.\<close>

definition handle_Write :: "string \<Rightarrow> string \<Rightarrow> int \<Rightarrow> node \<Rightarrow> node" where
  "handle_Write p content now t = set_at (segs p) (Some (File content now)) t"

definition root_Remove :: "string \<Rightarrow> node \<Rightarrow> fs_err option \<times> node" where
  "root_Remove p t =
     (case get t (segs p) of
        Inl e \<Rightarrow> (Some e, t)
      | Inr (Dir (e # es)) \<Rightarrow> (Some ENOTEMPTY, t)
      | Inr _ \<Rightarrow> if segs p = [] then (Some EINVAL, t) else (None, set_at (segs p) None t))"

definition root_RemoveAll :: "string \<Rightarrow> node \<Rightarrow> fs_err option \<times> node" where
  "root_RemoveAll p t =
     (case get t (segs p) of
        Inl ENOENT \<Rightarrow> (None, t)
      | Inl e \<Rightarrow> (Some e, t)
      | Inr _ \<Rightarrow> if segs p = [] then (Some EINVAL, t) else (None, set_at (segs p) None t))"

definition root_Link :: "string \<Rightarrow> string \<Rightarrow> node \<Rightarrow> fs_err option \<times> node" where
  "root_Link old new t =
     (case get t (segs old) of
        Inl e \<Rightarrow> (Some e, t)
      | Inr n \<Rightarrow>
          if segs new = [] then (Some EEXIST, t)
          else case root_parent (segs new) t of
                 Inl e \<Rightarrow> (Some e, t)
               | Inr es \<Rightarrow>
                   if map_of es (last (segs new)) \<noteq> None then (Some EEXIST, t)
                   else if is_dir n then (Some (EIO ''operation not permitted''), t)
                   else (None, set_at (segs new) (Some n) t))"

text \<open>
  \<^verbatim>\<open>rename(2)\<close>: a file replaces a file, a directory only an empty directory, and no directory
  moves under itself.
\<close>

definition root_Rename :: "string \<Rightarrow> string \<Rightarrow> node \<Rightarrow> fs_err option \<times> node" where
  "root_Rename old new t =
     (case get t (segs old) of
        Inl e \<Rightarrow> (Some e, t)
      | Inr n \<Rightarrow>
          if segs old = [] \<or> segs new = [] then (Some EINVAL, t)
          else case root_parent (segs new) t of
                 Inl e \<Rightarrow> (Some e, t)
               | Inr es \<Rightarrow>
                   if segs old = segs new then (None, t)
                   else if is_dir n \<and> prefix (segs old) (segs new) then (Some EINVAL, t)
                   else
                     (case map_of es (last (segs new)) of
                        Some (Dir (e # r)) \<Rightarrow> (Some (if is_dir n then ENOTEMPTY else EISDIR), t)
                      | Some (Dir []) \<Rightarrow>
                          if is_dir n then (None, set_at (segs new) (Some n) (set_at (segs old) None t))
                          else (Some EISDIR, t)
                      | Some _ \<Rightarrow>
                          if is_dir n then (Some ENOTDIR, t)
                          else (None, set_at (segs new) (Some n) (set_at (segs old) None t))
                      | None \<Rightarrow> (None, set_at (segs new) (Some n) (set_at (segs old) None t))))"

lemma root_parent_ok: "p \<noteq> [] \<Longrightarrow> root_parent p t = Inr es \<Longrightarrow> parent_ok t p \<and> get t (butlast p) = Inr (Dir es)"
  by (auto simp: root_parent_def parent_ok_def split: sum.splits node.splits)

lemma segs_no_slash: "k \<in> set (segs p) \<Longrightarrow> k \<noteq> [] \<and> slash \<notin> set k"
  by (auto simp: segs_def split_on_segs split: if_splits)

lemma segs_wf_path: "wf_path p \<Longrightarrow> segs p = split_on slash p"
proof -
  assume p: "wf_path p"
  then have ok: "\<forall>s \<in> set (split_on slash p). seg_ok s" by (simp add: wf_path_def)
  have "p \<noteq> ''.''"
  proof
    assume "p = ''.''"
    with ok show False by (simp add: seg_ok_def)
  qed
  moreover from ok have "filter (\<lambda>s. s \<noteq> []) (split_on slash p) = split_on slash p"
    by (simp add: filter_id_conv seg_ok_def)
  ultimately show ?thesis by (simp add: segs_def)
qed

lemma get_parent: "p \<noteq> [] \<Longrightarrow> get t p = (case root_parent p t of Inl e \<Rightarrow> Inl e |
    Inr es \<Rightarrow> (case map_of es (last p) of None \<Rightarrow> Inl ENOENT | Some n \<Rightarrow> Inr n))"
proof -
  assume "p \<noteq> []"
  then have "get t p = get t (butlast p @ [last p])" by simp
  also have "\<dots> = (case get t (butlast p) of Inl e \<Rightarrow> Inl e | Inr n \<Rightarrow> get n [last p])" by (rule get_append)
  finally show ?thesis by (auto simp: root_parent_def split: sum.splits node.splits option.splits)
qed

end
