(* ===== verification/Fs_Backend.thy ===== *)
theory Fs_Backend
  imports Fs_Tree "HOL-Library.Multiset"
begin

text \<open>
  \<^verbatim>\<open>internal/backend/filesystem/filesystem.go\<close>: the filesystem kind over the tree of its root
  directory (\<^const>\<open>None\<close> when that directory is missing).  Arguments stand for what the
  code gets from outside: the MIME table, the clock, the random bytes of a temporary name and
  the disk's own failures while a file is written.
\<close>

section \<open>Errors and object information\<close>

definition isNotDir :: "fs_err \<Rightarrow> bool" where
  "isNotDir e \<longleftrightarrow> e = ENOTDIR"

definition mapErr :: "fs_err \<Rightarrow> berr" where
  "mapErr e =
     (if e = ENOENT \<or> isNotDir e then ErrNotFound
      else if e = EESCAPE then ErrInvalidPath
      else ErrOther ''filesystem'')"

definition mapWriteErr :: "fs_err \<Rightarrow> berr" where
  "mapWriteErr e = (if isNotDir e then ErrConflict else mapErr e)"

text \<open>The lower-case hexadecimal digits of \<^verbatim>\<open>%x\<close>.\<close>

definition hex_digit :: "nat \<Rightarrow> char" where
  "hex_digit n = (if n < 10 then char_of (n + 48) else char_of (n + 87))"

fun hex_nat :: "nat \<Rightarrow> string" where
  "hex_nat n = (if n < 16 then [hex_digit n] else hex_nat (n div 16) @ [hex_digit (n mod 16)])"

declare hex_nat.simps [simp del]

definition hex_int :: "int \<Rightarrow> string" where
  "hex_int n = (if n < 0 then CHR ''-'' # hex_nat (nat (- n)) else hex_nat (nat n))"

text \<open>\<^verbatim>\<open>path.Ext\<close>: from the last dot of the last segment.\<close>

definition path_ext :: "string \<Rightarrow> string" where
  "path_ext p =
     (let base = (case cut_last slash p of None \<Rightarrow> p | Some (_, b) \<Rightarrow> b) in
      case cut_last (CHR ''.'') base of None \<Rightarrow> [] | Some (_, ext) \<Rightarrow> CHR ''.'' # ext)"

text \<open>\<^verbatim>\<open>path.Dir\<close> of a clean path.\<close>

definition path_dir :: "string \<Rightarrow> string" where
  "path_dir p = (case cut_last slash p of None \<Rightarrow> ''.'' | Some (d, _) \<Rightarrow> d)"

definition infoFor :: "(string \<Rightarrow> string) \<Rightarrow> string \<Rightarrow> string \<Rightarrow> int \<Rightarrow> object_info" where
  "infoFor mime p content mtime =
     \<lparr>oiPath = p, oiSize = int (length content), oiModTime = Some mtime, oiContentType = mime (path_ext p),
      oiETag = ''W/'' @ [CHR 0x22] @ hex_int mtime @ ''-'' @ hex_int (int (length content)) @ [CHR 0x22],
      oiIsDir = False\<rparr>"

section \<open>Reading\<close>

definition openRoot :: "node option \<Rightarrow> berr + node" where
  "openRoot s =
     (case s of
        None \<Rightarrow> Inl (ErrOther ''root directory does not exist'')
      | Some t \<Rightarrow> if is_dir t then Inr t else Inl (ErrOther ''opening root directory''))"

definition fs_Check :: "node option \<Rightarrow> berr option \<times> node option" where
  "fs_Check s = (case openRoot s of Inl e \<Rightarrow> (Some e, s) | Inr _ \<Rightarrow> (None, s))"

definition fs_Read :: "(string \<Rightarrow> string) \<Rightarrow> string \<Rightarrow> node option \<Rightarrow> (berr + reader \<times> object_info) \<times> node option" where
  "fs_Read mime p s =
     (case CleanPath p of
        Inl e \<Rightarrow> (Inl e, s)
      | Inr clean \<Rightarrow>
          (case openRoot s of
             Inl e \<Rightarrow> (Inl e, s)
           | Inr t \<Rightarrow>
               (case root_Stat clean t of
                  Inl e \<Rightarrow> (Inl (mapErr e), s)
                | Inr (File c m) \<Rightarrow> (Inr (\<lparr>rdBytes = c, rdErr = None\<rparr>, infoFor mime clean c m), s)
                | Inr _ \<Rightarrow> (Inl ErrNotFound, s))))"

definition fs_ReadRange ::
    "(string \<Rightarrow> string) \<Rightarrow> string \<Rightarrow> byte_range \<Rightarrow> node option \<Rightarrow> (berr + reader \<times> object_info) \<times> node option" where
  "fs_ReadRange mime p rg s =
     (case CleanPath p of
        Inl e \<Rightarrow> (Inl e, s)
      | Inr clean \<Rightarrow>
          (case openRoot s of
             Inl e \<Rightarrow> (Inl e, s)
           | Inr t \<Rightarrow>
               (case root_Stat clean t of
                  Inl e \<Rightarrow> (Inl (mapErr e), s)
                | Inr (File c m) \<Rightarrow>
                    if brStart rg < 0 \<or> brEnd rg < brStart rg \<or> brStart rg \<ge> int (length c) \<or> brEnd rg \<ge> int (length c)
                    then (Inl ErrInvalidRange, s)
                    else (Inr (\<lparr>rdBytes = take (nat (brEnd rg - brStart rg + 1)) (drop (nat (brStart rg)) c),
                                rdErr = None\<rparr>, infoFor mime clean c m), s)
                | Inr _ \<Rightarrow> (Inl ErrNotFound, s))))"

definition fs_Stat :: "(string \<Rightarrow> string) \<Rightarrow> string \<Rightarrow> node option \<Rightarrow> (berr + object_info) \<times> node option" where
  "fs_Stat mime p s =
     (case CleanPath p of
        Inl e \<Rightarrow> (Inl e, s)
      | Inr clean \<Rightarrow>
          (case openRoot s of
             Inl e \<Rightarrow> (Inl e, s)
           | Inr t \<Rightarrow>
               (case root_Stat clean t of
                  Inl e \<Rightarrow> (Inl (mapErr e), s)
                | Inr (File c m) \<Rightarrow> (Inr (infoFor mime clean c m), s)
                | Inr _ \<Rightarrow> (Inl ErrNotFound, s))))"

section \<open>Writing\<close>

definition tempPrefix :: string where "tempPrefix = ''.booth-tmp-''"

definition path_join :: "string \<Rightarrow> string \<Rightarrow> string" where
  "path_join a b = (if a = [] then b else if b = [] then a else a @ ''/'' @ b)"

fun mkdir_segs :: "string \<Rightarrow> string list \<Rightarrow> node \<Rightarrow> fs_err option \<times> node" where
  "mkdir_segs built [] t = (None, t)"
| "mkdir_segs built (seg # rest) t =
     (let b = path_join built seg in
      case root_Mkdir b t of
        (None, t1) \<Rightarrow> mkdir_segs b rest t1
      | (Some e, t1) \<Rightarrow>
          if e \<noteq> EEXIST then (Some e, t1)
          else (case root_Stat b t1 of
                  Inl e' \<Rightarrow> (Some e', t1)
                | Inr n \<Rightarrow> if is_dir n then mkdir_segs b rest t1 else (Some ENOTDIR, t1)))"

definition mkdirAll :: "string \<Rightarrow> node \<Rightarrow> fs_err option \<times> node" where
  "mkdirAll dir t = mkdir_segs [] (split_on slash dir) t"

definition tempName :: "string \<Rightarrow> string \<Rightarrow> string" where
  "tempName rnd dir = (if dir = ''.'' then tempPrefix @ rnd else dir @ ''/'' @ tempPrefix @ rnd)"

text \<open>
  The disk's answers to the three steps of filling the temporary file; the reader's own error
  ends the copy first.
\<close>

record disk =
  dkWrite :: "fs_err option"
  dkSync :: "fs_err option"
  dkClose :: "fs_err option"

definition copy_result :: "disk \<Rightarrow> reader \<Rightarrow> berr option" where
  "copy_result dk r =
     (case dkWrite dk of
        Some e \<Rightarrow> Some (ErrOther ''writing object'')
      | None \<Rightarrow>
          (case rdErr r of
             Some e \<Rightarrow> Some e
           | None \<Rightarrow>
               if dkSync dk \<noteq> None then Some (ErrOther ''syncing object'')
               else if dkClose dk \<noteq> None then Some (ErrOther ''closing object'')
               else None))"

definition place_object ::
    "(string \<Rightarrow> string) \<Rightarrow> string \<Rightarrow> string \<Rightarrow> bool \<Rightarrow> node \<Rightarrow> (berr + object_info) \<times> node" where
  "place_object mime tmp clean createOnly t =
     (let (err, t1) = (if createOnly then
             (case root_Link tmp clean t of
                (Some e, u) \<Rightarrow> (Some (if e = EEXIST then ErrPreconditionFailed else ErrInvalidPath), snd (root_Remove tmp u))
              | (None, u) \<Rightarrow> (None, snd (root_Remove tmp u)))
           else
             (case root_Rename tmp clean t of
                (Some e, u) \<Rightarrow> (Some ErrInvalidPath, snd (root_Remove tmp u))
              | (None, u) \<Rightarrow> (None, u)))
      in case err of
           Some e \<Rightarrow> (Inl e, t1)
         | None \<Rightarrow>
             (case root_Stat clean t1 of
                Inl e \<Rightarrow> (Inl (mapErr e), t1)
              | Inr (File c m) \<Rightarrow> (Inr (infoFor mime clean c m), t1)
              | Inr _ \<Rightarrow> (Inr (infoFor mime clean [] 0), t1)))"

definition write_in_dir ::
    "(string \<Rightarrow> string) \<Rightarrow> int \<Rightarrow> string option \<Rightarrow> disk \<Rightarrow> string \<Rightarrow> reader \<Rightarrow> bool \<Rightarrow> node \<Rightarrow> (berr + object_info) \<times> node"
where
  "write_in_dir mime now rnd dk clean r createOnly t =
     (case rnd of
        None \<Rightarrow> (Inl (ErrOther ''rand''), t)
      | Some rn \<Rightarrow>
          (let tmp = tempName rn (path_dir clean) in
           case root_CreateExcl tmp now t of
             (Some e, t1) \<Rightarrow> (Inl (mapWriteErr e), t1)
           | (None, t1) \<Rightarrow>
               (case copy_result dk r of
                  Some e \<Rightarrow> (Inl e, snd (root_Remove tmp (handle_Write tmp (rdBytes r) now t1)))
                | None \<Rightarrow> place_object mime tmp clean createOnly (handle_Write tmp (rdBytes r) now t1))))"

definition fs_Write ::
    "(string \<Rightarrow> string) \<Rightarrow> int \<Rightarrow> string option \<Rightarrow> disk \<Rightarrow> string \<Rightarrow> reader \<Rightarrow> write_options \<Rightarrow> node option \<Rightarrow>
     (berr + object_info) \<times> node option" where
  "fs_Write mime now rnd dk p r opts s =
     (case CleanPath p of
        Inl e \<Rightarrow> (Inl e, s)
      | Inr clean \<Rightarrow>
          (case openRoot s of
             Inl e \<Rightarrow> (Inl e, s)
           | Inr t \<Rightarrow>
               (case (if path_dir clean \<noteq> ''.'' then mkdirAll (path_dir clean) t else (None, t)) of
                  (Some e, t1) \<Rightarrow> (Inl (mapWriteErr e), Some t1)
                | (None, t1) \<Rightarrow>
                    (case write_in_dir mime now rnd dk clean r (woCreateOnly opts) t1 of
                       (res, t2) \<Rightarrow> (res, Some t2)))))"

section \<open>Listing\<close>

definition strings_Compare :: "string \<Rightarrow> string \<Rightarrow> int" where
  "strings_Compare a b = (if a = b then 0 else if a < b then - 1 else 1)"

fun cmp_segs :: "string list \<Rightarrow> string list \<Rightarrow> int" where
  "cmp_segs (a # as) (b # bs) = (let c = strings_Compare a b in if c \<noteq> 0 then c else cmp_segs as bs)"
| "cmp_segs as bs = int (length as) - int (length bs)"

definition comps :: "string \<Rightarrow> string list" where
  "comps p = split_on slash (TrimSuffix p ''/'')"

definition comparePaths :: "string \<Rightarrow> string \<Rightarrow> int" where
  "comparePaths a b = cmp_segs (comps a) (comps b)"

definition afterCursor :: "string \<Rightarrow> string \<Rightarrow> bool" where
  "afterCursor entryPath cursor \<longleftrightarrow> cursor = [] \<or> comparePaths entryPath cursor > 0"

fun list_entries ::
    "(string \<Rightarrow> string) \<Rightarrow> string \<Rightarrow> string \<Rightarrow> nat \<Rightarrow> (string \<times> node) list \<Rightarrow> object_info list \<Rightarrow> object_info list" where
  "list_entries mime pre cursor limit [] out = out"
| "list_entries mime pre cursor limit ((name, n) # es) out =
     (let next = (\<lambda>out1. if length out1 > limit then out1 else list_entries mime pre cursor limit es out1) in
      if HasPrefix name tempPrefix then list_entries mime pre cursor limit es out
      else case n of
             Dir _ \<Rightarrow>
               if \<not> afterCursor (pre @ name @ ''/'') cursor then list_entries mime pre cursor limit es out
               else next (out @ [dir_entry (pre @ name @ ''/'')])
           | File c m \<Rightarrow>
               if \<not> afterCursor (pre @ name) cursor then list_entries mime pre cursor limit es out
               else next (out @ [infoFor mime (pre @ name) c m])
           | Special \<Rightarrow> list_entries mime pre cursor limit es out)"

definition listDir ::
    "(string \<Rightarrow> string) \<Rightarrow> string \<Rightarrow> string \<Rightarrow> string \<Rightarrow> nat \<Rightarrow> node \<Rightarrow> fs_err + object_info list" where
  "listDir mime dir pre cursor limit t =
     (case root_Stat dir t of
        Inl e \<Rightarrow> Inl e
      | Inr (Dir es) \<Rightarrow> Inr (list_entries mime pre cursor limit (sort_key fst es) [])
      | Inr _ \<Rightarrow> Inl ENOTDIR)"

text \<open>
  The callback of \<^verbatim>\<open>fs.WalkDir\<close> over the entries of a directory whose path with its slash is
  \<open>pre\<close>: the collected entries, and whether the page is full.
\<close>

definition skips :: "string \<Rightarrow> string \<Rightarrow> bool" where
  "skips cursor p \<longleftrightarrow> cursor \<noteq> [] \<and> comparePaths p cursor < 0 \<and> \<not> HasPrefix cursor (p @ ''/'')"

definition entries_size :: "(string \<times> node) list \<Rightarrow> nat" where
  "entries_size es = sum_list (map (\<lambda>e. Suc (size (snd e))) es)"

lemma entries_size_sort [simp]: "entries_size (sort_key f es) = entries_size es"
proof -
  have "mset (map (\<lambda>e. Suc (size (snd e))) (sort_key f es)) = mset (map (\<lambda>e. Suc (size (snd e))) es)" by simp
  then show ?thesis unfolding entries_size_def by (metis sum_mset_sum_list)
qed

lemma entries_size_le: "entries_size es \<le> size (Dir es)"
  by (induction es) (auto simp: entries_size_def)

lemma entries_size_Dir: "entries_size ds < entries_size ((k, Dir ds) # es)"
  using entries_size_le [of ds] by (simp add: entries_size_def)

lemma entries_size_Cons: "entries_size es < entries_size (e # es)"
  by (simp add: entries_size_def)

function walk_entries ::
    "(string \<Rightarrow> string) \<Rightarrow> string \<Rightarrow> nat \<Rightarrow> string \<Rightarrow> (string \<times> node) list \<Rightarrow> object_info list \<Rightarrow>
     object_info list \<times> bool" where
  "walk_entries mime cursor limit pre [] out = (out, False)"
| "walk_entries mime cursor limit pre ((name, n) # es) out =
     (if HasPrefix name tempPrefix then walk_entries mime cursor limit pre es out
      else case n of
             Dir ds \<Rightarrow>
               if skips cursor (pre @ name) then walk_entries mime cursor limit pre es out
               else
                 (case walk_entries mime cursor limit (pre @ name @ ''/'') (sort_key fst ds) out of
                    (out1, full) \<Rightarrow>
                      if full then (out1, True) else walk_entries mime cursor limit pre es out1)
           | File c m \<Rightarrow>
               if \<not> afterCursor (pre @ name) cursor then walk_entries mime cursor limit pre es out
               else if length (out @ [infoFor mime (pre @ name) c m]) > limit
                    then (out @ [infoFor mime (pre @ name) c m], True)
                    else walk_entries mime cursor limit pre es (out @ [infoFor mime (pre @ name) c m])
           | Special \<Rightarrow> walk_entries mime cursor limit pre es out)"
  by pat_completeness auto

termination
  by (relation "measure (\<lambda>(mime, cursor, limit, pre, es, out). entries_size es)")
    (simp_all add: entries_size_Dir entries_size_Cons)

text \<open>\<^verbatim>\<open>fs.ValidPath\<close>, which every path given to \<^verbatim>\<open>root.FS()\<close> must satisfy.\<close>

definition valid_fs_path :: "string \<Rightarrow> bool" where
  "valid_fs_path p \<longleftrightarrow> p = ''.'' \<or> list_all seg_ok (split_on slash p)"

definition walk ::
    "(string \<Rightarrow> string) \<Rightarrow> string \<Rightarrow> string \<Rightarrow> nat \<Rightarrow> node \<Rightarrow> fs_err + object_info list" where
  "walk mime startDir cursor limit t =
     (if \<not> valid_fs_path startDir then Inl EINVAL
      else case root_Stat startDir t of
             Inl e \<Rightarrow> Inl e
           | Inr n \<Rightarrow>
               let base = last (split_on slash startDir) in
               if HasPrefix base tempPrefix then Inr []
               else (case n of
                       Dir es \<Rightarrow>
                         if startDir \<noteq> ''.'' \<and> skips cursor startDir then Inr []
                         else Inr (fst (walk_entries mime cursor limit
                                (if startDir = ''.'' then [] else startDir @ ''/'') (sort_key fst es) []))
                     | File c m \<Rightarrow> Inr (if afterCursor startDir cursor then [infoFor mime startDir c m] else [])
                     | Special \<Rightarrow> Inr []))"

definition page_result :: "nat \<Rightarrow> object_info list \<Rightarrow> list_result" where
  "page_result limit entries =
     (if length entries > limit
      then \<lparr>lrEntries = take limit entries, lrNextCursor = oiPath (entries ! (limit - 1))\<rparr>
      else \<lparr>lrEntries = entries, lrNextCursor = []\<rparr>)"

definition fs_List :: "(string \<Rightarrow> string) \<Rightarrow> list_options \<Rightarrow> node option \<Rightarrow> (berr + list_result) \<times> node option" where
  "fs_List mime opts s =
     (case CleanPrefix (loPrefix opts) of
        Inl e \<Rightarrow> (Inl e, s)
      | Inr pre \<Rightarrow>
          (case openRoot s of
             Inl e \<Rightarrow> (Inl e, s)
           | Inr t \<Rightarrow>
               (let limit = nat (EffectiveLimit opts);
                    trimmed = TrimSuffix pre ''/'';
                    startDir = (if trimmed = [] then ''.'' else trimmed);
                    nothing = (Inr \<lparr>lrEntries = [], lrNextCursor = []\<rparr>, s);
                    collected = (if loRecursive opts then walk mime startDir (loCursor opts) limit t
                                 else listDir mime startDir pre (loCursor opts) limit t);
                    page = (case collected of
                              Inl e \<Rightarrow> if e = ENOENT \<or> isNotDir e then nothing else (Inl (mapErr e), s)
                            | Inr entries \<Rightarrow> (Inr (page_result limit entries), s))
                in if startDir = ''.'' then page
                   else case root_Stat startDir t of
                          Inl e \<Rightarrow> if e = ENOENT \<or> isNotDir e then nothing else (Inl (mapErr e), s)
                        | Inr n \<Rightarrow> if is_dir n then page else nothing)))"

section \<open>Folders, deletes and moves\<close>

definition fs_Mkdir :: "string \<Rightarrow> node option \<Rightarrow> berr option \<times> node option" where
  "fs_Mkdir p s =
     (case CleanFolder p of
        Inl e \<Rightarrow> (Some e, s)
      | Inr folder \<Rightarrow>
          (case openRoot s of
             Inl e \<Rightarrow> (Some e, s)
           | Inr t \<Rightarrow>
               (let dir = TrimSuffix folder ''/'' in
                case mkdirAll dir t of
                  (Some e, t1) \<Rightarrow> (Some (mapWriteErr e), Some t1)
                | (None, t1) \<Rightarrow>
                    (case root_Stat dir t1 of
                       Inl e \<Rightarrow> (Some ErrConflict, Some t1)
                     | Inr n \<Rightarrow> if is_dir n then (None, Some t1) else (Some ErrConflict, Some t1)))))"

definition fs_DeleteObject :: "string \<Rightarrow> node option \<Rightarrow> berr option \<times> node option" where
  "fs_DeleteObject p s =
     (case CleanPath p of
        Inl e \<Rightarrow> (Some e, s)
      | Inr clean \<Rightarrow>
          (case openRoot s of
             Inl e \<Rightarrow> (Some e, s)
           | Inr t \<Rightarrow>
               (case root_Stat clean t of
                  Inl e \<Rightarrow> (Some (mapErr e), s)
                | Inr n \<Rightarrow>
                    if \<not> is_regular n then (Some ErrNotFound, s)
                    else case root_Remove clean t of (e, t1) \<Rightarrow> (map_option mapErr e, Some t1))))"

text \<open>The regular files under a node, as \<^verbatim>\<open>DeleteFolder\<close> counts them (hidden ones included).\<close>

fun count_files :: "node \<Rightarrow> nat" where
  "count_files (File _ _) = 1"
| "count_files (Dir es) = sum_list (map (\<lambda>e. count_files (snd e)) es)"
| "count_files Special = 0"

definition fs_DeleteFolder :: "string \<Rightarrow> node option \<Rightarrow> ((nat \<times> berr option) \<times> node option) option" where
  "fs_DeleteFolder p s =
     Some (case CleanFolder p of
        Inl e \<Rightarrow> ((0, Some e), s)
      | Inr folder \<Rightarrow>
          (case openRoot s of
             Inl e \<Rightarrow> ((0, Some e), s)
           | Inr t \<Rightarrow>
               (let dir = TrimSuffix folder ''/'' in
                case root_Stat dir t of
                  Inl e \<Rightarrow> ((0, Some (mapErr e)), s)
                | Inr n \<Rightarrow>
                    if \<not> is_dir n then ((0, Some ErrNotFound), s)
                    else case root_RemoveAll dir t of
                           (Some e, t1) \<Rightarrow> ((0, Some (mapErr e)), Some t1)
                         | (None, t1) \<Rightarrow> ((if valid_fs_path dir then count_files n else 0, None), Some t1))))"

definition fs_move :: "string \<Rightarrow> string \<Rightarrow> bool \<Rightarrow> node option \<Rightarrow> berr option \<times> node option" where
  "fs_move src dst wantDir s =
     (case openRoot s of
        Inl e \<Rightarrow> (Some e, s)
      | Inr t \<Rightarrow>
          (case root_Stat src t of
             Inl e \<Rightarrow> (Some (mapErr e), s)
           | Inr n \<Rightarrow>
               if is_dir n \<noteq> wantDir \<or> (\<not> wantDir \<and> \<not> is_regular n) then (Some ErrNotFound, s)
               else if src = dst then (None, s)
               else case root_Stat dst t of
                      Inr _ \<Rightarrow> (Some ErrConflict, s)
                    | Inl e \<Rightarrow>
                        if e \<noteq> ENOENT then (Some (mapErr e), s)
                        else
                          (case (if path_dir dst \<noteq> ''.'' then mkdirAll (path_dir dst) t else (None, t)) of
                             (Some e1, t1) \<Rightarrow> (Some (mapWriteErr e1), Some t1)
                           | (None, t1) \<Rightarrow>
                               (case root_Rename src dst t1 of (e1, t2) \<Rightarrow> (map_option mapErr e1, Some t2)))))"

definition fs_MoveObject :: "string \<Rightarrow> string \<Rightarrow> node option \<Rightarrow> berr option \<times> node option" where
  "fs_MoveObject src dst s =
     (case CleanPath src of
        Inl e \<Rightarrow> (Some e, s)
      | Inr f \<Rightarrow> (case CleanPath dst of Inl e \<Rightarrow> (Some e, s) | Inr t \<Rightarrow> fs_move f t False s))"

definition fs_MoveFolder :: "string \<Rightarrow> string \<Rightarrow> node option \<Rightarrow> (berr option \<times> node option) option" where
  "fs_MoveFolder src dst s =
     Some (case CleanFolder src of
        Inl e \<Rightarrow> (Some e, s)
      | Inr f \<Rightarrow>
          (case CleanFolder dst of
             Inl e \<Rightarrow> (Some e, s)
           | Inr t \<Rightarrow>
               if HasPrefix t f then (Some ErrInvalidPath, s)
               else fs_move (TrimSuffix f ''/'') (TrimSuffix t ''/'') True s))"

definition fs_methods :: "(string \<Rightarrow> string) \<Rightarrow> int \<Rightarrow> string option \<Rightarrow> disk \<Rightarrow> node option backend" where
  "fs_methods mime now rnd dk =
     \<lparr>bList = fs_List mime, bRead = fs_Read mime, bReadRange = fs_ReadRange mime, bStat = fs_Stat mime,
      bWrite = fs_Write mime now rnd dk, bMkdir = fs_Mkdir, bDeleteObject = fs_DeleteObject,
      bDeleteFolder = fs_DeleteFolder, bMoveObject = fs_MoveObject, bMoveFolder = fs_MoveFolder,
      bCheck = fs_Check\<rparr>"

end
