(* ===== verification/Conformance_Claims.thy ===== *)
theory Conformance_Claims
  imports Conformance Cloud_Claims Fs_Backend
begin

text \<open>
  The four kinds, each over its reference store, run through the repository's own conformance
  suite.  This is evidence for the model as much as for the code: the definitions of every kind,
  evaluated by the kernel, do what the tests ask of the Go code.
\<close>

definition conf_fs :: "node option backend" where
  "conf_fs = fs_methods (\<lambda>_. []) 0 (Some ''r'') \<lparr>dkWrite = None, dkSync = None, dkClose = None\<rparr>"

definition conf_s3 :: "bucket backend" where
  "conf_s3 = s3_methods (mem_s3 [] []) \<lparr>sbBucket = ''data'', sbPrefix = ''t/''\<rparr>"

definition conf_azure :: "az_state backend" where
  "conf_azure = az_methods (mem_az False 2 [] []) demo_az"

definition conf_gcs :: "bucket backend" where
  "conf_gcs = gcs_methods (mem_gcs [] []) demo_gcs"

section \<open>A filesystem with an empty root directory\<close>

lemma fs_basic_tests: "pass_all basic_tests conf_fs (Some (Dir []))"
  by code_simp

lemma fs_writeTests: "pass_all writeTests conf_fs (Some (Dir []))"
  by code_simp

lemma fs_createOnlyTests: "pass_all createOnlyTests conf_fs (Some (Dir []))"
  by code_simp

lemma fs_rangeTests: "pass_all rangeTests conf_fs (Some (Dir []))"
  by code_simp

lemma fs_payloads:
  "passes (failed_upload \<lparr>rdBytes = content, rdErr = Some errSimulated\<rparr> conf_fs) (Some (Dir []))"
  "passes (binary_round_trip payload conf_fs) (Some (Dir []))" "passes (largeObjectRoundTrip payload conf_fs) (Some (Dir []))"
  "passes (createOnlyConcurrentSameKeyRace [w1, w2, w3, w4, w5, w6, w7, w8] conf_fs) (Some (Dir []))"
  by code_simp+

section \<open>S3 under the prefix t/\<close>

lemma s3_basic_tests: "pass_all basic_tests conf_s3 ([])"
  by code_simp

lemma s3_writeTests: "pass_all writeTests conf_s3 ([])"
  by code_simp

lemma s3_createOnlyTests: "pass_all createOnlyTests conf_s3 ([])"
  by code_simp

lemma s3_rangeTests: "pass_all rangeTests conf_s3 ([])"
  by code_simp

lemma s3_payloads:
  "passes (failed_upload \<lparr>rdBytes = content, rdErr = Some errSimulated\<rparr> conf_s3) ([])"
  "passes (binary_round_trip payload conf_s3) ([])" "passes (largeObjectRoundTrip payload conf_s3) ([])"
  "passes (createOnlyConcurrentSameKeyRace [w1, w2, w3, w4, w5, w6, w7, w8] conf_s3) ([])"
  by code_simp+

section \<open>Azure under the prefix t/, with copies that stay pending for two polls\<close>

lemma azure_basic_tests: "pass_all basic_tests conf_azure (([], []))"
  by code_simp

lemma azure_writeTests: "pass_all writeTests conf_azure (([], []))"
  by code_simp

lemma azure_createOnlyTests: "pass_all createOnlyTests conf_azure (([], []))"
  by code_simp

lemma azure_rangeTests: "pass_all rangeTests conf_azure (([], []))"
  by code_simp

lemma azure_payloads:
  "passes (failed_upload \<lparr>rdBytes = content, rdErr = Some errSimulated\<rparr> conf_azure) (([], []))"
  "passes (binary_round_trip payload conf_azure) (([], []))" "passes (largeObjectRoundTrip payload conf_azure) (([], []))"
  "passes (createOnlyConcurrentSameKeyRace [w1, w2, w3, w4, w5, w6, w7, w8] conf_azure) (([], []))"
  by code_simp+

section \<open>GCS under the prefix t/\<close>

lemma gcs_basic_tests: "pass_all basic_tests conf_gcs ([])"
  by code_simp

lemma gcs_writeTests: "pass_all writeTests conf_gcs ([])"
  by code_simp

lemma gcs_createOnlyTests: "pass_all createOnlyTests conf_gcs ([])"
  by code_simp

lemma gcs_rangeTests: "pass_all rangeTests conf_gcs ([])"
  by code_simp

lemma gcs_payloads:
  "passes (failed_upload \<lparr>rdBytes = content, rdErr = Some errSimulated\<rparr> conf_gcs) ([])"
  "passes (binary_round_trip payload conf_gcs) ([])" "passes (largeObjectRoundTrip payload conf_gcs) ([])"
  "passes (createOnlyConcurrentSameKeyRace [w1, w2, w3, w4, w5, w6, w7, w8] conf_gcs) ([])"
  by code_simp+

section \<open>The suite\<close>


end
