(* ===== verification/Http_Core.thy ===== *)
theory Http_Core
  imports Backend_Core
begin

text \<open>
  The parts of Go's \<^verbatim>\<open>net/http\<close> and \<^verbatim>\<open>encoding/json\<close> the module's HTTP layer works with: a
  request as the handlers read it, a response as they write it, JSON values after parsing,
  and the decoding of a JSON object into a struct.  Message texts are not modelled: an error
  body is \<open>ErrBody\<close>, with the field name for a validation error.
\<close>

section \<open>Requests and responses\<close>

text \<open>
  \<open>rqHeader\<close> is \<^verbatim>\<open>Header.Get\<close> (the empty string when absent), \<open>rqQuery\<close> is \<^verbatim>\<open>URL.Query().Get\<close>,
  \<open>rqPath\<close> the decoded \<^verbatim>\<open>URL.Path\<close>.
\<close>

record request =
  rqMethod :: string
  rqPath :: string
  rqHeader :: "string \<Rightarrow> string"
  rqQuery :: "string \<Rightarrow> string"
  rqBody :: reader
  rqContentLength :: int

datatype 'b body = NoBody | ErrBody "string option" | Body 'b

record 'b response =
  rsStatus :: nat
  rsHeaders :: "(string \<times> string) list"
  rsBody :: "'b body"

definition WriteError :: "nat \<Rightarrow> 'b response" where
  "WriteError status =
     \<lparr>rsStatus = status, rsHeaders = [(''Content-Type'', ''application/json'')], rsBody = ErrBody None\<rparr>"

definition writeJSON :: "nat \<Rightarrow> 'b \<Rightarrow> 'b response" where
  "writeJSON status v =
     \<lparr>rsStatus = status, rsHeaders = [(''Content-Type'', ''application/json'')], rsBody = Body v\<rparr>"

definition writeHeader :: "nat \<Rightarrow> 'b response" where
  "writeHeader status = \<lparr>rsStatus = status, rsHeaders = [], rsBody = NoBody\<rparr>"

text \<open>
  \<^verbatim>\<open>http.MaxBytesReader\<close>: at most \<open>n\<close> bytes pass; a longer body ends in \<^const>\<open>ErrTooBig\<close>
  after \<open>n\<close> bytes.
\<close>

definition MaxBytesReader :: "int \<Rightarrow> reader \<Rightarrow> reader" where
  "MaxBytesReader n r =
     (if int (length (rdBytes r)) > n then \<lparr>rdBytes = take (nat n) (rdBytes r), rdErr = Some ErrTooBig\<rparr> else r)"

lemma WriteError_sel [simp]: "rsStatus (WriteError n) = n" "rsBody (WriteError n) = ErrBody None"
  by (simp_all add: WriteError_def)

lemma writeJSON_sel [simp]: "rsStatus (writeJSON n v) = n" "rsBody (writeJSON n v) = Body v"
  by (simp_all add: writeJSON_def)

lemma writeHeader_sel [simp]: "rsStatus (writeHeader n) = n" "rsBody (writeHeader n) = NoBody"
  by (simp_all add: writeHeader_def)

lemma MaxBytesReader_bound: "0 \<le> n \<Longrightarrow> int (length (rdBytes (MaxBytesReader n r))) \<le> n"
  by (auto simp: MaxBytesReader_def)

section \<open>JSON values and decoding into structs\<close>

text \<open>A parsed JSON text; a number keeps its literal, a string is already unescaped.\<close>

datatype json =
    JNull
  | JBool bool
  | JNum string
  | JStr string
  | JArr "json list"
  | JObj "(string \<times> json) list"

text \<open>
  \<^verbatim>\<open>encoding/json\<close> matches a key to a field exactly, else by simple case folding: ASCII
  letters, and the two runes that fold into ASCII (long s, bytes C5 BF, and the Kelvin sign).
\<close>

definition upper_byte :: "char \<Rightarrow> char" where
  "upper_byte c = (if is_lower c then char_of (byte c - 32) else c)"

fun fold_key :: "string \<Rightarrow> string" where
  "fold_key (a # b # c # s) =
     (if byte a = 226 \<and> byte b = 132 \<and> byte c = 170 then CHR ''K'' # fold_key s
      else if byte a = 197 \<and> byte b = 191 then CHR ''S'' # fold_key (c # s)
      else upper_byte a # fold_key (b # c # s))"
| "fold_key [a, b] =
     (if byte a = 197 \<and> byte b = 191 then [CHR ''S''] else [upper_byte a, upper_byte b])"
| "fold_key [a] = [upper_byte a]"
| "fold_key [] = []"

definition field_of :: "string list \<Rightarrow> string \<Rightarrow> string option" where
  "field_of names k =
     (if k \<in> set names then Some k else find (\<lambda>n. fold_key n = fold_key k) names)"

text \<open>
  The fields of a JSON object by struct field, in the order of the text.  In strict mode
  (\<^verbatim>\<open>DisallowUnknownFields\<close>) a key without a field is an error; else it is dropped.  A JSON
  null leaves the struct as it is; any other value is a type error.
\<close>

fun struct_entries :: "bool \<Rightarrow> string list \<Rightarrow> (string \<times> json) list \<Rightarrow> (string \<times> json) list option" where
  "struct_entries strict names [] = Some []"
| "struct_entries strict names ((k, v) # kvs) =
     (case field_of names k of
        Some f \<Rightarrow> map_option (Cons (f, v)) (struct_entries strict names kvs)
      | None \<Rightarrow> if strict then None else struct_entries strict names kvs)"

definition struct_fields :: "bool \<Rightarrow> string list \<Rightarrow> json \<Rightarrow> (string \<times> json) list option" where
  "struct_fields strict names j =
     (case j of JObj kvs \<Rightarrow> struct_entries strict names kvs | JNull \<Rightarrow> Some [] | _ \<Rightarrow> None)"

text \<open>
  The value a field ends up with: entries are applied in order to its zero value, null
  leaves it unchanged, a value of the wrong type is an error.
\<close>

fun decode_field :: "(json \<Rightarrow> 'a option) \<Rightarrow> string \<Rightarrow> 'a \<Rightarrow> (string \<times> json) list \<Rightarrow> 'a option" where
  "decode_field dec f acc [] = Some acc"
| "decode_field dec f acc ((k, v) # kvs) =
     (if k \<noteq> f \<or> v = JNull then decode_field dec f acc kvs
      else case dec v of None \<Rightarrow> None | Some a \<Rightarrow> decode_field dec f a kvs)"

definition dec_str :: "json \<Rightarrow> string option" where
  "dec_str j = (case j of JStr s \<Rightarrow> Some s | _ \<Rightarrow> None)"

definition dec_bool :: "json \<Rightarrow> bool option" where
  "dec_bool j = (case j of JBool b \<Rightarrow> Some b | _ \<Rightarrow> None)"

definition dec_int64 :: "json \<Rightarrow> int option" where
  "dec_int64 j = (case j of JNum lit \<Rightarrow> ParseInt64 lit | _ \<Rightarrow> None)"

fun dec_strs :: "json list \<Rightarrow> string list option" where
  "dec_strs [] = Some []"
| "dec_strs (j # js) =
     (case j of
        JStr s \<Rightarrow> map_option (Cons s) (dec_strs js)
      | JNull \<Rightarrow> map_option (Cons []) (dec_strs js)
      | _ \<Rightarrow> None)"

definition dec_str_list :: "json \<Rightarrow> string list option" where
  "dec_str_list j = (case j of JArr js \<Rightarrow> dec_strs js | _ \<Rightarrow> None)"

fun dec_str_entries :: "(string \<times> json) list \<Rightarrow> (string \<times> string) list option" where
  "dec_str_entries [] = Some []"
| "dec_str_entries ((k, v) # kvs) =
     (case v of
        JStr s \<Rightarrow> map_option (Cons (k, s)) (dec_str_entries kvs)
      | JNull \<Rightarrow> map_option (Cons (k, [])) (dec_str_entries kvs)
      | _ \<Rightarrow> None)"

text \<open>A \<^verbatim>\<open>map[string]string\<close>: a later entry for a key replaces an earlier one.\<close>

definition dec_str_map :: "json \<Rightarrow> (string \<times> string) list option" where
  "dec_str_map j = (case j of JObj kvs \<Rightarrow> map_option rev (dec_str_entries kvs) | _ \<Rightarrow> None)"

text \<open>A field whose null is not "leave unchanged": pointers, maps, slices and raw messages.\<close>

fun fold_field :: "('a \<Rightarrow> json \<Rightarrow> 'a option) \<Rightarrow> string \<Rightarrow> 'a \<Rightarrow> (string \<times> json) list \<Rightarrow> 'a option" where
  "fold_field upd f acc [] = Some acc"
| "fold_field upd f acc ((k, v) # kvs) =
     (if k \<noteq> f then fold_field upd f acc kvs
      else case upd acc v of None \<Rightarrow> None | Some a \<Rightarrow> fold_field upd f a kvs)"

definition upd_ptr :: "string option \<Rightarrow> json \<Rightarrow> string option option" where
  "upd_ptr acc j = (case j of JNull \<Rightarrow> Some None | JStr s \<Rightarrow> Some (Some s) | _ \<Rightarrow> None)"

definition upd_raw :: "json option \<Rightarrow> json \<Rightarrow> json option option" where
  "upd_raw acc j = Some (Some j)"

definition upd_strs :: "string list \<Rightarrow> json \<Rightarrow> string list option" where
  "upd_strs acc j = (case j of JNull \<Rightarrow> Some [] | JArr js \<Rightarrow> dec_strs js | _ \<Rightarrow> None)"

end
