(* ===== verification/Json_Text.thy ===== *)
theory Json_Text
  imports Http_Core
begin

text \<open>
  JSON text as \<^verbatim>\<open>encoding/json\<close> reads and writes it.  Reading is the scanner of the package: one
  step per byte over a stack of open arrays and objects, so that \<^verbatim>\<open>Decoder.Decode\<close> (the first value
  of a stream), \<^verbatim>\<open>json.Unmarshal\<close> (one value and nothing else) and \<^verbatim>\<open>decodeStrict\<close> of
  \<^verbatim>\<open>internal/registry/kinds.go\<close> are three ways to run it.  Writing is \<^verbatim>\<open>json.Marshal\<close>, with its
  HTML escapes.  Strings are byte lists, and invalid UTF-8 becomes U+FFFD both ways.
\<close>

section \<open>UTF-8\<close>

definition is_cont :: "char \<Rightarrow> bool" where
  "is_cont c \<longleftrightarrow> 128 \<le> byte c \<and> byte c < 192"

text \<open>The valid sequences of two, three and four bytes.\<close>

definition seq2 :: "char \<Rightarrow> char \<Rightarrow> bool" where
  "seq2 a b \<longleftrightarrow> 194 \<le> byte a \<and> byte a \<le> 223 \<and> is_cont b"

definition seq3 :: "char \<Rightarrow> char \<Rightarrow> char \<Rightarrow> bool" where
  "seq3 a b c \<longleftrightarrow> 224 \<le> byte a \<and> byte a \<le> 239 \<and> is_cont b \<and> is_cont c \<and>
     (byte a = 224 \<longrightarrow> 160 \<le> byte b) \<and> (byte a = 237 \<longrightarrow> byte b \<le> 159)"

definition seq4 :: "char \<Rightarrow> char \<Rightarrow> char \<Rightarrow> char \<Rightarrow> bool" where
  "seq4 a b c d \<longleftrightarrow> 240 \<le> byte a \<and> byte a \<le> 244 \<and> is_cont b \<and> is_cont c \<and> is_cont d \<and>
     (byte a = 240 \<longrightarrow> 144 \<le> byte b) \<and> (byte a = 244 \<longrightarrow> byte b \<le> 143)"

text \<open>The length of the sequence at the front (\<^verbatim>\<open>utf8.DecodeRune\<close>), 0 when it is not a valid one.\<close>

fun rune_size :: "string \<Rightarrow> nat" where
  "rune_size (a # b # c # d # s) =
     (if byte a < 128 then 1 else if seq2 a b then 2 else if seq3 a b c then 3 else if seq4 a b c d then 4 else 0)"
| "rune_size [a, b, c] = (if byte a < 128 then 1 else if seq2 a b then 2 else if seq3 a b c then 3 else 0)"
| "rune_size [a, b] = (if byte a < 128 then 1 else if seq2 a b then 2 else 0)"
| "rune_size [a] = (if byte a < 128 then 1 else 0)"
| "rune_size [] = 0"

text \<open>U+FFFD, which stands for a byte that is not part of a valid sequence.\<close>

definition replacement :: string where "replacement = [CHR 0xEF, CHR 0xBF, CHR 0xBD]"

lemma rune_size_le: "rune_size s \<le> length s"
  by (cases s rule: rune_size.cases) auto

lemma rune_size_append: "0 < rune_size s \<Longrightarrow> rune_size (s @ t) = rune_size s"
  by (cases s rule: rune_size.cases; cases t rule: rune_size.cases) (auto split: if_splits)

lemma rune_size_take: "rune_size (take (rune_size s) s) = rune_size s"
  by (cases s rule: rune_size.cases) auto

text \<open>The bytes with every invalid one replaced, as \<^verbatim>\<open>json\<close> treats a string both ways.\<close>

function to_valid :: "string \<Rightarrow> string" where
  "to_valid [] = []"
| "to_valid (a # s) =
     (case rune_size (a # s) of
        0 \<Rightarrow> replacement @ to_valid s
      | Suc n \<Rightarrow> a # take n s @ to_valid (drop n s))"
  by pat_completeness auto
termination by (relation "measure length") auto

text \<open>\<^verbatim>\<open>utf8.EncodeRune\<close>, for a rune that is not a surrogate.\<close>

definition encode_rune :: "nat \<Rightarrow> string" where
  "encode_rune r =
     (if r < 128 then [char_of r]
      else if r < 2048 then [char_of (192 + r div 64), char_of (128 + r mod 64)]
      else if r < 65536 then [char_of (224 + r div 4096), char_of (128 + r div 64 mod 64), char_of (128 + r mod 64)]
      else [char_of (240 + r div 262144), char_of (128 + r div 4096 mod 64), char_of (128 + r div 64 mod 64),
            char_of (128 + r mod 64)])"

section \<open>String literals\<close>

definition is_hex :: "char \<Rightarrow> bool" where
  "is_hex c \<longleftrightarrow> is_digit c \<or> (97 \<le> byte c \<and> byte c \<le> 102) \<or> (65 \<le> byte c \<and> byte c \<le> 70)"

definition hex_val :: "char \<Rightarrow> nat" where
  "hex_val c = (if is_digit c then byte c - 48 else if 97 \<le> byte c then byte c - 87 else byte c - 55)"

text \<open>\<^verbatim>\<open>getu4\<close>: four hex digits after backslash and u.\<close>

fun getu4 :: "string \<Rightarrow> nat option" where
  "getu4 (x # y # a # b # c # d # s) =
     (if x = CHR 0x5C \<and> y = CHR ''u'' \<and> list_all is_hex [a, b, c, d]
      then Some (((hex_val a * 16 + hex_val b) * 16 + hex_val c) * 16 + hex_val d) else None)"
| "getu4 _ = None"

definition is_surrogate :: "nat \<Rightarrow> bool" where
  "is_surrogate r \<longleftrightarrow> 55296 \<le> r \<and> r < 57344"

text \<open>\<^verbatim>\<open>utf16.DecodeRune\<close> on a pair, if it is one.\<close>

definition surrogate_pair :: "nat \<Rightarrow> nat \<Rightarrow> nat option" where
  "surrogate_pair hi lo =
     (if 55296 \<le> hi \<and> hi < 56320 \<and> 56320 \<le> lo \<and> lo < 57344
      then Some ((hi - 55296) * 1024 + (lo - 56320) + 65536) else None)"

text \<open>The rune of a \<^verbatim>\<open>\u\<close> escape and the bytes of the text it takes: a surrogate without its other half is U+FFFD.\<close>

definition escaped_rune :: "nat \<Rightarrow> string \<Rightarrow> nat \<times> nat" where
  "escaped_rune r s =
     (if \<not> is_surrogate r then (r, 6)
      else case getu4 (drop 6 s) of
             None \<Rightarrow> (65533, 6)
           | Some lo \<Rightarrow> (case surrogate_pair r lo of None \<Rightarrow> (65533, 6) | Some p \<Rightarrow> (p, 12)))"

definition unescape :: "char \<Rightarrow> char" where
  "unescape e =
     (if e = CHR ''b'' then CHR 0x08 else if e = CHR ''f'' then CHR 0x0C else if e = CHR ''n'' then CHR 0x0A
      else if e = CHR ''r'' then CHR 0x0D else if e = CHR ''t'' then CHR 0x09 else e)"

definition escapable :: string where
  "escapable = [CHR ''b'', CHR ''f'', CHR ''n'', CHR ''r'', CHR ''t'', CHR 0x5C, CHR ''/'', CHR 0x22]"

text \<open>\<^verbatim>\<open>unquoteBytes\<close> on the inside of a literal; the scanner lets no other escapes through.\<close>

function unquote :: "string \<Rightarrow> string" where
  "unquote [] = []"
| "unquote (a # s) =
     (if a = CHR 0x5C then
        (case s of
           [] \<Rightarrow> []
         | e # t \<Rightarrow>
             if e = CHR ''u'' then
               (case getu4 (a # s) of
                  None \<Rightarrow> []
                | Some r \<Rightarrow> encode_rune (fst (escaped_rune r (a # s))) @ unquote (drop (snd (escaped_rune r (a # s)) - 1) s))
             else if e \<in> set escapable then unescape e # unquote t else [])
      else (case rune_size (a # s) of
              0 \<Rightarrow> replacement @ unquote s
            | Suc n \<Rightarrow> a # take n s @ unquote (drop n s)))"
  by pat_completeness auto
termination by (relation "measure length") auto

declare to_valid.simps(2) [simp del] unquote.simps(2) [simp del]

definition hex_digit :: "nat \<Rightarrow> char" where
  "hex_digit n = (if n < 10 then char_of (48 + n) else char_of (87 + n))"

definition u_escape :: "nat \<Rightarrow> string" where
  "u_escape r = [CHR 0x5C, CHR ''u'', hex_digit (r div 4096 mod 16), hex_digit (r div 256 mod 16), hex_digit (r div 16 mod 16),
                 hex_digit (r mod 16)]"

text \<open>How \<^verbatim>\<open>appendString\<close> writes an ASCII byte, HTML characters escaped.\<close>

definition quote_ascii :: "char \<Rightarrow> string" where
  "quote_ascii c =
     (if c = CHR 0x5C \<or> c = CHR 0x22 then [CHR 0x5C, c]
      else if c = CHR 0x08 then [CHR 0x5C, CHR ''b''] else if c = CHR 0x0C then [CHR 0x5C, CHR ''f'']
      else if c = CHR 0x0A then [CHR 0x5C, CHR ''n''] else if c = CHR 0x0D then [CHR 0x5C, CHR ''r'']
      else if c = CHR 0x09 then [CHR 0x5C, CHR ''t'']
      else if byte c < 32 \<or> c \<in> set ''<>&'' then u_escape (byte c)
      else [c])"

text \<open>The runes U+2028 and U+2029, escaped as well.\<close>

definition line_breaks :: "string list" where
  "line_breaks = [[CHR 0xE2, CHR 0x80, CHR 0xA8], [CHR 0xE2, CHR 0x80, CHR 0xA9]]"

definition quote_rune :: "string \<Rightarrow> string" where
  "quote_rune s =
     (if s = line_breaks ! 0 then u_escape 8232 else if s = line_breaks ! 1 then u_escape 8233 else s)"

function quote_body :: "string \<Rightarrow> string" where
  "quote_body [] = []"
| "quote_body (a # s) =
     (if byte a < 128 then quote_ascii a @ quote_body s
      else case rune_size (a # s) of
             0 \<Rightarrow> u_escape 65533 @ quote_body s
           | Suc n \<Rightarrow> quote_rune (a # take n s) @ quote_body (drop n s))"
  by pat_completeness auto
termination by (relation "measure length") auto

declare quote_body.simps(2) [simp del]

definition quote_str :: "string \<Rightarrow> string" where
  "quote_str s = CHR 0x22 # quote_body s @ [CHR 0x22]"

section \<open>The scanner\<close>

text \<open>A number literal in progress; four of the states may end it.\<close>

datatype num_state = NNeg | NZero | NInt | NDot | NFrac | NExp | NExpSign | NExpInt

definition num_ends :: "num_state \<Rightarrow> bool" where
  "num_ends q \<longleftrightarrow> q \<in> {NZero, NInt, NFrac, NExpInt}"

definition num_tail :: "char \<Rightarrow> num_state option" where
  "num_tail c = (if c = CHR ''.'' then Some NDot else if c = CHR ''e'' \<or> c = CHR ''E'' then Some NExp else None)"

fun num_step :: "num_state \<Rightarrow> char \<Rightarrow> num_state option" where
  "num_step NNeg c = (if c = CHR ''0'' then Some NZero else if is_digit c then Some NInt else None)"
| "num_step NZero c = num_tail c"
| "num_step NInt c = (if is_digit c then Some NInt else num_tail c)"
| "num_step NDot c = (if is_digit c then Some NFrac else None)"
| "num_step NFrac c = (if is_digit c then Some NFrac else if c = CHR ''e'' \<or> c = CHR ''E'' then Some NExp else None)"
| "num_step NExp c = (if c = CHR ''+'' \<or> c = CHR ''-'' then Some NExpSign else if is_digit c then Some NExpInt else None)"
| "num_step NExpSign c = (if is_digit c then Some NExpInt else None)"
| "num_step NExpInt c = (if is_digit c then Some NExpInt else None)"

text \<open>
  What is open: an array with its elements so far, an object whose next key is being read, an
  object whose key has been read; the newest member first.  The modes are the step functions of the
  scanner, with the text of the literal in progress, the newest byte first.
\<close>

datatype frame = FArr "json list" | FKey "(string \<times> json) list" | FVal "(string \<times> json) list" string

datatype mode =
    MValue | MValueOrEnd | MKey | MKeyOrEnd
  | MStr string | MEsc string | MHex nat string
  | MNum num_state string | MLit string json
  | MDone json

text \<open>One step: go on, refuse, or have a whole value, which took the byte or ended before it.\<close>

datatype next_step = Go "frame list" mode | Bad | Fin json | FinBefore json

definition is_space :: "char \<Rightarrow> bool" where
  "is_space c \<longleftrightarrow> c = CHR '' '' \<or> c = CHR 0x09 \<or> c = CHR 0x0D \<or> c = CHR 0x0A"

definition maxNestingDepth :: nat where "maxNestingDepth = 10000"

definition closed :: "frame list \<Rightarrow> json \<Rightarrow> next_step" where
  "closed st v = (if st = [] then Fin v else Go st (MDone v))"

definition push :: "frame list \<Rightarrow> frame \<Rightarrow> mode \<Rightarrow> next_step" where
  "push st f m = (if length st < maxNestingDepth then Go (f # st) m else Bad)"

definition begin_value :: "frame list \<Rightarrow> char \<Rightarrow> next_step" where
  "begin_value st c =
     (if c = CHR ''{'' then push st (FKey []) MKeyOrEnd
      else if c = CHR ''['' then push st (FArr []) MValueOrEnd
      else if c = CHR 0x22 then Go st (MStr [])
      else if c = CHR ''-'' then Go st (MNum NNeg [c])
      else if c = CHR ''0'' then Go st (MNum NZero [c])
      else if is_digit c then Go st (MNum NInt [c])
      else if c = CHR ''t'' then Go st (MLit ''rue'' (JBool True))
      else if c = CHR ''f'' then Go st (MLit ''alse'' (JBool False))
      else if c = CHR ''n'' then Go st (MLit ''ull'' JNull)
      else Bad)"

definition after_value :: "frame list \<Rightarrow> json \<Rightarrow> char \<Rightarrow> next_step" where
  "after_value st v c =
     (case st of
        [] \<Rightarrow> FinBefore v
      | f # fs \<Rightarrow>
          if is_space c then Go st (MDone v)
          else (case f of
                  FArr vs \<Rightarrow>
                    if c = CHR '','' then Go (FArr (v # vs) # fs) MValue
                    else if c = CHR '']'' then closed fs (JArr (rev (v # vs))) else Bad
                | FKey kvs \<Rightarrow>
                    (case v of JStr k \<Rightarrow> if c = CHR '':'' then Go (FVal kvs k # fs) MValue else Bad | _ \<Rightarrow> Bad)
                | FVal kvs k \<Rightarrow>
                    if c = CHR '','' then Go (FKey ((k, v) # kvs) # fs) MKey
                    else if c = CHR ''}'' then closed fs (JObj (rev ((k, v) # kvs))) else Bad))"

fun scan_step :: "frame list \<Rightarrow> mode \<Rightarrow> char \<Rightarrow> next_step" where
  "scan_step st MValue c = (if is_space c then Go st MValue else begin_value st c)"
| "scan_step st MValueOrEnd c =
     (if is_space c then Go st MValueOrEnd else if c = CHR '']'' then closed (tl st) (JArr []) else begin_value st c)"
| "scan_step st MKey c = (if is_space c then Go st MKey else if c = CHR 0x22 then Go st (MStr []) else Bad)"
| "scan_step st MKeyOrEnd c =
     (if is_space c then Go st MKeyOrEnd else if c = CHR ''}'' then closed (tl st) (JObj [])
      else if c = CHR 0x22 then Go st (MStr []) else Bad)"
| "scan_step st (MStr acc) c =
     (if c = CHR 0x22 then Go st (MDone (JStr (unquote (rev acc))))
      else if c = CHR 0x5C then Go st (MEsc (c # acc))
      else if byte c < 32 then Bad else Go st (MStr (c # acc)))"
| "scan_step st (MEsc acc) c =
     (if c \<in> set escapable then Go st (MStr (c # acc))
      else if c = CHR ''u'' then Go st (MHex 4 (c # acc)) else Bad)"
| "scan_step st (MHex n acc) c =
     (if is_hex c then Go st (if n \<le> 1 then MStr (c # acc) else MHex (n - 1) (c # acc)) else Bad)"
| "scan_step st (MNum q acc) c =
     (case num_step q c of
        Some q' \<Rightarrow> Go st (MNum q' (c # acc))
      | None \<Rightarrow> if num_ends q then after_value st (JNum (rev acc)) c else Bad)"
| "scan_step st (MLit todo v) c =
     (case todo of
        [] \<Rightarrow> Bad
      | x # xs \<Rightarrow> if c = x then Go st (if xs = [] then MDone v else MLit xs v) else Bad)"
| "scan_step st (MDone v) c = after_value st v c"

datatype scanned = Value json string | Malformed | Unfinished "frame list" mode

primrec scan :: "frame list \<Rightarrow> mode \<Rightarrow> string \<Rightarrow> scanned" where
  "scan st m [] = Unfinished st m"
| "scan st m (c # s) =
     (case scan_step st m c of
        Go st' m' \<Rightarrow> scan st' m' s
      | Bad \<Rightarrow> Malformed
      | Fin v \<Rightarrow> Value v s
      | FinBefore v \<Rightarrow> Value v (c # s))"

text \<open>The end of the text, which ends a value at top level that nothing closes.\<close>

fun at_end :: "frame list \<Rightarrow> mode \<Rightarrow> json option" where
  "at_end [] (MDone v) = Some v"
| "at_end [] (MNum q acc) = (if num_ends q then Some (JNum (rev acc)) else None)"
| "at_end _ _ = None"

section \<open>Decoding\<close>

text \<open>
  \<^verbatim>\<open>Decoder.Decode\<close> takes the first value and leaves the rest unread.  The error of the reader
  shows only when the bytes before it do not settle the matter.
\<close>

definition Decode :: "reader \<Rightarrow> berr + json" where
  "Decode r =
     (case scan [] MValue (rdBytes r) of
        Value v _ \<Rightarrow> Inr v
      | Malformed \<Rightarrow> Inl (ErrOther ''invalid character'')
      | Unfinished st m \<Rightarrow>
          (case rdErr r of
             Some e \<Rightarrow> Inl e
           | None \<Rightarrow> (case at_end st m of Some v \<Rightarrow> Inr v | None \<Rightarrow> Inl (ErrOther ''unexpected EOF''))))"

text \<open>\<^verbatim>\<open>json.Unmarshal\<close>: one value, white space around it and nothing else.\<close>

definition Unmarshal :: "string \<Rightarrow> json option" where
  "Unmarshal s =
     (case scan [] MValue s of
        Value v rest \<Rightarrow> if list_all is_space rest then Some v else None
      | Malformed \<Rightarrow> None
      | Unfinished st m \<Rightarrow> at_end st m)"

text \<open>
  \<^verbatim>\<open>decodeStrict\<close>: the first value, decoded by \<open>dec\<close>, and no further data.  \<^verbatim>\<open>Decoder.More\<close> looks at the
  next byte that is not white space; a closing bracket counts as the end.
\<close>

definition decoder_More :: "string \<Rightarrow> bool" where
  "decoder_More rest = (case dropWhile is_space rest of [] \<Rightarrow> False | c # _ \<Rightarrow> c \<noteq> CHR '']'' \<and> c \<noteq> CHR ''}'')"

definition decodeStrict :: "(json \<Rightarrow> 'a option) \<Rightarrow> string \<Rightarrow> 'a option" where
  "decodeStrict dec raw =
     (case scan [] MValue raw of
        Value v rest \<Rightarrow> (case dec v of None \<Rightarrow> None | Some x \<Rightarrow> if decoder_More rest then None else Some x)
      | Malformed \<Rightarrow> None
      | Unfinished st m \<Rightarrow> (case at_end st m of None \<Rightarrow> None | Some v \<Rightarrow> dec v))"

section \<open>Encoding\<close>

text \<open>\<^verbatim>\<open>json.Marshal\<close>, compact; members come in the order given.\<close>

fun json_text :: "json \<Rightarrow> string" and elems_text :: "json list \<Rightarrow> string"
  and members_text :: "(string \<times> json) list \<Rightarrow> string" where
  "json_text JNull = ''null''"
| "json_text (JBool b) = (if b then ''true'' else ''false'')"
| "json_text (JNum lit) = lit"
| "json_text (JStr s) = quote_str s"
| "json_text (JArr js) = CHR ''['' # elems_text js @ '']''"
| "json_text (JObj kvs) = CHR ''{'' # members_text kvs @ ''}''"
| "elems_text [] = []"
| "elems_text (j # js) = json_text j @ (if js = [] then [] else CHR '','' # elems_text js)"
| "members_text [] = []"
| "members_text ((k, v) # kvs) = quote_str k @ CHR '':'' # json_text v @ (if kvs = [] then [] else CHR '','' # members_text kvs)"

end
