(* ===== verification/Json_Laws.thy ===== *)
theory Json_Laws
  imports Json_Text
begin

text \<open>
  What JSON text means to the program: a value written is read back as it was, whatever follows it
  in the stream, and every value read has valid UTF-8 strings, well-formed numbers and the bounded
  nesting that make it writable again.
\<close>

section \<open>Strings\<close>

definition whole_rune :: "string \<Rightarrow> bool" where
  "whole_rune c \<longleftrightarrow> c \<noteq> [] \<and> rune_size c = length c"

lemma whole_rune_size: "whole_rune c \<Longrightarrow> rune_size (c @ s) = length c"
  by (simp add: whole_rune_def rune_size_append)

lemma whole_rune_first: "rune_size (a # s) = Suc n \<Longrightarrow> whole_rune (a # take n s)"
  using rune_size_take [of "a # s"] rune_size_le [of "a # s"] by (simp add: whole_rune_def)

lemma to_valid_append: "whole_rune c \<Longrightarrow> to_valid (c @ s) = c @ to_valid s"
  using whole_rune_size [of c s] by (cases c) (auto simp: whole_rune_def to_valid.simps)

lemma unquote_append: "whole_rune c \<Longrightarrow> hd c \<noteq> CHR 0x5C \<Longrightarrow> unquote (c @ s) = c @ unquote s"
  using whole_rune_size [of c s] by (cases c) (auto simp: whole_rune_def unquote.simps)

lemma whole_ascii: "byte a < 128 \<Longrightarrow> whole_rune [a]"
  by (simp add: whole_rune_def)

lemma unquote_ascii: "byte a < 128 \<Longrightarrow> a \<noteq> CHR 0x5C \<Longrightarrow> unquote (a # s) = a # unquote s"
  using unquote_append [OF whole_ascii, of a s] by simp

lemma hex_digits: "n < 16 \<Longrightarrow> is_hex (hex_digit n) \<and> hex_val (hex_digit n) = n"
  by (auto simp: hex_digit_def is_hex_def hex_val_def is_digit_def)

lemma four_digits: "r < 65536 \<Longrightarrow> ((r div 4096 mod 16 * 16 + r div 256 mod 16) * 16 + r div 16 mod 16) * 16 + r mod 16 = (r :: nat)"
proof -
  have d: "r div 256 = r div 16 div 16" "r div 4096 = r div 16 div 16 div 16" by (simp_all flip: div_mult2_eq)
  assume "r < 65536"
  then have "r div 16 div 16 div 16 < 16" by (simp flip: div_mult2_eq)
  then have "r div 16 div 16 div 16 mod 16 = r div 16 div 16 div 16" by simp
  then show ?thesis
    unfolding d using div_mult_mod_eq [of r 16] div_mult_mod_eq [of "r div 16" 16] div_mult_mod_eq [of "r div 16 div 16" 16]
    by simp
qed

lemma getu4_escape: "r < 65536 \<Longrightarrow> getu4 (u_escape r @ s) = Some r"
  using four_digits [of r] by (simp add: u_escape_def hex_digits)

lemma unquote_escape:
  assumes "r < 65536" "\<not> is_surrogate r"
  shows "unquote (u_escape r @ s) = encode_rune r @ unquote s"
  using assms getu4_escape [OF assms(1), of s] by (simp add: u_escape_def unquote.simps(2) escaped_rune_def)

lemma unquote_quote_ascii:
  assumes "byte a < 128"
  shows "unquote (quote_ascii a @ s) = a # unquote s"
proof -
  have "encode_rune (byte a) = [a]" "\<not> is_surrogate (byte a)" using assms by (simp_all add: encode_rune_def is_surrogate_def)
  with assms unquote_escape [of "byte a" s] unquote_ascii [of a s] show ?thesis
    by (auto simp: quote_ascii_def unquote.simps(2) unescape_def escapable_def)
qed

lemma unquote_quote_rune:
  assumes "whole_rune c" "128 \<le> byte (hd c)"
  shows "unquote (quote_rune c @ s) = c @ unquote s"
proof -
  have "hd c \<noteq> CHR 0x5C" using assms(2) by auto
  moreover have "encode_rune 8232 = line_breaks ! 0" "encode_rune 8233 = line_breaks ! 1"
    by (simp_all add: encode_rune_def line_breaks_def char_of_def bit_0)
  ultimately show ?thesis
    using unquote_append [OF assms(1)] unquote_escape [of 8232 s] unquote_escape [of 8233 s]
    by (auto simp: quote_rune_def is_surrogate_def)
qed

lemma unquote_quote_body: "unquote (quote_body s) = to_valid s"
proof (induction s rule: quote_body.induct)
  case (2 a s)
  have r: "encode_rune 65533 = replacement" by (simp add: encode_rune_def replacement_def char_of_def bit_0)
  show ?case
  proof (cases "byte a < 128")
    case True
    with 2(1) show ?thesis using to_valid_append [OF whole_ascii [OF True], of s]
      by (simp add: quote_body.simps unquote_quote_ascii)
  next
    case False
    show ?thesis
    proof (cases "rune_size (a # s)")
      case 0
      with 2(2) False r show ?thesis
        using unquote_escape [of 65533 "quote_body s"] by (simp add: quote_body.simps to_valid.simps is_surrogate_def)
    next
      case (Suc n)
      with 2(3) False show ?thesis
        using unquote_quote_rune [OF whole_rune_first [OF Suc], of "quote_body (drop n s)"]
        by (simp add: quote_body.simps to_valid.simps)
    qed
  qed
qed simp

lemma encode_rune_whole:
  assumes "r < 1114112" "\<not> is_surrogate r"
  shows "whole_rune (encode_rune r)"
proof -
  have m: "128 + n mod 64 < 192" for n :: nat by simp
  consider "r < 128" | "128 \<le> r" "r < 2048" | "2048 \<le> r" "r < 65536" | "65536 \<le> r" by linarith
  then show ?thesis
  proof cases
    case 2
    then have "2 \<le> r div 64" "r div 64 < 32" by (simp_all add: less_mult_imp_div_less)
    with 2 m [of r] show ?thesis by (simp add: whole_rune_def encode_rune_def seq2_def is_cont_def)
  next
    case 3
    let ?b = "r div 64 mod 64"
    have a: "r div 4096 < 16" using 3 by (simp add: less_mult_imp_div_less)
    have d: "r div 64 = r div 4096 * 64 + ?b" using div_mult_mod_eq [of "r div 64" 64] by (simp flip: div_mult2_eq)
    have e: "r = r div 64 * 64 + r mod 64" by simp
    have "32 \<le> ?b" if "r div 4096 = 0" using 3(1) d that by simp
    moreover have "?b < 32" if "r div 4096 = 13"
    proof -
      have "r mod 64 < 64" by simp
      with assms(2) d e that show ?thesis by (simp add: is_surrogate_def) linarith
    qed
    ultimately show ?thesis
      using 3 a m [of r] m [of "r div 64"] by (auto simp: whole_rune_def encode_rune_def seq2_def seq3_def is_cont_def)
  next
    case 4
    let ?b = "r div 4096 mod 64"
    have a: "r div 262144 \<le> 4" using assms(1) by linarith
    have d: "r div 4096 = r div 262144 * 64 + ?b" using div_mult_mod_eq [of "r div 4096" 64] by (simp flip: div_mult2_eq)
    have "16 \<le> r div 4096" "r div 4096 < 272" using 4 assms(1) by linarith+
    then have "16 \<le> ?b \<or> r div 262144 \<noteq> 0" "?b < 16 \<or> r div 262144 \<noteq> 4" using d by linarith+
    then show ?thesis
      using 4 a m [of r] m [of "r div 64"] m [of "r div 4096"]
      by (auto simp: whole_rune_def encode_rune_def seq2_def seq3_def seq4_def is_cont_def)
  qed (simp add: encode_rune_def whole_ascii)
qed

lemma getu4_bound: "getu4 s = Some r \<Longrightarrow> r < 65536"
proof (cases s rule: getu4.cases)
  case (1 x y a b c d t)
  have h: "is_hex z \<Longrightarrow> hex_val z < 16" for z by (auto simp: is_hex_def hex_val_def is_digit_def)
  assume "getu4 s = Some r"
  with 1 h [of a] h [of b] h [of c] h [of d] show ?thesis by (auto split: if_splits)
qed auto

lemma escaped_rune_whole: "getu4 s = Some r \<Longrightarrow> whole_rune (encode_rune (fst (escaped_rune r s)))"
  by (intro encode_rune_whole)
    (auto simp: escaped_rune_def is_surrogate_def surrogate_pair_def split: option.splits dest!: getu4_bound)

lemma whole_replacement: "whole_rune replacement"
  by (simp add: whole_rune_def replacement_def seq2_def seq3_def is_cont_def)

lemma unescape_ascii: "e \<in> set escapable \<Longrightarrow> byte (unescape e) < 128"
  unfolding escapable_def list.set insert_iff empty_iff
  by (elim disjE FalseE) (simp_all add: unescape_def)

lemma unquote_valid: "to_valid (unquote s) = unquote s"
proof (induction s rule: unquote.induct)
  case (2 a s)
  show ?case
  proof (cases "a = CHR 0x5C")
    case esc: True
    show ?thesis
    proof (cases s)
      case (Cons e t)
      show ?thesis
      proof (cases "e = CHR ''u''")
        case True
        show ?thesis
        proof (cases "getu4 (a # s)")
          case (Some r)
          from 2(1) [OF esc Cons True Some] to_valid_append [OF escaped_rune_whole [OF Some]] esc Cons True Some
          show ?thesis by (simp add: unquote.simps(2) [of "CHR 0x5C"])
        qed (use esc Cons True in \<open>simp add: unquote.simps(2) [of "CHR 0x5C"]\<close>)
      next
        case False
        have "whole_rune [unescape e]" if "e \<in> set escapable" using that by (intro whole_ascii unescape_ascii)
        with 2(2) [OF esc Cons False] False esc Cons show ?thesis
          using to_valid_append [of "[unescape e]" "unquote t"] by (simp add: unquote.simps)
      qed
    qed (simp add: unquote.simps esc)
  next
    case False
    show ?thesis
    proof (cases "rune_size (a # s)")
      case 0
      with 2(3) False show ?thesis by (simp add: unquote.simps to_valid_append whole_replacement)
    next
      case (Suc n)
      with 2(4) False show ?thesis
        using to_valid_append [OF whole_rune_first [OF Suc], of "unquote (drop n s)"] by (simp add: unquote.simps)
    qed
  qed
qed simp

section \<open>Scanning what was written\<close>

lemma scan_plain: "list_all (\<lambda>c. 32 \<le> byte c \<and> c \<noteq> CHR 0x22 \<and> c \<noteq> CHR 0x5C) s \<Longrightarrow> scan st (MStr acc) (s @ t) = scan st (MStr (rev s @ acc)) t"
  by (induction s arbitrary: acc) auto

lemma scan_u_escape: "scan st (MStr acc) (u_escape r @ t) = scan st (MStr (rev (u_escape r) @ acc)) t"
proof -
  have "is_hex (hex_digit (n mod 16))" for n using hex_digits [of "n mod 16"] by simp
  then show ?thesis by (simp add: u_escape_def escapable_def)
qed

lemma scan_quote_ascii: "scan st (MStr acc) (quote_ascii a @ t) = scan st (MStr (rev (quote_ascii a) @ acc)) t"
proof -
  have "(\<exists>e \<in> set escapable. quote_ascii a = [CHR 0x5C, e]) \<or> quote_ascii a = u_escape (byte a) \<or>
    quote_ascii a = [a] \<and> 32 \<le> byte a \<and> a \<noteq> CHR 0x22 \<and> a \<noteq> CHR 0x5C"
    by (simp add: quote_ascii_def escapable_def)
  then show ?thesis by (elim disjE bexE) (simp_all add: scan_u_escape)
qed

lemma whole_rune_high:
  assumes "whole_rune (a # s)" "128 \<le> byte a" "c \<in> set (a # s)"
  shows "128 \<le> byte c"
  using assms by (cases "a # s" rule: rune_size.cases)
    (auto simp: whole_rune_def seq2_def seq3_def seq4_def is_cont_def split: if_splits)

lemma scan_quote_rune:
  assumes "whole_rune (a # s)" "128 \<le> byte a"
  shows "scan st (MStr acc) (quote_rune (a # s) @ t) = scan st (MStr (rev (quote_rune (a # s)) @ acc)) t"
proof -
  have "list_all (\<lambda>c. 32 \<le> byte c \<and> c \<noteq> CHR 0x22 \<and> c \<noteq> CHR 0x5C) (a # s)"
    unfolding list_all_iff using whole_rune_high [OF assms] by force
  from scan_plain [OF this, of st acc t] show ?thesis by (simp add: quote_rune_def scan_u_escape)
qed

lemma scan_quote_body: "scan st (MStr acc) (quote_body s @ t) = scan st (MStr (rev (quote_body s) @ acc)) t"
proof (induction s arbitrary: acc rule: quote_body.induct)
  case (2 a s)
  show ?case
  proof (cases "byte a < 128")
    case True
    with 2(1) show ?thesis by (simp add: quote_body.simps scan_quote_ascii)
  next
    case False
    show ?thesis
    proof (cases "rune_size (a # s)")
      case 0
      with 2(2) False show ?thesis by (simp add: quote_body.simps scan_u_escape)
    next
      case (Suc n)
      with 2(3) False show ?thesis using scan_quote_rune [OF whole_rune_first [OF Suc]] by (simp add: quote_body.simps)
    qed
  qed
qed simp

lemma scan_quoted: "scan st (MStr []) (quote_body s @ CHR 0x22 # t) = scan st (MDone (JStr (to_valid s))) t"
  by (simp add: scan_quote_body unquote_quote_body)

section \<open>Numbers\<close>

definition num_start :: "char \<Rightarrow> num_state option" where
  "num_start c =
     (if c = CHR ''-'' then Some NNeg else if c = CHR ''0'' then Some NZero else if is_digit c then Some NInt else None)"

fun num_run :: "num_state \<Rightarrow> string \<Rightarrow> num_state option" where
  "num_run q [] = Some q"
| "num_run q (c # s) = (case num_step q c of None \<Rightarrow> None | Some q' \<Rightarrow> num_run q' s)"

definition num_read :: "string \<Rightarrow> num_state option" where
  "num_read lit = (case lit of [] \<Rightarrow> None | c # s \<Rightarrow> Option.bind (num_start c) (\<lambda>q. num_run q s))"

definition num_lit :: "string \<Rightarrow> bool" where
  "num_lit lit \<longleftrightarrow> (case num_read lit of None \<Rightarrow> False | Some q \<Rightarrow> num_ends q)"

text \<open>The bytes that no number goes on with.\<close>

definition num_break :: "char \<Rightarrow> bool" where
  "num_break c \<longleftrightarrow> \<not> is_digit c \<and> c \<notin> set ''.eE+-''"

lemma num_break_ends: "num_break c \<Longrightarrow> num_step q c = None"
proof -
  assume b: "num_break c"
  then have "c \<noteq> CHR ''0''" by (intro notI) (simp add: num_break_def is_digit_def)
  with b show ?thesis by (cases q) (simp_all add: num_break_def num_tail_def)
qed

lemma scan_num_run: "num_run q lit = Some q' \<Longrightarrow> scan st (MNum q acc) (lit @ t) = scan st (MNum q' (rev lit @ acc)) t"
  by (induction q lit arbitrary: acc rule: num_run.induct) (auto split: option.splits)

lemma num_run_snoc: "num_run q s = Some q' \<Longrightarrow> num_step q' c = Some q'' \<Longrightarrow> num_run q (s @ [c]) = Some q''"
  by (induction q s rule: num_run.induct) (auto split: option.splits)

lemma num_read_snoc: "num_read s = Some q \<Longrightarrow> num_step q c = Some q' \<Longrightarrow> num_read (s @ [c]) = Some q'"
  by (auto simp: num_read_def num_run_snoc split: list.splits bind_splits)

lemma digit_not: "is_digit c \<Longrightarrow> c \<noteq> CHR ''{'' \<and> c \<noteq> CHR ''['' \<and> c \<noteq> CHR '']'' \<and> c \<noteq> CHR 0x22 \<and> \<not> is_space c"
  by (auto simp: is_digit_def is_space_def)

lemma scan_num:
  assumes "num_read lit = Some q"
  shows "scan st MValue (lit @ t) = scan st (MNum q (rev lit)) t"
proof -
  from assms obtain c s q0 where lit: "lit = c # s" "num_start c = Some q0" "num_run q0 s = Some q"
    by (auto simp: num_read_def split: list.splits bind_splits)
  from lit(2) consider "c = CHR ''-''" "q0 = NNeg" | "c = CHR ''0''" "q0 = NZero"
    | "is_digit c" "c \<noteq> CHR ''0''" "c \<noteq> CHR ''-''" "q0 = NInt"
    by (auto simp: num_start_def split: if_splits)
  then have "scan_step st MValue c = Go st (MNum q0 [c])"
    by cases (simp_all add: begin_value_def is_space_def digit_not [unfolded is_space_def])
  with scan_num_run [OF lit(3), of st "[c]" t] lit(1) show ?thesis by simp
qed

section \<open>Values\<close>

text \<open>The values that can be read with \<open>d\<close> levels of nesting left.\<close>

fun fits :: "nat \<Rightarrow> json \<Rightarrow> bool" where
  "fits d (JStr s) = (to_valid s = s)"
| "fits d (JNum lit) = num_lit lit"
| "fits d (JArr js) = (0 < d \<and> (\<forall>j \<in> set js. fits (d - 1) j))"
| "fits d (JObj kvs) = (0 < d \<and> (\<forall>(k, v) \<in> set kvs. to_valid k = k \<and> fits (d - 1) v))"
| "fits d _ = True"

text \<open>Reading goes on after a value: at the top, a bracket that closes it ends the reading.\<close>

definition shut :: "frame list \<Rightarrow> json \<Rightarrow> string \<Rightarrow> scanned" where
  "shut st v t = (if st = [] then Value v t else scan st (MDone v) t)"

fun read_on :: "frame list \<Rightarrow> json \<Rightarrow> string \<Rightarrow> scanned" where
  "read_on st (JArr js) t = shut st (JArr js) t"
| "read_on st (JObj kvs) t = shut st (JObj kvs) t"
| "read_on st v t = scan st (MDone v) t"

lemma read_on_inner: "st \<noteq> [] \<Longrightarrow> read_on st v t = scan st (MDone v) t"
  by (cases v) (simp_all add: shut_def)

lemma scan_closed: "scan st m (c # t) = shut fs v t" if "scan_step st m c = closed fs v"
  using that by (simp add: closed_def shut_def)

definition ends_number :: "json \<Rightarrow> string \<Rightarrow> bool" where
  "ends_number v t \<longleftrightarrow> (case t of [] \<Rightarrow> (\<forall>lit. v \<noteq> JNum lit) | c # _ \<Rightarrow> num_break c)"

lemma scan_num_value:
  assumes "num_lit lit" "ends_number (JNum lit) t"
  shows "scan st MValue (lit @ t) = scan st (MDone (JNum lit)) t"
proof -
  from assms(1) obtain q where q: "num_read lit = Some q" "num_ends q" by (auto simp: num_lit_def split: option.splits)
  from assms(2) obtain c u where "t = c # u" "num_break c" by (auto simp: ends_number_def split: list.splits)
  with q(2) scan_num [OF q(1), of st t] show ?thesis by (simp add: num_break_ends)
qed

text \<open>What a number is followed by inside an array or object, and at a delimiter.\<close>

lemma num_break_delims: "num_break (CHR '','')" "num_break (CHR '']'')" "num_break (CHR ''}'')"
  by (simp_all add: num_break_def is_digit_def)

lemma ends_number_delim: "num_break c \<Longrightarrow> ends_number v (c # t)"
  by (simp add: ends_number_def)

lemma scan_string: "to_valid s = s \<Longrightarrow> scan st MValue (quote_str s @ t) = scan st (MDone (JStr s)) t"
  using scan_quoted [of st s t] by (simp add: quote_str_def is_space_def begin_value_def)

lemma scan_key: "m = MKey \<or> m = MKeyOrEnd \<Longrightarrow> to_valid s = s \<Longrightarrow> scan st m (quote_str s @ t) = scan st (MDone (JStr s)) t"
  using scan_quoted [of st s t] by (auto simp: quote_str_def is_space_def)

lemma num_start_lit: "num_lit lit \<Longrightarrow> \<exists>c s. lit = c # s \<and> \<not> is_space c \<and> c \<noteq> CHR '']''"
proof -
  assume "num_lit lit"
  then obtain c s q where "lit = c # s" "num_start c = Some q"
    by (auto simp: num_lit_def num_read_def split: list.splits option.splits bind_splits)
  moreover have "\<not> is_space c \<and> c \<noteq> CHR '']''"
    using calculation(2) digit_not [of c] by (simp add: num_start_def is_space_def split: if_splits)
  ultimately show ?thesis by blast
qed

text \<open>No value starts with white space or a closing bracket.\<close>

lemma json_text_first:
  assumes "fits d v"
  shows "\<exists>c s. json_text v = c # s \<and> \<not> is_space c \<and> c \<noteq> CHR '']''"
  using assms num_start_lit by (cases v) (auto simp: is_space_def quote_str_def)

lemma scan_or_end: "fits d v \<Longrightarrow> scan st MValueOrEnd (json_text v @ t) = scan st MValue (json_text v @ t)"
  using json_text_first [of d v] by (auto simp: json_text_first)

lemma scan_member_end:
  "scan (FArr vs # fs) (MDone v) (CHR '']'' # t) = shut fs (JArr (rev vs @ [v])) t"
  "scan (FArr vs # fs) (MDone v) (CHR '','' # t) = scan (FArr (v # vs) # fs) MValue t"
  "scan (FKey kvs # fs) (MDone (JStr k)) (CHR '':'' # t) = scan (FVal kvs k # fs) MValue t"
  "scan (FVal kvs k # fs) (MDone v) (CHR ''}'' # t) = shut fs (JObj (rev kvs @ [(k, v)])) t"
  "scan (FVal kvs k # fs) (MDone v) (CHR '','' # t) = scan (FKey ((k, v) # kvs) # fs) MKey t"
  by (simp_all add: after_value_def is_space_def closed_def shut_def)

theorem scan_written:
  "fits (maxNestingDepth - length st) v \<Longrightarrow> ends_number v t \<Longrightarrow> scan st MValue (json_text v @ t) = read_on st v t"
  "js \<noteq> [] \<Longrightarrow> \<forall>j \<in> set js. fits (maxNestingDepth - Suc (length fs)) j \<Longrightarrow>
    scan (FArr vs # fs) MValue (elems_text js @ CHR '']'' # t1) = shut fs (JArr (rev vs @ js)) t1"
  "kvs \<noteq> [] \<Longrightarrow> \<forall>(k, v) \<in> set kvs. to_valid k = k \<and> fits (maxNestingDepth - Suc (length gs)) v \<Longrightarrow> m = MKey \<or> m = MKeyOrEnd \<Longrightarrow>
    scan (FKey acc # gs) m (members_text kvs @ CHR ''}'' # t2) = shut gs (JObj (rev acc @ kvs)) t2"
proof (induction v and js and kvs arbitrary: st t and fs vs t1 and gs acc m t2 rule: json_text_elems_text_members_text.induct)
  case (2 b)
  show ?case by (cases b) (simp_all add: begin_value_def is_space_def is_digit_def)
next
  case (3 lit)
  then show ?case by (simp add: scan_num_value)
next
  case (4 s)
  then show ?case by (simp add: scan_string)
next
  case (5 js)
  from 5(2) have d: "length st < maxNestingDepth" "\<forall>j \<in> set js. fits (maxNestingDepth - Suc (length st)) j" by simp_all
  then have o: "scan st MValue (CHR ''['' # s) = scan (FArr [] # st) MValueOrEnd s" for s
    by (simp add: begin_value_def is_space_def push_def)
  show ?case
  proof (cases js)
    case Nil
    then show ?thesis using o [of "CHR '']'' # t"] by (simp add: is_space_def closed_def shut_def)
  next
    case (Cons j js')
    with d(2) have f: "fits (maxNestingDepth - Suc (length st)) j" by simp
    have "scan (FArr [] # st) MValueOrEnd (elems_text js @ CHR '']'' # t) = scan (FArr [] # st) MValue (elems_text js @ CHR '']'' # t)"
      using scan_or_end [OF f] by (simp add: Cons)
    with o 5(1) [OF _ d(2), of "[]" t] Cons show ?thesis by (simp del: elems_text.simps scan.simps)
  qed
next
  case (6 kvs)
  from 6(2) have d: "length st < maxNestingDepth"
    "\<forall>(k, v) \<in> set kvs. to_valid k = k \<and> fits (maxNestingDepth - Suc (length st)) v" by auto
  then have o: "scan st MValue (CHR ''{'' # s) = scan (FKey [] # st) MKeyOrEnd s" for s
    by (simp add: begin_value_def is_space_def push_def)
  show ?case
  proof (cases "kvs = []")
    case True
    then show ?thesis using o [of "CHR ''}'' # t"] by (simp add: is_space_def closed_def shut_def)
  next
    case False
    with o 6(1) [OF False d(2), of MKeyOrEnd "[]" t] show ?thesis by (simp del: scan.simps)
  qed
next
  case (8 j js)
  from 8(4) have f: "fits (maxNestingDepth - length (FArr vs # fs)) j" by simp
  have r: "read_on (FArr vs # fs) j u = scan (FArr vs # fs) (MDone j) u" for u by (simp add: read_on_inner)
  show ?case
  proof (cases "js = []")
    case True
    then show ?thesis using 8(1) [OF f, of "CHR '']'' # t1"] by (simp add: ends_number_delim num_break_delims r scan_member_end del: scan.simps)
  next
    case False
    have "scan (FArr vs # fs) MValue (elems_text (j # js) @ CHR '']'' # t1) = scan (FArr (j # vs) # fs) MValue (elems_text js @ CHR '']'' # t1)"
      using 8(1) [OF f, of "CHR '','' # elems_text js @ CHR '']'' # t1"] False
      by (simp add: ends_number_delim num_break_delims r scan_member_end del: scan.simps)
    with 8(2) [OF False _, of fs "j # vs" t1] 8(4) False show ?thesis by simp
  qed
next
  case (10 k v kvs)
  from 10(4) have f: "fits (maxNestingDepth - length (FVal acc k # gs)) v" "to_valid k = k" by auto
  have r: "read_on (FVal acc k # gs) v u = scan (FVal acc k # gs) (MDone v) u" for u by (simp add: read_on_inner)
  have key: "scan (FKey acc # gs) m (quote_str k @ CHR '':'' # u) = scan (FVal acc k # gs) MValue u" for u
    using scan_key [OF 10(5) f(2)] by (simp add: scan_member_end del: scan.simps)
  show ?case
  proof (cases "kvs = []")
    case True
    then show ?thesis using 10(1) [OF f(1), of "CHR ''}'' # t2"] key
      by (simp add: ends_number_delim num_break_delims r scan_member_end del: scan.simps)
  next
    case False
    have "scan (FKey acc # gs) m (members_text ((k, v) # kvs) @ CHR ''}'' # t2) =
        scan (FKey ((k, v) # acc) # gs) MKey (members_text kvs @ CHR ''}'' # t2)"
      using 10(1) [OF f(1), of "CHR '','' # members_text kvs @ CHR ''}'' # t2"] False key
      by (simp add: ends_number_delim num_break_delims r scan_member_end del: scan.simps)
    with 10(2) [OF False _, of gs MKey "(k, v) # acc" t2] 10(4) False show ?thesis by simp
  qed
qed (simp_all add: begin_value_def is_space_def is_digit_def)

lemma Unmarshal_written: "fits maxNestingDepth v \<Longrightarrow> Unmarshal (json_text v) = Some v"
proof (cases "\<exists>lit. v = JNum lit")
  case True
  assume "fits maxNestingDepth v"
  with True obtain lit q where "v = JNum lit" "num_read lit = Some q" "num_ends q"
    by (auto simp: num_lit_def split: option.splits)
  with scan_num [of lit q "[]" "[]"] show ?thesis by (simp add: Unmarshal_def)
next
  case False
  assume "fits maxNestingDepth v"
  with False scan_written(1) [of "[]" v "[]"] show ?thesis
    by (cases v) (simp_all add: Unmarshal_def ends_number_def shut_def)
qed

section \<open>What is read can be written\<close>

fun frame_fits :: "nat \<Rightarrow> frame \<Rightarrow> bool" where
  "frame_fits d (FArr vs) = (\<forall>v \<in> set vs. fits d v)"
| "frame_fits d (FKey kvs) = (\<forall>(k, v) \<in> set kvs. to_valid k = k \<and> fits d v)"
| "frame_fits d (FVal kvs k) = (to_valid k = k \<and> (\<forall>(k, v) \<in> set kvs. to_valid k = k \<and> fits d v))"

fun frames_fit :: "frame list \<Rightarrow> bool" where
  "frames_fit [] = True"
| "frames_fit (f # fs) =
     (length fs < maxNestingDepth \<and> frame_fits (maxNestingDepth - length fs - 1) f \<and> frames_fit fs)"

fun mode_fits :: "frame list \<Rightarrow> mode \<Rightarrow> bool" where
  "mode_fits st MValueOrEnd = (st \<noteq> [])"
| "mode_fits st MKeyOrEnd = (st \<noteq> [])"
| "mode_fits st (MNum q acc) = (num_read (rev acc) = Some q)"
| "mode_fits st (MLit todo v) = (\<forall>d. fits d v)"
| "mode_fits st (MDone v) = fits (maxNestingDepth - length st) v"
| "mode_fits st _ = True"

fun next_fits :: "next_step \<Rightarrow> bool" where
  "next_fits (Go st m) = (frames_fit st \<and> mode_fits st m)"
| "next_fits Bad = True"
| "next_fits (Fin v) = fits maxNestingDepth v"
| "next_fits (FinBefore v) = fits maxNestingDepth v"

lemma closed_fits: "frames_fit fs \<Longrightarrow> fits (maxNestingDepth - length fs) v \<Longrightarrow> next_fits (closed fs v)"
  by (cases "fs = []") (simp_all add: closed_def)

lemma begin_value_fits: "frames_fit st \<Longrightarrow> next_fits (begin_value st c)"
  by (simp add: begin_value_def push_def num_read_def num_start_def)

lemma after_value_fits:
  assumes "frames_fit st" "fits (maxNestingDepth - length st) v"
  shows "next_fits (after_value st v c)"
proof (cases st)
  case (Cons f fs)
  with assms have f: "length fs < maxNestingDepth" "frame_fits (maxNestingDepth - length fs - 1) f" "frames_fit fs"
    "fits (maxNestingDepth - length fs - 1) v" by simp_all
  show ?thesis
  proof (cases f)
    case (FArr vs)
    with f have "fits (maxNestingDepth - length fs) (JArr (rev (v # vs)))" by simp
    from closed_fits [OF f(3) this] f FArr show ?thesis unfolding Cons FArr by (simp add: after_value_def)
  next
    case (FKey kvs)
    with f show ?thesis unfolding Cons FKey by (cases v) (simp_all add: after_value_def)
  next
    case (FVal kvs k)
    with f have "fits (maxNestingDepth - length fs) (JObj (rev ((k, v) # kvs)))" by simp
    from closed_fits [OF f(3) this] f FVal show ?thesis unfolding Cons FVal by (simp add: after_value_def)
  qed
qed (use assms in \<open>simp add: after_value_def\<close>)

lemma scan_step_fits:
  assumes "frames_fit st" "mode_fits st m"
  shows "next_fits (scan_step st m c)"
proof (cases m)
  case MValueOrEnd
  with assms have "next_fits (closed (tl st) (JArr []))" by (intro closed_fits) (auto simp: neq_Nil_conv)
  with assms MValueOrEnd show ?thesis by (simp add: begin_value_fits)
next
  case MKeyOrEnd
  with assms have "next_fits (closed (tl st) (JObj []))" by (intro closed_fits) (auto simp: neq_Nil_conv)
  with assms MKeyOrEnd show ?thesis by simp
next
  case (MNum q acc)
  with assms have n: "num_read (rev acc) = Some q" by simp
  then have "next_fits (after_value st (JNum (rev acc)) c)" if "num_ends q"
    using that assms(1) by (intro after_value_fits) (simp_all add: num_lit_def)
  with assms MNum show ?thesis using num_read_snoc [OF n] by (auto split: option.split)
qed (use assms in \<open>simp_all add: begin_value_fits after_value_fits unquote_valid split: list.split\<close>)

lemma scan_fits:
  assumes "frames_fit st" "mode_fits st m"
  shows "(scan st m s = Value v rest \<longrightarrow> fits maxNestingDepth v) \<and>
    (scan st m s = Unfinished st' m' \<longrightarrow> frames_fit st' \<and> mode_fits st' m')"
  using assms
proof (induction s arbitrary: st m)
  case (Cons c s)
  from scan_step_fits [OF Cons.prems, of c] show ?case by (cases "scan_step st m c") (auto simp: Cons.IH)
qed auto

lemma at_end_fits: "at_end st m = Some v \<Longrightarrow> mode_fits st m \<Longrightarrow> fits maxNestingDepth v"
  by (cases "(st, m)" rule: at_end.cases) (auto simp: num_lit_def split: if_splits)

lemma Unmarshal_fits: "Unmarshal s = Some v \<Longrightarrow> fits maxNestingDepth v"
  using scan_fits [of "[]" MValue s] at_end_fits
  by (auto simp: Unmarshal_def split: scanned.splits if_splits)

lemma Decode_fits: "Decode r = Inr v \<Longrightarrow> fits maxNestingDepth v"
  using scan_fits [of "[]" MValue "rdBytes r"] at_end_fits
  by (auto simp: Decode_def split: scanned.splits option.splits)

text \<open>So a text read and written again is read as before.\<close>

theorem Unmarshal_stable: "Unmarshal s = Some v \<Longrightarrow> Unmarshal (json_text v) = Some v"
  by (intro Unmarshal_written Unmarshal_fits)

lemma decodeStrict_written:
  assumes "fits maxNestingDepth v"
  shows "decodeStrict dec (json_text v) = dec v"
  using Unmarshal_written [OF assms]
  by (auto simp: Unmarshal_def decodeStrict_def decoder_More_def list_all_iff dropWhile_eq_Nil_conv [THEN iffD2]
      split: scanned.splits if_splits option.splits)

text \<open>An object or array is taken from a stream whatever comes after it, and however the stream ends.\<close>

lemma Decode_written:
  assumes "fits maxNestingDepth v" "\<exists>js kvs. v = JArr js \<or> v = JObj kvs" "rest = [] \<or> num_break (hd rest)"
  shows "Decode \<lparr>rdBytes = json_text v @ rest, rdErr = e\<rparr> = Inr v"
proof -
  have "ends_number v rest" using assms(2,3) by (auto simp: ends_number_def split: list.split)
  with assms(1,2) scan_written(1) [of "[]" v rest] show ?thesis by (auto simp: Decode_def shut_def)
qed

lemma MaxBytesReader_short: "int (length (rdBytes r)) \<le> n \<Longrightarrow> MaxBytesReader n r = r"
  by (simp add: MaxBytesReader_def)

section \<open>Valid text in pieces\<close>

lemma ascii_valid: "list_all (\<lambda>c. byte c < 128) s \<Longrightarrow> to_valid s = s"
proof (induction s)
  case (Cons a s)
  then show ?case using to_valid_append [OF whole_ascii, of a s] by simp
qed simp

lemma to_valid_longer: "length s \<le> length (to_valid s)"
proof (induction s rule: to_valid.induct)
  case (2 a s)
  show ?case
  proof (cases "rune_size (a # s)")
    case (Suc n)
    with 2(2) rune_size_le [of "a # s"] show ?thesis by (simp add: to_valid.simps)
  qed (use 2(1) in \<open>simp add: to_valid.simps replacement_def\<close>)
qed simp

text \<open>An ASCII byte ends whatever sequence is being read.\<close>

lemma rune_size_before:
  assumes "byte c < 128" "s \<noteq> []"
  shows "rune_size (s @ c # t) = rune_size s"
proof -
  have "\<not> is_cont c" using assms(1) by (simp add: is_cont_def)
  then have "\<not> seq2 a c" "\<not> seq3 a c x" "\<not> seq3 a b c" "\<not> seq4 a c x y" "\<not> seq4 a b c x" "\<not> seq4 a b x c" for a b x y
    by (simp_all add: seq2_def seq3_def seq4_def)
  with assms(2) show ?thesis
    by (cases s rule: rune_size.cases; cases t rule: rune_size.cases) simp_all
qed

lemma to_valid_split:
  assumes "byte c < 128"
  shows "to_valid (s @ c # t) = to_valid s @ c # to_valid t"
proof (induction s rule: to_valid.induct)
  case 1
  then show ?case using to_valid_append [OF whole_ascii [OF assms], of t] by simp
next
  case (2 a s)
  have r: "rune_size (a # s @ c # t) = rune_size (a # s)" using rune_size_before [OF assms, of "a # s" t] by simp
  show ?case
  proof (cases "rune_size (a # s)")
    case (Suc n)
    with rune_size_le [of "a # s"] have "n \<le> length s" by simp
    with 2(2) [OF Suc] Suc r show ?thesis by (simp add: to_valid.simps)
  qed (use 2(1) r in \<open>simp add: to_valid.simps\<close>)
qed

lemma valid_split:
  assumes "byte c < 128"
  shows "to_valid (s @ c # t) = s @ c # t \<longleftrightarrow> to_valid s = s \<and> to_valid t = t"
proof
  assume "to_valid (s @ c # t) = s @ c # t"
  then have e: "to_valid s @ c # to_valid t = s @ c # t" by (simp add: to_valid_split [OF assms])
  then have "length (to_valid s) + length (to_valid t) = length s + length t" by (drule_tac f = length in arg_cong) simp
  with to_valid_longer [of s] to_valid_longer [of t] have "length (to_valid s) = length s" by linarith
  with e show "to_valid s = s \<and> to_valid t = t" by simp
qed (simp add: to_valid_split [OF assms])

lemma split_on_valid: "byte c < 128 \<Longrightarrow> to_valid s = s \<Longrightarrow> seg \<in> set (split_on c s) \<Longrightarrow> to_valid seg = seg"
proof (induction "length s" arbitrary: s rule: less_induct)
  case less
  show ?case
  proof (cases "c \<in> set s")
    case True
    then obtain x y where s: "s = x @ c # y" "c \<notin> set x" by (auto dest: split_list_first)
    with less.prems valid_split [OF less.prems(1)] less.hyps [of y] show ?thesis by (auto simp: split_on_app)
  qed (use less.prems in \<open>auto simp: split_on_no_sep\<close>)
qed

lemma join_valid: "byte c < 128 \<Longrightarrow> \<forall>s \<in> set ss. to_valid s = s \<Longrightarrow> to_valid (join_with c ss) = join_with c ss"
  by (induction c ss rule: join_with.induct) (auto simp: to_valid_split)

section \<open>Decimal numbers\<close>

lemma num_run_digits: "list_all is_digit s \<Longrightarrow> num_run NInt s = Some NInt"
  by (induction s) simp_all

lemma dec_nat_first:
  "0 < n \<Longrightarrow> \<exists>c s. dec_nat n = c # s \<and> is_digit c \<and> c \<noteq> CHR ''0'' \<and> list_all is_digit s"
proof (induction n rule: dec_nat.induct)
  case (1 n)
  show ?case
  proof (cases "n < 10")
    case True
    have "char_of (n + 48) \<noteq> CHR ''0''"
    proof
      assume "char_of (n + 48) = CHR ''0''"
      then have "byte (char_of (n + 48)) = byte CHR ''0''" by (rule arg_cong)
      with True 1(2) show False by simp
    qed
    with True show ?thesis by (simp add: dec_nat.simps [of n] is_digit_char_of)
  next
    case False
    then have "0 < n div 10" by (simp add: div_greater_zero_iff)
    with 1(1) False obtain c s where "dec_nat (n div 10) = c # s" "is_digit c" "c \<noteq> CHR ''0''" "list_all is_digit s" by blast
    moreover have "dec_nat n = dec_nat (n div 10) @ [char_of (n mod 10 + 48)]" using False by (simp add: dec_nat.simps [of n])
    ultimately show ?thesis by (simp add: is_digit_char_of)
  qed
qed

lemma num_read_dec_nat: "\<exists>q. num_read (dec_nat n) = Some q \<and> num_ends q"
proof (cases "n = 0")
  case True
  then have "dec_nat n = ''0''" by (simp add: dec_nat.simps [of 0] char_of_def bit_0)
  then show ?thesis by (simp add: num_read_def num_start_def num_ends_def)
next
  case False
  then obtain c s where n: "dec_nat n = c # s" "is_digit c" "c \<noteq> CHR ''0''" "list_all is_digit s" using dec_nat_first by blast
  moreover have "c \<noteq> CHR ''-''" using n(2) by (auto simp: is_digit_def)
  ultimately show ?thesis using num_run_digits by (simp add: num_read_def num_start_def num_ends_def)
qed

lemma num_lit_dec_int: "num_lit (dec_int n)"
proof (cases "n < 0")
  case True
  then have "0 < nat (- n)" by simp
  then obtain c s where n: "dec_nat (nat (- n)) = c # s" "is_digit c" "c \<noteq> CHR ''0''" "list_all is_digit s" using dec_nat_first by blast
  then show ?thesis using True num_run_digits by (simp add: num_lit_def num_read_def num_start_def num_ends_def dec_int_def)
next
  case False
  then show ?thesis using num_read_dec_nat [of "nat n"] by (auto simp: num_lit_def dec_int_def)
qed

end
