(* ===== verification/Auth.thy ===== *)
theory Auth
  imports Json_Laws
begin

text \<open>
  \<^verbatim>\<open>internal/auth/auth.go\<close>: which identity a request runs under.  Token verification itself is
  the OIDC package's: a function \<open>oidc_verify\<close> that answers, for a verifier's settings and a
  raw token, the accepted id token.  The theory models what this package does around it: the
  choice of the verifier by issuer, the claims it takes, the role a token grants in a
  workspace, and the middleware that combines it with the forwarded headers.
\<close>

section \<open>Roles\<close>

type_synonym role = string

definition RoleOwner :: role where [simp]: "RoleOwner = ''owner''"
definition RoleEditor :: role where [simp]: "RoleEditor = ''editor''"
definition RoleViewer :: role where [simp]: "RoleViewer = ''viewer''"
definition RoleGrantsService :: role where [simp]: "RoleGrantsService = ''grants-service''"

definition rank :: "role \<Rightarrow> nat" where
  "rank r = (if r = RoleOwner then 3 else if r = RoleEditor then 2 else if r = RoleViewer then 1 else 0)"

text \<open>\<open>^/workspaces/([a-z0-9-]+)/(owner|editor|viewer)$\<close> with its two groups.\<close>

definition groupRE :: "string \<Rightarrow> (string \<times> role) option" where
  "groupRE g =
     (if \<not> HasPrefix g ''/workspaces/'' then None
      else case cut_first slash (drop 12 g) of
             None \<Rightarrow> None
           | Some (ws, r) \<Rightarrow>
               if ws \<noteq> [] \<and> list_all is_slug ws \<and> (r = RoleOwner \<or> r = RoleEditor \<or> r = RoleViewer)
               then Some (ws, r) else None)"

text \<open>\<open>^streamlit:([a-z0-9-]+):grants$\<close> with its group.\<close>

definition grantsServiceRE :: "string \<Rightarrow> string option" where
  "grantsServiceRE sub =
     (if \<not> HasPrefix sub ''streamlit:'' then None
      else case cut_first (CHR '':'') (drop 10 sub) of
             None \<Rightarrow> None
           | Some (ws, rest) \<Rightarrow>
               if ws \<noteq> [] \<and> list_all is_slug ws \<and> rest = ''grants'' then Some ws else None)"

fun best_role :: "string \<Rightarrow> role \<Rightarrow> string list \<Rightarrow> role" where
  "best_role workspace best [] = best"
| "best_role workspace best (g # gs) =
     (case groupRE g of
        None \<Rightarrow> best_role workspace best gs
      | Some (ws, r) \<Rightarrow>
          if ws \<noteq> workspace then best_role workspace best gs
          else best_role workspace (if rank r > rank best then r else best) gs)"

definition RoleInWorkspace :: "string list \<Rightarrow> string \<Rightarrow> role" where
  "RoleInWorkspace groups workspace = best_role workspace [] groups"

definition EffectiveRole :: "role \<Rightarrow> role \<Rightarrow> role" where
  "EffectiveRole forwarded granted =
     (if forwarded = [] then granted
      else if rank forwarded = 0 then []
      else if rank forwarded < rank granted then forwarded
      else granted)"

section \<open>Identities\<close>

record claims =
  clSubject :: string
  clGroups :: "string list"
  clBoothModule :: string

record identity =
  idSubject :: string
  idWorkspace :: string
  idRole :: role

definition CanRead :: "identity \<Rightarrow> bool" where
  "CanRead i \<longleftrightarrow> idRole i = RoleOwner \<or> idRole i = RoleEditor \<or> idRole i = RoleViewer"

definition CanWrite :: "identity \<Rightarrow> bool" where
  "CanWrite i \<longleftrightarrow> idRole i = RoleOwner \<or> idRole i = RoleEditor"

definition IsAdmin :: "identity \<Rightarrow> bool" where
  "IsAdmin i \<longleftrightarrow> idRole i = RoleOwner"

definition IsGrantsService :: "identity \<Rightarrow> bool" where
  "IsGrantsService i \<longleftrightarrow> idRole i = RoleGrantsService"

definition grantsServiceWorkspace :: "claims \<Rightarrow> string option" where
  "grantsServiceWorkspace c =
     (if clBoothModule c \<noteq> ''streamlit'' then None else grantsServiceRE (clSubject c))"

section \<open>The verifier\<close>

text \<open>The settings an OIDC verifier is made with, and what it answers.\<close>

datatype key_source = Discovery | RemoteKeySet string

record idv =
  ivIssuer :: string
  ivKeys :: key_source
  ivSkipClientIDCheck :: bool
  ivClientID :: string

record id_token =
  itSubject :: string
  itClaims :: json

record oidc_config =
  ocIssuerURL :: string
  ocClientID :: string
  ocRequireAudience :: bool
  ocGroupsClaim :: string
  ocWorkloadIssuerURL :: string
  ocJWKSURL :: string

record verifier =
  vByIssuer :: "string \<Rightarrow> idv option"
  vGroupsClaim :: string

definition DefaultGroupsClaim :: string where "DefaultGroupsClaim = ''groups''"
definition workloadJWKSPath :: string where "workloadJWKSPath = ''/.well-known/jwks.json''"

text \<open>\<open>discover\<close> tells whether discovery against an issuer (\<^verbatim>\<open>oidc.NewProvider\<close>) succeeds.\<close>

definition NewVerifier :: "(string \<Rightarrow> bool) \<Rightarrow> oidc_config \<Rightarrow> verifier option" where
  "NewVerifier discover cfg =
     (if ocJWKSURL cfg \<noteq> [] \<and> ocIssuerURL cfg = [] then None
      else if ocJWKSURL cfg = [] \<and> \<not> discover (ocIssuerURL cfg) then None
      else
        (let claim = (if ocGroupsClaim cfg = [] then DefaultGroupsClaim else ocGroupsClaim cfg);
             mk = (\<lambda>iss keys. \<lparr>ivIssuer = iss, ivKeys = keys,
                     ivSkipClientIDCheck = (\<not> ocRequireAudience cfg), ivClientID = ocClientID cfg\<rparr>);
             primary = mk (ocIssuerURL cfg)
                         (if ocJWKSURL cfg \<noteq> [] then RemoteKeySet (ocJWKSURL cfg) else Discovery);
             v = \<lparr>vByIssuer = [ocIssuerURL cfg \<mapsto> primary], vGroupsClaim = claim\<rparr>;
             wl = TrimRightByte slash (ocWorkloadIssuerURL cfg)
         in if wl = [] then Some v
            else if wl = ocIssuerURL cfg then None
            else Some (v\<lparr>vByIssuer := (vByIssuer v)(wl \<mapsto> mk wl (RemoteKeySet (wl @ workloadJWKSPath)))\<rparr>)))"

text \<open>\<^verbatim>\<open>base64.RawURLEncoding\<close>: the URL alphabet, no padding, line breaks ignored.\<close>

definition b64_val :: "char \<Rightarrow> nat option" where
  "b64_val c =
     (if is_upper c then Some (byte c - 65)
      else if is_lower c then Some (byte c - 71)
      else if is_digit c then Some (byte c + 4)
      else if c = CHR ''-'' then Some 62
      else if c = CHR ''_'' then Some 63
      else None)"

fun b64_vals :: "string \<Rightarrow> nat list option" where
  "b64_vals [] = Some []"
| "b64_vals (c # cs) =
     (case b64_val c of
        None \<Rightarrow> None
      | Some v \<Rightarrow> (case b64_vals cs of None \<Rightarrow> None | Some vs \<Rightarrow> Some (v # vs)))"

fun b64_bytes :: "nat list \<Rightarrow> string option" where
  "b64_bytes (a # b # c # d # vs) =
     (case b64_bytes vs of
        None \<Rightarrow> None
      | Some s \<Rightarrow> Some (char_of (a * 4 + b div 16) # char_of (b mod 16 * 16 + c div 4) #
                        char_of (c mod 4 * 64 + d) # s))"
| "b64_bytes [a, b, c] = Some [char_of (a * 4 + b div 16), char_of (b mod 16 * 16 + c div 4)]"
| "b64_bytes [a, b] = Some [char_of (a * 4 + b div 16)]"
| "b64_bytes [a] = None"
| "b64_bytes [] = Some []"

definition b64_decode :: "string \<Rightarrow> string option" where
  "b64_decode s =
     (case b64_vals (filter (\<lambda>c. c \<noteq> CHR 0x0A \<and> c \<noteq> CHR 0x0D) s) of
        None \<Rightarrow> None | Some vs \<Rightarrow> b64_bytes vs)"

definition unverifiedIssuer :: "string \<Rightarrow> string option" where
  "unverifiedIssuer rawToken =
     (let parts = split_on (CHR ''.'') rawToken in
      if length parts \<noteq> 3 then None
      else case b64_decode (parts ! 1) of
             None \<Rightarrow> None
           | Some payload \<Rightarrow>
               (case Unmarshal payload of
                  None \<Rightarrow> None
                | Some j \<Rightarrow>
                    (case struct_fields False [''iss''] j of
                       None \<Rightarrow> None
                     | Some kvs \<Rightarrow> decode_field dec_str ''iss'' [] kvs)))"

text \<open>
  A groups claim that is an array keeps its strings; an element of another type is left
  empty.  Any other claim yields no group.
\<close>

definition groups_of :: "json \<Rightarrow> string list" where
  "groups_of j = (case j of JArr js \<Rightarrow> map (\<lambda>x. case x of JStr s \<Rightarrow> s | _ \<Rightarrow> []) js | _ \<Rightarrow> [])"

definition string_of :: "json \<Rightarrow> string" where
  "string_of j = (case j of JStr s \<Rightarrow> s | _ \<Rightarrow> [])"

definition Verify ::
    "(idv \<Rightarrow> string \<Rightarrow> id_token option) \<Rightarrow> verifier \<Rightarrow> string \<Rightarrow> claims option" where
  "Verify oidc_verify v rawToken =
     (case unverifiedIssuer rawToken of
        None \<Rightarrow> None
      | Some issuer \<Rightarrow>
          (case vByIssuer v issuer of
             None \<Rightarrow> None
           | Some iv \<Rightarrow>
               (case oidc_verify iv rawToken of
                  None \<Rightarrow> None
                | Some tok \<Rightarrow>
                    if itSubject tok = [] then None
                    else
                      (case itClaims tok of
                         JObj raw \<Rightarrow>
                           Some \<lparr>clSubject = itSubject tok,
                                 clGroups = (case map_of (rev raw) (vGroupsClaim v) of
                                               None \<Rightarrow> [] | Some g \<Rightarrow> groups_of g),
                                 clBoothModule = (case map_of (rev raw) ''booth_module'' of
                                               None \<Rightarrow> [] | Some m \<Rightarrow> string_of m)\<rparr>
                       | JNull \<Rightarrow> Some \<lparr>clSubject = itSubject tok, clGroups = [], clBoothModule = []\<rparr>
                       | _ \<Rightarrow> None))))"

section \<open>The middleware\<close>

definition bearerToken :: "request \<Rightarrow> string" where
  "bearerToken r =
     (let h = rqHeader r ''Authorization'' in
      if length h < 7 \<or> \<not> EqualFoldAscii (take 7 h) ''Bearer '' then [] else TrimSpace (drop 7 h))"

text \<open>\<open>next\<close> is the handler behind the middleware, given the identity attached to the request.\<close>

definition Middleware ::
    "(string \<Rightarrow> claims option) \<Rightarrow> (identity \<Rightarrow> request \<Rightarrow> 's \<Rightarrow> 'b response \<times> 's) \<Rightarrow>
     request \<Rightarrow> 's \<Rightarrow> 'b response \<times> 's" where
  "Middleware verify nxt r s =
     (if bearerToken r = [] then (WriteError 401, s)
      else case verify (bearerToken r) of
             None \<Rightarrow> (WriteError 401, s)
           | Some c \<Rightarrow>
               (let workspace = rqHeader r ''X-Booth-Workspace'' in
                if workspace = [] then (WriteError 400, s)
                else case grantsServiceWorkspace c of
                       Some gw \<Rightarrow>
                         if workspace \<noteq> gw then (WriteError 403, s)
                         else nxt \<lparr>idSubject = clSubject c, idWorkspace = workspace, idRole = RoleGrantsService\<rparr> r s
                     | None \<Rightarrow>
                         (let granted = RoleInWorkspace (clGroups c) workspace;
                              forwarded = rqHeader r ''X-Booth-Role''
                          in if granted = [] then (WriteError 403, s)
                             else if rank forwarded > rank granted then (WriteError 403, s)
                             else nxt \<lparr>idSubject = clSubject c, idWorkspace = workspace,
                                       idRole = EffectiveRole forwarded granted\<rparr> r s)))"

definition Require ::
    "(identity \<Rightarrow> bool) \<Rightarrow> (identity \<Rightarrow> request \<Rightarrow> 's \<Rightarrow> 'b response \<times> 's) \<Rightarrow>
     identity \<Rightarrow> request \<Rightarrow> 's \<Rightarrow> 'b response \<times> 's" where
  "Require check nxt i r s = (if check i then nxt i r s else (WriteError 403, s))"

section \<open>What a token grants\<close>

text \<open>The declarative reading: the token's groups list membership of the workspace in the role.\<close>

definition member :: "string list \<Rightarrow> string \<Rightarrow> role \<Rightarrow> bool" where
  "member groups ws r \<longleftrightarrow>
     ws \<noteq> [] \<and> list_all is_slug ws \<and> r \<in> {RoleOwner, RoleEditor, RoleViewer} \<and>
     ''/workspaces/'' @ ws @ ''/'' @ r \<in> set groups"

lemma groupRE_iff:
  "groupRE g = Some (ws, r) \<longleftrightarrow>
     ws \<noteq> [] \<and> list_all is_slug ws \<and> r \<in> {RoleOwner, RoleEditor, RoleViewer} \<and> g = ''/workspaces/'' @ ws @ ''/'' @ r"
proof
  assume h: "groupRE g = Some (ws, r)"
  then have "prefix ''/workspaces/'' g" by (simp add: groupRE_def split: if_splits)
  then obtain t where "g = ''/workspaces/'' @ t" by (auto simp: prefix_def)
  with h show "ws \<noteq> [] \<and> list_all is_slug ws \<and> r \<in> {RoleOwner, RoleEditor, RoleViewer} \<and>
      g = ''/workspaces/'' @ ws @ ''/'' @ r"
    by (auto simp: groupRE_def cut_first_Some simp del: cut_first_None split: option.splits if_splits)
next
  assume h: "ws \<noteq> [] \<and> list_all is_slug ws \<and> r \<in> {RoleOwner, RoleEditor, RoleViewer} \<and>
      g = ''/workspaces/'' @ ws @ ''/'' @ r"
  then have "cut_first slash (ws @ slash # r) = Some (ws, r)" by (simp add: slug_no_slash)
  with h show "groupRE g = Some (ws, r)" by (auto simp: groupRE_def)
qed

lemma grantsServiceRE_iff:
  "grantsServiceRE sub = Some ws \<longleftrightarrow> ws \<noteq> [] \<and> list_all is_slug ws \<and> sub = ''streamlit:'' @ ws @ '':grants''"
proof
  assume h: "grantsServiceRE sub = Some ws"
  then have "prefix ''streamlit:'' sub" by (simp add: grantsServiceRE_def split: if_splits)
  then obtain t where "sub = ''streamlit:'' @ t" by (auto simp: prefix_def)
  with h show "ws \<noteq> [] \<and> list_all is_slug ws \<and> sub = ''streamlit:'' @ ws @ '':grants''"
    by (auto simp: grantsServiceRE_def cut_first_Some simp del: cut_first_None split: option.splits if_splits)
next
  assume h: "ws \<noteq> [] \<and> list_all is_slug ws \<and> sub = ''streamlit:'' @ ws @ '':grants''"
  then have "cut_first (CHR '':'') (ws @ CHR '':'' # ''grants'') = Some (ws, ''grants'')"
    by (simp add: slug_no_colon)
  with h show "grantsServiceRE sub = Some ws" by (auto simp: grantsServiceRE_def)
qed

lemma rank_zero: "rank r = 0 \<longleftrightarrow> r \<notin> {RoleOwner, RoleEditor, RoleViewer}"
  by (simp add: rank_def)

lemma rank_inj: "rank r = rank r' \<Longrightarrow> rank r \<noteq> 0 \<Longrightarrow> r = r'"
  by (auto simp: rank_def split: if_splits)

lemma best_role_ge: "rank best \<le> rank (best_role ws best gs)"
  by (induction ws best gs rule: best_role.induct)
    (auto split: option.splits intro: order_trans dest: less_imp_le)

lemma best_role_upper:
  "member gs ws r \<Longrightarrow> rank r \<le> rank (best_role ws best gs)"
proof (induction gs arbitrary: best)
  case (Cons g gs)
  show ?case
  proof (cases "g = ''/workspaces/'' @ ws @ ''/'' @ r")
    case True
    with Cons.prems have "groupRE g = Some (ws, r)" by (simp add: groupRE_iff member_def)
    then show ?thesis using best_role_ge [of "if rank r > rank best then r else best" ws gs]
      by (auto split: if_splits)
  next
    case False
    with Cons.prems have "member gs ws r" by (auto simp: member_def)
    then show ?thesis using Cons.IH by (auto split: option.splits)
  qed
qed (simp add: member_def)

lemma best_role_lower:
  "best_role ws best gs = best \<or> member gs ws (best_role ws best gs)"
proof (induction gs arbitrary: best)
  case (Cons g gs)
  show ?case
  proof (cases "groupRE g")
    case None
    with Cons.IH [of best] show ?thesis by (auto simp: member_def)
  next
    case (Some p)
    obtain w r where p: "p = (w, r)" by (cases p)
    have mem: "member gs ws x \<Longrightarrow> member (g # gs) ws x" for x by (auto simp: member_def)
    show ?thesis
    proof (cases "w = ws \<and> rank r > rank best")
      case True
      have "member (g # gs) ws r" using Some p True by (auto simp: groupRE_iff member_def)
      with True Some p Cons.IH [of r] mem show ?thesis by auto
    next
      case False
      with Some p Cons.IH [of best] mem show ?thesis by auto
    qed
  qed
qed simp

lemma RoleInWorkspace_member:
  "RoleInWorkspace groups ws = [] \<or> member groups ws (RoleInWorkspace groups ws)"
  using best_role_lower [of ws "[]" groups] by (simp add: RoleInWorkspace_def)

lemma RoleInWorkspace_best: "member groups ws r \<Longrightarrow> rank r \<le> rank (RoleInWorkspace groups ws)"
  by (simp add: RoleInWorkspace_def best_role_upper)

lemma EffectiveRole_bounds:
  "rank (EffectiveRole f g) \<le> rank g" "f \<noteq> [] \<Longrightarrow> rank (EffectiveRole f g) \<le> rank f"
  by (auto simp: EffectiveRole_def rank_def)

lemma EffectiveRole_cases: "EffectiveRole f g = g \<or> EffectiveRole f g = [] \<or> EffectiveRole f g = f \<and> rank f < rank g"
  by (simp add: EffectiveRole_def)

text \<open>The identity the middleware passes on, on every path.\<close>

lemma Middleware_cases:
  obtains st where "Middleware verify nxt r s = (WriteError st, s)" "st \<in> {400, 401, 403}"
  | c gw where "verify (bearerToken r) = Some c" "grantsServiceWorkspace c = Some gw"
      "rqHeader r ''X-Booth-Workspace'' = gw"
      "Middleware verify nxt r s =
        nxt \<lparr>idSubject = clSubject c, idWorkspace = gw, idRole = RoleGrantsService\<rparr> r s"
  | c ws where "verify (bearerToken r) = Some c" "grantsServiceWorkspace c = None"
      "rqHeader r ''X-Booth-Workspace'' = ws" "RoleInWorkspace (clGroups c) ws \<noteq> []"
      "rank (rqHeader r ''X-Booth-Role'') \<le> rank (RoleInWorkspace (clGroups c) ws)"
      "Middleware verify nxt r s =
        nxt \<lparr>idSubject = clSubject c, idWorkspace = ws,
             idRole = EffectiveRole (rqHeader r ''X-Booth-Role'') (RoleInWorkspace (clGroups c) ws)\<rparr> r s"
proof (cases "bearerToken r = [] \<or> verify (bearerToken r) = None \<or> rqHeader r ''X-Booth-Workspace'' = []")
  case True
  then show ?thesis
    by (intro that(1) [of "if bearerToken r = [] \<or> verify (bearerToken r) = None then 401 else 400"])
      (auto simp: Middleware_def split: option.splits)
next
  case False
  then obtain c where c: "verify (bearerToken r) = Some c" by auto
  let ?ws = "rqHeader r ''X-Booth-Workspace''"
  show ?thesis
  proof (cases "grantsServiceWorkspace c")
    case (Some gw)
    with False c show ?thesis
      by (cases "?ws = gw") (auto simp: Middleware_def intro: that(1) [of 403] that(2))
  next
    case None
    with False c show ?thesis
      by (cases "RoleInWorkspace (clGroups c) ?ws = [] \<or>
          rank (rqHeader r ''X-Booth-Role'') > rank (RoleInWorkspace (clGroups c) ?ws)")
        (auto simp: Middleware_def Let_def intro: that(1) [of 403] that(3))
  qed
qed

section \<open>Properties\<close>

text \<open>
  C11. No request runs under more than its token grants.  The middleware either answers 400,
  401 or 403 and leaves the state alone, or passes on an identity whose subject is that of the
  verified token, whose workspace is the one of the header, and whose role is no stronger than
  a role one of the token's groups gives in that workspace and no stronger than the forwarded
  role; or it is the grants-service identity, and then the token's subject and module say so.
\<close>

theorem middleware_identity_backed_by_token:
  "(\<exists>st. Middleware verify nxt r s = (WriteError st, s) \<and> st \<in> {400, 401, 403}) \<or>
   (\<exists>i c. Middleware verify nxt r s = nxt i r s \<and> verify (bearerToken r) = Some c \<and>
      idSubject i = clSubject c \<and> idWorkspace i = rqHeader r ''X-Booth-Workspace'' \<and>
      (if IsGrantsService i
       then clBoothModule c = ''streamlit'' \<and> clSubject c = ''streamlit:'' @ idWorkspace i @ '':grants''
       else (\<exists>role. member (clGroups c) (idWorkspace i) role \<and> rank (idRole i) \<le> rank role) \<and>
            (rqHeader r ''X-Booth-Role'' = [] \<or> rank (idRole i) \<le> rank (rqHeader r ''X-Booth-Role''))))"
proof (cases rule: Middleware_cases [of verify nxt r s])
  case (1 st)
  then show ?thesis by blast
next
  case (2 c gw)
  then show ?thesis
    by (intro disjI2 exI [of _ "\<lparr>idSubject = clSubject c, idWorkspace = gw, idRole = RoleGrantsService\<rparr>"] exI [of _ c])
      (simp add: IsGrantsService_def grantsServiceWorkspace_def grantsServiceRE_iff split: if_splits)
next
  case (3 c ws)
  let ?g = "RoleInWorkspace (clGroups c) ws" and ?f = "rqHeader r ''X-Booth-Role''"
  have m: "member (clGroups c) ws ?g" using RoleInWorkspace_member 3(4) by blast
  have "EffectiveRole ?f ?g \<noteq> RoleGrantsService"
    using m EffectiveRole_cases [of ?f ?g] by (auto simp: member_def EffectiveRole_def rank_def)
  with m 3 EffectiveRole_bounds [of ?f ?g] show ?thesis
    by (intro disjI2 exI [of _ "\<lparr>idSubject = clSubject c, idWorkspace = ws, idRole = EffectiveRole ?f ?g\<rparr>"]
        exI [of _ c]) (auto simp: IsGrantsService_def)
qed

text \<open>
  The role a token grants in a workspace is the highest one its groups name there, in
  whatever order they come, and none exactly when no group names the workspace.
\<close>

theorem role_in_workspace_is_highest:
  "(RoleInWorkspace groups ws = [] \<longleftrightarrow> (\<nexists>r. member groups ws r)) \<and>
   (RoleInWorkspace groups ws \<noteq> [] \<longleftrightarrow> member groups ws (RoleInWorkspace groups ws)) \<and>
   (\<forall>r. member groups ws r \<longrightarrow> rank r \<le> rank (RoleInWorkspace groups ws))"
proof -
  have "rank r \<noteq> 0" if "member groups ws r" for r using that by (auto simp: member_def rank_def)
  moreover have "rank [] = 0" by (simp add: rank_def)
  ultimately show ?thesis
    using RoleInWorkspace_member [of groups ws] RoleInWorkspace_best [of groups ws] by (metis le_zero_eq)
qed

lemma role_in_workspace_is_highest_witness:
  "rank RoleEditor \<le> rank (RoleInWorkspace [''/workspaces/acme/viewer'', ''/workspaces/acme/editor''] ''acme'')"
proof -
  have "member [''/workspaces/acme/viewer'', ''/workspaces/acme/editor''] ''acme'' RoleEditor"
    by (simp add: member_def is_slug_def is_alnum_def is_lower_def)
  then show ?thesis
    using role_in_workspace_is_highest [of "[''/workspaces/acme/viewer'', ''/workspaces/acme/editor'']" "''acme''"]
    by blast
qed

text \<open>
  C37. A forged issuer gains nothing: a token is accepted only if the OIDC package accepts it
  under a verifier bound to the configured issuer or to the workload issuer, with the audience
  check on exactly when configured; and the subject, which is never empty, comes from that token.
\<close>

theorem verify_only_trusted_issuers:
  assumes "NewVerifier discover cfg = Some v" and "Verify oidc_verify v raw = Some c"
  shows "\<exists>iv tok. ivIssuer iv \<in> {ocIssuerURL cfg, TrimRightByte slash (ocWorkloadIssuerURL cfg)} \<and>
    ivSkipClientIDCheck iv = (\<not> ocRequireAudience cfg) \<and> ivClientID iv = ocClientID cfg \<and>
    unverifiedIssuer raw = Some (ivIssuer iv) \<and> oidc_verify iv raw = Some tok \<and>
    itSubject tok \<noteq> [] \<and> clSubject c = itSubject tok"
proof -
  from assms(2) obtain iss iv tok where v: "unverifiedIssuer raw = Some iss"
    "vByIssuer v iss = Some iv" "oidc_verify iv raw = Some tok" "itSubject tok \<noteq> []" "clSubject c = itSubject tok"
    by (auto simp: Verify_def split: option.splits if_splits json.splits)
  from assms(1) v(2) have "ivIssuer iv = iss"
    "iss \<in> {ocIssuerURL cfg, TrimRightByte slash (ocWorkloadIssuerURL cfg)}"
    "ivSkipClientIDCheck iv = (\<not> ocRequireAudience cfg)" "ivClientID iv = ocClientID cfg"
    by (auto simp: NewVerifier_def Let_def split: if_splits)
  with v show ?thesis by blast
qed

definition example_oidc :: oidc_config where
  "example_oidc = \<lparr>ocIssuerURL = ''https://idp'', ocClientID = ''booth'', ocRequireAudience = True,
     ocGroupsClaim = [], ocWorkloadIssuerURL = ''https://core/'', ocJWKSURL = []\<rparr>"

text \<open>The payload of the example is the JSON object with the issuer \<open>https://core\<close>.\<close>

definition example_token :: string where "example_token = ''e30.eyJpc3MiOiJodHRwczovL2NvcmUifQ.x''"

lemma example_issuer: "unverifiedIssuer example_token = Some ''https://core''"
  by code_simp

lemma verify_only_trusted_issuers_witness:
  "\<exists>v c. NewVerifier (\<lambda>_. True) example_oidc = Some v \<and>
     Verify (\<lambda>iv _. if ivIssuer iv = ''https://core''
               then Some \<lparr>itSubject = ''run-1'', itClaims = JObj []\<rparr> else None) v example_token = Some c \<and>
     clSubject c = ''run-1''"
proof -
  let ?ov = "\<lambda>iv _. if ivIssuer iv = ''https://core'' then Some \<lparr>itSubject = ''run-1'', itClaims = JObj []\<rparr> else None"
  obtain v where v: "NewVerifier (\<lambda>_. True) example_oidc = Some v"
    by (simp add: NewVerifier_def example_oidc_def TrimRightByte_def Let_def)
  then obtain c where c: "Verify ?ov v example_token = Some c"
    by (auto simp: NewVerifier_def example_oidc_def TrimRightByte_def Let_def Verify_def example_issuer)
  from verify_only_trusted_issuers [OF v c] have "clSubject c = ''run-1''" by (auto split: if_splits)
  with v c show ?thesis by blast
qed

end
