(* ===== verification/Config_Load.thy ===== *)
theory Config_Load
  imports Auth
begin

text \<open>
  \<^verbatim>\<open>internal/config/config.go\<close>: the configuration from the environment.  \<open>getenv\<close> is
  \<^verbatim>\<open>os.Getenv\<close>, empty for a variable that is not set.
\<close>

record config =
  cfHTTPAddr :: string
  cfOIDC :: oidc_config
  cfPostgresDSN :: string
  cfNamespace :: string
  cfFilesystemRoots :: "string list"
  cfMaxUploadBytes :: int
  cfDevMemory :: bool
  cfCredentialBrokerCredential :: string
  cfNATSURL :: string
  cfEventBusDir :: string

datatype config_err = BadMaxUpload string | NeedIssuer | NeedClientID | NeedDSN

definition getEnv :: "(string \<Rightarrow> string) \<Rightarrow> string \<Rightarrow> string \<Rightarrow> string" where
  "getEnv getenv key fallback = (let v = getenv key in if v \<noteq> [] then v else fallback)"

fun split_parts :: "string list \<Rightarrow> string list" where
  "split_parts [] = []"
| "split_parts (p # ps) = (let part = TrimSpace p in if part \<noteq> [] then part # split_parts ps else split_parts ps)"

definition splitNonEmpty :: "string \<Rightarrow> string list" where
  "splitNonEmpty v = split_parts (split_on CHR '','' v)"

definition base_config :: "(string \<Rightarrow> string) \<Rightarrow> config" where
  "base_config getenv =
     \<lparr>cfHTTPAddr = getEnv getenv ''BOOTH_HTTP_ADDR'' '':8080'',
      cfOIDC =
        \<lparr>ocIssuerURL = getenv ''BOOTH_OIDC_ISSUER_URL'',
         ocClientID = getenv ''BOOTH_OIDC_CLIENT_ID'',
         ocRequireAudience = (getenv ''BOOTH_OIDC_REQUIRE_AUDIENCE'' = ''true''),
         ocGroupsClaim = getEnv getenv ''BOOTH_OIDC_GROUPS_CLAIM'' DefaultGroupsClaim,
         ocWorkloadIssuerURL = getenv ''BOOTH_WORKLOAD_ISSUER_URL'',
         ocJWKSURL = getenv ''BOOTH_OIDC_JWKS_URL''\<rparr>,
      cfPostgresDSN = getenv ''BOOTH_POSTGRES_DSN'',
      cfNamespace = getEnv getenv ''BOOTH_NAMESPACE'' ''booth-storage'',
      cfFilesystemRoots = splitNonEmpty (getenv ''BOOTH_STORAGE_FILESYSTEM_ROOTS''),
      cfMaxUploadBytes = 0,
      cfDevMemory = (getenv ''BOOTH_STORAGE_DEV_MEMORY'' = ''true''),
      cfCredentialBrokerCredential = getenv ''BOOTH_CREDENTIAL_BROKER_CREDENTIAL'',
      cfNATSURL = getenv ''BOOTH_NATS_URL'',
      cfEventBusDir = getenv ''BOOTH_EVENT_BUS_DIR''\<rparr>"

definition max_upload :: "string \<Rightarrow> config_err + int" where
  "max_upload v =
     (if v = [] then Inr 0
      else case ParseInt64 v of
             None \<Rightarrow> Inl (BadMaxUpload v)
           | Some n \<Rightarrow> if n < 0 then Inl (BadMaxUpload v) else Inr n)"

definition Load :: "(string \<Rightarrow> string) \<Rightarrow> config_err + config" where
  "Load getenv =
     (let cfg = base_config getenv in
      case max_upload (getenv ''BOOTH_STORAGE_MAX_UPLOAD_BYTES'') of
        Inl e \<Rightarrow> Inl e
      | Inr n \<Rightarrow>
          (let cfg = cfg\<lparr>cfMaxUploadBytes := n\<rparr> in
           if ocIssuerURL (cfOIDC cfg) = [] then Inl NeedIssuer
           else if ocClientID (cfOIDC cfg) = [] then Inl NeedClientID
           else if \<not> cfDevMemory cfg \<and> cfPostgresDSN cfg = [] then Inl NeedDSN
           else Inr cfg))"

section \<open>What a loaded configuration is\<close>

text \<open>A configuration the rest of the program can run on.\<close>

definition usable :: "config \<Rightarrow> bool" where
  "usable cfg \<longleftrightarrow>
     ocIssuerURL (cfOIDC cfg) \<noteq> [] \<and> ocClientID (cfOIDC cfg) \<noteq> [] \<and> ocGroupsClaim (cfOIDC cfg) \<noteq> [] \<and>
     (cfDevMemory cfg \<or> cfPostgresDSN cfg \<noteq> []) \<and>
     0 \<le> cfMaxUploadBytes cfg \<and> in_int64 (cfMaxUploadBytes cfg) \<and>
     [] \<notin> set (cfFilesystemRoots cfg) \<and> cfHTTPAddr cfg \<noteq> [] \<and> cfNamespace cfg \<noteq> []"

lemma split_parts_filter: "split_parts ps = filter (\<lambda>p. p \<noteq> []) (map TrimSpace ps)"
  by (induction ps) (simp_all add: Let_def)

lemma getEnv_nonempty: "fallback \<noteq> [] \<Longrightarrow> getEnv getenv key fallback \<noteq> []"
  by (simp add: getEnv_def Let_def)

lemma max_upload_Inr: "max_upload v = Inr n \<Longrightarrow> 0 \<le> n \<and> in_int64 n"
  by (auto simp: max_upload_def in_int64_def int64_max_def int64_min_def dest: ParseInt64_range split: if_splits option.splits)

lemma base_config_sel:
  "cfHTTPAddr (base_config getenv) \<noteq> []" "cfNamespace (base_config getenv) \<noteq> []"
  "ocGroupsClaim (cfOIDC (base_config getenv)) \<noteq> []"
  "[] \<notin> set (cfFilesystemRoots (base_config getenv))"
  unfolding base_config_def
  by (simp_all only: config.simps oidc_config.simps splitNonEmpty_def split_parts_filter DefaultGroupsClaim_def)
    (simp_all add: getEnv_nonempty)

lemma Load_usable: "Load getenv = Inr cfg \<Longrightarrow> usable cfg"
  using max_upload_Inr by (auto simp: Load_def usable_def Let_def base_config_sel split: sum.splits if_splits)

lemma Load_fields: "Load getenv = Inr cfg \<Longrightarrow> cfg = (base_config getenv)\<lparr>cfMaxUploadBytes := cfMaxUploadBytes cfg\<rparr>"
  by (auto simp: Load_def Let_def split: sum.splits if_splits)

lemma Load_accepts:
  assumes "max_upload (getenv ''BOOTH_STORAGE_MAX_UPLOAD_BYTES'') = Inr n" and "usable ((base_config getenv)\<lparr>cfMaxUploadBytes := n\<rparr>)"
  shows "Load getenv = Inr ((base_config getenv)\<lparr>cfMaxUploadBytes := n\<rparr>)"
  using assms by (auto simp: Load_def usable_def Let_def)

end
