(* ===== verification/Db_Wait.thy ===== *)
theory Db_Wait
  imports Prelude
begin

text \<open>
  \<^verbatim>\<open>internal/dbwait/retry.go\<close>: riding out the first refused connections to PostgreSQL.  The
  attempt \<open>fn\<close> is a parameter: it yields nil or an error and the time it took; \<open>ended t d\<close> is the
  error of the context if it ends while the loop waits from \<open>t\<close> for \<open>d\<close>.  Times are
  milliseconds.
\<close>

section \<open>Which errors are retried\<close>

text \<open>What \<^verbatim>\<open>errors.As\<close> finds in the chain of an error, and its message.\<close>

record db_err =
  dePgCode :: "string option"
  deDNS :: bool
  deNet :: bool
  deMsg :: string

definition isRetryableConnectionError :: "db_err \<Rightarrow> bool" where
  "isRetryableConnectionError e =
     (case dePgCode e of
        Some code \<Rightarrow> code = ''57P03''
      | None \<Rightarrow>
          if deDNS e then True
          else if deNet e then True
          else sublist ''connection refused'' (deMsg e) \<or> sublist ''i/o timeout'' (deMsg e))"

section \<open>The retry loop\<close>

definition DefaultMaxElapsed :: nat where "DefaultMaxElapsed = 60000"
definition initialBackoff :: nat where "initialBackoff = 500"
definition maxBackoff :: nat where "maxBackoff = 8000"

text \<open>The loop variable \<open>backoff\<close> after \<open>k\<close> rounds.\<close>

primrec backoff_at :: "nat \<Rightarrow> nat" where
  "backoff_at 0 = initialBackoff"
| "backoff_at (Suc k) = (let b = backoff_at k * 2 in if b > maxBackoff then maxBackoff else b)"

datatype retry_result = Connected | Fatal db_err | GaveUp nat db_err | CtxEnded db_err

lemma backoff_at_bounds: "initialBackoff \<le> backoff_at k \<and> backoff_at k \<le> maxBackoff"
  by (induction k) (auto simp: initialBackoff_def maxBackoff_def Let_def)

lemma backoff_at_pos: "0 < backoff_at k"
  using backoff_at_bounds [of k] by (simp add: initialBackoff_def)

lemma later_start: "t + d < deadline \<Longrightarrow> deadline - (t + d + backoff_at k) < deadline - t"
  using backoff_at_pos [of k] by arith

type_synonym 's attempt = "'s \<Rightarrow> (db_err option \<times> nat) \<times> 's"

text \<open>Round \<open>k\<close> (attempt \<open>k + 1\<close>) begins at time \<open>t\<close>; the result is given with the time it ends.\<close>

function retry_loop ::
    "'s attempt \<Rightarrow> (nat \<Rightarrow> nat \<Rightarrow> db_err option) \<Rightarrow> nat \<Rightarrow> nat \<Rightarrow> nat \<Rightarrow> 's \<Rightarrow> retry_result \<times> nat \<times> 's" where
  "retry_loop fn ended deadline k t s =
     (case fn s of
        ((None, d), s1) \<Rightarrow> (Connected, t + d, s1)
      | ((Some e, d), s1) \<Rightarrow>
          if \<not> isRetryableConnectionError e then (Fatal e, t + d, s1)
          else if \<not> t + d < deadline then (GaveUp (k + 1) e, t + d, s1)
          else (case ended (t + d) (backoff_at k) of
                  Some c \<Rightarrow> (CtxEnded c, t + d, s1)
                | None \<Rightarrow> retry_loop fn ended deadline (k + 1) (t + d + backoff_at k) s1))"
  by pat_completeness auto
termination
  by (relation "measure (\<lambda>(_, _, deadline, _, t, _). deadline - t)") (simp_all add: later_start)

declare retry_loop.simps [simp del]

definition Retry :: "'s attempt \<Rightarrow> (nat \<Rightarrow> nat \<Rightarrow> db_err option) \<Rightarrow> nat \<Rightarrow> nat \<Rightarrow> 's \<Rightarrow> retry_result \<times> nat \<times> 's" where
  "Retry fn ended maxElapsed t s = retry_loop fn ended (t + maxElapsed) 0 t s"

section \<open>What a run of the loop is\<close>

text \<open>The state before attempt \<open>i\<close> and what attempt \<open>i\<close> yields, counted from the state \<open>s\<close>.\<close>

primrec nth_state :: "'s attempt \<Rightarrow> 's \<Rightarrow> nat \<Rightarrow> 's" where
  "nth_state fn s 0 = s"
| "nth_state fn s (Suc i) = snd (fn (nth_state fn s i))"

definition nth_error :: "'s attempt \<Rightarrow> 's \<Rightarrow> nat \<Rightarrow> db_err option" where
  "nth_error fn s i = fst (fst (fn (nth_state fn s i)))"

definition transient_at :: "'s attempt \<Rightarrow> 's \<Rightarrow> nat \<Rightarrow> bool" where
  "transient_at fn s i \<longleftrightarrow> (\<exists>e. nth_error fn s i = Some e \<and> isRetryableConnectionError e)"

lemma nth_state_shift: "nth_state fn (snd (fn s)) i = nth_state fn s (Suc i)"
  by (induction i) simp_all

lemma nth_shift:
  "nth_error fn (snd (fn s)) i = nth_error fn s (Suc i)" "transient_at fn (snd (fn s)) i = transient_at fn s (Suc i)"
  by (simp_all add: nth_error_def transient_at_def nth_state_shift del: nth_state.simps)

text \<open>What the result says of the attempt that ended the loop, the \<open>n\<close>-th.\<close>

fun ends_with :: "'s attempt \<Rightarrow> 's \<Rightarrow> nat \<Rightarrow> nat \<Rightarrow> nat \<Rightarrow> retry_result \<Rightarrow> nat \<Rightarrow> bool" where
  "ends_with fn s n k deadline Connected t' \<longleftrightarrow> nth_error fn s n = None"
| "ends_with fn s n k deadline (Fatal e) t' \<longleftrightarrow> nth_error fn s n = Some e \<and> \<not> isRetryableConnectionError e"
| "ends_with fn s n k deadline (GaveUp a e) t' \<longleftrightarrow>
     nth_error fn s n = Some e \<and> transient_at fn s n \<and> a = k + n + 1 \<and> deadline \<le> t'"
| "ends_with fn s n k deadline (CtxEnded c) t' \<longleftrightarrow> transient_at fn s n \<and> t' < deadline"

lemma ends_with_shift: "ends_with fn (snd (fn s)) n (Suc k) dl r t' \<longleftrightarrow> ends_with fn s (Suc n) k dl r t'"
  by (cases r) (simp_all add: nth_shift)

text \<open>The waits of rounds \<open>k, ..., k + n - 1\<close>.\<close>

definition waits :: "nat \<Rightarrow> nat \<Rightarrow> nat" where
  "waits k n = sum_list (map backoff_at [k..<k + n])"

lemma waits_0 [simp]: "waits k 0 = 0"
  by (simp add: waits_def)

lemma waits_step: "backoff_at k + waits (Suc k) n = waits k (Suc n)"
proof -
  have "[k..<k + Suc n] = k # [Suc k..<Suc k + n]" by (simp add: upt_conv_Cons)
  then show ?thesis by (simp add: waits_def)
qed

lemma retry_loop_run:
  "retry_loop fn ended dl k t s = (r, t', s') \<Longrightarrow>
     \<exists>n. (\<forall>i<n. transient_at fn s i) \<and> s' = nth_state fn s (Suc n) \<and> ends_with fn s n k dl r t' \<and>
       t + waits k n \<le> t' \<and> (0 < n \<longrightarrow> t + waits k (n - 1) < dl)"
proof (induction fn ended dl k t s rule: retry_loop.induct)
  case (1 fn ended dl k t s)
  obtain q d s1 where call: "fn s = ((q, d), s1)" by (metis surj_pair)
  then have s1: "s1 = snd (fn s)" and q: "nth_error fn s 0 = q" by (simp_all add: nth_error_def)
  show ?case
  proof (cases "\<exists>e. q = Some e \<and> isRetryableConnectionError e \<and> t + d < dl \<and> ended (t + d) (backoff_at k) = None")
    case False
    then show ?thesis
      using 1(2) call q
      by (intro exI [of _ 0]) (auto simp: retry_loop.simps [of fn ended dl k t s] transient_at_def
          split: option.splits if_splits)
  next
    case True
    then obtain e where e: "q = Some e" "isRetryableConnectionError e" "t + d < dl" "ended (t + d) (backoff_at k) = None"
      by blast
    have "retry_loop fn ended dl (k + 1) (t + d + backoff_at k) s1 = (r, t', s')"
      using 1(2) call e by (simp add: retry_loop.simps [of fn ended dl k t s])
    with 1(1) call e obtain n where n: "\<forall>i<n. transient_at fn s1 i" "s' = nth_state fn s1 (Suc n)"
      "ends_with fn s1 n (Suc k) dl r t'" "t + d + backoff_at k + waits (Suc k) n \<le> t'"
      "0 < n \<longrightarrow> t + d + backoff_at k + waits (Suc k) (n - 1) < dl"
      by (metis Suc_eq_plus1)
    have "\<forall>i<Suc n. transient_at fn s i"
      using n(1) q e(1,2) by (auto simp: s1 nth_shift less_Suc_eq_0_disj transient_at_def)
    moreover have "s' = nth_state fn s (Suc (Suc n))" using n(2) by (simp only: s1 nth_state_shift)
    moreover have "ends_with fn s (Suc n) k dl r t'" using n(3) by (simp add: s1 ends_with_shift)
    moreover have "t + waits k (Suc n) \<le> t'" using n(4) waits_step [of k n] by simp
    moreover have "t + waits k n < dl"
    proof (cases n)
      case 0
      with e(3) show ?thesis by simp
    next
      case (Suc m)
      with n(5) waits_step [of k m] show ?thesis by simp
    qed
    ultimately show ?thesis by (intro exI [of _ "Suc n"]) simp
  qed
qed

lemma waits_mono:
  assumes "m \<le> n"
  shows "waits k m \<le> waits k n"
proof -
  from assms obtain d where "n = m + d" by (auto simp: le_iff_add)
  then have "[k..<k + n] = [k..<k + m] @ [k + m..<k + m + d]"
    using upt_add_eq_append [of k "k + m" d] by (simp add: add.assoc)
  then show ?thesis by (simp add: waits_def)
qed

lemma backoff_at_numeral:
  "backoff_at (numeral v) = (let b = backoff_at (pred_numeral v) * 2 in if b > maxBackoff then maxBackoff else b)"
  by (simp only: numeral_eq_Suc backoff_at.simps)

lemma waits_default: "waits 0 11 = 63500"
  by (simp add: waits_def upt_rec backoff_at_numeral initialBackoff_def maxBackoff_def Let_def)

text \<open>
  C29. The retry loop at startup always returns, after at most twelve attempts under the default
  limit; every attempt but the last failed with a transient connection error, and the result is
  what the last one says: success, an error a retry cannot fix (returned at once), or giving up
  (only once the limit has passed, with the number of attempts made).
\<close>

theorem retry_exact:
  assumes "Retry fn ended maxElapsed t s = (r, t', s')"
  shows "\<exists>n. (\<forall>i<n. transient_at fn s i) \<and> ends_with fn s n 0 (t + maxElapsed) r t' \<and>
    s' = nth_state fn s (Suc n) \<and> (maxElapsed \<le> DefaultMaxElapsed \<longrightarrow> Suc n \<le> 12)"
proof -
  from retry_loop_run [OF assms [unfolded Retry_def]] obtain n where
    n: "\<forall>i<n. transient_at fn s i" "s' = nth_state fn s (Suc n)" "ends_with fn s n 0 (t + maxElapsed) r t'"
    "0 < n \<longrightarrow> t + waits 0 (n - 1) < t + maxElapsed"
    by blast
  have "n \<le> 11" if "maxElapsed \<le> DefaultMaxElapsed"
  proof (rule ccontr)
    assume "\<not> n \<le> 11"
    then have "waits 0 11 \<le> waits 0 (n - 1)" by (intro waits_mono) simp
    with n(4) that \<open>\<not> n \<le> 11\<close> show False by (simp add: waits_default DefaultMaxElapsed_def)
  qed
  with n show ?thesis by (intro exI [of _ n]) auto
qed

definition refused :: db_err where
  "refused = \<lparr>dePgCode = None, deDNS = False, deNet = False, deMsg = ''dial tcp: connection refused''\<rparr>"

definition third_time :: "nat attempt" where
  "third_time s = ((if s < 2 then Some refused else None, 10), Suc s)"

lemma third_time_run: "Retry third_time (\<lambda>_ _. None) DefaultMaxElapsed 0 0 = (Connected, 1530, 3)"
  by (simp add: Retry_def retry_loop.simps third_time_def refused_def isRetryableConnectionError_def
      initialBackoff_def maxBackoff_def DefaultMaxElapsed_def sublist_code)

lemma retry_exact_witness:
  "\<exists>n. (\<forall>i<n. transient_at third_time 0 i) \<and> nth_error third_time 0 n = None \<and> 3 = nth_state third_time 0 (Suc n) \<and> Suc n \<le> 12"
  using retry_exact [OF third_time_run] by auto

text \<open>A server that refuses at once keeps the loop for more than its limit: the last wait is not cut short.\<close>

definition never_up :: "nat attempt" where
  "never_up s = ((Some refused, 0), Suc s)"

lemma gives_up_after_limit: "Retry never_up (\<lambda>_ _. None) DefaultMaxElapsed 0 0 = (GaveUp 12 refused, 63500, 12)"
  by (simp add: Retry_def retry_loop.simps never_up_def refused_def isRetryableConnectionError_def
      initialBackoff_def maxBackoff_def DefaultMaxElapsed_def sublist_code)

end
