(* ===== verification/Pg_Start.thy ===== *)
theory Pg_Start
  imports Db_Wait
begin

text \<open>
  \<^verbatim>\<open>NewPostgresStore\<close> and \<^verbatim>\<open>migrate\<close> of \<^verbatim>\<open>internal/registry/postgres.go\<close>: connecting to the database and
  applying the embedded migrations.  The meaning of a migration's SQL is a parameter, and so are
  the failures of the statements of one run; the transaction, the advisory lock (which makes the
  runs of several replicas follow one another) and the table of applied versions are modelled.
\<close>

section \<open>Migrations\<close>

text \<open>The database: what the migrations build, and the rows of \<^verbatim>\<open>storage_schema_migrations\<close>.\<close>

record 'd pg_db =
  pdSchema :: 'd
  pdVersions :: "int list"

text \<open>The statements of one transaction that may fail, and how its commit ends (an error may
  hide a commit that took effect).\<close>

datatype pg_stmt = BeginTx | TakeLock | MakeTable | CheckVersion string | RunFile string | RecordVersion string

datatype commit = CommitOk | CommitRefused | CommitUnknown

record pg_faults =
  pfFails :: "pg_stmt \<Rightarrow> bool"
  pfCommit :: commit

datatype mig_err = StmtFailed pg_stmt | BadFileName string | NoFile string | CommitFailed

text \<open>The embedded directory, and the effect of a migration's SQL (\<^const>\<open>None\<close> if the server refuses it).\<close>

record 'd migrations =
  mgNames :: "string list"
  mgFile :: "string \<Rightarrow> string option"
  mgRun :: "string \<Rightarrow> 'd \<Rightarrow> 'd option"

definition file_version :: "string \<Rightarrow> int option" where
  "file_version name = ParseInt64 (hd (split_on CHR ''_'' name))"

fun migrate_files :: "'d migrations \<Rightarrow> pg_faults \<Rightarrow> string list \<Rightarrow> 'd pg_db \<Rightarrow> mig_err + 'd pg_db" where
  "migrate_files mg f [] db = Inr db"
| "migrate_files mg f (name # names) db =
     (case file_version name of
        None \<Rightarrow> Inl (BadFileName name)
      | Some version \<Rightarrow>
          if pfFails f (CheckVersion name) then Inl (StmtFailed (CheckVersion name))
          else if version \<in> set (pdVersions db) then migrate_files mg f names db
          else
            (case mgFile mg name of
               None \<Rightarrow> Inl (NoFile name)
             | Some sql \<Rightarrow>
                 if pfFails f (RunFile name) then Inl (StmtFailed (RunFile name))
                 else
                   (case mgRun mg sql (pdSchema db) of
                      None \<Rightarrow> Inl (StmtFailed (RunFile name))
                    | Some d \<Rightarrow>
                        if pfFails f (RecordVersion name) then Inl (StmtFailed (RecordVersion name))
                        else migrate_files mg f names \<lparr>pdSchema = d, pdVersions = pdVersions db @ [version]\<rparr>)))"

definition migrate :: "'d migrations \<Rightarrow> pg_faults \<Rightarrow> 'd pg_db \<Rightarrow> mig_err option \<times> 'd pg_db" where
  "migrate mg f db =
     (let names = sort (mgNames mg) in
      if pfFails f BeginTx then (Some (StmtFailed BeginTx), db)
      else if pfFails f TakeLock then (Some (StmtFailed TakeLock), db)
      else if pfFails f MakeTable then (Some (StmtFailed MakeTable), db)
      else
        (case migrate_files mg f names db of
           Inl e \<Rightarrow> (Some e, db)
         | Inr db' \<Rightarrow>
             (case pfCommit f of
                CommitOk \<Rightarrow> (None, db')
              | CommitRefused \<Rightarrow> (Some CommitFailed, db)
              | CommitUnknown \<Rightarrow> (Some CommitFailed, db'))))"

section \<open>Opening the store\<close>

text \<open>\<open>pool\<close> tells whether \<^verbatim>\<open>pgxpool.New\<close> accepts the DSN, \<open>ping\<close> one ping of the pool.  The flag of
  the result tells whether the pool is left open.\<close>

datatype pg_start_err = PoolRefused | PingFailed retry_result | MigrationFailed mig_err

definition NewPostgresStore ::
    "bool \<Rightarrow> 's attempt \<Rightarrow> (nat \<Rightarrow> nat \<Rightarrow> db_err option) \<Rightarrow> nat \<Rightarrow> 's \<Rightarrow> 'd migrations \<Rightarrow> pg_faults \<Rightarrow> 'd pg_db \<Rightarrow>
     pg_start_err option \<times> bool \<times> 'd pg_db" where
  "NewPostgresStore pool ping ended t s mg f db =
     (if \<not> pool then (Some PoolRefused, False, db)
      else
        (case Retry ping ended DefaultMaxElapsed t s of
           (Connected, _) \<Rightarrow>
             (case migrate mg f db of
                (Some e, db') \<Rightarrow> (Some (MigrationFailed e), False, db')
              | (None, db') \<Rightarrow> (None, True, db'))
         | (r, _) \<Rightarrow> (Some (PingFailed r), False, db)))"

section \<open>Each migration once\<close>

definition no_faults :: pg_faults where
  "no_faults = \<lparr>pfFails = \<lambda>_. False, pfCommit = CommitOk\<rparr>"

lemma migrate_files_faultless: "migrate_files mg f ns db = Inr db' \<Longrightarrow> migrate_files mg no_faults ns db = Inr db'"
  by (induction mg f ns db rule: migrate_files.induct)
    (auto simp: no_faults_def split: option.splits if_splits)

lemma migrate_files_versions:
  "migrate_files mg f ns db = Inr db' \<Longrightarrow>
     set (pdVersions db) \<subseteq> set (pdVersions db') \<and> (\<forall>n \<in> set ns. \<exists>v \<in> set (pdVersions db'). file_version n = Some v)"
  by (induction mg f ns db rule: migrate_files.induct)
    (fastforce split: option.splits if_splits)+

lemma migrate_files_applied:
  "\<forall>n \<in> set ns. \<exists>v \<in> set (pdVersions db). file_version n = Some v \<Longrightarrow>
     migrate_files mg f ns db = Inr db' \<Longrightarrow> db' = db"
  by (induction ns) (auto split: if_splits)

text \<open>The files a run has still to apply, and the database after applying them in order.\<close>

definition pending_files :: "'d migrations \<Rightarrow> 'd pg_db \<Rightarrow> string list" where
  "pending_files mg db = filter (\<lambda>n. the (file_version n) \<notin> set (pdVersions db)) (sort (mgNames mg))"

fun run_files :: "'d migrations \<Rightarrow> string list \<Rightarrow> 'd \<Rightarrow> 'd option" where
  "run_files mg [] d = Some d"
| "run_files mg (n # ns) d =
     (case mgFile mg n of None \<Rightarrow> None
      | Some sql \<Rightarrow> (case mgRun mg sql d of None \<Rightarrow> None | Some d' \<Rightarrow> run_files mg ns d'))"

lemma migrate_files_pending:
  assumes "distinct (map file_version ns)" "migrate_files mg f ns db = Inr db'"
  shows "run_files mg (filter (\<lambda>n. the (file_version n) \<notin> set (pdVersions db)) ns) (pdSchema db) = Some (pdSchema db') \<and>
    pdVersions db' = pdVersions db @ map (the \<circ> file_version) (filter (\<lambda>n. the (file_version n) \<notin> set (pdVersions db)) ns)"
  using assms
proof (induction mg f ns db rule: migrate_files.induct)
  case (2 mg f name names db)
  then obtain v where v: "file_version name = Some v" by (cases "file_version name") simp_all
  show ?case
  proof (cases "v \<in> set (pdVersions db)")
    case True
    with 2 v show ?thesis by (auto split: if_splits)
  next
    case False
    with 2(4) v obtain sql d where s: "mgFile mg name = Some sql" "mgRun mg sql (pdSchema db) = Some d"
      and rest: "migrate_files mg f names \<lparr>pdSchema = d, pdVersions = pdVersions db @ [v]\<rparr> = Inr db'"
      and ok: "\<not> pfFails f (CheckVersion name)" "\<not> pfFails f (RunFile name)" "\<not> pfFails f (RecordVersion name)"
      by (auto split: option.splits if_splits)
    have "filter (\<lambda>n. the (file_version n) \<notin> set (pdVersions db @ [v])) names =
        filter (\<lambda>n. the (file_version n) \<notin> set (pdVersions db)) names"
    proof (rule filter_cong [OF refl])
      fix n assume n: "n \<in> set names"
      from migrate_files_versions [OF rest] n obtain w where "file_version n = Some w" by auto
      moreover from this have "w \<noteq> v" using 2(3) v n by (force simp: image_iff)
      ultimately show "the (file_version n) \<notin> set (pdVersions db @ [v]) \<longleftrightarrow> the (file_version n) \<notin> set (pdVersions db)"
        by simp
    qed
    with 2(2) [OF v ok(1) False s(1) ok(2) s(2) ok(3)] 2(3) rest v s False show ?thesis by simp
  qed
qed simp

text \<open>One boot of a replica, and the boots of any number of replicas one after another.\<close>

fun boots :: "'d migrations \<Rightarrow> pg_faults list \<Rightarrow> 'd pg_db \<Rightarrow> mig_err option list \<times> 'd pg_db" where
  "boots mg [] db = ([], db)"
| "boots mg (f # fs) db =
     (case migrate mg f db of (e, db1) \<Rightarrow> (case boots mg fs db1 of (es, db') \<Rightarrow> (e # es, db')))"

definition migrated :: "'d migrations \<Rightarrow> 'd pg_db \<Rightarrow> 'd pg_db \<Rightarrow> bool" where
  "migrated mg db db' \<longleftrightarrow> migrate_files mg no_faults (sort (mgNames mg)) db = Inr db'"

lemma migrate_outcome:
  assumes "migrate mg f db = (e, db')"
  shows "e = None \<and> migrated mg db db' \<or> e \<noteq> None \<and> (db' = db \<or> migrated mg db db')"
  using assms migrate_files_faultless [of mg f "sort (mgNames mg)" db]
  by (auto simp: migrate_def migrated_def Let_def split: sum.splits commit.splits if_splits)

lemma migrated_again:
  assumes "migrated mg db db'" "migrated mg db' db2"
  shows "migrated mg db db2"
  using migrate_files_applied [of "sort (mgNames mg)" db' mg no_faults db2] migrate_files_versions [of mg no_faults _ db db'] assms
  by (auto simp: migrated_def)

lemma boots_outcome:
  "boots mg fs db = (es, db') \<Longrightarrow>
     (db' = db \<and> None \<notin> set es) \<or> migrated mg db db'"
proof (induction fs arbitrary: db es)
  case (Cons f fs)
  obtain e db1 where m: "migrate mg f db = (e, db1)" by fastforce
  with Cons.prems obtain es1 where r: "boots mg fs db1 = (es1, db')" "es = e # es1"
    by (auto split: prod.splits)
  from migrate_outcome [OF m] Cons.IH [OF r(1)] r(2) show ?case by (auto intro: migrated_again)
qed simp

text \<open>
  C27. However many replicas boot against one database, with whatever failures, each migration is
  applied at most once: the database is either untouched (and then no boot succeeded) or exactly
  what applying the files not yet recorded, in the order of their names, makes of it, with
  their versions recorded once.
\<close>

theorem migrations_once:
  assumes "distinct (map file_version (mgNames mg))" and "boots mg fs db = (es, db')"
  shows "(db' = db \<and> None \<notin> set es) \<or>
    run_files mg (pending_files mg db) (pdSchema db) = Some (pdSchema db') \<and>
    pdVersions db' = pdVersions db @ map (the \<circ> file_version) (pending_files mg db)"
proof -
  have "distinct (map file_version (sort (mgNames mg)))"
    using assms(1) by (simp add: distinct_map)
  from boots_outcome [OF assms(2)] migrate_files_pending [OF this, of mg no_faults db db'] show ?thesis
    by (auto simp: migrated_def pending_files_def)
qed

section \<open>Three replicas\<close>

definition two_files :: "string list migrations" where
  "two_files = \<lparr>mgNames = [''0002_b.sql'', ''0001_a.sql''], mgFile = (\<lambda>n. Some n), mgRun = (\<lambda>sql d. Some (d @ [sql]))\<rparr>"

text \<open>The first replica fails in its second file, the second loses the answer to its commit, the
  third succeeds.\<close>

definition rough_boots :: "pg_faults list" where
  "rough_boots = [\<lparr>pfFails = \<lambda>st. st = RunFile ''0002_b.sql'', pfCommit = CommitOk\<rparr>,
     \<lparr>pfFails = \<lambda>_. False, pfCommit = CommitUnknown\<rparr>, no_faults]"

lemma migrations_once_witness:
  "\<exists>es db'. boots two_files rough_boots \<lparr>pdSchema = [], pdVersions = []\<rparr> = (es, db') \<and> last es = None \<and>
     pdVersions db' = [1, 2] \<and> pdSchema db' = [''0001_a.sql'', ''0002_b.sql'']"
proof -
  let ?db = "\<lparr>pdSchema = [] :: string list, pdVersions = []\<rparr>"
  have d: "distinct (map file_version (mgNames two_files))" by code_simp
  obtain es db' where run: "boots two_files rough_boots ?db = (es, db')" by fastforce
  have "fst (boots two_files rough_boots ?db) = [Some (StmtFailed (RunFile ''0002_b.sql'')), Some CommitFailed, None]"
    by code_simp
  with run have es: "es = [Some (StmtFailed (RunFile ''0002_b.sql'')), Some CommitFailed, None]" by simp
  have p: "pending_files two_files ?db = [''0001_a.sql'', ''0002_b.sql'']"
    "run_files two_files [''0001_a.sql'', ''0002_b.sql''] [] = Some [''0001_a.sql'', ''0002_b.sql'']"
    "map (the \<circ> file_version) [''0001_a.sql'', ''0002_b.sql''] = [1, 2]"
    by code_simp+
  from migrations_once [OF d run] p es run show ?thesis by auto
qed

end
