(* ===== verification/Registry_Store.thy ===== *)
theory Registry_Store
  imports Json_Text "HOL-Library.AList" "HOL-Library.Product_Lexorder" "HOL-Library.Multiset"
begin

text \<open>
  \<^verbatim>\<open>internal/registry/model.go\<close>, \<^verbatim>\<open>memory.go\<close>, \<^verbatim>\<open>postgres.go\<close> and \<^verbatim>\<open>kubernetes.go\<close>: the records of
  registered backends, the two metadata stores behind the locale \<open>meta_store\<close>, and the two
  credential stores behind \<open>cred_store\<close>.  A \<^verbatim>\<open>json.RawMessage\<close> is the parsed value; times are
  nanoseconds.
\<close>

section \<open>Records and validation\<close>

datatype rerr = RValidation string | RNotFound | RExists | RNoCredentials | RBackend berr | ROther string

record backend_rec =
  rWorkspace :: string
  rID :: string
  rDisplayName :: string
  rKind :: kind
  rConfig :: json
  rHasCredentials :: bool
  rCreateOnlyVerified :: bool
  rCreatedBy :: string
  rCreatedAt :: int
  rUpdatedAt :: int

definition SupportsCreateOnly :: "backend_rec \<Rightarrow> bool" where
  "SupportsCreateOnly r \<longleftrightarrow> rKind r \<noteq> KindS3 \<or> rCreateOnlyVerified r"

definition workspaceRE :: "string \<Rightarrow> bool" where
  "workspaceRE ws \<longleftrightarrow> ws \<noteq> [] \<and> list_all is_slug ws"

definition idRE :: "string \<Rightarrow> bool" where
  "idRE i \<longleftrightarrow> i \<noteq> [] \<and> length i \<le> 63 \<and> is_alnum (hd i) \<and> is_alnum (List.last i) \<and> list_all is_slug i"

definition ValidateWorkspace :: "string \<Rightarrow> rerr option" where
  "ValidateWorkspace ws =
     (if length ws = 0 \<or> length ws > 63 \<or> \<not> workspaceRE ws then Some (RValidation ''workspace'') else None)"

definition ValidateID :: "string \<Rightarrow> rerr option" where
  "ValidateID i = (if \<not> idRE i then Some (RValidation ''id'') else None)"

lemma ValidateWorkspace_None: "ValidateWorkspace ws = None \<Longrightarrow> slash \<notin> set ws \<and> ws \<noteq> [] \<and> list_all is_slug ws"
  by (auto simp: ValidateWorkspace_def workspaceRE_def slug_no_slash split: if_splits)

section \<open>The metadata stores\<close>

record 's meta_ops =
  mCreate :: "backend_rec \<Rightarrow> 's \<Rightarrow> rerr option \<times> 's"
  mGet :: "string \<Rightarrow> string \<Rightarrow> 's \<Rightarrow> (rerr + backend_rec) \<times> 's"
  mList :: "string \<Rightarrow> 's \<Rightarrow> (rerr + backend_rec list) \<times> 's"
  mUpdate :: "backend_rec \<Rightarrow> 's \<Rightarrow> rerr option \<times> 's"
  mDelete :: "string \<Rightarrow> string \<Rightarrow> 's \<Rightarrow> rerr option \<times> 's"
  mSetCreateOnlyVerified :: "string \<Rightarrow> string \<Rightarrow> bool \<Rightarrow> 's \<Rightarrow> rerr option \<times> 's"
  mPing :: "'s \<Rightarrow> rerr option"

definition key :: "string \<Rightarrow> string \<Rightarrow> string" where
  "key workspace i = workspace @ ''/'' @ i"

definition trunc_us :: "int \<Rightarrow> int" where
  "trunc_us t = t - t mod 1000"

definition clone_rec :: "backend_rec \<Rightarrow> backend_rec" where
  "clone_rec r = r\<lparr>rCreatedAt := trunc_us (rCreatedAt r), rUpdatedAt := trunc_us (rUpdatedAt r)\<rparr>"

type_synonym memreg_recs = "(string \<times> backend_rec) list"

definition memreg_Create :: "backend_rec \<Rightarrow> memreg_recs \<Rightarrow> rerr option \<times> memreg_recs" where
  "memreg_Create r m =
     (if map_of m (key (rWorkspace r) (rID r)) \<noteq> None then (Some RExists, m)
      else (None, AList.update (key (rWorkspace r) (rID r)) (clone_rec r) m))"

definition memreg_Get :: "string \<Rightarrow> string \<Rightarrow> memreg_recs \<Rightarrow> (rerr + backend_rec) \<times> memreg_recs" where
  "memreg_Get workspace i m =
     (case map_of m (key workspace i) of None \<Rightarrow> (Inl RNotFound, m) | Some r \<Rightarrow> (Inr (clone_rec r), m))"

definition memreg_List :: "string \<Rightarrow> memreg_recs \<Rightarrow> (rerr + backend_rec list) \<times> memreg_recs" where
  "memreg_List workspace m =
     (Inr (sort_key rID (map clone_rec (filter (\<lambda>r. rWorkspace r = workspace) (map snd (AList.clearjunk m))))), m)"

definition mutable_fields :: "backend_rec \<Rightarrow> backend_rec \<Rightarrow> backend_rec" where
  "mutable_fields r cur =
     cur\<lparr>rDisplayName := rDisplayName r, rConfig := rConfig r, rHasCredentials := rHasCredentials r,
         rCreateOnlyVerified := rCreateOnlyVerified r, rUpdatedAt := rUpdatedAt r\<rparr>"

definition memreg_Update :: "backend_rec \<Rightarrow> memreg_recs \<Rightarrow> rerr option \<times> memreg_recs" where
  "memreg_Update r m =
     (case map_of m (key (rWorkspace r) (rID r)) of
        None \<Rightarrow> (Some RNotFound, m)
      | Some cur \<Rightarrow> (None, AList.update (key (rWorkspace r) (rID r)) (clone_rec (mutable_fields r cur)) m))"

definition memreg_SetCreateOnlyVerified :: "string \<Rightarrow> string \<Rightarrow> bool \<Rightarrow> memreg_recs \<Rightarrow> rerr option \<times> memreg_recs" where
  "memreg_SetCreateOnlyVerified workspace i v m =
     (case map_of m (key workspace i) of
        None \<Rightarrow> (Some RNotFound, m)
      | Some cur \<Rightarrow> (None, AList.update (key workspace i) (clone_rec (cur\<lparr>rCreateOnlyVerified := v\<rparr>)) m))"

definition memreg_Delete :: "string \<Rightarrow> string \<Rightarrow> memreg_recs \<Rightarrow> rerr option \<times> memreg_recs" where
  "memreg_Delete workspace i m =
     (case map_of m (key workspace i) of
        None \<Rightarrow> (Some RNotFound, m) | Some _ \<Rightarrow> (None, AList.delete (key workspace i) m))"

definition memreg_meta_ops :: "memreg_recs meta_ops" where
  "memreg_meta_ops =
     \<lparr>mCreate = memreg_Create, mGet = memreg_Get, mList = memreg_List, mUpdate = memreg_Update, mDelete = memreg_Delete,
      mSetCreateOnlyVerified = memreg_SetCreateOnlyVerified, mPing = (\<lambda>_. None)\<rparr>"

text \<open>
  The statements on the rows of \<^verbatim>\<open>storage_backends\<close>, \<open>err\<close> being the failure of the connection
  or statement, if any.  \<open>jsonb\<close> is what a \<^verbatim>\<open>JSONB\<close> column keeps of an object: the last of
  equal keys, keys ordered by length and then bytes.
\<close>

fun jsonb :: "json \<Rightarrow> json" where
  "jsonb (JObj kvs) =
     JObj (sort_key (\<lambda>p. (length (fst p), fst p)) (AList.clearjunk (rev (map (\<lambda>(k, v). (k, jsonb v)) kvs))))"
| "jsonb (JArr js) = JArr (map jsonb js)"
| "jsonb j = j"

type_synonym rec_rows = "backend_rec list"

definition pgreg_rec :: "backend_rec \<Rightarrow> backend_rec" where
  "pgreg_rec r = r\<lparr>rConfig := jsonb (rConfig r), rCreatedAt := trunc_us (rCreatedAt r), rUpdatedAt := trunc_us (rUpdatedAt r)\<rparr>"

definition row_is :: "string \<Rightarrow> string \<Rightarrow> backend_rec \<Rightarrow> bool" where
  "row_is workspace i r \<longleftrightarrow> rWorkspace r = workspace \<and> rID r = i"

definition pgreg_Create :: "string option \<Rightarrow> backend_rec \<Rightarrow> rec_rows \<Rightarrow> rerr option \<times> rec_rows" where
  "pgreg_Create err r rows =
     (case err of
        Some e \<Rightarrow> (Some (ROther e), rows)
      | None \<Rightarrow>
          if \<exists>h \<in> set rows. row_is (rWorkspace r) (rID r) h then (Some RExists, rows)
          else (None, rows @ [pgreg_rec r]))"

definition pgreg_Get :: "string option \<Rightarrow> string \<Rightarrow> string \<Rightarrow> rec_rows \<Rightarrow> (rerr + backend_rec) \<times> rec_rows" where
  "pgreg_Get err workspace i rows =
     (case err of
        Some e \<Rightarrow> (Inl (ROther e), rows)
      | None \<Rightarrow>
          (case find (row_is workspace i) rows of None \<Rightarrow> (Inl RNotFound, rows) | Some r \<Rightarrow> (Inr r, rows)))"

definition pgreg_List :: "string option \<Rightarrow> string \<Rightarrow> rec_rows \<Rightarrow> (rerr + backend_rec list) \<times> rec_rows" where
  "pgreg_List err workspace rows =
     (case err of
        Some e \<Rightarrow> (Inl (ROther e), rows)
      | None \<Rightarrow> (Inr (sort_key rID (filter (\<lambda>r. rWorkspace r = workspace) rows)), rows))"

definition pgreg_set :: "string option \<Rightarrow> string \<Rightarrow> string \<Rightarrow> (backend_rec \<Rightarrow> backend_rec) \<Rightarrow> rec_rows \<Rightarrow> rerr option \<times> rec_rows" where
  "pgreg_set err workspace i f rows =
     (case err of
        Some e \<Rightarrow> (Some (ROther e), rows)
      | None \<Rightarrow>
          if \<exists>h \<in> set rows. row_is workspace i h
          then (None, map (\<lambda>h. if row_is workspace i h then f h else h) rows)
          else (Some RNotFound, rows))"

definition pgreg_Update :: "string option \<Rightarrow> backend_rec \<Rightarrow> rec_rows \<Rightarrow> rerr option \<times> rec_rows" where
  "pgreg_Update err r rows =
     pgreg_set err (rWorkspace r) (rID r) (\<lambda>h. mutable_fields (pgreg_rec r) h) rows"

definition pgreg_SetCreateOnlyVerified :: "string option \<Rightarrow> string \<Rightarrow> string \<Rightarrow> bool \<Rightarrow> rec_rows \<Rightarrow> rerr option \<times> rec_rows" where
  "pgreg_SetCreateOnlyVerified err workspace i v rows = pgreg_set err workspace i (\<lambda>h. h\<lparr>rCreateOnlyVerified := v\<rparr>) rows"

definition pgreg_Delete :: "string option \<Rightarrow> string \<Rightarrow> string \<Rightarrow> rec_rows \<Rightarrow> rerr option \<times> rec_rows" where
  "pgreg_Delete err workspace i rows =
     (case err of
        Some e \<Rightarrow> (Some (ROther e), rows)
      | None \<Rightarrow>
          if \<exists>h \<in> set rows. row_is workspace i h
          then (None, filter (\<lambda>h. \<not> row_is workspace i h) rows)
          else (Some RNotFound, rows))"

definition pgreg_meta_ops :: "string option \<Rightarrow> rec_rows meta_ops" where
  "pgreg_meta_ops err =
     \<lparr>mCreate = pgreg_Create err, mGet = pgreg_Get err, mList = pgreg_List err, mUpdate = pgreg_Update err, mDelete = pgreg_Delete err,
      mSetCreateOnlyVerified = pgreg_SetCreateOnlyVerified err, mPing = (\<lambda>_. map_option ROther err)\<rparr>"

text \<open>
  The store over a database whose successive calls fail as a schedule says: the head of the list
  is the fate of the next call, and none of the calls after its end fails.
\<close>

type_synonym pg_state = "rec_rows \<times> string option list"

definition pg_call :: "(string option \<Rightarrow> rec_rows \<Rightarrow> 'r \<times> rec_rows) \<Rightarrow> pg_state \<Rightarrow> 'r \<times> pg_state" where
  "pg_call f s =
     (case f (case snd s of [] \<Rightarrow> None | e # _ \<Rightarrow> e) (fst s) of (r, rows) \<Rightarrow> (r, (rows, tl (snd s))))"

definition PostgresStore :: "pg_state meta_ops" where
  "PostgresStore =
     \<lparr>mCreate = (\<lambda>r. pg_call (\<lambda>e. pgreg_Create e r)), mGet = (\<lambda>w i. pg_call (\<lambda>e. pgreg_Get e w i)),
      mList = (\<lambda>w. pg_call (\<lambda>e. pgreg_List e w)), mUpdate = (\<lambda>r. pg_call (\<lambda>e. pgreg_Update e r)),
      mDelete = (\<lambda>w i. pg_call (\<lambda>e. pgreg_Delete e w i)),
      mSetCreateOnlyVerified = (\<lambda>w i v. pg_call (\<lambda>e. pgreg_SetCreateOnlyVerified e w i v)),
      mPing = (\<lambda>s. case snd s of e # _ \<Rightarrow> map_option ROther e | [] \<Rightarrow> None)\<rparr>"

section \<open>The contract of a metadata store\<close>

text \<open>
  \<open>recs s w i\<close> is the record stored for workspace \<open>w\<close> and id \<open>i\<close>, \<open>ok\<close> the states a store
  reaches, \<open>canon\<close> what it keeps of a configuration.
\<close>

locale meta_store =
  fixes ops :: "'s meta_ops" and recs :: "'s \<Rightarrow> string \<Rightarrow> string \<Rightarrow> backend_rec option"
    and ok :: "'s \<Rightarrow> bool" and canon :: "json \<Rightarrow> json"
  assumes recs_id: "ok s \<Longrightarrow> recs s w i = Some r \<Longrightarrow> rWorkspace r = w \<and> rID r = i \<and> trunc_us (rUpdatedAt r) = rUpdatedAt r \<and>
      canon (rConfig r) = rConfig r"
    and create: "ok s \<Longrightarrow> slash \<notin> set (rWorkspace r) \<Longrightarrow> mCreate ops r s = (e, s') \<Longrightarrow>
      ok s' \<and> (case e of
        Some x \<Rightarrow> recs s' = recs s \<and> (\<forall>f. x \<noteq> RValidation f) \<and> x \<noteq> RNotFound
      | None \<Rightarrow> recs s (rWorkspace r) (rID r) = None \<and>
          recs s' = (recs s)(rWorkspace r := (recs s (rWorkspace r))(rID r \<mapsto>
            clone_rec (r\<lparr>rConfig := canon (rConfig r)\<rparr>))))"
    and create_taken: "ok s \<Longrightarrow> slash \<notin> set (rWorkspace r) \<Longrightarrow> recs s (rWorkspace r) (rID r) \<noteq> None \<Longrightarrow>
      fst (mCreate ops r s) \<noteq> None"
    and get: "ok s \<Longrightarrow> slash \<notin> set w \<Longrightarrow> mGet ops w i s = (x, s') \<Longrightarrow>
      ok s' \<and> recs s' = recs s \<and> (case x of
        Inr r \<Rightarrow> recs s w i = Some r
      | Inl e \<Rightarrow> (e = RNotFound \<longrightarrow> recs s w i = None) \<and> (\<forall>f. e \<noteq> RValidation f))"
    and list: "ok s \<Longrightarrow> slash \<notin> set w \<Longrightarrow> mList ops w s = (xs, s') \<Longrightarrow>
      ok s' \<and> recs s' = recs s \<and> (case xs of
        Inr rs \<Rightarrow> set rs = {r. \<exists>i. recs s w i = Some r} \<and> sorted (map rID rs) \<and> distinct (map rID rs)
      | Inl e \<Rightarrow> True)"
    and update: "ok s \<Longrightarrow> slash \<notin> set (rWorkspace r) \<Longrightarrow> mUpdate ops r s = (e, s') \<Longrightarrow>
      ok s' \<and> (case e of
        Some x \<Rightarrow> recs s' = recs s
      | None \<Rightarrow> (\<exists>cur. recs s (rWorkspace r) (rID r) = Some cur \<and>
          recs s' = (recs s)(rWorkspace r := (recs s (rWorkspace r))(rID r \<mapsto>
            clone_rec (mutable_fields (r\<lparr>rConfig := canon (rConfig r)\<rparr>) cur)))))"
    and set_verified: "ok s \<Longrightarrow> slash \<notin> set w \<Longrightarrow> mSetCreateOnlyVerified ops w i v s = (e, s') \<Longrightarrow>
      ok s' \<and> (case e of
        Some x \<Rightarrow> recs s' = recs s
      | None \<Rightarrow> (\<exists>cur. recs s w i = Some cur \<and>
          recs s' = (recs s)(w := (recs s w)(i \<mapsto> cur\<lparr>rCreateOnlyVerified := v\<rparr>))))"
    and delete: "ok s \<Longrightarrow> slash \<notin> set w \<Longrightarrow> mDelete ops w i s = (e, s') \<Longrightarrow>
      ok s' \<and> (case e of
        Some x \<Rightarrow> recs s' = recs s
      | None \<Rightarrow> recs s w i \<noteq> None \<and> recs s' = (recs s)(w := (recs s w)(i := None)))"

lemma trunc_us_idem [simp]: "trunc_us (trunc_us t) = trunc_us t"
  by (simp add: trunc_us_def)

lemma clone_rec_idem [simp]: "clone_rec (clone_rec r) = clone_rec r"
  by (simp add: clone_rec_def)

lemma clone_rec_sel [simp]:
  "rWorkspace (clone_rec r) = rWorkspace r" "rID (clone_rec r) = rID r" "rKind (clone_rec r) = rKind r"
  "rConfig (clone_rec r) = rConfig r" "rHasCredentials (clone_rec r) = rHasCredentials r"
  "rCreateOnlyVerified (clone_rec r) = rCreateOnlyVerified r" "rUpdatedAt (clone_rec r) = trunc_us (rUpdatedAt r)"
  by (simp_all add: clone_rec_def)

lemma mutable_fields_sel [simp]:
  "rWorkspace (mutable_fields r c) = rWorkspace c" "rID (mutable_fields r c) = rID c" "rKind (mutable_fields r c) = rKind c"
  "rConfig (mutable_fields r c) = rConfig r" "rHasCredentials (mutable_fields r c) = rHasCredentials r"
  "rCreateOnlyVerified (mutable_fields r c) = rCreateOnlyVerified r" "rUpdatedAt (mutable_fields r c) = rUpdatedAt r"
  by (simp_all add: mutable_fields_def)

lemma key_inj:
  assumes w: "slash \<notin> set w" "slash \<notin> set w'"
  shows "key w i = key w' i' \<longleftrightarrow> w = w' \<and> i = i'"
proof
  assume "key w i = key w' i'"
  then have "cut_first slash (key w i) = cut_first slash (key w' i')" by (rule arg_cong)
  with w show "w = w' \<and> i = i'" by (simp add: key_def)
qed simp

section \<open>The in-memory store keeps the contract\<close>

definition memreg_view :: "memreg_recs \<Rightarrow> string \<Rightarrow> string \<Rightarrow> backend_rec option" where
  "memreg_view m w i = (if slash \<in> set w then None else map_of m (key w i))"

definition memreg_ok :: "memreg_recs \<Rightarrow> bool" where
  "memreg_ok m \<longleftrightarrow> distinct (map fst m) \<and>
     (\<forall>k r. map_of m k = Some r \<longrightarrow> k = key (rWorkspace r) (rID r) \<and> slash \<notin> set (rWorkspace r) \<and> clone_rec r = r)"

lemma memreg_view_update:
  "slash \<notin> set w \<Longrightarrow>
     memreg_view (AList.update (key w i) r m) = (memreg_view m)(w := (memreg_view m w)(i \<mapsto> r))"
  by (auto simp: memreg_view_def update_conv fun_eq_iff key_inj)

lemma memreg_view_delete:
  "slash \<notin> set w \<Longrightarrow>
     memreg_view (AList.delete (key w i) m) = (memreg_view m)(w := (memreg_view m w)(i := None))"
  by (auto simp: memreg_view_def delete_conv fun_eq_iff key_inj)

lemma memreg_ok_update:
  "memreg_ok m \<Longrightarrow> slash \<notin> set (rWorkspace r) \<Longrightarrow> clone_rec r = r \<Longrightarrow> k = key (rWorkspace r) (rID r) \<Longrightarrow>
     memreg_ok (AList.update k r m)"
  by (auto simp: memreg_ok_def distinct_update update_conv)

lemma memreg_ok_delete: "memreg_ok m \<Longrightarrow> memreg_ok (AList.delete k m)"
  by (auto simp: memreg_ok_def distinct_delete delete_conv)

lemma sorted_distinct_ids:
  assumes "\<And>a b. a \<in> set rs \<Longrightarrow> b \<in> set rs \<Longrightarrow> rID a = rID b \<Longrightarrow> a = b" "distinct rs"
  shows "sorted (map rID (sort_key rID rs)) \<and> distinct (map rID (sort_key rID rs))"
  using assms by (simp add: distinct_map inj_on_def)

lemma memreg_id:
  "memreg_ok m \<Longrightarrow> memreg_view m w i = Some r \<Longrightarrow> rWorkspace r = w \<and> rID r = i \<and> clone_rec r = r \<and> slash \<notin> set w"
  by (metis key_inj memreg_ok_def memreg_view_def option.distinct(1))

lemma memreg_rows:
  assumes "memreg_ok m" "slash \<notin> set w"
  shows "set (filter (\<lambda>r. rWorkspace r = w) (map snd m)) = {r. \<exists>i. memreg_view m w i = Some r}"
    and "distinct (map snd m)"
proof -
  have d: "distinct (map fst m)" using assms(1) by (simp add: memreg_ok_def)
  have k: "fst p = key (rWorkspace (snd p)) (rID (snd p))" if "p \<in> set m" for p
    using assms(1) map_of_is_SomeI [OF d, of "fst p" "snd p"] that by (simp add: memreg_ok_def)
  show "distinct (map snd m)"
  proof (rule ccontr)
    assume "\<not> distinct (map snd m)"
    then have "\<not> inj_on snd (set m)" using d by (simp add: distinct_map)
    then obtain p q where "p \<in> set m" "q \<in> set m" "snd p = snd q" "p \<noteq> q" by (auto simp: inj_on_def)
    with k show False by (metis prod_eqI)
  qed
  show "set (filter (\<lambda>r. rWorkspace r = w) (map snd m)) = {r. \<exists>i. memreg_view m w i = Some r}"
  proof (rule set_eqI)
    fix r
    have "(\<exists>i. memreg_view m w i = Some r) \<longleftrightarrow> (\<exists>i. (key w i, r) \<in> set m)"
      using assms(2) d by (simp add: memreg_view_def)
    also have "\<dots> \<longleftrightarrow> (\<exists>k. (k, r) \<in> set m) \<and> rWorkspace r = w"
    proof
      assume "\<exists>i. (key w i, r) \<in> set m"
      then obtain i where i: "(key w i, r) \<in> set m" by blast
      then have "memreg_view m w i = Some r" using assms(2) d by (simp add: memreg_view_def)
      from memreg_id [OF assms(1) this] i show "(\<exists>k. (k, r) \<in> set m) \<and> rWorkspace r = w" by blast
    next
      assume "(\<exists>k. (k, r) \<in> set m) \<and> rWorkspace r = w"
      with k show "\<exists>i. (key w i, r) \<in> set m" by fastforce
    qed
    finally show "r \<in> set (filter (\<lambda>r. rWorkspace r = w) (map snd m)) \<longleftrightarrow> r \<in> {r. \<exists>i. memreg_view m w i = Some r}"
      by (force simp: image_iff)
  qed
qed

interpretation mem_reg: meta_store memreg_meta_ops memreg_view memreg_ok "\<lambda>j. j"
proof (unfold_locales, goal_cases)
  case (1 s w i r)
  then show ?case using memreg_id by (metis clone_rec_sel(7))
next
  case (2 s r e s')
  then show ?case
    by (auto simp: memreg_meta_ops_def memreg_Create_def memreg_view_update memreg_view_def intro!: memreg_ok_update split: if_splits)
next
  case (3 s r)
  then show ?case by (auto simp: memreg_meta_ops_def memreg_Create_def memreg_view_def)
next
  case (4 s w i x s')
  then show ?case
    by (auto simp: memreg_meta_ops_def memreg_Get_def memreg_view_def memreg_ok_def split: option.splits)
next
  case (5 s w xs s')
  let ?rs = "filter (\<lambda>r. rWorkspace r = w) (map snd s)"
  have ok: "memreg_ok s" "slash \<notin> set w" using 5 by auto
  then have "AList.clearjunk s = s" by (simp add: memreg_ok_def distinct_clearjunk_id)
  moreover have cl: "map clone_rec ?rs = ?rs"
    using memreg_rows(1) [OF ok] ok by (intro map_idI) (auto simp: memreg_view_def memreg_ok_def split: if_splits)
  moreover have "sorted (map rID (sort_key rID ?rs)) \<and> distinct (map rID (sort_key rID ?rs))"
  proof (rule sorted_distinct_ids)
    show "distinct ?rs" using memreg_rows(2) [OF ok] by simp
    fix a b assume "a \<in> set ?rs" "b \<in> set ?rs" "rID a = rID b"
    then obtain i j where "memreg_view s w i = Some a" "memreg_view s w j = Some b" "rID a = rID b"
      unfolding memreg_rows(1) [OF ok] by auto
    with ok(1) memreg_id [of s w] show "a = b" by (metis option.inject)
  qed
  ultimately show ?case using ok(1) 5(3) memreg_rows(1) [OF ok]
    by (auto simp: memreg_meta_ops_def memreg_List_def)
next
  case (6 s r e s')
  note d = memreg_meta_ops_def memreg_Update_def
  show ?case
  proof (cases "map_of s (key (rWorkspace r) (rID r))")
    case (Some cur)
    then have view: "memreg_view s (rWorkspace r) (rID r) = Some cur" using 6(2) by (simp add: memreg_view_def)
    note id = memreg_id [OF 6(1) view]
    let ?new = "clone_rec (mutable_fields r cur)"
    have id: "rWorkspace ?new = rWorkspace r" "rID ?new = rID r" using id by (simp_all only: clone_rec_sel mutable_fields_sel)
    have ok: "memreg_ok (AList.update (key (rWorkspace r) (rID r)) ?new s)"
      using id by (intro memreg_ok_update [OF 6(1)]) (simp_all add: 6(2))
    have res: "e = None" "s' = AList.update (key (rWorkspace r) (rID r)) ?new s" using 6(3) Some by (simp_all add: d)
    show ?thesis unfolding res using ok view memreg_view_update [OF 6(2)] by simp
  qed (use 6 in \<open>auto simp: d\<close>)
next
  case (7 s w i v e s')
  note d = memreg_meta_ops_def memreg_SetCreateOnlyVerified_def
  show ?case
  proof (cases "map_of s (key w i)")
    case (Some cur)
    then have "memreg_view s w i = Some cur" using 7(2) by (simp add: memreg_view_def)
    from memreg_id [OF 7(1) this] have c: "rWorkspace cur = w" "rID cur = i" "clone_rec cur = cur" by blast+
    then have "clone_rec (cur\<lparr>rCreateOnlyVerified := v\<rparr>) = cur\<lparr>rCreateOnlyVerified := v\<rparr>"
      by (cases cur) (simp add: clone_rec_def)
    moreover have "memreg_ok (AList.update (key w i) (cur\<lparr>rCreateOnlyVerified := v\<rparr>) s)"
      by (rule memreg_ok_update [OF 7(1)]) (simp_all add: c 7(2) calculation)
    moreover have "memreg_view s w i = Some cur" using 7(2) Some by (simp add: memreg_view_def)
    ultimately have "e = None \<and> s' = AList.update (key w i) (cur\<lparr>rCreateOnlyVerified := v\<rparr>) s"
      using 7(3) Some by (simp add: d)
    with \<open>memreg_ok (AList.update (key w i) (cur\<lparr>rCreateOnlyVerified := v\<rparr>) s)\<close> \<open>memreg_view s w i = Some cur\<close>
    show ?thesis using memreg_view_update [OF 7(2)] by simp
  qed (use 7 in \<open>auto simp: d\<close>)
next
  case (8 s w i e s')
  then show ?case
    by (auto simp: memreg_meta_ops_def memreg_Delete_def memreg_view_delete memreg_view_def intro: memreg_ok_delete split: option.splits)
qed

section \<open>So does the PostgreSQL store\<close>

lemma sort_key_rev_sorted:
  assumes "sorted (map f xs)" "distinct (map f xs)"
  shows "sort_key f (rev xs) = xs"
proof (rule properties_for_sort_key)
  have one: "filter (\<lambda>x. f k = f x) ys = [k]" if "k \<in> set ys" "distinct (map f ys)" for k ys
    using that
  proof (induction ys)
    case (Cons y ys)
    show ?case
    proof (cases "k = y")
      case True
      then have "filter (\<lambda>x. f k = f x) ys = []" using Cons.prems(2) by (auto simp: filter_empty_conv)
      with True show ?thesis by simp
    next
      case False
      with Cons.prems have "k \<in> set ys" by simp
      moreover from this have "f k \<noteq> f y" using Cons.prems(2) by (metis distinct.simps(2) imageI list.map(2) set_map)
      ultimately have "k \<in> set ys" "f k \<noteq> f y" by blast+
      with Cons show ?thesis by simp
    qed
  qed simp
  fix k assume "k \<in> set xs"
  then show "filter (\<lambda>x. f k = f x) xs = filter (\<lambda>x. f k = f x) (rev xs)"
    using one [of k xs] one [of k "rev xs"] assms(2) by (simp add: rev_map [symmetric])
qed (use assms in simp_all)

lemma set_clearjunk_subset: "set (AList.clearjunk al) \<subseteq> set al"
  by (induction al rule: AList.clearjunk.induct) (auto simp: AList.delete_eq)

lemma canonical_members:
  fixes f :: "string \<times> 'v \<Rightarrow> nat \<times> string"
  assumes f: "f = (\<lambda>p. (length (fst p), fst p))" and ys: "ys = sort_key f (AList.clearjunk (rev xs))"
  shows "set ys \<subseteq> set xs" and "sort_key f (AList.clearjunk (rev ys)) = ys"
proof -
  have set: "set ys = set (AList.clearjunk (rev xs))" unfolding ys by simp
  with set_clearjunk_subset [of "rev xs"] show "set ys \<subseteq> set xs" by simp
  have "mset (map fst ys) = mset (map fst (AList.clearjunk (rev xs)))" unfolding ys by simp
  then have d: "distinct (map fst ys)" using distinct_clearjunk mset_eq_imp_distinct_iff by blast
  then have "inj_on fst (set ys)" "distinct ys" by (simp_all add: distinct_map)
  then have "distinct (map f ys)" unfolding f by (auto simp: distinct_map inj_on_def)
  moreover have "sorted (map f ys)" unfolding ys by (rule sorted_sort_key)
  moreover have "AList.clearjunk (rev ys) = rev ys" using d by (intro distinct_clearjunk_id) (simp add: rev_map [symmetric])
  ultimately show "sort_key f (AList.clearjunk (rev ys)) = ys" using sort_key_rev_sorted by metis
qed

text \<open>What a \<^verbatim>\<open>JSONB\<close> column returns, it keeps.\<close>

lemma jsonb_idem: "jsonb (jsonb j) = jsonb j"
proof (induction j rule: jsonb.induct)
  case (1 kvs)
  let ?f = "\<lambda>p. (length (fst p), fst p) :: nat \<times> string"
  let ?h = "\<lambda>(k, v). (k, jsonb v)"
  define ys where "ys = sort_key ?f (AList.clearjunk (rev (map ?h kvs)))"
  note can = canonical_members [OF refl ys_def]
  have "?h p = p" if p: "p \<in> set ys" for p
  proof -
    from p can(1) obtain k v where kv: "(k, v) \<in> set kvs" "p = (k, jsonb v)" by fastforce
    from 1 [OF kv(1) refl] kv(2) show ?thesis by simp
  qed
  then have "map ?h ys = ys" by (intro map_idI) blast
  then have "jsonb (JObj ys) = JObj ys" unfolding jsonb.simps(1) using can(2) by simp
  then show ?case unfolding jsonb.simps(1) [of kvs] ys_def by simp
next
  case (2 js)
  then show ?case by (simp cong: map_cong)
qed simp_all

lemma find_append: "find P (xs @ ys) = (case find P xs of None \<Rightarrow> find P ys | Some x \<Rightarrow> Some x)"
  by (induction xs) auto

definition pgreg_view :: "rec_rows \<Rightarrow> string \<Rightarrow> string \<Rightarrow> backend_rec option" where
  "pgreg_view rows w i = find (row_is w i) rows"

definition pgreg_ok :: "rec_rows \<Rightarrow> bool" where
  "pgreg_ok rows \<longleftrightarrow> distinct (map (\<lambda>r. (rWorkspace r, rID r)) rows) \<and> (\<forall>r \<in> set rows. clone_rec r = r \<and> jsonb (rConfig r) = rConfig r)"

lemma pgreg_view_Some: "pgreg_view rows w i = Some r \<Longrightarrow> r \<in> set rows \<and> rWorkspace r = w \<and> rID r = i"
  by (auto simp: pgreg_view_def row_is_def dest: find_Some_mem)

lemma pgreg_view_None: "pgreg_view rows w i = None \<longleftrightarrow> \<not> (\<exists>h \<in> set rows. row_is w i h)"
  by (auto simp: pgreg_view_def find_None_iff)

lemma pgreg_view_mem: "pgreg_ok rows \<Longrightarrow> r \<in> set rows \<Longrightarrow> pgreg_view rows (rWorkspace r) (rID r) = Some r"
proof -
  assume ok: "pgreg_ok rows" and r: "r \<in> set rows"
  then obtain h where h: "pgreg_view rows (rWorkspace r) (rID r) = Some h"
    using pgreg_view_None [of rows "rWorkspace r" "rID r"] by (auto simp: row_is_def)
  from pgreg_view_Some [OF h] ok r have "h = r" by (auto simp: pgreg_ok_def distinct_map inj_on_def)
  with h show ?thesis by simp
qed

lemma pgreg_view_filter:
  "pgreg_view (filter (\<lambda>h. \<not> row_is w i h) s) w' i' = ((pgreg_view s)(w := (pgreg_view s w)(i := None))) w' i'"
  by (induction s) (auto simp: pgreg_view_def row_is_def)

lemma pgreg_set_keys:
  assumes "\<And>h. rWorkspace (f h) = rWorkspace h \<and> rID (f h) = rID h"
  shows "map (\<lambda>r. (rWorkspace r, rID r)) (map (\<lambda>h. if row_is w i h then f h else h) rows) =
      map (\<lambda>r. (rWorkspace r, rID r)) rows"
    and "pgreg_view (map (\<lambda>h. if row_is w i h then f h else h) rows) w' i' =
      (if w' = w \<and> i' = i then map_option f (pgreg_view rows w' i') else pgreg_view rows w' i')"
  using assms by (simp, induction rows) (auto simp: pgreg_view_def row_is_def)

lemma pgreg_set_law:
  assumes ok: "pgreg_ok rows" and call: "pgreg_set err w i f rows = (e, rows')"
    and f: "\<And>h. rWorkspace (f h) = rWorkspace h \<and> rID (f h) = rID h" "\<And>h. clone_rec h = h \<Longrightarrow> clone_rec (f h) = f h" "\<And>h. jsonb (rConfig h) = rConfig h \<Longrightarrow> jsonb (rConfig (f h)) = rConfig (f h)"
  shows "pgreg_ok rows' \<and> (case e of
      Some x \<Rightarrow> pgreg_view rows' = pgreg_view rows
    | None \<Rightarrow> (\<exists>cur. pgreg_view rows w i = Some cur \<and> clone_rec cur = cur \<and>
        pgreg_view rows' = (pgreg_view rows)(w := (pgreg_view rows w)(i \<mapsto> f cur))))"
proof (cases "err = None \<and> pgreg_view rows w i \<noteq> None")
  case True
  then obtain cur where cur: "pgreg_view rows w i = Some cur" by auto
  from True have "\<exists>h \<in> set rows. row_is w i h" using pgreg_view_None [of rows w i] by auto
  with True call have res: "e = None" "rows' = map (\<lambda>h. if row_is w i h then f h else h) rows"
    by (auto simp: pgreg_set_def)
  have "pgreg_ok rows'"
    using ok f(2,3) unfolding pgreg_ok_def res pgreg_set_keys(1) [of f, OF f(1)] by auto
  moreover have "clone_rec cur = cur" using pgreg_view_Some [OF cur] ok by (simp add: pgreg_ok_def)
  ultimately show ?thesis
    unfolding res using cur by (auto simp: fun_eq_iff pgreg_set_keys(2) [of f, OF f(1)])
next
  case False
  with call pgreg_view_None [of rows w i] have "e \<noteq> None \<and> rows' = rows"
    by (auto simp: pgreg_set_def split: option.splits if_splits)
  with ok show ?thesis by auto
qed

interpretation pg_reg: meta_store "pgreg_meta_ops err" pgreg_view pgreg_ok jsonb for err
proof (unfold_locales, goal_cases)
  case (1 s w i r)
  then show ?case using pgreg_view_Some [of s w i r] by (auto simp: pgreg_ok_def) (metis clone_rec_sel(7))
next
  case (2 s r e s')
  show ?case
  proof (cases "err = None \<and> pgreg_view s (rWorkspace r) (rID r) = None")
    case True
    then have free: "\<not> (\<exists>h \<in> set s. row_is (rWorkspace r) (rID r) h)" using pgreg_view_None by blast
    with True 2(3) have res: "e = None" "s' = s @ [pgreg_rec r]"
      by (auto simp: pgreg_meta_ops_def pgreg_Create_def)
    have new: "pgreg_rec r = clone_rec (r\<lparr>rConfig := jsonb (rConfig r)\<rparr>)" by (simp add: pgreg_rec_def clone_rec_def)
    have "pgreg_ok s'" using 2(1) free unfolding res new by (auto simp: pgreg_ok_def row_is_def jsonb_idem)
    moreover have "pgreg_view s' w i =
        ((pgreg_view s)(rWorkspace r := (pgreg_view s (rWorkspace r))(rID r \<mapsto> pgreg_rec r))) w i" for w i
    proof -
      have one: "find (row_is w i) [pgreg_rec r] = (if w = rWorkspace r \<and> i = rID r then Some (pgreg_rec r) else None)"
        by (auto simp: row_is_def pgreg_rec_def)
      show ?thesis using True unfolding res pgreg_view_def find_append one by (auto split: option.splits)
    qed
    ultimately show ?thesis using True res(1) new by (auto simp: fun_eq_iff)
  next
    case False
    with 2(3) pgreg_view_None [of s "rWorkspace r" "rID r"] have "s' = s \<and> (\<exists>x. e = Some x \<and> (\<forall>f. x \<noteq> RValidation f) \<and> x \<noteq> RNotFound)"
      by (auto simp: pgreg_meta_ops_def pgreg_Create_def split: option.splits if_splits)
    with 2(1) show ?thesis by auto
  qed
next
  case (3 s r)
  then show ?case using pgreg_view_None [of s "rWorkspace r" "rID r"]
    by (auto simp: pgreg_meta_ops_def pgreg_Create_def split: option.splits)
next
  case (4 s w i x s')
  then show ?case
    by (auto simp: pgreg_meta_ops_def pgreg_Get_def pgreg_view_def split: option.splits)
next
  case (5 s w xs s')
  let ?rs = "filter (\<lambda>r. rWorkspace r = w) s"
  have "sorted (map rID (sort_key rID ?rs)) \<and> distinct (map rID (sort_key rID ?rs))"
    using 5(1) by (intro sorted_distinct_ids) (auto simp: pgreg_ok_def distinct_map inj_on_def)
  moreover have "set ?rs = {r. \<exists>i. pgreg_view s w i = Some r}"
  proof (intro set_eqI iffI)
    fix r assume "r \<in> set ?rs"
    then have "r \<in> set s" "rWorkspace r = w" by auto
    with pgreg_view_mem [OF 5(1), of r] show "r \<in> {r. \<exists>i. pgreg_view s w i = Some r}" by blast
  next
    fix r assume "r \<in> {r. \<exists>i. pgreg_view s w i = Some r}"
    then obtain i where "pgreg_view s w i = Some r" by blast
    from pgreg_view_Some [OF this] show "r \<in> set ?rs" by simp
  qed
  ultimately show ?case using 5(1,3) by (auto simp: pgreg_meta_ops_def pgreg_List_def split: option.splits)
next
  case (6 s r e s')
  let ?f = "\<lambda>h. mutable_fields (pgreg_rec r) h"
  have f: "clone_rec (?f h) = ?f h" if "clone_rec h = h" for h
    using that by (cases h) (auto simp: clone_rec_def mutable_fields_def pgreg_rec_def)
  have new: "?f h = clone_rec (mutable_fields (r\<lparr>rConfig := jsonb (rConfig r)\<rparr>) h)" if "clone_rec h = h" for h
    using that by (cases h) (auto simp: clone_rec_def mutable_fields_def pgreg_rec_def)
  from 6(3) have "pgreg_set err (rWorkspace r) (rID r) ?f s = (e, s')" by (simp add: pgreg_meta_ops_def pgreg_Update_def)
  from pgreg_set_law [OF 6(1) this _ f] new show ?case by (auto simp: pgreg_rec_def jsonb_idem split: option.splits)
next
  case (7 s w i v e s')
  let ?f = "\<lambda>h. h\<lparr>rCreateOnlyVerified := v\<rparr>"
  have f: "clone_rec (?f h) = ?f h" if "clone_rec h = h" for h
    using that by (cases h) (auto simp: clone_rec_def)
  from 7(3) have "pgreg_set err w i ?f s = (e, s')" by (simp add: pgreg_meta_ops_def pgreg_SetCreateOnlyVerified_def)
  from pgreg_set_law [OF 7(1) this _ f] show ?case by (auto split: option.splits)
next
  case (8 s w i e s')
  show ?case
  proof (cases "err = None \<and> pgreg_view s w i \<noteq> None")
    case True
    then have "\<exists>h \<in> set s. row_is w i h" using pgreg_view_None [of s w i] by auto
    with True 8(3) have res: "e = None" "s' = filter (\<lambda>h. \<not> row_is w i h) s"
      by (auto simp: pgreg_meta_ops_def pgreg_Delete_def)
    have "pgreg_ok s'" using 8(1) unfolding res by (auto simp: pgreg_ok_def distinct_map inj_on_def)
    moreover have "pgreg_view s' w' i' = ((pgreg_view s)(w := (pgreg_view s w)(i := None))) w' i'" for w' i'
      unfolding res by (rule pgreg_view_filter)
    ultimately show ?thesis using True res(1) by (auto simp: fun_eq_iff)
  next
    case False
    with 8(3) pgreg_view_None [of s w i] have "s' = s \<and> e \<noteq> None"
      by (auto simp: pgreg_meta_ops_def pgreg_Delete_def split: option.splits if_splits)
    with 8(1) show ?thesis by auto
  qed
qed

text \<open>And so it does when calls fail on a schedule.\<close>

lemma pg_callE:
  assumes "pg_call f s = (r, s')"
  obtains err where "f err (fst s) = (r, fst s')"
  using assms by (auto simp: pg_call_def split: prod.splits)

lemma PostgresStore_sel [simp]:
  "mCreate PostgresStore r = pg_call (\<lambda>e. mCreate (pgreg_meta_ops e) r)"
  "mGet PostgresStore w i = pg_call (\<lambda>e. mGet (pgreg_meta_ops e) w i)"
  "mList PostgresStore w = pg_call (\<lambda>e. mList (pgreg_meta_ops e) w)"
  "mUpdate PostgresStore r = pg_call (\<lambda>e. mUpdate (pgreg_meta_ops e) r)"
  "mDelete PostgresStore w i = pg_call (\<lambda>e. mDelete (pgreg_meta_ops e) w i)"
  "mSetCreateOnlyVerified PostgresStore w i v = pg_call (\<lambda>e. mSetCreateOnlyVerified (pgreg_meta_ops e) w i v)"
  by (simp_all add: PostgresStore_def pgreg_meta_ops_def)

interpretation pg_store: meta_store PostgresStore "\<lambda>s. pgreg_view (fst s)" "\<lambda>s. pgreg_ok (fst s)" jsonb
proof (unfold_locales, goal_cases)
  case (1 s w i r)
  then show ?case using pg_reg.recs_id by blast
next
  case (2 s r e s')
  from 2(3) obtain err where "mCreate (pgreg_meta_ops err) r (fst s) = (e, fst s')" by (auto elim: pg_callE)
  from pg_reg.create [OF 2(1,2) this] show ?case .
next
  case (3 s r)
  then show ?case using pg_reg.create_taken [OF 3(1,2,3)] by (simp add: pg_call_def split: prod.split) (metis fst_conv)
next
  case (4 s w i x s')
  from 4(3) obtain err where "mGet (pgreg_meta_ops err) w i (fst s) = (x, fst s')" by (auto elim: pg_callE)
  from pg_reg.get [OF 4(1,2) this] show ?case .
next
  case (5 s w xs s')
  from 5(3) obtain err where "mList (pgreg_meta_ops err) w (fst s) = (xs, fst s')" by (auto elim: pg_callE)
  from pg_reg.list [OF 5(1,2) this] show ?case .
next
  case (6 s r e s')
  from 6(3) obtain err where "mUpdate (pgreg_meta_ops err) r (fst s) = (e, fst s')" by (auto elim: pg_callE)
  from pg_reg.update [OF 6(1,2) this] show ?case .
next
  case (7 s w i v e s')
  from 7(3) obtain err where "mSetCreateOnlyVerified (pgreg_meta_ops err) w i v (fst s) = (e, fst s')" by (auto elim: pg_callE)
  from pg_reg.set_verified [OF 7(1,2) this] show ?case .
next
  case (8 s w i e s')
  from 8(3) obtain err where "mDelete (pgreg_meta_ops err) w i (fst s) = (e, fst s')" by (auto elim: pg_callE)
  from pg_reg.delete [OF 8(1,2) this] show ?case .
qed

end
