(* ===== verification/Event_Bus.thy ===== *)
theory Event_Bus
  imports Registry_Store
begin

text \<open>
  \<^verbatim>\<open>internal/eventbus/eventbus.go\<close> and \<^verbatim>\<open>lazy.go\<close>: publishing events, dropping them while no bus is
  configured, and connecting once the credentials Secret appears.  The NATS client, the text of a
  time and the mounted directory are parameters over the state \<^typ>\<open>'w\<close> of the world.
\<close>

section \<open>Publishing\<close>

definition ModuleID :: string where "ModuleID = ''storage''"

text \<open>\<^verbatim>\<open>PublishTimeout\<close>, in milliseconds.\<close>

definition PublishTimeout :: nat where "PublishTimeout = 2000"

record envelope =
  enWorkspace :: string
  enEventType :: string
  enPublishedAt :: int
  enPublishedBy :: string
  enData :: json

definition Subject :: "string \<Rightarrow> string \<Rightarrow> string" where
  "Subject workspace eventType = ''booth.'' @ workspace @ ''.'' @ eventType"

text \<open>
  The envelope as \<^verbatim>\<open>json.Marshal\<close> writes it.  \<open>time\<close> is \<^verbatim>\<open>Time.MarshalJSON\<close>, which refuses years it
  cannot write.
\<close>

definition envelope_json :: "(int \<Rightarrow> string option) \<Rightarrow> envelope \<Rightarrow> json option" where
  "envelope_json time e =
     map_option (\<lambda>at. JObj [(''workspace'', JStr (enWorkspace e)), (''eventType'', JStr (enEventType e)),
       (''publishedAt'', JStr at), (''publishedBy'', JStr (enPublishedBy e)), (''data'', enData e)])
       (time (enPublishedAt e))"

datatype bus_err = MarshalFailed | PublishFailed

text \<open>
  \<open>buDial\<close> is \<^verbatim>\<open>nats.Connect\<close> (with the credentials file or without), \<open>buJetStream\<close> opens the
  context of a connection, \<open>buSend\<close> is the context's \<^verbatim>\<open>Publish\<close>, which waits for the stream's
  acknowledgement.
\<close>

record ('c, 'j, 'w) bus_env =
  buTime :: "int \<Rightarrow> string option"
  buDial :: "string \<Rightarrow> string option \<Rightarrow> 'w \<Rightarrow> 'c option \<times> 'w"
  buJetStream :: "'c \<Rightarrow> 'w \<Rightarrow> 'j option \<times> 'w"
  buClose :: "'c \<Rightarrow> 'w \<Rightarrow> 'w"
  buSend :: "'j \<Rightarrow> string \<Rightarrow> string \<Rightarrow> 'w \<Rightarrow> bool \<times> 'w"
  buReadFile :: "string \<Rightarrow> 'w \<Rightarrow> string option"
  buExists :: "string \<Rightarrow> 'w \<Rightarrow> bool"

record ('c, 'j) nats_publisher =
  npJS :: 'j
  npConn :: 'c

definition nats_connect ::
    "('c, 'j, 'w) bus_env \<Rightarrow> string \<Rightarrow> string option \<Rightarrow> 'w \<Rightarrow> ('c, 'j) nats_publisher option \<times> 'w" where
  "nats_connect env url creds w =
     (case buDial env url creds w of
        (None, w1) \<Rightarrow> (None, w1)
      | (Some nc, w1) \<Rightarrow>
          (case buJetStream env nc w1 of
             (None, w2) \<Rightarrow> (None, buClose env nc w2)
           | (Some js, w2) \<Rightarrow> (Some \<lparr>npJS = js, npConn = nc\<rparr>, w2)))"

definition Connect :: "('c, 'j, 'w) bus_env \<Rightarrow> string \<Rightarrow> 'w \<Rightarrow> ('c, 'j) nats_publisher option \<times> 'w" where
  "Connect env url w = nats_connect env url None w"

definition ConnectWithCreds ::
    "('c, 'j, 'w) bus_env \<Rightarrow> string \<Rightarrow> string \<Rightarrow> 'w \<Rightarrow> ('c, 'j) nats_publisher option \<times> 'w" where
  "ConnectWithCreds env url credsFile w = nats_connect env url (Some credsFile) w"

definition nats_Publish ::
    "('c, 'j, 'w) bus_env \<Rightarrow> ('c, 'j) nats_publisher \<Rightarrow> int \<Rightarrow> string \<Rightarrow> string \<Rightarrow> json \<Rightarrow> 'w \<Rightarrow> bus_err option \<times> 'w" where
  "nats_Publish env p now workspace eventType dat w =
     (let e = \<lparr>enWorkspace = workspace, enEventType = eventType, enPublishedAt = now,
                enPublishedBy = ModuleID, enData = dat\<rparr> in
      case envelope_json (buTime env) e of
        None \<Rightarrow> (Some MarshalFailed, w)
      | Some j \<Rightarrow>
          (case buSend env (npJS p) (Subject workspace eventType) (json_text j) w of
             (True, w1) \<Rightarrow> (None, w1)
           | (False, w1) \<Rightarrow> (Some PublishFailed, w1)))"

section \<open>The publisher that drops events\<close>

text \<open>Whether a warn callback is set, whether it has been called, and its calls.\<close>

record noop =
  noWarn :: bool
  noWarned :: bool
  noCalls :: "string list"

definition NewNoopPublisher :: "bool \<Rightarrow> noop" where
  "NewNoopPublisher warn = \<lparr>noWarn = warn, noWarned = False, noCalls = []\<rparr>"

definition noop_Publish :: "noop \<Rightarrow> string \<Rightarrow> noop" where
  "noop_Publish p eventType =
     (if noWarn p \<and> \<not> noWarned p then p\<lparr>noWarned := True, noCalls := noCalls p @ [eventType]\<rparr> else p)"

section \<open>The publisher that connects later\<close>

definition urlFile :: string where "urlFile = ''url''"
definition credsFile :: string where "credsFile = ''nats.creds''"

text \<open>The no-op publisher stays in the record after it was replaced, so its calls stay visible.\<close>

record ('c, 'j) lazy =
  lzDir :: string
  lzNoop :: noop
  lzCurrent :: "('c, 'j) nats_publisher option"

definition NewLazyPublisher :: "string \<Rightarrow> bool \<Rightarrow> ('c, 'j) lazy" where
  "NewLazyPublisher dir warn = \<lparr>lzDir = dir, lzNoop = NewNoopPublisher warn, lzCurrent = None\<rparr>"

definition lazy_Publish ::
    "('c, 'j, 'w) bus_env \<Rightarrow> int \<Rightarrow> string \<Rightarrow> string \<Rightarrow> json \<Rightarrow> ('c, 'j) lazy \<Rightarrow> 'w \<Rightarrow>
     bus_err option \<times> ('c, 'j) lazy \<times> 'w" where
  "lazy_Publish env now workspace eventType dat lp w =
     (case lzCurrent lp of
        None \<Rightarrow> (None, lp\<lparr>lzNoop := noop_Publish (lzNoop lp) eventType\<rparr>, w)
      | Some p \<Rightarrow> (case nats_Publish env p now workspace eventType dat w of (e, w1) \<Rightarrow> (e, lp, w1)))"

definition tryConnect :: "('c, 'j, 'w) bus_env \<Rightarrow> ('c, 'j) lazy \<Rightarrow> 'w \<Rightarrow> bool \<times> ('c, 'j) lazy \<times> 'w" where
  "tryConnect env lp w =
     (case buReadFile env (lzDir lp @ ''/'' @ urlFile) w of
        None \<Rightarrow> (False, lp, w)
      | Some raw \<Rightarrow>
          (let url = TrimSpace raw; creds = lzDir lp @ ''/'' @ credsFile in
           if url = [] then (False, lp, w)
           else if \<not> buExists env creds w then (False, lp, w)
           else
             (case ConnectWithCreds env url creds w of
                (None, w1) \<Rightarrow> (False, lp, w1)
              | (Some pub, w1) \<Rightarrow> (True, lp\<lparr>lzCurrent := Some pub\<rparr>, w1))))"

definition lazy_Close :: "('c, 'j, 'w) bus_env \<Rightarrow> ('c, 'j) lazy \<Rightarrow> 'w \<Rightarrow> 'w" where
  "lazy_Close env lp w = (case lzCurrent lp of Some p \<Rightarrow> buClose env (npConn p) w | None \<Rightarrow> w)"

text \<open>
  The life of the publisher as a sequence of what happens to it: a poll of \<^verbatim>\<open>Run\<close> (its first
  look or a tick), the end of \<^verbatim>\<open>Run\<close>'s context, a \<^verbatim>\<open>Publish\<close> of a request, and a change of the world
  from outside.  \<^verbatim>\<open>Run\<close> has returned once \<open>lrPolling\<close> is false.
\<close>

datatype 'w bus_event =
    Poll | Stop | Event int string string json | Outside "'w \<Rightarrow> 'w"

record ('c, 'j, 'w) bus_run =
  brLazy :: "('c, 'j) lazy"
  brPolling :: bool
  brWorld :: 'w
  brResults :: "bus_err option list"

fun bus_step :: "('c, 'j, 'w) bus_env \<Rightarrow> 'w bus_event \<Rightarrow> ('c, 'j, 'w) bus_run \<Rightarrow> ('c, 'j, 'w) bus_run" where
  "bus_step env Poll r =
     (if brPolling r then
        (case tryConnect env (brLazy r) (brWorld r) of
           (ok, lp, w) \<Rightarrow> r\<lparr>brLazy := lp, brPolling := \<not> ok, brWorld := w\<rparr>)
      else r)"
| "bus_step env Stop r = r\<lparr>brPolling := False\<rparr>"
| "bus_step env (Event now ws et dat) r =
     (case lazy_Publish env now ws et dat (brLazy r) (brWorld r) of
        (e, lp, w) \<Rightarrow> r\<lparr>brLazy := lp, brWorld := w, brResults := brResults r @ [e]\<rparr>)"
| "bus_step env (Outside f) r = r\<lparr>brWorld := f (brWorld r)\<rparr>"

definition bus_start :: "string \<Rightarrow> bool \<Rightarrow> 'w \<Rightarrow> ('c, 'j, 'w) bus_run" where
  "bus_start dir warn w = \<lparr>brLazy = NewLazyPublisher dir warn, brPolling = True, brWorld = w, brResults = []\<rparr>"

definition bus_events :: "('c, 'j, 'w) bus_env \<Rightarrow> 'w bus_event list \<Rightarrow> ('c, 'j, 'w) bus_run \<Rightarrow> ('c, 'j, 'w) bus_run" where
  "bus_events env es r = fold (bus_step env) es r"

section \<open>What it promises\<close>

text \<open>The warning is given at most once; while the bus is not connected no event fails; and once
  it is connected, polling has ended.\<close>

definition bus_inv :: "('c, 'j, 'w) bus_run \<Rightarrow> bool" where
  "bus_inv r \<longleftrightarrow>
     length (noCalls (lzNoop (brLazy r))) = (if noWarned (lzNoop (brLazy r)) then 1 else 0) \<and>
     (lzCurrent (brLazy r) = None \<longrightarrow> (\<forall>e \<in> set (brResults r). e = None)) \<and>
     (lzCurrent (brLazy r) \<noteq> None \<longrightarrow> \<not> brPolling r)"

lemma tryConnect_cases:
  obtains w' where "tryConnect env lp w = (False, lp, w')"
  | p w' where "tryConnect env lp w = (True, lp\<lparr>lzCurrent := Some p\<rparr>, w')"
  by (cases "tryConnect env lp w")
    (auto simp: tryConnect_def Let_def split: option.splits if_splits prod.splits)

lemma bus_start_inv: "bus_inv (bus_start dir warn w)"
  by (simp add: bus_inv_def bus_start_def NewLazyPublisher_def NewNoopPublisher_def)

lemma bus_step_inv: "bus_inv r \<Longrightarrow> bus_inv (bus_step env ev r)"
proof (cases ev)
  case Poll
  assume "bus_inv r"
  with Poll show ?thesis
    by - (rule tryConnect_cases [of env "brLazy r" "brWorld r"]; auto simp: bus_inv_def)
qed (auto simp: bus_inv_def lazy_Publish_def noop_Publish_def split: option.splits prod.splits if_splits)

lemma bus_events_inv: "bus_inv r \<Longrightarrow> bus_inv (bus_events env es r)"
  by (induction es arbitrary: r) (auto simp: bus_events_def intro: bus_step_inv)

lemma bus_step_connected: "bus_inv r \<Longrightarrow> lzCurrent (brLazy r) = Some p \<Longrightarrow> lzCurrent (brLazy (bus_step env ev r)) = Some p"
  by (cases ev) (auto simp: bus_inv_def lazy_Publish_def split: prod.splits)

lemma bus_events_connected:
  "bus_inv r \<Longrightarrow> lzCurrent (brLazy r) = Some p \<Longrightarrow> lzCurrent (brLazy (bus_events env es r)) = Some p"
proof (induction es arbitrary: r)
  case (Cons ev es)
  then have "bus_inv (bus_step env ev r)" "lzCurrent (brLazy (bus_step env ev r)) = Some p"
    by (auto intro: bus_step_inv bus_step_connected)
  from Cons.IH [OF this] show ?case by (simp add: bus_events_def)
qed (simp add: bus_events_def)

text \<open>
  C40. Whatever happens to the lazy publisher, in whatever order: the operator is warned at most
  once, no event fails before the bus is connected, and a connection once made is kept for
  good, polling having ended.
\<close>

theorem lazy_publisher_connects_once:
  assumes "bus_events env es (bus_start dir warn w) = r" and "bus_events env es' r = r'"
  shows "length (noCalls (lzNoop (brLazy r))) \<le> 1 \<and>
    (lzCurrent (brLazy r) = None \<longrightarrow> (\<forall>e \<in> set (brResults r). e = None)) \<and>
    (\<forall>p. lzCurrent (brLazy r) = Some p \<longrightarrow> \<not> brPolling r \<and> lzCurrent (brLazy r') = Some p)"
proof -
  have "bus_inv (bus_events env es (bus_start dir warn w))" by (intro bus_events_inv bus_start_inv)
  then have inv: "bus_inv r" by (simp only: assms(1))
  with assms(2) bus_events_connected [OF inv] show ?thesis by (auto simp: bus_inv_def)
qed

text \<open>
  An event's subject belongs to its workspace alone: for workspace names the registry accepts,
  two events have the same subject only if they are of the same workspace and the same type.
\<close>

theorem subjects_apart:
  assumes "ValidateWorkspace ws = None" and "ValidateWorkspace ws' = None"
  shows "Subject ws et = Subject ws' et' \<longleftrightarrow> ws = ws' \<and> et = et'"
proof
  have dot: "CHR ''.'' \<notin> set x" if "ValidateWorkspace x = None" for x
    using ValidateWorkspace_None [OF that]
    by (auto simp: list_all_iff is_slug_def is_alnum_def is_lower_def is_digit_def)
  assume "Subject ws et = Subject ws' et'"
  then have "split_on CHR ''.'' (ws @ CHR ''.'' # et) = split_on CHR ''.'' (ws' @ CHR ''.'' # et')"
    by (simp add: Subject_def)
  then have "ws = ws'" "split_on CHR ''.'' et = split_on CHR ''.'' et'"
    using dot [OF assms(1)] dot [OF assms(2)] by (simp_all add: split_on_app)
  then show "ws = ws' \<and> et = et'" by (auto dest: split_on_inj)
qed simp

lemma subjects_apart_witness:
  "Subject ''team'' ''a.storage.object.created'' \<noteq> Subject ''team-a'' ''storage.object.created''"
  using subjects_apart [of "''team''" "''team-a''" "''a.storage.object.created''" "''storage.object.created''"]
  by (auto simp: ValidateWorkspace_def workspaceRE_def is_slug_def is_alnum_def is_lower_def is_digit_def)

section \<open>A bus that appears later\<close>

text \<open>The world: whether the Secret is there, and the messages the bus took.\<close>

type_synonym demo_bus = "bool \<times> (string \<times> string) list"

definition demo_bus_env :: "(unit, unit, demo_bus) bus_env" where
  "demo_bus_env =
     \<lparr>buTime = (\<lambda>_. Some ''2026-01-01T00:00:00Z''), buDial = (\<lambda>_ _ w. (Some (), w)),
      buJetStream = (\<lambda>_ w. (Some (), w)), buClose = (\<lambda>_ w. w),
      buSend = (\<lambda>_ subject body w. (True, (fst w, snd w @ [(subject, body)]))),
      buReadFile = (\<lambda>_ w. if fst w then Some ''nats'' else None), buExists = (\<lambda>_ w. fst w)\<rparr>"

definition demo_bus_events :: "demo_bus bus_event list" where
  "demo_bus_events = [Poll, Event 0 ''a'' ''t'' (JStr ''x''), Event 1 ''a'' ''t'' (JStr ''y''), Outside (\<lambda>w. (True, snd w)), Poll]"

lemma lazy_publisher_connects_once_witness:
  "\<exists>r :: (unit, unit, demo_bus) bus_run. bus_events demo_bus_env demo_bus_events (bus_start ''/creds'' True (False, [])) = r \<and>
     noCalls (lzNoop (brLazy r)) = [''t''] \<and> \<not> brPolling r \<and>
     lzCurrent (brLazy (bus_events demo_bus_env [Event 2 ''a'' ''t'' (JStr ''z''), Poll] r)) = Some \<lparr>npJS = (), npConn = ()\<rparr>"
proof -
  define r :: "(unit, unit, demo_bus) bus_run" where
    "r = bus_events demo_bus_env demo_bus_events (bus_start ''/creds'' True (False, []))"
  have "lzCurrent (brLazy r) = Some \<lparr>npJS = (), npConn = ()\<rparr>" "noCalls (lzNoop (brLazy r)) = [''t'']"
    by (simp_all add: r_def bus_events_def demo_bus_events_def demo_bus_env_def bus_start_def NewLazyPublisher_def
        NewNoopPublisher_def tryConnect_def Let_def lazy_Publish_def noop_Publish_def ConnectWithCreds_def nats_connect_def
        TrimSpace_word is_alnum_def is_lower_def)
  with lazy_publisher_connects_once [OF r_def [symmetric] refl] show ?thesis
    by (intro exI [of _ r]) (auto simp: r_def)
qed

end
