(* ===== verification/Startup.thy ===== *)
theory Startup
  imports Config_Load Pg_Start Event_Bus
begin

text \<open>
  \<^verbatim>\<open>cmd/storage/main.go\<close>: putting the process together.  The outcomes of the calls to libraries
  and of the operating system are a record; what \<^verbatim>\<open>run\<close> does with them is recorded as a list of
  actions, with the resources that are opened and closed on the way (deferred calls in reverse
  order).
\<close>

datatype resource = PgPool | BusConn

datatype stores = MemoryStores | ClusterStores string

datatype publisher = DirectBus string | LazyBus string | NoBus

datatype action =
    Opened resource | Closed resource
  | StartSweeper | StartPolling
  | Listening stores verifier publisher config

datatype boot_err =
    BadConfig config_err | NoStore pg_start_err | NoClusterConfig | NoClusterClient | NoVerifier | NoEventBus | ServerFailed

text \<open>
  \<open>btServe\<close> tells whether \<^verbatim>\<open>ListenAndServe\<close> ends as a shut-down server does, \<open>btLateBus\<close> whether the
  lazy publisher connected while it ran.
\<close>

record ('s, 'd) boot =
  btEnv :: "string \<Rightarrow> string"
  btPool :: "string \<Rightarrow> bool"
  btPing :: "string \<Rightarrow> 's attempt"
  btEnded :: "nat \<Rightarrow> nat \<Rightarrow> db_err option"
  btNow :: nat
  btNet :: 's
  btMigrations :: "'d migrations"
  btFaults :: pg_faults
  btDb :: "'d pg_db"
  btClusterConfig :: bool
  btClusterClient :: bool
  btDiscover :: "string \<Rightarrow> bool"
  btDialBus :: "string \<Rightarrow> bool"
  btLateBus :: bool
  btServe :: bool

definition shutdownTimeout :: nat where "shutdownTimeout = 10000"
definition eventBusPollInterval :: nat where "eventBusPollInterval = 30000"

definition open_pg :: "('s, 'd) boot \<Rightarrow> string \<Rightarrow> pg_start_err option \<times> bool \<times> 'd pg_db" where
  "open_pg b dsn =
     NewPostgresStore (btPool b dsn) (btPing b dsn) (btEnded b) (btNow b) (btNet b) (btMigrations b) (btFaults b) (btDb b)"

definition openStores :: "('s, 'd) boot \<Rightarrow> config \<Rightarrow> (boot_err + stores) \<times> action list" where
  "openStores b cfg =
     (if cfDevMemory cfg then (Inr MemoryStores, [])
      else
        (case open_pg b (cfPostgresDSN cfg) of
           (Some PoolRefused, _) \<Rightarrow> (Inl (NoStore PoolRefused), [])
         | (Some e, left_open, _) \<Rightarrow> (Inl (NoStore e), Opened PgPool # (if left_open then [] else [Closed PgPool]))
         | (None, _) \<Rightarrow>
             if \<not> btClusterConfig b then (Inl NoClusterConfig, [Opened PgPool, Closed PgPool])
             else if \<not> btClusterClient b then (Inl NoClusterClient, [Opened PgPool, Closed PgPool])
             else (Inr (ClusterStores (cfNamespace cfg)), [Opened PgPool])))"

text \<open>The \<^verbatim>\<open>closeStores\<close> function the stores come with, and the publisher's.\<close>

definition close_stores :: "stores \<Rightarrow> action list" where
  "close_stores st = (case st of MemoryStores \<Rightarrow> [] | ClusterStores _ \<Rightarrow> [Closed PgPool])"

definition openEventBus :: "('s, 'd) boot \<Rightarrow> config \<Rightarrow> (boot_err + publisher) \<times> action list" where
  "openEventBus b cfg =
     (if cfNATSURL cfg \<noteq> [] then
        (if btDialBus b (cfNATSURL cfg) then (Inr (DirectBus (cfNATSURL cfg)), [Opened BusConn]) else (Inl NoEventBus, []))
      else if cfEventBusDir cfg \<noteq> [] then (Inr (LazyBus (cfEventBusDir cfg)), [StartPolling])
      else (Inr NoBus, []))"

definition while_serving :: "('s, 'd) boot \<Rightarrow> publisher \<Rightarrow> action list" where
  "while_serving b p = (case p of LazyBus _ \<Rightarrow> if btLateBus b then [Opened BusConn] else [] | _ \<Rightarrow> [])"

definition close_events :: "('s, 'd) boot \<Rightarrow> publisher \<Rightarrow> action list" where
  "close_events b p =
     (case p of DirectBus _ \<Rightarrow> [Closed BusConn] | LazyBus _ \<Rightarrow> if btLateBus b then [Closed BusConn] else [] | NoBus \<Rightarrow> [])"

definition run :: "('s, 'd) boot \<Rightarrow> boot_err option \<times> action list" where
  "run b =
     (case Load (btEnv b) of
        Inl e \<Rightarrow> (Some (BadConfig e), [])
      | Inr cfg \<Rightarrow>
     (case openStores b cfg of
        (Inl e, a1) \<Rightarrow> (Some e, a1)
      | (Inr st, a1) \<Rightarrow>
     (case NewVerifier (btDiscover b) (cfOIDC cfg) of
        None \<Rightarrow> (Some NoVerifier, a1 @ [StartSweeper] @ close_stores st)
      | Some v \<Rightarrow>
     (case openEventBus b cfg of
        (Inl e, a2) \<Rightarrow> (Some e, a1 @ [StartSweeper] @ a2 @ close_stores st)
      | (Inr p, a2) \<Rightarrow>
          (if btServe b then None else Some ServerFailed,
           a1 @ [StartSweeper] @ a2 @ [Listening st v p cfg] @ while_serving b p @
             close_events b p @ close_stores st)))))"

section \<open>What a start does\<close>

lemma NewPostgresStore_open: "NewPostgresStore pool ping ended t s mg f db = (e, opn, db') \<Longrightarrow> opn = (e = None)"
  by (auto simp: NewPostgresStore_def split: prod.splits if_splits retry_result.splits option.splits)

lemma NewPostgresStore_migrated:
  "NewPostgresStore pool ping ended t s mg f db = (None, opn, db') \<Longrightarrow> migrated mg db db'"
  using migrate_outcome [of mg f db]
  by (auto simp: NewPostgresStore_def split: prod.splits if_splits retry_result.splits option.splits)

lemma open_pg_result: "open_pg b dsn = (e, opn, db) \<Longrightarrow> opn = (e = None) \<and> (e = None \<longrightarrow> migrated (btMigrations b) (btDb b) db)"
  using NewPostgresStore_open NewPostgresStore_migrated by (fastforce simp: open_pg_def)

lemma openStores_error:
  assumes "openStores b cfg = (Inl e, as)"
  shows "as = [] \<or> as = [Opened PgPool, Closed PgPool]"
proof -
  obtain e1 opn db where "open_pg b (cfPostgresDSN cfg) = (e1, opn, db)" by (metis surj_pair)
  with assms open_pg_result [OF this] show ?thesis
    by (auto simp: openStores_def split: if_splits option.splits pg_start_err.splits)
qed

lemma openStores_ok:
  assumes "openStores b cfg = (Inr st, as)"
  shows "cfDevMemory cfg \<and> st = MemoryStores \<and> as = [] \<or>
     \<not> cfDevMemory cfg \<and> st = ClusterStores (cfNamespace cfg) \<and> as = [Opened PgPool] \<and>
       (\<exists>db. open_pg b (cfPostgresDSN cfg) = (None, True, db) \<and> migrated (btMigrations b) (btDb b) db)"
proof -
  obtain e1 opn db where "open_pg b (cfPostgresDSN cfg) = (e1, opn, db)" by (metis surj_pair)
  with assms open_pg_result [OF this] show ?thesis
    by (auto simp: openStores_def split: if_splits option.splits pg_start_err.splits)
qed

text \<open>The actions around the server, and the resources they open and close.\<close>

definition balanced :: "action list \<Rightarrow> action list \<Rightarrow> resource \<Rightarrow> bool" where
  "balanced before after r \<longleftrightarrow>
     count_list before (Opened r) + count_list after (Opened r) = count_list before (Closed r) + count_list after (Closed r) \<and>
     count_list before (Opened r) + count_list after (Opened r) \<le> 1"

definition quiet_actions :: "action list \<Rightarrow> bool" where
  "quiet_actions as \<longleftrightarrow> (\<forall>st v p cfg. Listening st v p cfg \<notin> set as)"

lemma openEventBus_error: "openEventBus b cfg = (Inl e, as) \<Longrightarrow> as = []"
  by (auto simp: openEventBus_def split: if_splits)

lemma openEventBus_ok:
  assumes "openEventBus b cfg = (Inr p, as)"
  shows "balanced as (while_serving b p @ close_events b p) BusConn"
    "count_list as (Opened PgPool) = 0" "count_list (while_serving b p @ close_events b p) (Opened PgPool) = 0"
    "count_list as (Closed PgPool) = 0" "count_list (while_serving b p @ close_events b p) (Closed PgPool) = 0"
    "quiet_actions as" "quiet_actions (while_serving b p @ close_events b p)"
  using assms
  by (auto simp: openEventBus_def while_serving_def close_events_def balanced_def quiet_actions_def split: if_splits)

lemma openStores_actions:
  assumes "openStores b cfg = (Inr st, as)"
  shows "balanced as (close_stores st) PgPool" "count_list as (Opened BusConn) = 0" "count_list (close_stores st) (Opened BusConn) = 0"
    "count_list as (Closed BusConn) = 0" "count_list (close_stores st) (Closed BusConn) = 0"
    "quiet_actions as" "quiet_actions (close_stores st)"
  using openStores_ok [OF assms] by (auto simp: close_stores_def balanced_def quiet_actions_def)

text \<open>A run either ends before the server listens, or went through every step.\<close>

lemma run_cases:
  assumes "run b = (res, acts)"
  obtains (early) "res \<noteq> None" "quiet_actions acts" "balanced acts [] PgPool" "balanced acts [] BusConn"
  | (served) cfg st v p a1 a2 where "Load (btEnv b) = Inr cfg" "openStores b cfg = (Inr st, a1)"
    "NewVerifier (btDiscover b) (cfOIDC cfg) = Some v" "openEventBus b cfg = (Inr p, a2)"
    "acts = a1 @ [StartSweeper] @ a2 @ [Listening st v p cfg] @ while_serving b p @ close_events b p @ close_stores st"
proof (cases "Load (btEnv b)")
  case (Inl e)
  with assms show ?thesis by (intro early) (auto simp: run_def balanced_def quiet_actions_def)
next
  case (Inr cfg)
  obtain q a1 where st: "openStores b cfg = (q, a1)" by fastforce
  obtain w a2 where bus: "openEventBus b cfg = (w, a2)" by fastforce
  show ?thesis
  proof (cases q)
    case (Inl e)
    with assms Inr st openStores_error [of b cfg e a1] show ?thesis
      by (intro early) (auto simp: run_def balanced_def quiet_actions_def)
  next
    case ok: (Inr store)
    note acts = openStores_actions [OF st [unfolded ok]]
    show ?thesis
    proof (cases "NewVerifier (btDiscover b) (cfOIDC cfg)")
      case None
      with assms Inr st ok acts show ?thesis by (intro early) (auto simp: run_def balanced_def quiet_actions_def)
    next
      case (Some v)
      show ?thesis
      proof (cases w)
        case (Inl e)
        with assms Inr st ok Some bus acts openEventBus_error [of b cfg e a2] show ?thesis
          by (intro early) (auto simp: run_def balanced_def quiet_actions_def)
      next
        case up: (Inr p)
        with assms Inr st ok Some bus show ?thesis by (intro served) (auto simp: run_def)
      qed
    qed
  qed
qed

text \<open>
  C28. The process only listens when it is safe to: under a configuration that loaded and is
  usable, with a verifier built for its issuer, and with in-memory stores only in development
  mode, otherwise over a migrated database.  And however the start or the server ends, what
  was opened has been closed, each once.
\<close>

theorem startup_sound:
  assumes "run b = (res, acts)"
  shows "(\<forall>r. count_list acts (Opened r) = count_list acts (Closed r) \<and> count_list acts (Opened r) \<le> 1) \<and>
    (\<forall>st v p cfg. Listening st v p cfg \<in> set acts \<longrightarrow>
       Load (btEnv b) = Inr cfg \<and> usable cfg \<and> NewVerifier (btDiscover b) (cfOIDC cfg) = Some v \<and>
       (if cfDevMemory cfg then st = MemoryStores
        else st = ClusterStores (cfNamespace cfg) \<and>
          (\<exists>db. open_pg b (cfPostgresDSN cfg) = (None, True, db) \<and> migrated (btMigrations b) (btDb b) db))) \<and>
    (res = None \<longrightarrow> (\<exists>st v p cfg. Listening st v p cfg \<in> set acts))"
  using assms
proof (cases rule: run_cases)
  case early
  then have "count_list acts (Opened r) = count_list acts (Closed r) \<and> count_list acts (Opened r) \<le> 1" for r
    by (cases r) (simp_all add: balanced_def)
  with early show ?thesis unfolding quiet_actions_def by blast
next
  case (served cfg st v p a1 a2)
  note bal = openStores_actions [OF served(2)] openEventBus_ok [OF served(4)]
  have "count_list acts (Opened r) = count_list acts (Closed r) \<and> count_list acts (Opened r) \<le> 1" for r
    using bal by (cases r) (simp_all add: served(5) balanced_def)
  then have "\<forall>r. count_list acts (Opened r) = count_list acts (Closed r) \<and> count_list acts (Opened r) \<le> 1" by blast
  moreover have listen: "Listening st' v' p' cfg' \<in> set acts \<longleftrightarrow> st' = st \<and> v' = v \<and> p' = p \<and> cfg' = cfg" for st' v' p' cfg'
    using bal by (auto simp: served(5) quiet_actions_def)
  moreover have "if cfDevMemory cfg then st = MemoryStores
      else st = ClusterStores (cfNamespace cfg) \<and>
        (\<exists>db. open_pg b (cfPostgresDSN cfg) = (None, True, db) \<and> migrated (btMigrations b) (btDb b) db)"
    using openStores_ok [OF served(2)] by auto
  ultimately show ?thesis using served(1,3) Load_usable [OF served(1)] by (intro conjI; (assumption | simp))
qed

section \<open>One start\<close>

text \<open>A start whose database refuses two pings, under a configuration with a mounted bus Secret.\<close>

definition demo_vars :: "string \<Rightarrow> string" where
  "demo_vars k =
     (if k = ''BOOTH_OIDC_ISSUER_URL'' then ''https://id'' else if k = ''BOOTH_OIDC_CLIENT_ID'' then ''booth''
      else if k = ''BOOTH_POSTGRES_DSN'' then ''postgres://db'' else if k = ''BOOTH_EVENT_BUS_DIR'' then ''/creds'' else [])"

definition demo_boot :: "(nat, string list) boot" where
  "demo_boot =
     \<lparr>btEnv = demo_vars, btPool = (\<lambda>_. True), btPing = (\<lambda>_. third_time), btEnded = (\<lambda>_ _. None), btNow = 0, btNet = 0,
      btMigrations = two_files, btFaults = no_faults, btDb = \<lparr>pdSchema = [], pdVersions = []\<rparr>,
      btClusterConfig = True, btClusterClient = True, btDiscover = (\<lambda>_. True), btDialBus = (\<lambda>_. False),
      btLateBus = True, btServe = True\<rparr>"

lemma demo_config:
  obtains cfg where "Load demo_vars = Inr cfg" "\<not> cfDevMemory cfg" "cfNATSURL cfg = []" "ocJWKSURL (cfOIDC cfg) = []"
    "ocWorkloadIssuerURL (cfOIDC cfg) = []" "cfNamespace cfg = ''booth-storage''"
proof -
  let ?c = "base_config demo_vars"
  have "\<not> cfDevMemory ?c" "cfNATSURL ?c = []" "ocJWKSURL (cfOIDC ?c) = []" "ocWorkloadIssuerURL (cfOIDC ?c) = []"
    "cfNamespace ?c = ''booth-storage''" "ocIssuerURL (cfOIDC ?c) \<noteq> []" "ocClientID (cfOIDC ?c) \<noteq> []" "cfPostgresDSN ?c \<noteq> []"
    by (simp_all add: base_config_def getEnv_def demo_vars_def)
  moreover have "max_upload (demo_vars ''BOOTH_STORAGE_MAX_UPLOAD_BYTES'') = Inr 0" by (simp add: demo_vars_def max_upload_def)
  ultimately show ?thesis using that [of "?c\<lparr>cfMaxUploadBytes := 0\<rparr>"] by (simp add: Load_def Let_def)
qed

lemma demo_boot_runs: "fst (run demo_boot) = None"
proof (rule demo_config)
  fix cfg assume cfg: "Load demo_vars = Inr cfg" "\<not> cfDevMemory cfg" "cfNATSURL cfg = []" "ocJWKSURL (cfOIDC cfg) = []"
    "ocWorkloadIssuerURL (cfOIDC cfg) = []" "cfNamespace cfg = ''booth-storage''"
  have "fst (migrate two_files no_faults \<lparr>pdSchema = [], pdVersions = []\<rparr>) = None" by code_simp
  then obtain db where "migrate two_files no_faults \<lparr>pdSchema = [], pdVersions = []\<rparr> = (None, db)" by (metis prod.collapse)
  then have "open_pg demo_boot dsn = (None, True, db)" for dsn
    by (simp add: open_pg_def NewPostgresStore_def demo_boot_def third_time_run)
  then have "openStores demo_boot cfg = (Inr (ClusterStores ''booth-storage''), [Opened PgPool])"
    using cfg(2,6) by (simp add: openStores_def) (simp add: demo_boot_def)
  moreover obtain v where "NewVerifier (btDiscover demo_boot) (cfOIDC cfg) = Some v"
    using cfg(4,5) by (auto simp: NewVerifier_def Let_def TrimRightByte_def demo_boot_def)
  moreover obtain p a2 where "openEventBus demo_boot cfg = (Inr p, a2)"
    using cfg(3) by (cases "cfEventBusDir cfg = []") (auto simp: openEventBus_def)
  moreover have "Load (btEnv demo_boot) = Inr cfg" "btServe demo_boot" using cfg(1) by (simp_all add: demo_boot_def)
  ultimately show ?thesis by (simp add: run_def)
qed

lemma startup_sound_witness:
  "\<exists>st v p cfg. Listening st v p cfg \<in> set (snd (run demo_boot)) \<and> usable cfg"
proof -
  from startup_sound [of demo_boot "fst (run demo_boot)" "snd (run demo_boot)"] demo_boot_runs
  show ?thesis by (metis prod.collapse)
qed

end
