(* ===== verification/Upload_Grants.thy ===== *)
theory Upload_Grants
  imports Http_Core
begin

text \<open>
  \<^verbatim>\<open>internal/uploadgrant\<close>: grants that let one app prin make a create-only write into
  one prefix of one backend.  The store interface is the locale \<open>grant_store\<close>; the in-memory
  store and the PostgreSQL store (its statements on the table's rows) are its two providers.
  Times are nanoseconds; a store keeps microseconds.
\<close>

section \<open>Grants and their validation\<close>

datatype gerr = GValidation string | GNotFound | GOther string

record grant =
  gID :: string
  gWorkspace :: string
  gPrincipal :: string
  gBackendID :: string
  gPrefix :: string
  gExtensions :: "string list"
  gMaxBytes :: int
  gGrantedBy :: string
  gCreatedAt :: int

definition is_app_byte :: "char \<Rightarrow> bool" where
  "is_app_byte c \<longleftrightarrow> is_alnum c \<or> is_upper c \<or> c \<in> set ''._-''"

text \<open>\<open>^streamlit:([a-z0-9-]+):([A-Za-z0-9._-]{1,128})$\<close> with its first group.\<close>

definition principalRE :: "string \<Rightarrow> string option" where
  "principalRE p =
     (if \<not> HasPrefix p ''streamlit:'' then None
      else case cut_first (CHR '':'') (drop 10 p) of
             None \<Rightarrow> None
           | Some (ws, app) \<Rightarrow>
               if ws \<noteq> [] \<and> list_all is_slug ws \<and> app \<noteq> [] \<and> length app \<le> 128 \<and> list_all is_app_byte app
               then Some ws else None)"

definition principalWorkspace :: "string \<Rightarrow> string option" where
  "principalWorkspace prin = principalRE prin"

definition reservedAppID :: string where "reservedAppID = ''grants''"

definition ValidatePrincipal :: "string \<Rightarrow> string \<Rightarrow> gerr option" where
  "ValidatePrincipal prin workspace =
     (case principalWorkspace prin of
        None \<Rightarrow> Some (GValidation ''principal'')
      | Some ws \<Rightarrow>
          if HasSuffix prin ('':'' @ reservedAppID) then Some (GValidation ''principal'')
          else if ws \<noteq> workspace then Some (GValidation ''principal'')
          else None)"

text \<open>\<open>^[a-z0-9]{1,15}$\<close>\<close>

definition extensionRE :: "string \<Rightarrow> bool" where
  "extensionRE e \<longleftrightarrow> e \<noteq> [] \<and> length e \<le> 15 \<and> list_all is_alnum e"

fun validate_exts :: "string list \<Rightarrow> string list \<Rightarrow> gerr + string list" where
  "validate_exts out [] = Inr out"
| "validate_exts out (e0 # es) =
     (let e = ToLower (TrimPrefix e0 ''.'') in
      if \<not> extensionRE e then Inl (GValidation ''extensions'')
      else if e \<in> set out then validate_exts out es
      else validate_exts (out @ [e]) es)"

definition ValidateExtensions :: "string list \<Rightarrow> gerr + string list" where
  "ValidateExtensions exts =
     (if exts = [] then Inl (GValidation ''extensions'') else validate_exts [] exts)"

definition HasExtension :: "string \<Rightarrow> string list \<Rightarrow> bool" where
  "HasExtension name exts =
     (case cut_last (CHR ''.'') name of
        None \<Rightarrow> False
      | Some (_, ext) \<Rightarrow> if ext = [] then False else ToLower ext \<in> set exts)"

definition trunc_micro :: "int \<Rightarrow> int" where
  "trunc_micro t = t - t mod 1000"

definition clone :: "grant \<Rightarrow> grant" where
  "clone g = g\<lparr>gCreatedAt := trunc_micro (gCreatedAt g)\<rparr>"

section \<open>The in-memory store\<close>

text \<open>The Go map from id to grant, as an association list in an iteration order of the map.\<close>

type_synonym mem_grants = "(string \<times> grant) list"

definition scopeKey :: "string \<Rightarrow> string \<Rightarrow> string \<Rightarrow> string \<Rightarrow> string" where
  "scopeKey workspace prin backendID pre =
     workspace @ CHR 0x00 # prin @ CHR 0x00 # backendID @ CHR 0x00 # pre"

definition grant_key :: "grant \<Rightarrow> string" where
  "grant_key g = scopeKey (gWorkspace g) (gPrincipal g) (gBackendID g) (gPrefix g)"

definition sort_by_id :: "grant list \<Rightarrow> grant list" where
  "sort_by_id gs = sort_key gID gs"

definition mem_Upsert :: "grant \<Rightarrow> mem_grants \<Rightarrow> (gerr + grant) \<times> mem_grants" where
  "mem_Upsert g m =
     (let m1 = (case find (\<lambda>(_, h). grant_key h = grant_key g) m of
                  None \<Rightarrow> m
                | Some (gid, _) \<Rightarrow> filter (\<lambda>p. fst p \<noteq> gid) m)
      in (Inr (clone g), (gID g, clone g) # filter (\<lambda>p. fst p \<noteq> gID g) m1))"

definition mem_Get :: "string \<Rightarrow> string \<Rightarrow> mem_grants \<Rightarrow> (gerr + grant) \<times> mem_grants" where
  "mem_Get workspace gid m =
     (case map_of m gid of
        None \<Rightarrow> (Inl GNotFound, m)
      | Some g \<Rightarrow> if gWorkspace g \<noteq> workspace then (Inl GNotFound, m) else (Inr (clone g), m))"

definition mem_List :: "string \<Rightarrow> string \<Rightarrow> mem_grants \<Rightarrow> (gerr + grant list) \<times> mem_grants" where
  "mem_List workspace prin m =
     (Inr (sort_by_id (map clone (filter (\<lambda>g. gWorkspace g = workspace \<and> (prin = [] \<or> gPrincipal g = prin))
        (map snd m)))), m)"

definition mem_Delete :: "string \<Rightarrow> string \<Rightarrow> mem_grants \<Rightarrow> gerr option \<times> mem_grants" where
  "mem_Delete workspace gid m =
     (case map_of m gid of
        None \<Rightarrow> (Some GNotFound, m)
      | Some g \<Rightarrow>
          if gWorkspace g \<noteq> workspace then (Some GNotFound, m)
          else (None, filter (\<lambda>p. fst p \<noteq> gid) m))"

definition mem_DeleteByPrincipal :: "string \<Rightarrow> string \<Rightarrow> mem_grants \<Rightarrow> (gerr + grant list) \<times> mem_grants" where
  "mem_DeleteByPrincipal workspace prin m =
     (let hit = (\<lambda>p. gWorkspace (snd p) = workspace \<and> gPrincipal (snd p) = prin) in
      (Inr (sort_by_id (map (clone \<circ> snd) (filter hit m))), filter (\<lambda>p. \<not> hit p) m))"

section \<open>The PostgreSQL store\<close>

text \<open>
  The statements on the rows of \<^verbatim>\<open>storage_upload_grants\<close>.  \<open>err\<close> is the failure of the
  connection or statement, if any; \<open>is_uuid\<close> tells which ids PostgreSQL reads as a UUID (a
  malformed one is an error the code maps to "not found").  A timestamp column keeps
  microseconds.
\<close>

type_synonym grant_rows = "grant list"

definition pg_row :: "grant \<Rightarrow> grant" where
  "pg_row g = g\<lparr>gCreatedAt := trunc_micro (gCreatedAt g)\<rparr>"

definition same_scope :: "grant \<Rightarrow> grant \<Rightarrow> bool" where
  "same_scope g h \<longleftrightarrow> gWorkspace g = gWorkspace h \<and> gPrincipal g = gPrincipal h \<and>
     gBackendID g = gBackendID h \<and> gPrefix g = gPrefix h"

definition pg_Upsert :: "string option \<Rightarrow> grant \<Rightarrow> grant_rows \<Rightarrow> (gerr + grant) \<times> grant_rows" where
  "pg_Upsert err g rows =
     (case err of
        Some e \<Rightarrow> (Inl (GOther e), rows)
      | None \<Rightarrow>
          if \<exists>h \<in> set rows. gID h = gID g \<and> \<not> same_scope h g then (Inl (GOther ''unique violation''), rows)
          else if \<exists>h \<in> set rows. same_scope h g
          then (Inr (pg_row g), map (\<lambda>h. if same_scope h g then pg_row g else h) rows)
          else (Inr (pg_row g), rows @ [pg_row g]))"

definition pg_Get :: "string option \<Rightarrow> (string \<Rightarrow> bool) \<Rightarrow> string \<Rightarrow> string \<Rightarrow> grant_rows \<Rightarrow> (gerr + grant) \<times> grant_rows" where
  "pg_Get err is_uuid workspace gid rows =
     (case err of
        Some e \<Rightarrow> (Inl (GOther e), rows)
      | None \<Rightarrow>
          if \<not> is_uuid gid then (Inl GNotFound, rows)
          else case find (\<lambda>g. gWorkspace g = workspace \<and> gID g = gid) rows of
                 None \<Rightarrow> (Inl GNotFound, rows) | Some g \<Rightarrow> (Inr g, rows))"

definition pg_List :: "string option \<Rightarrow> string \<Rightarrow> string \<Rightarrow> grant_rows \<Rightarrow> (gerr + grant list) \<times> grant_rows" where
  "pg_List err workspace prin rows =
     (case err of
        Some e \<Rightarrow> (Inl (GOther e), rows)
      | None \<Rightarrow>
          (Inr (sort_by_id (filter (\<lambda>g. gWorkspace g = workspace \<and> (prin = [] \<or> gPrincipal g = prin)) rows)),
           rows))"

definition pg_Delete :: "string option \<Rightarrow> (string \<Rightarrow> bool) \<Rightarrow> string \<Rightarrow> string \<Rightarrow> grant_rows \<Rightarrow> gerr option \<times> grant_rows" where
  "pg_Delete err is_uuid workspace gid rows =
     (case err of
        Some e \<Rightarrow> (Some (GOther e), rows)
      | None \<Rightarrow>
          if \<not> is_uuid gid then (Some GNotFound, rows)
          else if \<exists>g \<in> set rows. gWorkspace g = workspace \<and> gID g = gid
          then (None, filter (\<lambda>g. \<not> (gWorkspace g = workspace \<and> gID g = gid)) rows)
          else (Some GNotFound, rows))"

definition pg_DeleteByPrincipal :: "string option \<Rightarrow> string \<Rightarrow> string \<Rightarrow> grant_rows \<Rightarrow> (gerr + grant list) \<times> grant_rows" where
  "pg_DeleteByPrincipal err workspace prin rows =
     (let hit = (\<lambda>g. gWorkspace g = workspace \<and> gPrincipal g = prin) in
      case err of
        Some e \<Rightarrow> (Inl (GOther e), rows)
      | None \<Rightarrow> (Inr (filter hit rows), filter (\<lambda>g. \<not> hit g) rows))"

section \<open>The service\<close>

record 's grant_ops =
  goUpsert :: "grant \<Rightarrow> 's \<Rightarrow> (gerr + grant) \<times> 's"
  goGet :: "string \<Rightarrow> string \<Rightarrow> 's \<Rightarrow> (gerr + grant) \<times> 's"
  goList :: "string \<Rightarrow> string \<Rightarrow> 's \<Rightarrow> (gerr + grant list) \<times> 's"
  goDelete :: "string \<Rightarrow> string \<Rightarrow> 's \<Rightarrow> gerr option \<times> 's"
  goDeleteByPrincipal :: "string \<Rightarrow> string \<Rightarrow> 's \<Rightarrow> (gerr + grant list) \<times> 's"

definition mem_grant_ops :: "mem_grants grant_ops" where
  "mem_grant_ops =
     \<lparr>goUpsert = mem_Upsert, goGet = mem_Get, goList = mem_List, goDelete = mem_Delete,
      goDeleteByPrincipal = mem_DeleteByPrincipal\<rparr>"

definition pg_grant_ops :: "string option \<Rightarrow> (string \<Rightarrow> bool) \<Rightarrow> grant_rows grant_ops" where
  "pg_grant_ops err is_uuid =
     \<lparr>goUpsert = pg_Upsert err, goGet = pg_Get err is_uuid, goList = pg_List err,
      goDelete = pg_Delete err is_uuid, goDeleteByPrincipal = pg_DeleteByPrincipal err\<rparr>"

record grant_input =
  giPrincipal :: string
  giBackendID :: string
  giPrefix :: string
  giExtensions :: "string list"
  giMaxBytes :: int

text \<open>\<open>uuid\<close> is the answer of \<^verbatim>\<open>uuid.NewRandom\<close>, \<open>now\<close> the clock.\<close>

definition grants_Create ::
    "'s grant_ops \<Rightarrow> string option \<Rightarrow> int \<Rightarrow> string \<Rightarrow> string \<Rightarrow> grant_input \<Rightarrow> 's \<Rightarrow> (gerr + grant) \<times> 's" where
  "grants_Create ops uuid now workspace grantedBy inp s =
     (case ValidatePrincipal (giPrincipal inp) workspace of
        Some e \<Rightarrow> (Inl e, s)
      | None \<Rightarrow>
          if TrimSpace (giBackendID inp) = [] then (Inl (GValidation ''backendId''), s)
          else case CleanPrefix (giPrefix inp) of
                 Inl e \<Rightarrow> (Inl (GValidation ''prefix''), s)
               | Inr pre \<Rightarrow>
                   (case ValidateExtensions (giExtensions inp) of
                      Inl e \<Rightarrow> (Inl e, s)
                    | Inr exts \<Rightarrow>
                        if giMaxBytes inp \<le> 0 then (Inl (GValidation ''maxBytes''), s)
                        else case uuid of
                               None \<Rightarrow> (Inl (GOther ''uuid''), s)
                             | Some gid \<Rightarrow>
                                 goUpsert ops
                                   \<lparr>gID = gid, gWorkspace = workspace, gPrincipal = giPrincipal inp,
                                    gBackendID = giBackendID inp, gPrefix = pre, gExtensions = exts,
                                    gMaxBytes = giMaxBytes inp, gGrantedBy = grantedBy,
                                    gCreatedAt = trunc_micro now\<rparr> s))"

definition dirOf :: "string \<Rightarrow> string" where
  "dirOf path = (case cut_last slash path of None \<Rightarrow> [] | Some (d, _) \<Rightarrow> d @ ''/'')"

fun match_grant :: "string \<Rightarrow> string \<Rightarrow> grant list \<Rightarrow> grant option" where
  "match_grant backendID dir [] = None"
| "match_grant backendID dir (g # gs) =
     (if gBackendID g = backendID \<and> gPrefix g = dir then Some g else match_grant backendID dir gs)"

definition MatchForUpload ::
    "'s grant_ops \<Rightarrow> string \<Rightarrow> string \<Rightarrow> string \<Rightarrow> string \<Rightarrow> 's \<Rightarrow> (gerr + grant option) \<times> 's" where
  "MatchForUpload ops workspace prin backendID path s =
     (case goList ops workspace prin s of
        (Inl e, s1) \<Rightarrow> (Inl e, s1)
      | (Inr gs, s1) \<Rightarrow> (Inr (match_grant backendID (dirOf path) gs), s1))"

definition RevokePrincipal :: "'s grant_ops \<Rightarrow> string \<Rightarrow> string \<Rightarrow> 's \<Rightarrow> (gerr + grant list) \<times> 's" where
  "RevokePrincipal ops workspace prin s = goDeleteByPrincipal ops workspace prin s"

section \<open>What validation establishes\<close>

definition nul_free :: "grant \<Rightarrow> bool" where
  "nul_free g \<longleftrightarrow> CHR 0x00 \<notin> set (gWorkspace g) \<and> CHR 0x00 \<notin> set (gPrincipal g) \<and> CHR 0x00 \<notin> set (gPrefix g)"

definition valid_exts :: "string list \<Rightarrow> bool" where
  "valid_exts exts \<longleftrightarrow> exts \<noteq> [] \<and> distinct exts \<and> (\<forall>e \<in> set exts. extensionRE e)"

definition grant_valid :: "grant \<Rightarrow> bool" where
  "grant_valid g \<longleftrightarrow> ValidatePrincipal (gPrincipal g) (gWorkspace g) = None \<and> CleanPrefix (gPrefix g) = Inr (gPrefix g) \<and>
     valid_exts (gExtensions g) \<and> 0 < gMaxBytes g \<and> nul_free g \<and> clone g = g"

lemma trunc_micro_idem [simp]: "trunc_micro (trunc_micro t) = trunc_micro t"
  by (simp add: trunc_micro_def)

lemma clone_idem [simp]: "clone (clone g) = clone g"
  by (simp add: clone_def)

lemma clone_sel [simp]:
  "gID (clone g) = gID g" "gWorkspace (clone g) = gWorkspace g" "gPrincipal (clone g) = gPrincipal g"
  "gBackendID (clone g) = gBackendID g" "gPrefix (clone g) = gPrefix g" "gExtensions (clone g) = gExtensions g"
  "gMaxBytes (clone g) = gMaxBytes g"
  by (simp_all add: clone_def)

lemma pg_row_clone [simp]: "pg_row g = clone g"
  by (simp add: pg_row_def clone_def)

lemma validate_exts_ok:
  "validate_exts out es = Inr r \<Longrightarrow> distinct out \<Longrightarrow> \<forall>e \<in> set out. extensionRE e \<Longrightarrow>
     distinct r \<and> (\<forall>e \<in> set r. extensionRE e) \<and> (out \<noteq> [] \<or> es \<noteq> [] \<longrightarrow> r \<noteq> [])"
proof (induction es arbitrary: out)
  case (Cons e es)
  let ?e = "ToLower (TrimPrefix e ''.'')"
  show ?case
  proof (cases "?e \<in> set out")
    case True
    with Cons.prems have "validate_exts out es = Inr r" "out \<noteq> []" by (auto simp: Let_def split: if_splits)
    with Cons.IH Cons.prems show ?thesis by blast
  next
    case False
    with Cons.prems have "validate_exts (out @ [?e]) es = Inr r" "extensionRE ?e"
      by (auto simp: Let_def split: if_splits)
    with Cons.IH [of "out @ [?e]"] Cons.prems False show ?thesis by auto
  qed
qed auto

lemma ValidateExtensions_ok: "ValidateExtensions exts = Inr r \<Longrightarrow> valid_exts r"
  using validate_exts_ok [of "[]" exts r] by (auto simp: ValidateExtensions_def valid_exts_def split: if_splits)

lemma app_byte_no_colon: "list_all is_app_byte app \<Longrightarrow> CHR '':'' \<notin> set app"
  by (auto simp: list_all_iff is_app_byte_def is_alnum_def is_lower_def is_digit_def is_upper_def)

lemma safe_no_nul:
  "list_all is_slug ws \<Longrightarrow> CHR 0x00 \<notin> set ws" "list_all is_app_byte app \<Longrightarrow> CHR 0x00 \<notin> set app"
  by (auto simp: list_all_iff is_slug_def is_app_byte_def is_alnum_def is_lower_def is_digit_def is_upper_def)

lemma principalRE_Some:
  "principalRE p = Some ws \<longleftrightarrow>
     ws \<noteq> [] \<and> list_all is_slug ws \<and>
     (\<exists>app. p = ''streamlit:'' @ ws @ '':'' @ app \<and> app \<noteq> [] \<and> length app \<le> 128 \<and> list_all is_app_byte app)"
proof
  assume h: "principalRE p = Some ws"
  then have "prefix ''streamlit:'' p" by (simp add: principalRE_def split: if_splits)
  then obtain t where "p = ''streamlit:'' @ t" by (auto simp: prefix_def)
  with h show "ws \<noteq> [] \<and> list_all is_slug ws \<and>
     (\<exists>app. p = ''streamlit:'' @ ws @ '':'' @ app \<and> app \<noteq> [] \<and> length app \<le> 128 \<and> list_all is_app_byte app)"
    by (auto simp: principalRE_def cut_first_Some simp del: cut_first_None split: option.splits if_splits)
next
  assume h: "ws \<noteq> [] \<and> list_all is_slug ws \<and>
     (\<exists>app. p = ''streamlit:'' @ ws @ '':'' @ app \<and> app \<noteq> [] \<and> length app \<le> 128 \<and> list_all is_app_byte app)"
  then obtain app where p: "p = ''streamlit:'' @ ws @ '':'' @ app" "app \<noteq> []" "length app \<le> 128" "list_all is_app_byte app"
    by blast
  then have "cut_first (CHR '':'') (ws @ CHR '':'' # app) = Some (ws, app)" using h by (simp add: slug_no_colon)
  with h p show "principalRE p = Some ws" by (auto simp: principalRE_def)
qed

text \<open>A validated principal is an app of the workspace, never the reserved service identity.\<close>

lemma suffix_of_last_part:
  fixes x y a :: string
  assumes "c \<notin> set x" "c \<notin> set y"
  shows "suffix (c # y) (a @ c # x) \<longleftrightarrow> x = y"
proof
  assume "suffix (c # y) (a @ c # x)"
  then obtain t where "a @ c # x = t @ c # y" by (auto simp: suffix_def)
  then have "cut_last c (a @ c # x) = Some (t, y)" using assms by (simp add: cut_last_Some)
  moreover have "cut_last c (a @ c # x) = Some (a, x)" using assms by (simp add: cut_last_Some)
  ultimately show "x = y" by simp
qed (auto simp: suffix_def)

lemma ValidatePrincipal_None:
  "ValidatePrincipal p ws = None \<longleftrightarrow> principalRE p = Some ws \<and> \<not> suffix '':grants'' p"
  by (auto simp: ValidatePrincipal_def principalWorkspace_def reservedAppID_def split: option.splits)

lemma not_reserved:
  assumes "list_all is_app_byte app"
  shows "suffix '':grants'' (''streamlit:'' @ ws @ '':'' @ app) \<longleftrightarrow> app = ''grants''"
  using suffix_of_last_part [of "CHR '':''" app "''grants''" "''streamlit:'' @ ws"] app_byte_no_colon [OF assms]
  by simp

lemma ValidatePrincipal_ok:
  "ValidatePrincipal p ws = None \<longleftrightarrow>
     ws \<noteq> [] \<and> list_all is_slug ws \<and>
     (\<exists>app. p = ''streamlit:'' @ ws @ '':'' @ app \<and> app \<noteq> [] \<and> app \<noteq> ''grants'' \<and> length app \<le> 128 \<and>
            list_all is_app_byte app)"
  unfolding ValidatePrincipal_None principalRE_Some using not_reserved by blast

lemma CleanPrefix_no_nul: "CleanPrefix p = Inr q \<Longrightarrow> CHR 0x00 \<notin> set q"
  by (auto simp: CleanPrefix_Inr prefix_stem_def wf_path_def bytes_ok_def)

lemma principal_no_nul:
  "ValidatePrincipal p ws = None \<Longrightarrow> CHR 0x00 \<notin> set p \<and> CHR 0x00 \<notin> set ws"
  using safe_no_nul by (auto simp: ValidatePrincipal_ok)

text \<open>The directory of a path: what is left after the last segment.\<close>

lemma dirOf_iff:
  "dirOf path = pre \<longleftrightarrow> (pre = [] \<or> suffix ''/'' pre) \<and> (\<exists>name. path = pre @ name \<and> slash \<notin> set name)"
proof (cases "cut_last slash path")
  case None
  then have "dirOf path = []" by (simp add: dirOf_def del: cut_last_None)
  moreover from None have "slash \<notin> set path" by simp
  ultimately show ?thesis by (auto simp: suffix_def)
next
  case (Some p)
  then obtain d n where p: "path = d @ slash # n" "slash \<notin> set n" "cut_last slash path = Some (d, n)"
    by (cases p) (auto simp: cut_last_Some)
  show ?thesis
  proof
    assume "dirOf path = pre"
    with p show "(pre = [] \<or> suffix ''/'' pre) \<and> (\<exists>name. path = pre @ name \<and> slash \<notin> set name)"
      by (auto simp: dirOf_def)
  next
    assume "(pre = [] \<or> suffix ''/'' pre) \<and> (\<exists>name. path = pre @ name \<and> slash \<notin> set name)"
    then obtain e name where e: "path = pre @ name" "slash \<notin> set name" "pre = [] \<or> pre = e @ ''/''"
      by (auto simp: suffix_def)
    have "slash \<in> set path" using p by simp
    with e have pre: "pre = e @ ''/''" by auto
    with e have "cut_last slash path = Some (e, name)" by (simp add: cut_last_Some)
    with pre show "dirOf path = pre" by (simp add: dirOf_def)
  qed
qed

section \<open>The store interface\<close>

text \<open>
  What \<^verbatim>\<open>Store\<close> documents, over the set of grants held: an upsert replaces the grant of the
  same scope, a list is exact, deletes remove exactly what they name, an error changes nothing.
  \<open>inv\<close> is the provider's own invariant; ids of new grants are fresh UUIDs.
\<close>

locale grant_store =
  fixes ops :: "'s grant_ops" and inv :: "'s \<Rightarrow> bool" and held :: "'s \<Rightarrow> grant set"
  assumes unique: "inv s \<Longrightarrow> g \<in> held s \<Longrightarrow> h \<in> held s \<Longrightarrow> same_scope g h \<Longrightarrow> g = h"
    and upsert_ok: "inv s \<Longrightarrow> nul_free g \<Longrightarrow> gID g \<notin> gID ` held s \<Longrightarrow> goUpsert ops g s = (Inr g', s') \<Longrightarrow>
        inv s' \<and> g' = clone g \<and> held s' = insert g' {h \<in> held s. \<not> same_scope h g}"
    and upsert_error: "goUpsert ops g s = (Inl e, s') \<Longrightarrow> s' = s"
    and list_ok: "inv s \<Longrightarrow> goList ops ws p s = (Inr gs, s') \<Longrightarrow>
        s' = s \<and> set gs = {g \<in> held s. gWorkspace g = ws \<and> (p = [] \<or> gPrincipal g = p)}"
    and list_error: "goList ops ws p s = (Inl e, s') \<Longrightarrow> s' = s"
    and get_ok: "inv s \<Longrightarrow> goGet ops ws i s = (Inr g, s') \<Longrightarrow> s' = s \<and> g \<in> held s \<and> gWorkspace g = ws \<and> gID g = i"
    and get_error: "goGet ops ws i s = (Inl e, s') \<Longrightarrow> s' = s"
    and delete_ok: "inv s \<Longrightarrow> goDelete ops ws i s = (None, s') \<Longrightarrow>
        inv s' \<and> held s' = {g \<in> held s. \<not> (gWorkspace g = ws \<and> gID g = i)} \<and>
        (\<exists>g \<in> held s. gWorkspace g = ws \<and> gID g = i)"
    and delete_error: "goDelete ops ws i s = (Some e, s') \<Longrightarrow> s' = s"
    and revoke_ok: "inv s \<Longrightarrow> goDeleteByPrincipal ops ws p s = (Inr gs, s') \<Longrightarrow>
        inv s' \<and> set gs = {g \<in> held s. gWorkspace g = ws \<and> gPrincipal g = p} \<and>
        held s' = {g \<in> held s. \<not> (gWorkspace g = ws \<and> gPrincipal g = p)}"
    and revoke_error: "goDeleteByPrincipal ops ws p s = (Inl e, s') \<Longrightarrow> s' = s"

lemma match_grant_Some:
  "match_grant b d gs = Some g \<Longrightarrow> g \<in> set gs \<and> gBackendID g = b \<and> gPrefix g = d"
  by (induction gs) (auto split: if_splits)

lemma match_grant_None: "match_grant b d gs = None \<longleftrightarrow> (\<forall>g \<in> set gs. \<not> (gBackendID g = b \<and> gPrefix g = d))"
  by (induction gs) auto

text \<open>The operations of the service that change the store, with a fresh id on create.\<close>

inductive grants_step :: "'s grant_ops \<Rightarrow> ('s \<Rightarrow> grant set) \<Rightarrow> 's \<Rightarrow> 's \<Rightarrow> bool" for ops held where
  create: "gid \<notin> gID ` held s \<Longrightarrow> grants_Create ops (Some gid) now ws by_sub inp s = (r, s') \<Longrightarrow> grants_step ops held s s'"
| delete: "goDelete ops ws gid s = (d, s') \<Longrightarrow> grants_step ops held s s'"
| revoke: "RevokePrincipal ops ws p s = (r, s') \<Longrightarrow> grants_step ops held s s'"

inductive_cases grants_stepE: "grants_step ops held s s'"

definition created_grant :: "string \<Rightarrow> int \<Rightarrow> string \<Rightarrow> string \<Rightarrow> grant_input \<Rightarrow> string \<Rightarrow> string list \<Rightarrow> grant" where
  "created_grant gid now ws by_sub inp pre exts =
     \<lparr>gID = gid, gWorkspace = ws, gPrincipal = giPrincipal inp, gBackendID = giBackendID inp, gPrefix = pre,
      gExtensions = exts, gMaxBytes = giMaxBytes inp, gGrantedBy = by_sub, gCreatedAt = trunc_micro now\<rparr>"

text \<open>A create either is refused before the store is asked, or asks it for a valid grant.\<close>

lemma grants_Create_cases:
  assumes "grants_Create ops (Some gid) now ws by_sub inp s = (r, s')"
  obtains e where "r = Inl e" "s' = s"
  | pre exts where "CleanPrefix (giPrefix inp) = Inr pre" "ValidateExtensions (giExtensions inp) = Inr exts"
      "grant_valid (created_grant gid now ws by_sub inp pre exts)"
      "goUpsert ops (created_grant gid now ws by_sub inp pre exts) s = (r, s')"
proof -
  show ?thesis
  proof (cases "\<exists>pre exts. ValidatePrincipal (giPrincipal inp) ws = None \<and> TrimSpace (giBackendID inp) \<noteq> [] \<and>
      CleanPrefix (giPrefix inp) = Inr pre \<and> ValidateExtensions (giExtensions inp) = Inr exts \<and> 0 < giMaxBytes inp")
    case True
    then obtain pre exts where v: "ValidatePrincipal (giPrincipal inp) ws = None" "TrimSpace (giBackendID inp) \<noteq> []"
      "CleanPrefix (giPrefix inp) = Inr pre" "ValidateExtensions (giExtensions inp) = Inr exts" "0 < giMaxBytes inp"
      by blast
    then have "grant_valid (created_grant gid now ws by_sub inp pre exts)"
      using principal_no_nul [OF v(1)] CleanPrefix_no_nul [OF v(3)] CleanPrefix_idem [OF v(3)]
        ValidateExtensions_ok [OF v(4)]
      by (simp add: grant_valid_def created_grant_def nul_free_def clone_def)
    with v assms show ?thesis
      by (intro that(2)) (auto simp: grants_Create_def created_grant_def)
  next
    case False
    with assms have "(\<exists>e. r = Inl e) \<and> s' = s"
      by (auto simp: grants_Create_def split: option.splits sum.splits if_splits)
    then show ?thesis using that(1) by blast
  qed
qed

context grant_store
begin

lemma create_cases:
  assumes "inv s" "gid \<notin> gID ` held s" "grants_Create ops (Some gid) now ws by_sub inp s = (r, s')"
  obtains e where "r = Inl e" "s' = s"
  | g where "r = Inr g" "grant_valid g" "inv s'" "gID g = gid" "gWorkspace g = ws" "gPrincipal g = giPrincipal inp"
      "gBackendID g = giBackendID inp" "CleanPrefix (giPrefix inp) = Inr (gPrefix g)" "gMaxBytes g = giMaxBytes inp"
      "held s' = insert g {h \<in> held s. \<not> same_scope h g}"
  using assms(3)
proof (cases rule: grants_Create_cases)
  case (1 e)
  then show ?thesis by (rule that(1))
next
  case (2 pre exts)
  let ?g = "created_grant gid now ws by_sub inp pre exts"
  show ?thesis
  proof (cases r)
    case (Inl e)
    with 2 upsert_error show ?thesis by (intro that(1)) auto
  next
    case (Inr g)
    have nf: "nul_free ?g" "clone ?g = ?g" using 2(3) by (simp_all add: grant_valid_def)
    have "gID ?g \<notin> gID ` held s" using assms(2) by (simp add: created_grant_def)
    with upsert_ok [OF assms(1) nf(1) this, of g s'] 2 Inr nf
    have "inv s'" "g = ?g" "held s' = insert g {h \<in> held s. \<not> same_scope h ?g}" by simp_all
    with Inr 2 show ?thesis by (intro that(2) [of g]) (auto simp: created_grant_def)
  qed
qed

lemma step_inv:
  assumes "grants_step ops held s s'" "inv s" "\<forall>g \<in> held s. grant_valid g"
  shows "inv s' \<and> (\<forall>g \<in> held s'. grant_valid g)"
  using assms(1)
proof cases
  case (create gid now ws by_sub inp r)
  from assms(2) create show ?thesis
    by (rule create_cases) (use assms(2,3) in auto)
next
  case (delete ws gid d)
  with assms(2,3) delete_ok [of s ws gid s'] delete_error [of ws gid s] show ?thesis
    by (cases d) auto
next
  case (revoke ws p r)
  with assms(2,3) revoke_ok [of s ws p _ s'] revoke_error [of ws p s] show ?thesis
    by (cases r) (auto simp: RevokePrincipal_def)
qed

lemma steps_inv:
  "(grants_step ops held)\<^sup>*\<^sup>* s s' \<Longrightarrow> inv s \<Longrightarrow> \<forall>g \<in> held s. grant_valid g \<Longrightarrow>
     inv s' \<and> (\<forall>g \<in> held s'. grant_valid g)"
  by (induction rule: rtranclp_induct) (auto dest: step_inv)

lemma match_exact:
  assumes "inv s" "p \<noteq> []" "MatchForUpload ops ws p b path s = (Inr r, s')"
  shows "s' = s \<and> (r = Some g \<longleftrightarrow>
    g \<in> held s \<and> gWorkspace g = ws \<and> gPrincipal g = p \<and> gBackendID g = b \<and> gPrefix g = dirOf path)"
proof -
  from assms(3) obtain gs where l: "goList ops ws p s = (Inr gs, s')" and r: "r = match_grant b (dirOf path) gs"
    by (auto simp: MatchForUpload_def split: prod.splits sum.splits)
  from list_ok [OF assms(1) l] assms(2)
  have gs: "s' = s" "set gs = {g \<in> held s. gWorkspace g = ws \<and> gPrincipal g = p}" by auto
  have one: "h = g" if "r = Some h" "g \<in> held s" "gWorkspace g = ws" "gPrincipal g = p" "gBackendID g = b"
    "gPrefix g = dirOf path" for h
    using that gs match_grant_Some [of b "dirOf path" gs h] r
    by (intro unique [OF assms(1)]) (auto simp: same_scope_def)
  have "r = Some g \<Longrightarrow> g \<in> set gs \<and> gBackendID g = b \<and> gPrefix g = dirOf path"
    using r match_grant_Some by auto
  moreover have "r \<noteq> None" if "g \<in> set gs" "gBackendID g = b" "gPrefix g = dirOf path"
    using that unfolding r by (auto simp: match_grant_None)
  ultimately show ?thesis using gs one by auto
qed

end

section \<open>The two providers\<close>

lemma grant_key_same_scope:
  assumes "nul_free g" "nul_free h"
  shows "grant_key g = grant_key h \<longleftrightarrow> same_scope g h"
proof
  assume eq: "grant_key g = grant_key h"
  have first: "a = a' \<and> r = r'" if "a @ CHR 0x00 # r = a' @ CHR 0x00 # r'" "CHR 0x00 \<notin> set a" "CHR 0x00 \<notin> set a'"
    for a a' r r' :: string
    using arg_cong [OF that(1), of "cut_first (CHR 0x00)"] that(2,3) by simp
  have last: "a = a' \<and> r = r'" if "a @ CHR 0x00 # r = a' @ CHR 0x00 # r'" "CHR 0x00 \<notin> set r" "CHR 0x00 \<notin> set r'"
    for a a' r r' :: string
    using cut_last_Some [of "CHR 0x00" "a @ CHR 0x00 # r" a r] cut_last_Some [of "CHR 0x00" "a' @ CHR 0x00 # r'" a' r']
      arg_cong [OF that(1), of "cut_last (CHR 0x00)"] that(2,3) by simp
  note eq = eq [unfolded grant_key_def scopeKey_def]
  note n = assms [unfolded nul_free_def]
  have 1: "gWorkspace g = gWorkspace h \<and> gPrincipal g @ CHR 0x00 # gBackendID g @ CHR 0x00 # gPrefix g =
      gPrincipal h @ CHR 0x00 # gBackendID h @ CHR 0x00 # gPrefix h"
    by (rule first [OF eq]) (use n in blast)+
  have 2: "gPrincipal g = gPrincipal h \<and> gBackendID g @ CHR 0x00 # gPrefix g = gBackendID h @ CHR 0x00 # gPrefix h"
    by (rule first [OF conjunct2 [OF 1]]) (use n in blast)+
  have "gBackendID g = gBackendID h \<and> gPrefix g = gPrefix h"
    by (rule last [OF conjunct2 [OF 2]]) (use n in blast)+
  with 1 2 show "same_scope g h" unfolding same_scope_def by blast
qed (simp add: grant_key_def same_scope_def)

definition rows_unique :: "grant set \<Rightarrow> bool" where
  "rows_unique gs \<longleftrightarrow> (\<forall>g \<in> gs. \<forall>h \<in> gs. same_scope g h \<longrightarrow> g = h)"

lemma same_scope_clone [simp]: "same_scope (clone g) h = same_scope g h" "same_scope h (clone g) = same_scope h g"
  by (simp_all add: same_scope_def)

lemma same_scope_refl [simp]: "same_scope g g"
  by (simp add: same_scope_def)

lemma same_scope_sym: "same_scope g h \<Longrightarrow> same_scope h g"
  by (simp add: same_scope_def)

lemma same_scope_trans: "same_scope g h \<Longrightarrow> same_scope h k \<Longrightarrow> same_scope g k"
  by (simp add: same_scope_def)

lemma rows_unique_mono: "gs \<subseteq> hs \<Longrightarrow> rows_unique hs \<Longrightarrow> rows_unique gs"
  by (simp add: rows_unique_def subset_iff)

lemma rows_unique_insert:
  "rows_unique gs \<Longrightarrow> rows_unique (insert (clone g) {h \<in> gs. \<not> same_scope h g})"
  by (auto simp: rows_unique_def dest: same_scope_sym)

definition mem_inv :: "mem_grants \<Rightarrow> bool" where
  "mem_inv m \<longleftrightarrow> distinct (map fst m) \<and> (\<forall>p \<in> set m. fst p = gID (snd p) \<and> nul_free (snd p) \<and> clone (snd p) = snd p) \<and>
     rows_unique (snd ` set m)"

definition mem_held :: "mem_grants \<Rightarrow> grant set" where
  "mem_held m = snd ` set m"

lemma set_rows: "snd ` set m = mem_held m"
  by (simp add: mem_held_def)

lemma mem_invD:
  "mem_inv m \<Longrightarrow> p \<in> set m \<Longrightarrow> fst p = gID (snd p) \<and> nul_free (snd p) \<and> clone (snd p) = snd p"
  "mem_inv m \<Longrightarrow> p \<in> set m \<Longrightarrow> q \<in> set m \<Longrightarrow> same_scope (snd p) (snd q) \<Longrightarrow> snd p = snd q"
  by (simp_all add: mem_inv_def rows_unique_def)

lemma mem_clone_snd: "mem_inv m \<Longrightarrow> map clone (filter P (map snd m)) = filter P (map snd m)"
  by (intro map_idI) (auto dest: mem_invD(1))

lemma mem_clone_comp: "mem_inv m \<Longrightarrow> map (clone \<circ> snd) (filter P m) = map snd (filter P m)"
  by (auto dest: mem_invD(1))

lemma mem_Upsert_rows:
  assumes inv: "mem_inv m" and g: "nul_free g" "gID g \<notin> gID ` mem_held m"
  shows "snd (mem_Upsert g m) = (gID g, clone g) # filter (\<lambda>p. \<not> same_scope (snd p) g) m"
proof -
  have new: "fst p \<noteq> gID g" if "p \<in> set m" for p
    using that g(2) mem_invD(1) [OF inv that] by (auto simp: mem_held_def intro: rev_image_eqI)
  have key: "grant_key (snd p) = grant_key g \<longleftrightarrow> same_scope (snd p) g" if "p \<in> set m" for p
    using that inv g(1) by (auto simp: mem_inv_def grant_key_same_scope)
  show ?thesis
  proof (cases "find (\<lambda>(_, h). grant_key h = grant_key g) m")
    case None
    then have "\<not> same_scope (snd p) g" if "p \<in> set m" for p
      using that key [OF that] by (cases p) (auto simp: find_None_iff)
    then have "filter (\<lambda>p. \<not> same_scope (snd p) g) m = m" by (simp add: filter_id_conv)
    moreover have "filter (\<lambda>p. fst p \<noteq> gID g) m = m" using new by (simp add: filter_id_conv)
    ultimately show ?thesis using None by (simp add: mem_Upsert_def)
  next
    case (Some q)
    then have "q \<in> set m \<and> (case q of (_, h) \<Rightarrow> grant_key h = grant_key g)" by (rule find_Some_mem)
    then have q: "q \<in> set m" "same_scope (snd q) g" using key [of q] by (auto split: prod.splits)
    have "fst p = fst q \<longleftrightarrow> same_scope (snd p) g" if p: "p \<in> set m" for p
    proof
      assume "fst p = fst q"
      then have "p = q" using inv p q(1) by (auto simp: mem_inv_def distinct_map inj_on_def)
      with q show "same_scope (snd p) g" by simp
    next
      assume "same_scope (snd p) g"
      then have "same_scope (snd p) (snd q)" using q(2) same_scope_sym same_scope_trans by blast
      then have "snd p = snd q" using inv p q(1) by (auto simp: mem_inv_def rows_unique_def)
      then show "fst p = fst q" using inv p q(1) by (auto simp: mem_inv_def)
    qed
    then have "filter (\<lambda>p. fst p \<noteq> fst q) m = filter (\<lambda>p. \<not> same_scope (snd p) g) m"
      by (auto intro: filter_cong)
    moreover have "filter (\<lambda>p. fst p \<noteq> gID g) (filter (\<lambda>p. \<not> same_scope (snd p) g) m) =
        filter (\<lambda>p. \<not> same_scope (snd p) g) m"
      using new by (auto intro: filter_cong)
    ultimately have "filter (\<lambda>p. fst p \<noteq> gID g) (filter (\<lambda>p. fst p \<noteq> fst q) m) =
        filter (\<lambda>p. \<not> same_scope (snd p) g) m" by simp
    then show ?thesis using Some by (cases q) (simp add: mem_Upsert_def del: filter_filter)
  qed
qed

lemma mem_filter_inv: "mem_inv m \<Longrightarrow> mem_inv (filter P m)"
  using distinct_map_filter [of fst m P] rows_unique_mono [of "snd ` set (filter P m)" "snd ` set m"]
  by (simp add: mem_inv_def image_mono)

lemma held_filter: "mem_held (filter (\<lambda>p. P (snd p)) m) = {g \<in> mem_held m. P g}"
  "snd ` {p \<in> set m. P (snd p)} = {g \<in> mem_held m. P g}"
  by (auto simp: mem_held_def)

lemma mem_clone_held: "mem_inv m \<Longrightarrow> g \<in> mem_held m \<Longrightarrow> clone g = g"
  by (auto simp: mem_inv_def mem_held_def)

lemma mem_lookup_held:
  assumes "mem_inv m" "map_of m i = Some g"
  shows "g \<in> mem_held m \<and> gID g = i"
proof -
  have "(i, g) \<in> set m" using assms(2) by (rule map_of_SomeD)
  with mem_invD(1) [OF assms(1) this] show ?thesis
    by (auto simp: mem_held_def intro: rev_image_eqI)
qed

lemma mem_delete_held:
  assumes "mem_inv m" "map_of m i = Some g"
  shows "mem_held (filter (\<lambda>p. fst p \<noteq> i) m) = {h \<in> mem_held m. \<not> (gWorkspace h = gWorkspace g \<and> gID h = i)}"
proof -
  have "fst p = i \<longleftrightarrow> gWorkspace (snd p) = gWorkspace g \<and> gID (snd p) = i" if "p \<in> set m" for p
  proof -
    have "snd p = g" if "fst p = i"
    proof -
      have "distinct (map fst m)" using assms(1) by (simp add: mem_inv_def)
      moreover have "(i, snd p) \<in> set m" using \<open>p \<in> set m\<close> that by auto
      ultimately have "map_of m i = Some (snd p)" by simp
      with assms(2) show ?thesis by simp
    qed
    with mem_invD(1) [OF assms(1) that] show ?thesis by auto
  qed
  then show ?thesis by (auto simp: mem_held_def intro: rev_image_eqI)
qed

interpretation mem: grant_store mem_grant_ops mem_inv mem_held
proof (unfold_locales, goal_cases)
  case (1 s g h)
  then show ?case by (auto simp: mem_inv_def mem_held_def rows_unique_def)
next
  case (2 s g g' s')
  from 2(4) have s': "s' = snd (mem_Upsert g s)" and g': "g' = clone g"
    by (auto simp: mem_grant_ops_def mem_Upsert_def)
  have rows: "s' = (gID g, clone g) # filter (\<lambda>p. \<not> same_scope (snd p) g) s"
    using mem_Upsert_rows [OF 2(1-3)] s' by simp
  have held: "mem_held s' = insert (clone g) {h \<in> mem_held s. \<not> same_scope h g}"
    unfolding rows by (auto simp: mem_held_def)
  have "gID g \<notin> fst ` set s"
    using 2(1,3) by (force simp: mem_inv_def mem_held_def)
  then have "mem_inv s'"
    using mem_filter_inv [OF 2(1), of "\<lambda>p. \<not> same_scope (snd p) g"] 2(2) held rows_unique_insert [of "mem_held s" g] 2(1)
    by (auto simp: rows mem_inv_def mem_held_def nul_free_def)
  with held g' show ?case by simp
next
  case 3 then show ?case by (auto simp: mem_grant_ops_def mem_Upsert_def)
next
  case (4 s ws p gs s')
  then show ?case
    by (auto simp: mem_grant_ops_def mem_List_def sort_by_id_def mem_clone_snd set_rows)
next
  case 5 then show ?case by (auto simp: mem_grant_ops_def mem_List_def)
next
  case (6 s ws i g s')
  then show ?case using mem_lookup_held [of s i] mem_clone_held [of s]
    by (auto simp: mem_grant_ops_def mem_Get_def split: option.splits if_splits)
next
  case 7 then show ?case by (auto simp: mem_grant_ops_def mem_Get_def split: option.splits if_splits)
next
  case (8 s ws i s')
  then obtain g where "map_of s i = Some g" "gWorkspace g = ws" "s' = filter (\<lambda>p. fst p \<noteq> i) s"
    by (auto simp: mem_grant_ops_def mem_Delete_def split: option.splits if_splits)
  with mem_delete_held [OF 8(1), of i g] mem_lookup_held [OF 8(1), of i g]
    mem_filter_inv [OF 8(1), of "\<lambda>p. fst p \<noteq> i"] show ?case by auto
next
  case 9 then show ?case by (auto simp: mem_grant_ops_def mem_Delete_def split: option.splits if_splits)
next
  case (10 s ws p gs s')
  let ?hit = "\<lambda>g. gWorkspace g = ws \<and> gPrincipal g = p"
  from 10(2) have s': "s' = filter (\<lambda>q. \<not> ?hit (snd q)) s"
    and gs: "gs = sort_by_id (map (clone \<circ> snd) (filter (\<lambda>q. ?hit (snd q)) s))"
    by (simp_all add: mem_grant_ops_def mem_DeleteByPrincipal_def Let_def)
  have "set gs = {g \<in> mem_held s. ?hit g}"
    unfolding gs mem_clone_comp [OF 10(1)] by (simp add: sort_by_id_def held_filter(2) [of s "?hit"])
  moreover have "mem_held s' = {g \<in> mem_held s. \<not> ?hit g}" unfolding s' by (rule held_filter(1))
  ultimately show ?case using mem_filter_inv [OF 10(1)] unfolding s' by simp
next
  case 11 then show ?case by (auto simp: mem_grant_ops_def mem_DeleteByPrincipal_def Let_def)
qed

interpretation pg: grant_store "pg_grant_ops err is_uuid" "\<lambda>rows. rows_unique (set rows)" set
  for err is_uuid
proof (unfold_locales, goal_cases)
  case (2 s g g' s')
  from 2(4) have ok: "err = None" "g' = clone g" by (auto simp: pg_grant_ops_def pg_Upsert_def split: option.splits if_splits)
  have "set s' = insert (clone g) {h \<in> set s. \<not> same_scope h g}"
    using 2(4) ok by (auto simp: pg_grant_ops_def pg_Upsert_def image_iff split: if_splits)
  with rows_unique_insert [OF 2(1)] ok show ?case by simp
qed (auto simp: pg_grant_ops_def pg_Upsert_def pg_List_def pg_Get_def pg_Delete_def pg_DeleteByPrincipal_def
    sort_by_id_def find_Some_iff rows_unique_def Let_def split: option.splits if_splits)

section \<open>Properties\<close>

text \<open>
  C10. Admission is exact.  In every state the service can reach from an empty store, an app's
  create-only write of a path is matched to a grant exactly when the store holds one of that
  workspace, principal and backend whose prefix is the path's directory; the path is then the
  prefix and one last segment, and the principal is an app of the workspace, never the reserved
  service identity.
\<close>

theorem upload_admission_exact:
  assumes "grant_store ops good held" and "good s0" and "held s0 = {}"
    and "(grants_step ops held)\<^sup>*\<^sup>* s0 s" and "p \<noteq> []"
    and "MatchForUpload ops ws p b path s = (Inr r, s')"
  shows "(r = Some g \<longleftrightarrow> g \<in> held s \<and> gWorkspace g = ws \<and> gPrincipal g = p \<and> gBackendID g = b \<and> gPrefix g = dirOf path) \<and>
    (r = Some g \<longrightarrow> (\<exists>name. path = gPrefix g @ name \<and> slash \<notin> set name) \<and>
       (\<exists>app. p = ''streamlit:'' @ ws @ '':'' @ app \<and> app \<noteq> ''grants''))"
proof -
  have s: "good s" "\<forall>g \<in> held s. grant_valid g"
    using grant_store.steps_inv [OF assms(1,4,2)] assms(3) by auto
  have exact: "r = Some g \<longleftrightarrow> g \<in> held s \<and> gWorkspace g = ws \<and> gPrincipal g = p \<and> gBackendID g = b \<and> gPrefix g = dirOf path"
    using grant_store.match_exact [OF assms(1) s(1) assms(5,6), of g] by blast
  show ?thesis
  proof (intro conjI impI)
    assume "r = Some g"
    with exact have g: "g \<in> held s" "gWorkspace g = ws" "gPrincipal g = p" "gPrefix g = dirOf path" by simp_all
    show "\<exists>name. path = gPrefix g @ name \<and> slash \<notin> set name"
      using g(4) dirOf_iff [of path "gPrefix g"] by simp
    show "\<exists>app. p = ''streamlit:'' @ ws @ '':'' @ app \<and> app \<noteq> ''grants''"
      using s(2) g by (auto simp: grant_valid_def ValidatePrincipal_ok)
  qed (rule exact)
qed

definition example_input :: grant_input where
  "example_input = \<lparr>giPrincipal = ''streamlit:acme:app1'', giBackendID = ''lake'', giPrefix = ''in'',
     giExtensions = [''.CSV'', ''csv''], giMaxBytes = 100\<rparr>"

definition example_grant :: grant where
  "example_grant = \<lparr>gID = ''u1'', gWorkspace = ''acme'', gPrincipal = ''streamlit:acme:app1'', gBackendID = ''lake'',
     gPrefix = ''in/'', gExtensions = [''csv''], gMaxBytes = 100, gGrantedBy = ''bob'', gCreatedAt = 7000\<rparr>"

lemmas byte_classes = is_app_byte_def is_slug_def is_alnum_def is_lower_def is_digit_def is_upper_def

lemma example_created:
  "grants_Create mem_grant_ops (Some ''u1'') 7123 ''acme'' ''bob'' example_input [] =
     (Inr example_grant, [(''u1'', example_grant)])"
proof -
  have "ValidatePrincipal ''streamlit:acme:app1'' ''acme'' = None"
    by (simp add: ValidatePrincipal_def principalWorkspace_def principalRE_def byte_classes reservedAppID_def
        suffix_def cut_first_def)
  moreover have "CleanPrefix ''in'' = Inr ''in/''"
    by (simp add: CleanPrefix_def TrimSuffix_def checkSegments_def maxPathLen_def suffix_def)
  moreover have "ValidateExtensions [''.CSV'', ''csv''] = Inr [''csv'']"
    by code_simp
  ultimately show ?thesis
    by (simp add: grants_Create_def example_input_def example_grant_def TrimSpace_word byte_classes
        mem_grant_ops_def mem_Upsert_def clone_def trunc_micro_def)
qed

lemma upload_admission_exact_witness:
  "\<exists>s. (grants_step mem_grant_ops mem_held)\<^sup>*\<^sup>* [] s \<and>
     MatchForUpload mem_grant_ops ''acme'' ''streamlit:acme:app1'' ''lake'' ''in/x.csv'' s = (Inr (Some example_grant), s) \<and>
     example_grant \<in> mem_held s"
proof -
  let ?s = "[(''u1'', example_grant)]"
  have "grants_step mem_grant_ops mem_held [] ?s"
    by (rule grants_step.create [OF _ example_created]) (simp add: mem_held_def)
  then have steps: "(grants_step mem_grant_ops mem_held)\<^sup>*\<^sup>* [] ?s" ..
  have m: "MatchForUpload mem_grant_ops ''acme'' ''streamlit:acme:app1'' ''lake'' ''in/x.csv'' ?s =
      (Inr (Some example_grant), ?s)"
    by (simp add: MatchForUpload_def mem_grant_ops_def mem_List_def sort_by_id_def example_grant_def clone_def
        trunc_micro_def dirOf_def cut_last_def cut_first_def)
  have "example_grant \<in> mem_held ?s"
    using upload_admission_exact [OF mem.grant_store_axioms _ _ steps _ m, of example_grant]
    by (simp add: mem_inv_def rows_unique_def mem_held_def)
  with steps m show ?thesis by blast
qed

text \<open>
  C38. Revoking a principal is final and touches no one else: once the call succeeds, no write
  of that principal is admitted to any backend or path of the workspace, it returns exactly the
  grants removed, and every other grant is still held.
\<close>

theorem revoke_ends_admission:
  assumes "grant_store ops good held" and "good s" and "RevokePrincipal ops ws p s = (Inr gs, s')"
  shows "set gs = {g \<in> held s. gWorkspace g = ws \<and> gPrincipal g = p} \<and> held s' = held s - set gs \<and>
    (p \<noteq> [] \<longrightarrow> (\<forall>b path. fst (MatchForUpload ops ws p b path s') = Inr None \<or>
       (\<exists>e. fst (MatchForUpload ops ws p b path s') = Inl e)))"
proof -
  from grant_store.revoke_ok [OF assms(1,2)] assms(3)
  have r: "good s'" "set gs = {g \<in> held s. gWorkspace g = ws \<and> gPrincipal g = p}"
    "held s' = {g \<in> held s. \<not> (gWorkspace g = ws \<and> gPrincipal g = p)}"
    by (auto simp: RevokePrincipal_def)
  have "q = Inr None" if "p \<noteq> []" "MatchForUpload ops ws p b path s' = (q, s2)" "\<nexists>e. q = Inl e" for b path q s2
    using that grant_store.match_exact [OF assms(1) r(1) that(1), of ws b path _ s2] r(3)
    by (cases q; cases "projr q") auto
  then have "fst (MatchForUpload ops ws p b path s') = Inr None \<or>
      (\<exists>e. fst (MatchForUpload ops ws p b path s') = Inl e)" if "p \<noteq> []" for b path
    using that by (cases "MatchForUpload ops ws p b path s'") auto
  moreover have "held s' = held s - set gs" using r(2,3) by auto
  ultimately show ?thesis using r(2) by blast
qed

lemma revoke_ends_admission_witness:
  "RevokePrincipal mem_grant_ops ''acme'' ''streamlit:acme:app1'' [(''u1'', example_grant)] = (Inr [example_grant], []) \<and>
     fst (MatchForUpload mem_grant_ops ''acme'' ''streamlit:acme:app1'' ''lake'' ''in/x.csv'' []) = Inr None"
proof -
  have call: "RevokePrincipal mem_grant_ops ''acme'' ''streamlit:acme:app1'' [(''u1'', example_grant)] = (Inr [example_grant], [])"
    by (simp add: RevokePrincipal_def mem_grant_ops_def mem_DeleteByPrincipal_def sort_by_id_def example_grant_def
        clone_def trunc_micro_def)
  have "mem_inv [(''u1'', example_grant)]"
    by (simp add: mem_inv_def rows_unique_def example_grant_def nul_free_def clone_def trunc_micro_def)
  from revoke_ends_admission [OF mem.grant_store_axioms this call] call
  show ?thesis by (auto simp: MatchForUpload_def mem_grant_ops_def mem_List_def)
qed

text \<open>
  Saving a target replaces: a create that succeeds stores a grant of the requested scope
  with the caller's limits, normalised extensions and cleaned prefix, removes the earlier grant
  of that scope, and leaves every other grant as it is; a create that fails changes nothing.
\<close>

theorem create_grant_replaces:
  assumes "grant_store ops good held" and "good s" and "gid \<notin> gID ` held s"
    and "grants_Create ops (Some gid) now ws by_sub inp s = (r, s')"
  shows "case r of
      Inl e \<Rightarrow> s' = s
    | Inr g \<Rightarrow> grant_valid g \<and> gID g = gid \<and> gWorkspace g = ws \<and> gPrincipal g = giPrincipal inp \<and>
        gBackendID g = giBackendID inp \<and> CleanPrefix (giPrefix inp) = Inr (gPrefix g) \<and>
        gMaxBytes g = giMaxBytes inp \<and> g \<in> held s' \<and>
        (\<forall>h. h \<noteq> g \<longrightarrow> (h \<in> held s' \<longleftrightarrow> h \<in> held s \<and> \<not> same_scope h g))"
  using assms by (rule grant_store.create_cases) auto

lemma create_grant_replaces_witness:
  "grant_valid example_grant \<and> example_grant \<in> mem_held [(''u1'', example_grant)]"
  using create_grant_replaces [OF mem.grant_store_axioms _ _ example_created]
  by (simp add: mem_inv_def mem_held_def rows_unique_def)

end
