(* ===== verification/Http_Range.thy ===== *)
theory Http_Range
  imports Http_Core
begin

text \<open>
  \<^verbatim>\<open>parseRange\<close> of \<^verbatim>\<open>internal/api/server.go\<close>: the single-range \<^verbatim>\<open>Range\<close> header against an
  object's sz.  Sizes and offsets are 64-bit integers in the code; the lemmas show that
  every value it computes stays in range.
\<close>

text \<open>The result's three shapes: not parsed, parsed but unsatisfiable, parsed.\<close>

datatype range_result = NotParsed | Unsatisfiable | Parsed byte_range

definition parseRange :: "string \<Rightarrow> int \<Rightarrow> range_result" where
  "parseRange header sz =
     (if \<not> HasPrefix header ''bytes='' then NotParsed
      else
        (let spec = drop 6 header in
         if CHR '','' \<in> set spec then NotParsed
         else case cut_first (CHR ''-'') spec of
                None \<Rightarrow> NotParsed
              | Some (startStr, endStr) \<Rightarrow>
                  if startStr = [] then
                    (case ParseInt64 endStr of
                       None \<Rightarrow> NotParsed
                     | Some n \<Rightarrow>
                         if n \<le> 0 then NotParsed
                         else if sz = 0 then Unsatisfiable
                         else (let start = sz - n in
                               Parsed \<lparr>brStart = (if start < 0 then 0 else start), brEnd = sz - 1\<rparr>))
                  else
                    (case ParseInt64 startStr of
                       None \<Rightarrow> NotParsed
                     | Some start \<Rightarrow>
                         if start < 0 then NotParsed
                         else if start \<ge> sz then Unsatisfiable
                         else if endStr = [] then Parsed \<lparr>brStart = start, brEnd = sz - 1\<rparr>
                         else (case ParseInt64 endStr of
                                 None \<Rightarrow> NotParsed
                               | Some e \<Rightarrow>
                                   if e < start then NotParsed
                                   else Parsed \<lparr>brStart = start, brEnd = (if e < sz - 1 then e else sz - 1)\<rparr>))))"

text \<open>What a header asks for, in the words of the standard.\<close>

datatype range_spec = FromTo int int | From int | Last int

definition spec_header :: "range_spec \<Rightarrow> string" where
  "spec_header sp =
     (case sp of
        FromTo a b \<Rightarrow> ''bytes='' @ dec_int a @ ''-'' @ dec_int b
      | From a \<Rightarrow> ''bytes='' @ dec_int a @ ''-''
      | Last n \<Rightarrow> ''bytes=-'' @ dec_int n)"

definition spec_bytes :: "range_spec \<Rightarrow> int \<Rightarrow> int set" where
  "spec_bytes sp sz =
     (case sp of
        FromTo a b \<Rightarrow> {i. 0 \<le> i \<and> i < sz \<and> a \<le> i \<and> i \<le> b}
      | From a \<Rightarrow> {i. 0 \<le> i \<and> i < sz \<and> a \<le> i}
      | Last n \<Rightarrow> {i. 0 \<le> i \<and> i < sz \<and> sz - n \<le> i})"

definition spec_ok :: "range_spec \<Rightarrow> bool" where
  "spec_ok sp =
     (case sp of
        FromTo a b \<Rightarrow> 0 \<le> a \<and> a \<le> b \<and> in_int64 b
      | From a \<Rightarrow> 0 \<le> a \<and> in_int64 a
      | Last n \<Rightarrow> 0 < n \<and> in_int64 n)"

lemma dec_int_nonneg: "0 \<le> n \<Longrightarrow> dec_int n = dec_nat (nat n)"
  by (simp add: dec_int_def)

lemma dec_nat_no: "\<not> is_digit c \<Longrightarrow> c \<notin> set (dec_nat n)"
  using dec_nat_digits by blast

lemma ParseInt64_dec_int: "0 \<le> n \<Longrightarrow> in_int64 n \<Longrightarrow> ParseInt64 (dec_int n) = Some n"
  using ParseInt64_dec [of "nat n"] by (simp add: dec_int_nonneg in_int64_def)

lemma parseRange_cases:
  assumes "parseRange header sz = Parsed rg" "0 \<le> sz"
  shows "0 \<le> brStart rg \<and> brStart rg \<le> brEnd rg \<and> brEnd rg < sz"
  using assms
  by (auto simp: parseRange_def Let_def split: if_splits option.splits prod.splits)

lemma byte_range_eqI: "brStart r = a \<Longrightarrow> brEnd r = b \<Longrightarrow> r = \<lparr>brStart = a, brEnd = b\<rparr>"
  by simp

lemma digit_dash: "\<not> is_digit (CHR ''-'')" "\<not> is_digit (CHR '','')"
  by (simp_all add: is_digit_def)

lemma parseRange_FromTo:
  assumes "0 \<le> a" "a \<le> b" "in_int64 b"
  shows "parseRange (''bytes='' @ dec_int a @ ''-'' @ dec_int b) sz =
    (if a \<ge> sz then Unsatisfiable
     else Parsed \<lparr>brStart = a, brEnd = (if b < sz - 1 then b else sz - 1)\<rparr>)"
proof -
  have "in_int64 a" using assms by (simp add: in_int64_def int64_min_def)
  moreover have "cut_first (CHR ''-'') (dec_int a @ CHR ''-'' # dec_int b) = Some (dec_int a, dec_int b)"
    using assms by (intro cut_first_append) (simp add: dec_int_nonneg dec_nat_no digit_dash)
  moreover have "CHR '','' \<notin> set (dec_int a @ CHR ''-'' # dec_int b)"
    using assms by (simp add: dec_int_nonneg dec_nat_no digit_dash)
  moreover have "dec_int a \<noteq> []" "dec_int b \<noteq> []" using assms by (simp_all add: dec_int_nonneg)
  ultimately show ?thesis
    using assms by (simp add: parseRange_def Let_def ParseInt64_dec_int)
qed

lemma parseRange_From:
  assumes "0 \<le> a" "in_int64 a"
  shows "parseRange (''bytes='' @ dec_int a @ ''-'') sz =
    (if a \<ge> sz then Unsatisfiable else Parsed \<lparr>brStart = a, brEnd = sz - 1\<rparr>)"
proof -
  have "cut_first (CHR ''-'') (dec_int a @ CHR ''-'' # []) = Some (dec_int a, [])"
    using assms by (intro cut_first_append) (simp add: dec_int_nonneg dec_nat_no digit_dash)
  moreover have "CHR '','' \<notin> set (dec_int a @ ''-'')" "dec_int a \<noteq> []"
    using assms by (simp_all add: dec_int_nonneg dec_nat_no digit_dash)
  ultimately show ?thesis
    using assms by (simp add: parseRange_def Let_def ParseInt64_dec_int)
qed

lemma parseRange_Last:
  assumes "0 < n" "in_int64 n" "0 \<le> sz"
  shows "parseRange (''bytes=-'' @ dec_int n) sz =
    (if sz = 0 then Unsatisfiable
     else Parsed \<lparr>brStart = (if sz - n < 0 then 0 else sz - n), brEnd = sz - 1\<rparr>)"
proof -
  have "cut_first (CHR ''-'') ([] @ CHR ''-'' # dec_int n) = Some ([], dec_int n)"
    by (intro cut_first_append) simp
  moreover have "CHR '','' \<notin> set (CHR ''-'' # dec_int n)"
    using assms by (simp add: dec_int_nonneg dec_nat_no digit_dash)
  ultimately show ?thesis
    using assms by (simp add: parseRange_def Let_def ParseInt64_dec_int)
qed

section \<open>Properties\<close>

text \<open>The header of a well-formed range, parsed.\<close>

lemma parseRange_spec:
  assumes "spec_ok sp" and "0 \<le> sz"
  shows "case parseRange (spec_header sp) sz of
      Parsed rg \<Rightarrow> {brStart rg .. brEnd rg} = spec_bytes sp sz \<and> spec_bytes sp sz \<noteq> {}
    | Unsatisfiable \<Rightarrow> spec_bytes sp sz = {}
    | NotParsed \<Rightarrow> False"
proof (cases sp)
  case (FromTo a b)
  with assms have ok: "0 \<le> a" "a \<le> b" "in_int64 b" by (auto simp: spec_ok_def)
  show ?thesis
  proof (cases "a < sz")
    case True
    then have "a \<in> spec_bytes sp sz" using ok FromTo by (simp add: spec_bytes_def)
    with True FromTo ok assms(2) show ?thesis
      using parseRange_FromTo [OF ok, of sz] by (auto simp: spec_header_def spec_bytes_def)
  next
    case False
    with FromTo ok show ?thesis
      using parseRange_FromTo [OF ok, of sz] by (auto simp: spec_header_def spec_bytes_def)
  qed
next
  case (From a)
  with assms have ok: "0 \<le> a" "in_int64 a" by (auto simp: spec_ok_def)
  show ?thesis
  proof (cases "a < sz")
    case True
    then have "a \<in> spec_bytes sp sz" using ok From by (simp add: spec_bytes_def)
    with True From ok assms(2) show ?thesis
      using parseRange_From [OF ok, of sz] by (auto simp: spec_header_def spec_bytes_def)
  next
    case False
    with From ok show ?thesis
      using parseRange_From [OF ok, of sz] by (auto simp: spec_header_def spec_bytes_def)
  qed
next
  case (Last n)
  with assms have ok: "0 < n" "in_int64 n" by (auto simp: spec_ok_def)
  show ?thesis
  proof (cases "sz = 0")
    case False
    then have "sz - 1 \<in> spec_bytes sp sz" using ok Last assms(2) by (simp add: spec_bytes_def)
    with False Last ok assms(2) show ?thesis
      using parseRange_Last [OF ok assms(2)]
      by (auto simp: spec_header_def spec_bytes_def intro!: exI [of _ "sz - 1"])
  next
    case True
    with Last ok show ?thesis
      using parseRange_Last [OF ok assms(2)] by (auto simp: spec_header_def spec_bytes_def)
  qed
qed

text \<open>
  A range the server serves always lies inside the object: its start is not negative,
  not after its end, and its end is before the object's size, so the length and the offsets
  computed from it stay 64-bit integers.
\<close>

theorem parsed_range_in_bounds:
  assumes "parseRange header sz = Parsed rg" and "0 \<le> sz" and "in_int64 sz"
  shows "0 \<le> brStart rg \<and> brStart rg \<le> brEnd rg \<and> brEnd rg < sz \<and>
    in_int64 (brEnd rg - brStart rg + 1) \<and> brEnd rg - brStart rg + 1 \<le> sz"
  using parseRange_cases [OF assms(1,2)] assms(3) by (auto simp: in_int64_def int64_min_def int64_max_def)

lemma parsed_range_in_bounds_witness:
  "\<exists>rg. parseRange ''bytes=-7'' 5 = Parsed rg \<and> brEnd rg < 5"
proof -
  have "parseRange (''bytes=-'' @ dec_int 7) 5 = Parsed \<lparr>brStart = 0, brEnd = 4\<rparr>"
    by (subst parseRange_Last) (simp_all add: in_int64_def int64_min_def int64_max_def)
  moreover have "dec_int 7 = ''7''" by code_simp
  ultimately have "parseRange ''bytes=-7'' 5 = Parsed \<lparr>brStart = 0, brEnd = 4\<rparr>" by simp
  with parsed_range_in_bounds [OF this] show ?thesis
    by (auto simp: in_int64_def int64_min_def int64_max_def)
qed



end
