(* ===== verification/Fs_Laws.thy ===== *)
theory Fs_Laws
  imports Fs_Backend
begin

text \<open>
  What the filesystem kind's operations do to the files of the tree: directories made on the
  way change no file, a write is atomic, a move is exactly a rename, a delete exactly removes.
\<close>

section \<open>Updates and the directories around them\<close>

lemma get_set_at_dir:
  "parent_ok t p \<Longrightarrow> \<not> prefix p q \<Longrightarrow> get t q = Inr (Dir es) \<Longrightarrow> \<exists>es'. get (set_at p x t) q = Inr (Dir es')"
proof (induction p x t arbitrary: q es rule: set_at.induct)
  case (1 k x ds)
  then show ?case by (cases q) (auto split: option.splits)
next
  case (2 k k' ks x ds)
  then obtain m where m: "map_of ds k = Some m" "parent_ok m (k' # ks)" by (auto simp: parent_ok_Cons)
  show ?case
  proof (cases q)
    case (Cons a q')
    show ?thesis
    proof (cases "a = k")
      case True
      with 2(3,4) Cons m(1) have "\<not> prefix (k' # ks) q'" "get m q' = Inr (Dir es)" by auto
      from 2(1) [OF m this] show ?thesis using Cons True m by simp
    next
      case False
      with 2(4) Cons m show ?thesis by (auto split: option.splits)
    qed
  qed (use m in simp)
qed (auto simp: parent_ok_def neq_Nil_conv split: if_splits)

lemma parent_ok_set_at:
  assumes "parent_ok t p" "parent_ok t q" "\<not> prefix p (butlast q)"
  shows "parent_ok (set_at p x t) q"
proof -
  from assms(2) obtain es where "q \<noteq> []" "get t (butlast q) = Inr (Dir es)" by (auto simp: parent_ok_def)
  with get_set_at_dir [OF assms(1,3)] show ?thesis by (auto simp: parent_ok_def)
qed

lemma not_prefix_butlast: "p \<noteq> [] \<Longrightarrow> \<not> prefix p (butlast p)"
  using prefix_length_le [of p "butlast p"] by (cases p) auto

lemma parent_ok_same: "parent_ok t p \<Longrightarrow> parent_ok (set_at p x t) p"
  using parent_ok_set_at [of t p p x] not_prefix_butlast [of p] by (simp add: parent_ok_def)

lemma parent_ok_sibling:
  "parent_ok t p \<Longrightarrow> butlast q = butlast p \<Longrightarrow> q \<noteq> [] \<Longrightarrow> parent_ok (set_at p x t) q"
  using parent_ok_set_at [of t p q x] not_prefix_butlast [of p] by (simp add: parent_ok_def)

lemma missing_no_file:
  assumes "get t p = Inl e"
  shows "file_at t (p @ q) = None"
  using assms by (simp add: file_at_def get_append)

lemma file_at_get: "get t p = Inr n \<Longrightarrow> file_at t (p @ q) = file_at n q"
  by (simp add: file_at_def get_append)

lemma file_at_File: "file_at (File c m) q = (if q = [] then Some (c, m) else None)"
  by (cases q) (simp_all add: file_at_def)

lemma file_at_Special: "file_at Special q = None"
  by (cases q) (simp_all add: file_at_def)

lemma file_at_empty: "file_at (Dir []) q = None"
  by (cases q) (simp_all add: file_at_def)

text \<open>The files after an update, for all paths at once.\<close>

lemma files_set_at:
  assumes "parent_ok t p"
  shows "file_at (set_at p x t) =
    (\<lambda>q. if prefix p q then (case x of None \<Rightarrow> None | Some m \<Rightarrow> file_at m (drop (length p) q)) else file_at t q)"
proof
  fix q
  show "file_at (set_at p x t) q =
    (if prefix p q then (case x of None \<Rightarrow> None | Some m \<Rightarrow> file_at m (drop (length p) q)) else file_at t q)"
    using file_at_set_at [OF assms, of q x] file_at_set_under [OF assms, of x "drop (length p) q"]
    by (auto simp: prefix_def)
qed

lemma files_add_empty:
  assumes "parent_ok t p" "get t p = Inl e"
  shows "file_at (set_at p (Some (Dir [])) t) = file_at t"
  using missing_no_file [OF assms(2)]
  by (auto simp: files_set_at [OF assms(1)] file_at_empty fun_eq_iff prefix_def)

lemma files_remove_missing:
  assumes "parent_ok t p" "get t p = Inl e"
  shows "file_at (set_at p None (set_at p x t)) = file_at t"
  using missing_no_file [OF assms(2)]
  by (auto simp: files_set_at parent_ok_same assms(1) fun_eq_iff prefix_def)

section \<open>Making directories changes no file\<close>

lemma root_Mkdir_files: "root_Mkdir p t = (e, t') \<Longrightarrow> file_at t' = file_at t"
proof -
  assume m: "root_Mkdir p t = (e, t')"
  show ?thesis
  proof (cases "t' = t")
    case False
    with m obtain es where "segs p \<noteq> []" "root_parent (segs p) t = Inr es" "map_of es (last (segs p)) = None"
      and t': "t' = set_at (segs p) (Some (Dir [])) t"
      by (auto simp: root_Mkdir_def split: if_splits sum.splits)
    then have "parent_ok t (segs p)" "get t (segs p) = Inl ENOENT"
      using root_parent_ok [of "segs p" t es] by (auto simp: get_parent [of "segs p"])
    then show ?thesis unfolding t' by (rule files_add_empty)
  qed simp
qed

lemma mkdir_segs_files: "mkdir_segs b ss t = (e, t') \<Longrightarrow> file_at t' = file_at t"
proof (induction ss arbitrary: b t)
  case (Cons seg ss)
  obtain e1 t1 where m: "root_Mkdir (path_join b seg) t = (e1, t1)" by fastforce
  from root_Mkdir_files [OF m] Cons.IH [of "path_join b seg" t1] Cons.prems m show ?case
    by (auto simp: Let_def split: option.splits if_splits sum.splits)
qed simp

lemma mkdirAll_files: "mkdirAll dir t = (e, t') \<Longrightarrow> file_at t' = file_at t"
  by (auto simp: mkdirAll_def dest: mkdir_segs_files)

lemma made_dir_files:
  "(if d then mkdirAll dir t else (None, t)) = (e, t') \<Longrightarrow> file_at t' = file_at t"
  by (auto split: if_splits dest: mkdirAll_files)

section \<open>Well-formed trees stay well-formed\<close>

lemma wf_set_segs: "wf_tree t \<Longrightarrow> (\<And>m. x = Some m \<Longrightarrow> wf_tree m) \<Longrightarrow> wf_tree (set_at (segs p) x t)"
  using segs_no_slash [of _ p] by (intro wf_set_at) auto

lemma wf_new: "wf_tree (File c m)" "wf_tree (Dir [])"
  by simp_all

lemma wf_root_Mkdir: "wf_tree t \<Longrightarrow> root_Mkdir p t = (e, t') \<Longrightarrow> wf_tree t'"
  by (auto simp: root_Mkdir_def simp del: wf_tree.simps intro!: wf_set_segs wf_new split: if_splits sum.splits)

lemma wf_mkdir_segs: "wf_tree t \<Longrightarrow> mkdir_segs b ss t = (e, t') \<Longrightarrow> wf_tree t'"
proof (induction ss arbitrary: b t)
  case (Cons seg ss)
  obtain e1 t1 where m: "root_Mkdir (path_join b seg) t = (e1, t1)" by fastforce
  from wf_root_Mkdir [OF Cons.prems(1) m] Cons.IH [of t1 "path_join b seg"] Cons.prems m show ?case
    by (auto simp: Let_def split: option.splits if_splits sum.splits)
qed simp

lemma wf_mkdirAll: "wf_tree t \<Longrightarrow> mkdirAll dir t = (e, t') \<Longrightarrow> wf_tree t'"
  by (auto simp: mkdirAll_def dest: wf_mkdir_segs)

lemma wf_root_Remove: "wf_tree t \<Longrightarrow> wf_tree (snd (root_Remove p t))"
  by (auto simp: root_Remove_def simp del: wf_tree.simps intro!: wf_set_segs wf_new split: sum.splits node.splits list.splits)

lemma wf_root_RemoveAll: "wf_tree t \<Longrightarrow> root_RemoveAll p t = (e, t') \<Longrightarrow> wf_tree t'"
  by (auto simp: root_RemoveAll_def simp del: wf_tree.simps intro!: wf_set_segs wf_new split: sum.splits fs_err.splits if_splits)

lemma wf_root_CreateExcl: "wf_tree t \<Longrightarrow> root_CreateExcl p now t = (e, t') \<Longrightarrow> wf_tree t'"
  by (auto simp: root_CreateExcl_def simp del: wf_tree.simps intro!: wf_set_segs wf_new split: if_splits sum.splits)

lemma wf_handle_Write: "wf_tree t \<Longrightarrow> wf_tree (handle_Write p c now t)"
  by (auto simp: handle_Write_def simp del: wf_tree.simps intro!: wf_set_segs wf_new)

lemma wf_root_Link: "wf_tree t \<Longrightarrow> root_Link p q t = (e, t') \<Longrightarrow> wf_tree t'"
  by (auto simp: root_Link_def simp del: wf_tree.simps intro!: wf_set_segs wf_new dest: wf_get split: if_splits sum.splits)

lemma wf_root_Rename: "wf_tree t \<Longrightarrow> root_Rename p q t = (e, t') \<Longrightarrow> wf_tree t'"
  by (auto simp: root_Rename_def simp del: wf_tree.simps intro!: wf_set_segs wf_new dest: wf_get
      split: if_splits sum.splits option.splits node.splits list.splits)

section \<open>Writes\<close>

lemma segs_append: "p \<noteq> ''.'' \<Longrightarrow> d \<noteq> ''.'' \<Longrightarrow> p = d @ slash # b \<Longrightarrow> b \<noteq> [] \<Longrightarrow> slash \<notin> set b \<Longrightarrow>
    segs p = segs d @ [b]"
  by (simp add: segs_def split_on_append_sep split_on_no_sep)

lemma wf_path_dot: "wf_path p \<Longrightarrow> p \<noteq> ''.''"
  by (cases "p = ''.''") (auto simp: wf_path_def seg_ok_def)

text \<open>The temporary name is a sibling of the object.\<close>

lemma segs_tempName:
  assumes "wf_path p" "slash \<notin> set rn"
  shows "segs (tempName rn (path_dir p)) = butlast (segs p) @ [tempPrefix @ rn]"
proof -
  have sl: "slash \<notin> set (tempPrefix @ rn)" "tempPrefix @ rn \<noteq> []" "tempPrefix @ rn \<noteq> ''.''"
    using assms(2) by (auto simp: tempPrefix_def)
  show ?thesis
  proof (cases "cut_last slash p")
    case None
    then have "slash \<notin> set p" "path_dir p = ''.''" by (simp, simp add: path_dir_def del: cut_last_None)
    with assms(1) sl show ?thesis
      by (simp add: segs_wf_path split_on_no_sep tempName_def segs_def [of "tempPrefix @ rn"])
  next
    case (Some q)
    obtain d b where "q = (d, b)" by (cases q)
    with Some have cut: "cut_last slash p = Some (d, b)" by simp
    then have p: "p = d @ slash # b" "slash \<notin> set b" by (simp_all add: cut_last_Some)
    from cut have pd: "path_dir p = d" by (simp add: path_dir_def)
    have sp: "split_on slash p = split_on slash d @ [b]"
      using p by (simp add: split_on_append_sep split_on_no_sep)
    then have ok: "\<forall>s \<in> set (split_on slash d). seg_ok s" using assms(1) by (simp add: wf_path_def)
    have "d \<noteq> ''.''"
    proof
      assume "d = ''.''"
      with ok show False by (simp add: seg_ok_def)
    qed
    moreover have "segs d = split_on slash d"
      using ok \<open>d \<noteq> ''.''\<close> by (simp add: segs_def filter_id_conv seg_ok_def)
    moreover have "d @ slash # tempPrefix @ rn \<noteq> ''.''" by (cases d) auto
    ultimately have "segs (d @ slash # (tempPrefix @ rn)) = split_on slash d @ [tempPrefix @ rn]"
      using segs_append [of "d @ slash # (tempPrefix @ rn)" d "tempPrefix @ rn"] sl by simp
    with pd sp assms(1) \<open>d \<noteq> ''.''\<close> show ?thesis
      by (simp add: tempName_def segs_wf_path)
  qed
qed

lemma root_CreateExcl_ok:
  assumes "root_CreateExcl p now t = (None, t')"
  shows "parent_ok t (segs p) \<and> get t (segs p) = Inl ENOENT \<and> t' = set_at (segs p) (Some (File [] now)) t"
  using assms root_parent_ok [of "segs p" t]
  by (auto simp: root_CreateExcl_def get_parent [of "segs p"] split: if_splits sum.splits)

lemma root_CreateExcl_error: "root_CreateExcl p now t = (Some e, t') \<Longrightarrow> t' = t"
  by (auto simp: root_CreateExcl_def split: if_splits sum.splits)

lemma set_at_twice_files:
  assumes "parent_ok t p"
  shows "file_at (set_at p x (set_at p y t)) = file_at (set_at p x t)"
  by (simp add: files_set_at assms parent_ok_same fun_eq_iff)

text \<open>A file under its temporary name: the tree \<open>u\<close> has it, and is otherwise as \<open>t\<close>.\<close>

definition staged :: "node \<Rightarrow> string list \<Rightarrow> string \<Rightarrow> int \<Rightarrow> node \<Rightarrow> bool" where
  "staged t tmp c now u \<longleftrightarrow> parent_ok t tmp \<and> get t tmp = Inl ENOENT \<and> parent_ok u tmp \<and>
     get u tmp = Inr (File c now) \<and>
     file_at u = (\<lambda>q. if q = tmp then Some (c, now) else file_at t q) \<and>
     (\<forall>q. \<not> prefix tmp q \<longrightarrow> isl (get u q) = isl (get t q))"

lemma isl_get_set_at:
  "parent_ok t p \<Longrightarrow> \<not> prefix p q \<Longrightarrow> isl (get (set_at p x t) q) = isl (get t q)"
proof (induction p x t arbitrary: q rule: set_at.induct)
  case (1 k x es)
  then show ?case by (cases q) (auto split: option.splits)
next
  case (2 k k' ks x es)
  then obtain m where m: "map_of es k = Some m" "parent_ok m (k' # ks)" by (auto simp: parent_ok_Cons)
  show ?case
  proof (cases q)
    case (Cons a q')
    show ?thesis
    proof (cases "a = k")
      case True
      with 2(3) Cons have "\<not> prefix (k' # ks) q'" by auto
      from 2(1) [OF m this] show ?thesis using Cons True m by simp
    next
      case False
      with Cons m show ?thesis by (auto split: option.splits)
    qed
  qed (use m in simp)
qed (auto simp: parent_ok_def neq_Nil_conv split: if_splits)

lemma staged_tree:
  assumes "root_CreateExcl tmp now t = (None, t1)"
  shows "staged t (segs tmp) c now (handle_Write tmp c now t1)"
proof -
  from root_CreateExcl_ok [OF assms] have p: "parent_ok t (segs tmp)" and g: "get t (segs tmp) = Inl ENOENT"
    and t1: "t1 = set_at (segs tmp) (Some (File [] now)) t" by blast+
  let ?u = "set_at (segs tmp) (Some (File c now)) t1"
  have p1: "parent_ok t1 (segs tmp)" unfolding t1 by (rule parent_ok_same [OF p])
  have "get ?u (segs tmp @ []) = Inr (File c now)"
    unfolding get_set_at_under [OF p1] by simp
  moreover have "file_at ?u = (\<lambda>q. if q = segs tmp then Some (c, now) else file_at t q)"
  proof -
    have "file_at ?u q = (if q = segs tmp then Some (c, now) else file_at t q)" for q
      using missing_no_file [OF g, of "drop (length (segs tmp)) q"]
      unfolding t1 set_at_twice_files [OF p] files_set_at [OF p]
      by (auto simp: file_at_File prefix_def)
    then show ?thesis by (rule ext)
  qed
  moreover have "isl (get ?u q) = isl (get t q)" if "\<not> prefix (segs tmp) q" for q
    using isl_get_set_at [OF p1 that] isl_get_set_at [OF p that] t1 by simp
  ultimately show ?thesis
    using p g parent_ok_same [OF p1] by (simp add: staged_def handle_Write_def)
qed

lemma staged_removed:
  assumes "staged t (segs tmp) c now u"
  shows "file_at (snd (root_Remove tmp u)) = file_at t"
proof -
  from assms have u: "parent_ok u (segs tmp)" "get u (segs tmp) = Inr (File c now)" "segs tmp \<noteq> []"
    "file_at u = (\<lambda>q. if q = segs tmp then Some (c, now) else file_at t q)" "get t (segs tmp) = Inl ENOENT"
    by (auto simp: staged_def parent_ok_def)
  have "file_at (set_at (segs tmp) None u) q = file_at t q" for q
    using missing_no_file [OF u(5), of "drop (length (segs tmp)) q"] u(4)
    by (auto simp: files_set_at [OF u(1)] prefix_def)
  then show ?thesis using u(2,3) by (simp add: root_Remove_def fun_eq_iff)
qed

lemma nothing_below:
  assumes "get u p = Inl e \<or> (get u p = Inr n \<and> \<not> is_dir n)" "r \<noteq> []"
  shows "file_at u (p @ r) = None"
  using assms by (cases n) (auto simp: file_at_def get_append neq_Nil_conv)

lemma replace_files:
  assumes st: "staged t tmp c now u" and sib: "butlast p = butlast tmp" "p \<noteq> []" "p \<noteq> tmp"
    and below: "\<And>r. r \<noteq> [] \<Longrightarrow> file_at u (p @ r) = None"
  shows "file_at (set_at p (Some (File c now)) (set_at tmp None u)) = (file_at t)(p := Some (c, now))"
    and "file_at (set_at tmp None (set_at p (Some (File c now)) u)) = (file_at t)(p := Some (c, now))"
proof -
  from st have u: "parent_ok u tmp" "tmp \<noteq> []" "get t tmp = Inl ENOENT"
    "\<And>q. file_at u q = (if q = tmp then Some (c, now) else file_at t q)"
    by (auto simp: staged_def parent_ok_def)
  have len: "length p = length tmp"
    using sib u(2) by (metis length_butlast length_greater_0_conv Suc_pred')
  then have np: "\<not> prefix tmp p" "\<not> prefix p tmp" using sib(3) by (auto simp: prefix_def)
  have pu: "parent_ok u p" using u(1) sib by (simp add: parent_ok_def)
  have pok: "parent_ok (set_at tmp None u) p" "parent_ok (set_at p (Some (File c now)) u) tmp"
    using parent_ok_sibling [OF u(1), of p] parent_ok_sibling [OF pu, of tmp] sib u(2) by simp_all
  have no_tmp: "file_at t (tmp @ r) = None" for r by (rule missing_no_file [OF u(3)])
  have no_p: "file_at t (p @ r) = None" if "r \<noteq> []" for r
  proof -
    have "p @ r \<noteq> tmp" using len that by (metis append_self_conv length_append add_cancel_right_right length_0_conv)
    then show ?thesis using below [OF that] u(4) [of "p @ r"] by simp
  qed
  have disj: "\<not> prefix tmp q" if "prefix p q" for q
    using that np prefix_same_cases by blast
  show "file_at (set_at p (Some (File c now)) (set_at tmp None u)) = (file_at t)(p := Some (c, now))"
  proof
    fix q
    show "file_at (set_at p (Some (File c now)) (set_at tmp None u)) q = ((file_at t)(p := Some (c, now))) q"
      using no_p [of "drop (length p) q"] no_tmp [of "drop (length tmp) q"] np u(4) [of q]
      by (auto simp: files_set_at [OF pok(1)] files_set_at [OF u(1)] file_at_File prefix_def)
  qed
  show "file_at (set_at tmp None (set_at p (Some (File c now)) u)) = (file_at t)(p := Some (c, now))"
  proof
    fix q
    show "file_at (set_at tmp None (set_at p (Some (File c now)) u)) q = ((file_at t)(p := Some (c, now))) q"
      using no_p [of "drop (length p) q"] no_tmp [of "drop (length tmp) q"] np disj u(4) [of q]
      by (auto simp: files_set_at [OF pok(2)] files_set_at [OF pu] file_at_File prefix_def)
  qed
qed

lemma root_parent_get:
  assumes "p \<noteq> []" "root_parent p t = Inr es"
  shows "get t p = (case map_of es (last p) of None \<Rightarrow> Inl ENOENT | Some n \<Rightarrow> Inr n)"
  using assms by (simp add: get_parent)

text \<open>What a rename of a staged file does when it goes through.\<close>

lemma rename_staged:
  assumes st: "staged t (segs tmp) c now u" and sib: "butlast (segs p) = butlast (segs tmp)" "segs p \<noteq> []"
    and call: "root_Rename tmp p u = (None, u')"
  shows "file_at u' = (file_at t)(segs p := Some (c, now))"
proof -
  from st have g: "get u (segs tmp) = Inr (File c now)" "segs tmp \<noteq> []"
    "file_at u = (\<lambda>q. if q = segs tmp then Some (c, now) else file_at t q)"
    by (auto simp: staged_def parent_ok_def)
  show ?thesis
  proof (cases "segs p = segs tmp")
    case True
    with call g(1,2) have "u' = u" by (auto simp: root_Rename_def split: sum.splits if_splits)
    with g(3) True show ?thesis by auto
  next
    case False
    from call g(1,2) sib(2) obtain es where es: "root_parent (segs p) u = Inr es"
      by (auto simp: root_Rename_def split: sum.splits)
    have u': "u' = set_at (segs p) (Some (File c now)) (set_at (segs tmp) None u)"
      and node: "\<not> (\<exists>ds. map_of es (last (segs p)) = Some (Dir ds))"
      using call g(1,2) sib(2) es False
      by (auto simp: root_Rename_def split: option.splits node.splits list.splits if_splits)
    have "file_at u (segs p @ r) = None" if "r \<noteq> []" for r
    proof (cases "map_of es (last (segs p))")
      case None
      then show ?thesis using root_parent_get [OF sib(2) es] missing_no_file [of u "segs p" ENOENT r] by simp
    next
      case (Some n)
      with node have "\<not> is_dir n" by (cases n) auto
      with Some show ?thesis
        using root_parent_get [OF sib(2) es] nothing_below [of u "segs p" ENOENT n r] that by simp
    qed
    from replace_files(1) [OF st sib False this] show ?thesis unfolding u' .
  qed
qed

lemma root_Rename_error: "root_Rename p q t = (Some e, t') \<Longrightarrow> t' = t"
  by (auto simp: root_Rename_def split: sum.splits if_splits option.splits node.splits list.splits)

lemma root_Link_error: "root_Link p q t = (Some e, t') \<Longrightarrow> t' = t"
  by (auto simp: root_Link_def split: sum.splits if_splits option.splits)

text \<open>A link of a staged file: the name was free.\<close>

lemma link_staged:
  assumes st: "staged t (segs tmp) c now u" and sib: "butlast (segs p) = butlast (segs tmp)" "segs p \<noteq> []"
    and call: "root_Link tmp p u = (None, u')"
  shows "file_at (snd (root_Remove tmp u')) = (file_at t)(segs p := Some (c, now)) \<and>
    isl (get t (segs p))"
proof -
  from st have g: "get u (segs tmp) = Inr (File c now)" "segs tmp \<noteq> []" "parent_ok u (segs tmp)"
    by (auto simp: staged_def parent_ok_def)
  from call g(1) sib(2) obtain es where es: "root_parent (segs p) u = Inr es" "map_of es (last (segs p)) = None"
    and u': "u' = set_at (segs p) (Some (File c now)) u"
    by (auto simp: root_Link_def split: sum.splits if_splits)
  have free: "get u (segs p) = Inl ENOENT" using root_parent_get [OF sib(2) es(1)] es(2) by simp
  with g(1) have ne: "segs p \<noteq> segs tmp" by auto
  have len: "length (segs p) = length (segs tmp)"
    using sib g(2) by (metis length_butlast length_greater_0_conv Suc_pred')
  have np: "\<not> prefix (segs tmp) (segs p)" "\<not> prefix (segs p) (segs tmp)" using len ne by (auto simp: prefix_def)
  have pu: "parent_ok u (segs p)" using g(3) sib by (simp add: parent_ok_def)
  have "get u' (segs tmp) = Inr (File c now)"
  proof -
    have "file_at u' (segs tmp) = file_at u (segs tmp)" unfolding u' by (rule file_at_set_at [OF pu np(2)])
    then have "file_at u' (segs tmp) = Some (c, now)" using g(1) by (simp add: file_at_def)
    then show ?thesis by (auto simp: file_at_def split: sum.splits node.splits)
  qed
  then have rm: "snd (root_Remove tmp u') = set_at (segs tmp) None u'" using g(2) by (simp add: root_Remove_def)
  have "file_at u (segs p @ r) = None" for r by (rule missing_no_file [OF free])
  then have "file_at (set_at (segs tmp) None u') = (file_at t)(segs p := Some (c, now))"
    unfolding u' by (intro replace_files(2) [OF st sib ne])
  moreover have "isl (get t (segs p))"
    using st np(1) free by (auto simp: staged_def)
  ultimately show ?thesis using rm by simp
qed

lemma place_object_files:
  assumes st: "staged t (segs tmp) c now u" and sib: "butlast (segs p) = butlast (segs tmp)" "segs p \<noteq> []"
    and call: "place_object mime tmp p co u = (res, u')"
  shows "case res of Inl e \<Rightarrow> file_at u' = file_at t
    | Inr i \<Rightarrow> i = infoFor mime p c now \<and> file_at u' = (file_at t)(segs p := Some (c, now)) \<and>
        (co \<longrightarrow> isl (get t (segs p)))"
proof -
  have fin: "get v (segs p) = Inr (File c now)" if "file_at v = (file_at t)(segs p := Some (c, now))" for v
    using fun_cong [OF that, of "segs p"] by (auto simp: file_at_def split: sum.splits node.splits)
  show ?thesis
  proof (cases co)
    case True
    show ?thesis
    proof (cases "root_Link tmp p u")
      case (Pair e v)
      show ?thesis
      proof (cases e)
        case (Some x)
        with Pair have "v = u" by (auto dest: root_Link_error)
        with Pair Some True call staged_removed [OF st] show ?thesis by (auto simp: place_object_def)
      next
        case None
        with link_staged [OF st sib] Pair
        have v: "file_at (snd (root_Remove tmp v)) = (file_at t)(segs p := Some (c, now))" "isl (get t (segs p))"
          by simp_all
        with Pair None True call fin [OF v(1)] show ?thesis
          by (auto simp: place_object_def root_Stat_def)
      qed
    qed
  next
    case False
    show ?thesis
    proof (cases "root_Rename tmp p u")
      case (Pair e v)
      show ?thesis
      proof (cases e)
        case (Some x)
        with Pair have "v = u" by (auto dest: root_Rename_error)
        with Pair Some False call staged_removed [OF st] show ?thesis by (auto simp: place_object_def)
      next
        case None
        with rename_staged [OF st sib] Pair
        have v: "file_at v = (file_at t)(segs p := Some (c, now))" by simp
        with Pair None False call fin [OF v] show ?thesis
          by (auto simp: place_object_def root_Stat_def)
      qed
    qed
  qed
qed

lemma split_on_butlast_last: "segs p \<noteq> [] \<Longrightarrow> butlast (segs p @ [x]) = segs p"
  by simp

lemma write_in_dir_files:
  assumes p: "wf_path p" and rn: "\<And>rn. rnd = Some rn \<Longrightarrow> slash \<notin> set rn"
    and call: "write_in_dir mime now rnd dk p r co t = (res, t')"
  shows "case res of Inl e \<Rightarrow> file_at t' = file_at t
    | Inr i \<Rightarrow> rdErr r = None \<and> i = infoFor mime p (rdBytes r) now \<and>
        file_at t' = (file_at t)(segs p := Some (rdBytes r, now)) \<and> (co \<longrightarrow> isl (get t (segs p)))"
proof (cases rnd)
  case None
  with call show ?thesis by (auto simp: write_in_dir_def)
next
  case (Some rn)
  define tmp where "tmp = tempName rn (path_dir p)"
  obtain e t1 where cr: "root_CreateExcl tmp now t = (e, t1)" by fastforce
  have sp: "segs p \<noteq> []" using p by (simp add: segs_wf_path)
  have sib: "butlast (segs p) = butlast (segs tmp)"
    unfolding tmp_def segs_tempName [OF p assms(2) [OF Some]] by simp
  show ?thesis
  proof (cases e)
    case (Some x)
    with cr have "t1 = t" by (auto dest: root_CreateExcl_error)
    with Some cr call \<open>rnd = Some rn\<close> show ?thesis by (auto simp: write_in_dir_def tmp_def Let_def)
  next
    case None
    note st = staged_tree [OF cr [unfolded None], of "rdBytes r"]
    show ?thesis
    proof (cases "copy_result dk r")
      case (Some x)
      with None cr call \<open>rnd = Some rn\<close> staged_removed [OF st] show ?thesis
        by (auto simp: write_in_dir_def tmp_def Let_def)
    next
      case ok: None
      with None cr call \<open>rnd = Some rn\<close>
      have "place_object mime tmp p co (handle_Write tmp (rdBytes r) now t1) = (res, t')"
        by (auto simp: write_in_dir_def tmp_def Let_def)
      from place_object_files [OF st sib sp this] ok show ?thesis
        by (auto simp: copy_result_def split: sum.splits option.splits)
    qed
  qed
qed

section \<open>Moves and deletes\<close>

lemma rename_files:
  assumes call: "root_Rename p q t = (None, t')" and ne: "segs p \<noteq> segs q"
    and free: "\<And>r. file_at t (segs q @ r) = None"
  shows "file_at t' = (\<lambda>x. if prefix (segs q) x then file_at t (segs p @ drop (length (segs q)) x)
     else if prefix (segs p) x then None else file_at t x)"
proof -
  from call obtain n es where n: "get t (segs p) = Inr n" "segs p \<noteq> []" "segs q \<noteq> []"
    and es: "root_parent (segs q) t = Inr es"
    by (auto simp: root_Rename_def split: sum.splits if_splits)
  with call ne have nodir: "\<not> (is_dir n \<and> prefix (segs p) (segs q))"
    and t': "t' = set_at (segs q) (Some n) (set_at (segs p) None t)"
    by (auto simp: root_Rename_def split: option.splits node.splits list.splits if_splits)
  have q: "parent_ok t (segs q)" "get t (butlast (segs q)) = Inr (Dir es)"
    using root_parent_ok [OF n(3) es] by simp_all
  have p: "parent_ok t (segs p)"
  proof (cases "root_parent (segs p) t")
    case (Inr ds)
    then show ?thesis using root_parent_ok [OF n(2)] by blast
  qed (use n in \<open>simp add: get_parent\<close>)
  have np: "\<not> prefix (segs p) (butlast (segs q))"
  proof
    assume "prefix (segs p) (butlast (segs q))"
    then obtain r where r: "butlast (segs q) = segs p @ r" by (auto simp: prefix_def)
    then have "get n r = Inr (Dir es)" using q(2) n(1) by (simp add: get_append)
    then have "is_dir n" by (cases n) auto
    moreover have "prefix (segs p) (segs q)" using r by (metis append_butlast_last_id n(3) append.assoc prefixI)
    ultimately show False using nodir by blast
  qed
  have ok: "parent_ok (set_at (segs p) None t) (segs q)" by (rule parent_ok_set_at [OF p q(1) np])
  show ?thesis
  proof
    fix x
    have "file_at n r = file_at t (segs p @ r)" for r using file_at_get [OF n(1)] by simp
    then show "file_at t' x = (if prefix (segs q) x then file_at t (segs p @ drop (length (segs q)) x)
       else if prefix (segs p) x then None else file_at t x)"
      unfolding t' files_set_at [OF ok] files_set_at [OF p] by simp
  qed
qed

text \<open>The files after a rename of path \<open>p\<close> to path \<open>q\<close>.\<close>

definition renamed :: "string list \<Rightarrow> string list \<Rightarrow> (string list \<Rightarrow> 'a option) \<Rightarrow> string list \<Rightarrow> 'a option" where
  "renamed p q v x =
     (if prefix q x then v (p @ drop (length q) x) else if prefix p x then None else v x)"

lemma fs_move_files:
  assumes call: "fs_move src dst wd (Some t) = (e, Some t')"
  shows "case e of
      Some _ \<Rightarrow> file_at t' = file_at t
    | None \<Rightarrow> (src = dst \<and> t' = t) \<or>
        (get t (segs dst) = Inl ENOENT \<and> (\<exists>n. get t (segs src) = Inr n \<and> is_dir n = wd) \<and>
         file_at t' = renamed (segs src) (segs dst) (file_at t))"
proof (cases "src = dst")
  case True
  with call show ?thesis
    by (auto simp: fs_move_def split: sum.splits if_splits option.splits)
next
  case False
  show ?thesis
  proof (cases "\<exists>n t1. openRoot (Some t) = Inr t \<and> root_Stat src t = Inr n \<and> is_dir n = wd \<and> (wd \<or> is_regular n) \<and>
      root_Stat dst t = Inl ENOENT \<and>
      (if path_dir dst \<noteq> ''.'' then mkdirAll (path_dir dst) t else (None, t)) = (None, t1)")
    case True
    then obtain n t1 where h: "openRoot (Some t) = Inr t" "root_Stat src t = Inr n" "is_dir n = wd" "wd \<or> is_regular n"
      "root_Stat dst t = Inl ENOENT" "(if path_dir dst \<noteq> ''.'' then mkdirAll (path_dir dst) t else (None, t)) = (None, t1)"
      by blast
    note f1 = made_dir_files [OF h(6)]
    obtain e1 t2 where r: "root_Rename src dst t1 = (e1, t2)" by fastforce
    have res: "e = map_option mapErr e1" "t' = t2" using call False h r by (auto simp: fs_move_def)
    show ?thesis
    proof (cases e1)
      case (Some x)
      with r have "t2 = t1" by (auto dest: root_Rename_error)
      with Some res f1 show ?thesis by simp
    next
      case None
      have ne: "segs src \<noteq> segs dst" using h(2,5) by (auto simp: root_Stat_def)
      have "file_at t1 (segs dst @ x) = None" for x
        using missing_no_file [of t "segs dst" ENOENT x] h(5) f1 by (simp add: root_Stat_def)
      from rename_files [OF r [unfolded None] ne this] f1
      have "file_at t2 = renamed (segs src) (segs dst) (file_at t)" by (simp add: renamed_def fun_eq_iff)
      with None res h show ?thesis by (auto simp: root_Stat_def)
    qed
  next
    case no: False
    have "e \<noteq> None \<and> file_at t' = file_at t"
      using call False no made_dir_files [of "path_dir dst \<noteq> ''.''" "path_dir dst" t]
      by (auto simp: fs_move_def openRoot_def split: sum.splits if_splits option.splits prod.splits)
    then show ?thesis by auto
  qed
qed

fun file_paths :: "node \<Rightarrow> string list list" where
  "file_paths (File _ _) = [[]]"
| "file_paths (Dir es) = concat (map (\<lambda>e. map (Cons (fst e)) (file_paths (snd e))) es)"
| "file_paths Special = []"

lemma length_file_paths: "length (file_paths n) = count_files n"
proof (induction n rule: count_files.induct)
  case (2 es)
  have "map length (map (\<lambda>e. map (Cons (fst e)) (file_paths (snd e))) es) = map (\<lambda>e. count_files (snd e)) es"
    using 2 by (auto intro!: map_cong [OF refl] simp: comp_def)
  from arg_cong [OF this, of sum_list] show ?case
    by (simp only: file_paths.simps count_files.simps length_concat)
qed simp_all

lemma set_file_paths: "wf_tree n \<Longrightarrow> set (file_paths n) = {r. file_at n r \<noteq> None}"
proof (induction n rule: file_paths.induct)
  case (1 c m)
  show ?case by (auto simp: file_at_File)
next
  case (2 es)
  have "r \<in> set (file_paths (Dir es)) \<longleftrightarrow> file_at (Dir es) r \<noteq> None" for r
  proof (cases r)
    case Nil
    then show ?thesis by (auto simp: file_at_Dir)
  next
    case (Cons k ks)
    have "r \<in> set (file_paths (Dir es)) \<longleftrightarrow> (\<exists>n. (k, n) \<in> set es \<and> ks \<in> set (file_paths n))"
      using Cons by force
    also have "\<dots> \<longleftrightarrow> (\<exists>n. map_of es k = Some n \<and> file_at n ks \<noteq> None)"
    proof -
      have "map_of es k = Some n \<longleftrightarrow> (k, n) \<in> set es" for n using 2(2) by simp
      moreover have "ks \<in> set (file_paths n) \<longleftrightarrow> file_at n ks \<noteq> None" if "(k, n) \<in> set es" for n
        using 2(1) [OF that] 2(2) that by auto
      ultimately show ?thesis by auto
    qed
    also have "\<dots> \<longleftrightarrow> file_at (Dir es) r \<noteq> None" using Cons by (simp add: file_at_Cons split: option.splits)
    finally show ?thesis .
  qed
  then show ?case by blast
qed (simp add: file_at_Special)

lemma distinct_file_paths: "wf_tree n \<Longrightarrow> distinct (file_paths n)"
proof (induction n rule: file_paths.induct)
  case (2 es)
  have "distinct (concat (map (\<lambda>e. map (Cons (fst e)) (file_paths (snd e))) ds))" if "set ds \<subseteq> set es" "distinct (map fst ds)" for ds
    using that
  proof (induction ds)
    case (Cons d ds)
    have "distinct (file_paths (snd d))" using 2 Cons.prems(1) by auto
    moreover have "set (map (Cons (fst d)) (file_paths (snd d))) \<inter>
        set (concat (map (\<lambda>e. map (Cons (fst e)) (file_paths (snd e))) ds)) = {}"
      using Cons.prems(2) by (auto dest: imageI [of _ _ fst])
    ultimately show ?case using Cons by (simp add: distinct_map)
  qed simp
  then show ?case using 2(2) by auto
qed simp_all

lemma count_files_card: "wf_tree n \<Longrightarrow> count_files n = card {r. file_at n r \<noteq> None}"
  using distinct_card [OF distinct_file_paths] by (simp add: set_file_paths length_file_paths)

end
