(* ===== verification/Fs_Listing.thy ===== *)
theory Fs_Listing
  imports Fs_Laws
begin

text \<open>
  The filesystem kind's listing: the order of \<^verbatim>\<open>comparePaths\<close>, the files a walk visits, why the
  directories it skips hold nothing after the cursor, and the pages a client collects.
\<close>

section \<open>The path order\<close>

lemma nil_less: "([] :: string list) < xs \<longleftrightarrow> xs \<noteq> []"
  by (cases xs) simp_all

lemma append_less: "(ps @ a :: string list) < ps @ b \<longleftrightarrow> a < b"
  by (induction ps) simp_all

lemma cmp_segs_sign:
  "(cmp_segs a b < 0 \<longleftrightarrow> a < b) \<and> (cmp_segs a b = 0 \<longleftrightarrow> a = b) \<and> (cmp_segs a b > 0 \<longleftrightarrow> b < a)"
  by (induction a b rule: cmp_segs.induct) (auto simp: strings_Compare_def Let_def nil_less)

lemma afterCursor_iff: "afterCursor p c \<longleftrightarrow> c = [] \<or> comps c < comps p"
  by (simp add: afterCursor_def comparePaths_def cmp_segs_sign)

definition good_seg :: "string \<Rightarrow> bool" where
  "good_seg s \<longleftrightarrow> s \<noteq> [] \<and> slash \<notin> set s"

definition pre_of :: "string list \<Rightarrow> string" where
  "pre_of ps = concat (map (\<lambda>s. s @ ''/'') ps)"

lemma pre_of_snoc: "pre_of ps @ k @ ''/'' = pre_of (ps @ [k])"
  by (simp add: pre_of_def)

lemma pre_of_join: "ks \<noteq> [] \<Longrightarrow> pre_of ps @ join_with slash ks = join_with slash (ps @ ks)"
  by (induction ps) (auto simp: pre_of_def join_with_cons)

lemma join_last:
  "ks \<noteq> [] \<Longrightarrow> \<forall>k \<in> set ks. good_seg k \<Longrightarrow> join_with slash ks \<noteq> [] \<and> last (join_with slash ks) \<noteq> slash"
proof (induction ks)
  case (Cons k ks)
  then show ?case
    by (cases ks) (auto simp: good_seg_def join_with_cons dest: last_in_set)
qed simp

lemma comps_join:
  assumes "ks \<noteq> []" "\<forall>k \<in> set ks. good_seg k"
  shows "comps (join_with slash ks) = ks" "comps (join_with slash ks @ ''/'') = ks"
proof -
  have "split_on slash (join_with slash ks) = ks"
    using assms by (intro split_join) (auto simp: good_seg_def)
  moreover have "TrimSuffix (join_with slash ks) ''/'' = join_with slash ks"
    using join_last [OF assms] by (intro TrimSuffix_no) (simp add: suffix_single)
  ultimately show "comps (join_with slash ks) = ks" "comps (join_with slash ks @ ''/'') = ks"
    by (simp_all add: comps_def)
qed

section \<open>The files a walk visits\<close>

function vis :: "(string \<times> node) list \<Rightarrow> (string list \<times> string \<times> int) list" where
  "vis [] = []"
| "vis ((name, n) # es) =
     (if HasPrefix name tempPrefix then []
      else case n of
             Dir ds \<Rightarrow> map (\<lambda>x. (name # fst x, snd x)) (vis (sort_key fst ds))
           | File c m \<Rightarrow> [([name], (c, m))]
           | Special \<Rightarrow> []) @ vis es"
  by pat_completeness auto

termination
  by (relation "measure entries_size") (simp_all add: entries_size_Dir entries_size_Cons)

definition names_ok :: "(string \<times> node) list \<Rightarrow> bool" where
  "names_ok es \<longleftrightarrow> wf_tree (Dir es) \<and> sorted (map fst es)"

lemma names_ok_sort: "wf_tree (Dir es) \<Longrightarrow> names_ok (sort_key fst es)"
proof -
  assume w: "wf_tree (Dir es)"
  have "mset (map fst (sort_key fst es)) = mset (map fst es)" by simp
  then have "distinct (map fst (sort_key fst es)) = distinct (map fst es)" using mset_eq_imp_distinct_iff by blast
  with w show ?thesis by (simp add: names_ok_def)
qed

lemma names_ok_Cons:
  "names_ok ((k, n) # es) \<Longrightarrow> names_ok es \<and> good_seg k \<and> wf_tree n \<and> (\<forall>e \<in> set es. k < fst e)"
  by (auto simp: names_ok_def good_seg_def less_le image_iff)

lemma file_at_sort: "wf_tree (Dir es) \<Longrightarrow> file_at (Dir (sort_key fst es)) = file_at (Dir es)"
proof
  fix q
  assume w: "wf_tree (Dir es)"
  then have "map_of (sort_key fst es) = map_of es"
    using names_ok_sort [OF w] by (intro map_of_inject_set [THEN iffD2]) (simp_all add: names_ok_def)
  then show "file_at (Dir (sort_key fst es)) q = file_at (Dir es) q"
    by (cases q) (simp_all add: file_at_Dir file_at_Cons)
qed

definition seen :: "string list \<Rightarrow> bool" where
  "seen ks \<longleftrightarrow> ks \<noteq> [] \<and> (\<forall>k \<in> set ks. \<not> HasPrefix k tempPrefix)"

lemma under_name:
  assumes "\<not> HasPrefix name tempPrefix"
  shows "(\<lambda>x. (name # fst x, snd x)) ` {(ks, x). seen ks \<and> file_at (Dir ds) ks = Some x} =
    {(ks, x). seen ks \<and> hd ks = name \<and> file_at (Dir ds) (tl ks) = Some x}" (is "?L = ?R")
proof
  show "?L \<subseteq> ?R" using assms by (auto simp: seen_def)
  show "?R \<subseteq> ?L"
  proof
    fix p assume "p \<in> ?R"
    then obtain r x where p: "p = (name # r, x)" "seen (name # r)" "file_at (Dir ds) r = Some x"
      by (cases p; cases "fst p") (auto simp: seen_def)
    then have "r \<noteq> []" by (auto simp: file_at_Dir)
    with p show "p \<in> ?L" by (intro rev_image_eqI [of "(r, x)"]) (auto simp: seen_def)
  qed
qed

lemma set_vis: "names_ok es \<Longrightarrow> set (vis es) = {(ks, x). seen ks \<and> file_at (Dir es) ks = Some x}"
proof (induction es rule: vis.induct)
  case 1
  show ?case by (auto simp: file_at_def seen_def neq_Nil_conv)
next
  case (2 name n es)
  note ok = names_ok_Cons [OF 2(3)]
  have rest: "set (vis es) = {(ks, x). seen ks \<and> file_at (Dir es) ks = Some x}" using 2(2) ok by blast
  have new: "\<not> (\<exists>n. (name, n) \<in> set es)" using ok by force
  have head: "set (if HasPrefix name tempPrefix then []
      else case n of Dir ds \<Rightarrow> map (\<lambda>x. (name # fst x, snd x)) (vis (sort_key fst ds))
           | File c m \<Rightarrow> [([name], (c, m))] | Special \<Rightarrow> []) =
      {(ks, x). seen ks \<and> hd ks = name \<and> file_at n (tl ks) = Some x}"
  proof (cases n)
    case (File c m)
    then show ?thesis by (auto simp: seen_def file_at_File neq_Nil_conv split: if_splits)
  next
    case (Dir ds)
    then have w: "wf_tree (Dir ds)" using ok by simp
    have "set (vis (sort_key fst ds)) = {(ks, x). seen ks \<and> file_at (Dir ds) ks = Some x}"
      if "\<not> HasPrefix name tempPrefix"
      using 2(1) [OF that Dir names_ok_sort [OF w]] by (simp add: file_at_sort [OF w])
    then show ?thesis using Dir under_name [of name ds] by (cases "HasPrefix name tempPrefix") (auto simp: seen_def)
  next
    case Special
    then show ?thesis by (auto simp: file_at_Special)
  qed
  have "file_at (Dir ((name, n) # es)) ks = (if hd ks = name then file_at n (tl ks) else file_at (Dir es) ks)"
    if "ks \<noteq> []" for ks
    using that by (cases ks) (auto simp: file_at_Cons)
  moreover have "file_at (Dir es) ks = None" if "ks \<noteq> []" "hd ks = name" for ks
    using that new by (cases ks) (auto simp: file_at_Cons map_of_eq_None_iff split: option.splits dest: map_of_SomeD)
  ultimately show ?case
    unfolding vis.simps set_append head rest by (auto simp: seen_def split: if_splits)
qed

lemma sorted_vis: "names_ok es \<Longrightarrow> sorted_wrt (<) (map fst (vis es))"
proof (induction es rule: vis.induct)
  case (2 name n es)
  note ok = names_ok_Cons [OF 2(3)]
  have later: "name < hd (fst x) \<and> fst x \<noteq> []" if "x \<in> set (vis es)" for x
  proof -
    from that set_vis [of es] ok have "fst x \<noteq> []" "file_at (Dir es) (fst x) \<noteq> None" by (auto simp: seen_def)
    then show ?thesis using ok
      by (cases "fst x") (auto simp: file_at_Cons split: option.splits dest!: map_of_SomeD)
  qed
  have rest: "sorted_wrt (<) (map fst (vis es))" using 2(2) ok by blast
  let ?h = "if HasPrefix name tempPrefix then []
      else case n of Dir ds \<Rightarrow> map (\<lambda>x. (name # fst x, snd x)) (vis (sort_key fst ds))
           | File c m \<Rightarrow> [([name], (c, m))] | Special \<Rightarrow> []"
  have head: "sorted_wrt (<) (map fst ?h)"
  proof (cases n)
    case (Dir ds)
    with ok have "names_ok (sort_key fst ds)" by (intro names_ok_sort) simp
    with 2(1) Dir show ?thesis by (auto simp: sorted_wrt_map)
  qed simp_all
  have "hd (fst x) = name \<and> fst x \<noteq> []" if "x \<in> set ?h" for x
    using that by (auto split: node.splits if_splits)
  then have "fst x < fst y" if "x \<in> set ?h" "y \<in> set (vis es)" for x y
    using that later [of y] by (cases "fst x"; cases "fst y") fastforce+
  then show ?case
    unfolding vis.simps map_append sorted_wrt_append using head rest by auto
qed simp

section \<open>The walk collects the files after the cursor\<close>

text \<open>The information of the files a walk below \<open>ps\<close> visits, in order.\<close>

definition infos :: "(string \<Rightarrow> string) \<Rightarrow> string list \<Rightarrow> (string list \<times> string \<times> int) list \<Rightarrow> object_info list" where
  "infos mime ps xs = map (\<lambda>x. infoFor mime (join_with slash (ps @ fst x)) (fst (snd x)) (snd (snd x))) xs"

lemma infoFor_path [simp]: "oiPath (infoFor mime p c m) = p"
  by (simp add: infoFor_def)

lemma vis_good: "names_ok es \<Longrightarrow> x \<in> set (vis es) \<Longrightarrow> fst x \<noteq> [] \<and> (\<forall>k \<in> set (fst x). good_seg k)"
proof (induction es arbitrary: x rule: vis.induct)
  case (2 name n es)
  note ok = names_ok_Cons [OF 2(3)]
  show ?case
  proof (cases "x \<in> set (vis es)")
    case False
    show ?thesis
    proof (cases n)
      case (Dir ds)
      with ok have "names_ok (sort_key fst ds)" by (intro names_ok_sort) simp
      with 2 Dir False ok show ?thesis by (auto split: if_splits)
    qed (use False 2(4) ok in \<open>auto split: if_splits\<close>)
  qed (use 2(2) ok in blast)
qed simp

text \<open>Everything below a skipped directory is at or before the cursor.\<close>

lemma less_append: "(a :: string list) < c \<Longrightarrow> \<not> prefix a c \<Longrightarrow> a @ b < c"
proof (induction a arbitrary: c)
  case (Cons x a)
  then show ?case by (cases c) auto
qed simp

lemma skips_sound:
  assumes "ps \<noteq> []" "\<forall>p \<in> set ps. good_seg p" "ks \<noteq> []" "\<forall>k \<in> set ks. good_seg k"
    and "skips cursor (join_with slash ps)"
  shows "\<not> afterCursor (join_with slash (ps @ ks)) cursor"
proof -
  from assms have less: "ps < comps cursor" and ne: "cursor \<noteq> []"
    and np: "\<not> prefix (join_with slash ps @ ''/'') cursor"
    by (auto simp: skips_def comparePaths_def cmp_segs_sign comps_join)
  have "\<not> prefix ps (comps cursor)"
  proof
    assume "prefix ps (comps cursor)"
    then obtain r where r: "comps cursor = ps @ r" by (auto simp: prefix_def)
    with less have "r \<noteq> []" by auto
    then have "pre_of ps @ join_with slash r = TrimSuffix cursor ''/''"
      using arg_cong [OF r, of "join_with slash"] by (simp add: comps_def pre_of_join)
    moreover have "join_with slash ps @ ''/'' = pre_of ps"
      using assms(1) by (induction ps rule: list_nonempty_induct) (auto simp: pre_of_def join_with_cons)
    ultimately have "prefix (join_with slash ps @ ''/'') (TrimSuffix cursor ''/'')" by (metis prefixI)
    moreover have "prefix (TrimSuffix cursor ''/'') cursor"
      by (cases rule: TrimSuffix_cases [of "''/''" cursor]) (metis prefixI, simp)
    ultimately have "prefix (join_with slash ps @ ''/'') cursor" by (rule prefix_order.trans)
    with np show False ..
  qed
  from less_append [OF less this, of ks] have "\<not> comps cursor < ps @ ks" by (rule less_not_sym)
  moreover have "comps (join_with slash (ps @ ks)) = ps @ ks" using assms(1-4) by (intro comps_join) auto
  ultimately show ?thesis using ne by (simp add: afterCursor_iff)
qed

definition after :: "string \<Rightarrow> object_info list \<Rightarrow> object_info list" where
  "after cursor = filter (\<lambda>i. afterCursor (oiPath i) cursor)"

definition capped :: "nat \<Rightarrow> object_info list \<Rightarrow> object_info list \<times> bool" where
  "capped limit all = (if length all > limit then (take (Suc limit) all, True) else (all, False))"

lemma capped_append:
  "capped limit (out @ a @ b) =
     (case capped limit (out @ a) of (o1, full) \<Rightarrow> if full then (o1, True) else capped limit (o1 @ b))"
  by (auto simp: capped_def)

lemma infos_under: "infos mime ps (map (\<lambda>x. (k # fst x, snd x)) xs) = infos mime (ps @ [k]) xs"
  by (simp add: infos_def comp_def)

lemma infos_append: "infos mime ps (xs @ ys) = infos mime ps xs @ infos mime ps ys"
  by (simp add: infos_def)

lemma join_snoc: "join_with slash (ps @ [k]) = pre_of ps @ k"
  using pre_of_join [of "[k]" ps] by simp

lemma walk_entries_eq:
  assumes "names_ok es" "\<forall>p \<in> set ps. good_seg p" "length out \<le> limit"
  shows "walk_entries mime cursor limit (pre_of ps) es out = capped limit (out @ after cursor (infos mime ps (vis es)))"
  using assms
proof (induction es arbitrary: ps out rule: vis.induct)
  case 1
  then show ?case by (simp add: capped_def after_def infos_def)
next
  case (2 name n es)
  note ok = names_ok_Cons [OF 2(3)]
  note rest = 2(2) [OF conjunct1 [OF ok] 2(4)]
  have path: "pre_of ps @ name = join_with slash (ps @ [name])" by (simp add: join_snoc)
  show ?case
  proof (cases "HasPrefix name tempPrefix")
    case True
    with rest 2(5) show ?thesis by simp
  next
    case shown: False
    show ?thesis
    proof (cases n)
      case (File c m)
      let ?i = "infoFor mime (pre_of ps @ name) c m"
      have i: "after cursor (infos mime ps (vis ((name, n) # es))) =
          (if afterCursor (pre_of ps @ name) cursor then [?i] else []) @ after cursor (infos mime ps (vis es))"
        using shown File by (simp add: infos_def after_def join_snoc)
      show ?thesis
        unfolding i using shown File 2(5) rest [of out] rest [of "out @ [?i]"]
        by (auto simp: capped_def Suc_diff_le)
    next
      case (Dir ds)
      with ok have w: "names_ok (sort_key fst ds)" by (intro names_ok_sort) simp
      have good: "\<forall>p \<in> set (ps @ [name]). good_seg p" using 2(4) ok by simp
      let ?sub = "after cursor (infos mime (ps @ [name]) (vis (sort_key fst ds)))"
      have i: "after cursor (infos mime ps (vis ((name, n) # es))) = ?sub @ after cursor (infos mime ps (vis es))"
        using shown Dir by (simp add: infos_append infos_under after_def)
      have sub: "walk_entries mime cursor limit (pre_of ps @ name @ ''/'') (sort_key fst ds) out = capped limit (out @ ?sub)"
        using 2(1) [OF shown Dir w good 2(5)] by (simp only: pre_of_snoc)
      show ?thesis
      proof (cases "skips cursor (pre_of ps @ name)")
        case True
        have "?sub = []"
          unfolding after_def filter_empty_conv
        proof
          fix x assume "x \<in> set (infos mime (ps @ [name]) (vis (sort_key fst ds)))"
          then obtain y where y: "y \<in> set (vis (sort_key fst ds))" "oiPath x = join_with slash ((ps @ [name]) @ fst y)"
            by (auto simp: infos_def)
          from skips_sound [OF _ good, of "fst y" cursor] vis_good [OF w y(1)] True show "\<not> afterCursor (oiPath x) cursor"
            unfolding y(2) path by blast
        qed
        with i True shown Dir rest [OF 2(5)] show ?thesis by simp
      next
        case False
        have "walk_entries mime cursor limit (pre_of ps) ((name, n) # es) out =
            (case capped limit (out @ ?sub) of (o1, full) \<Rightarrow>
               if full then (o1, True) else walk_entries mime cursor limit (pre_of ps) es o1)"
          using False shown Dir sub by simp
        also have "\<dots> = (case capped limit (out @ ?sub) of (o1, full) \<Rightarrow>
               if full then (o1, True) else capped limit (o1 @ after cursor (infos mime ps (vis es))))"
          using rest by (auto simp: capped_def)
        finally show ?thesis unfolding i capped_append .
      qed
    next
      case Special
      with shown rest 2(5) show ?thesis by simp
    qed
  qed
qed

section \<open>One directory\<close>

fun shown :: "(string \<Rightarrow> string) \<Rightarrow> string list \<Rightarrow> (string \<times> node) list \<Rightarrow> object_info list" where
  "shown mime ps [] = []"
| "shown mime ps ((name, n) # es) =
     (if HasPrefix name tempPrefix then []
      else case n of
             Dir _ \<Rightarrow> [dir_entry (join_with slash (ps @ [name]) @ ''/'')]
           | File c m \<Rightarrow> [infoFor mime (join_with slash (ps @ [name])) c m]
           | Special \<Rightarrow> []) @ shown mime ps es"

lemma dir_entry_path [simp]: "oiPath (dir_entry p) = p"
  by (simp add: dir_entry_def)

lemma list_entries_eq:
  "length out \<le> limit \<Longrightarrow>
     list_entries mime (pre_of ps) cursor limit es out = fst (capped limit (out @ after cursor (shown mime ps es)))"
proof (induction mime "pre_of ps" cursor limit es out rule: list_entries.induct)
  case (1 mime cursor limit out)
  then show ?case by (simp add: capped_def after_def)
next
  case (2 mime cursor limit name n es out)
  have cap: "fst (capped limit ((out @ [i]) @ r)) = out @ [i]" if "limit < Suc (length out)" "length out \<le> limit" for i r
    using that by (cases "limit = length out") (simp_all add: capped_def)
  show ?case
  proof (cases n)
    case (Dir ds)
    then show ?thesis using 2 cap
      by (auto simp: after_def join_snoc Let_def)
  next
    case (File c m)
    then show ?thesis using 2 cap
      by (auto simp: after_def join_snoc Let_def)
  next
    case Special
    then show ?thesis using 2 by (auto simp: after_def Let_def)
  qed
qed

definition in_order :: "object_info list \<Rightarrow> bool" where
  "in_order = sorted_wrt (\<lambda>a b. comps (oiPath a) < comps (oiPath b))"

lemma shown_paths:
  "names_ok es \<Longrightarrow> \<forall>p \<in> set ps. good_seg p \<Longrightarrow> i \<in> set (shown mime ps es) \<Longrightarrow>
     \<exists>k \<in> set (map fst es). comps (oiPath i) = ps @ [k] \<and> oiPath i \<noteq> []"
proof (induction es)
  case (Cons e es)
  obtain name n where e: "e = (name, n)" by fastforce
  note ok = names_ok_Cons [OF Cons.prems(1) [unfolded e]]
  then have "\<forall>p \<in> set (ps @ [name]). good_seg p" using Cons.prems(2) by simp
  note c = comps_join [OF _ this, simplified] join_last [OF _ this]
  show ?case
  proof (cases "i \<in> set (shown mime ps es)")
    case False
    then show ?thesis using Cons.prems(3) e c by (auto split: node.splits if_splits)
  qed (use Cons.IH Cons.prems(2) ok in auto)
qed simp

lemma shown_in_order:
  "names_ok es \<Longrightarrow> \<forall>p \<in> set ps. good_seg p \<Longrightarrow> in_order (shown mime ps es)"
proof (induction es)
  case (Cons e es)
  obtain name n where e: "e = (name, n)" by fastforce
  note ok = names_ok_Cons [OF Cons.prems(1) [unfolded e]]
  then have "\<forall>p \<in> set (ps @ [name]). good_seg p" using Cons.prems(2) by simp
  note c = comps_join [OF _ this, simplified]
  have "ps @ [name] < comps (oiPath i)" if i: "i \<in> set (shown mime ps es)" for i
  proof -
    from shown_paths [OF conjunct1 [OF ok] Cons.prems(2) i] obtain k where
      "k \<in> fst ` set es" "comps (oiPath i) = ps @ [k]" by auto
    with ok show ?thesis by (auto simp: append_less)
  qed
  with Cons.IH [OF conjunct1 [OF ok] Cons.prems(2)] show ?case
    unfolding e in_order_def by (auto simp: c split: node.splits)
qed (simp add: in_order_def)

lemma infos_in_order:
  assumes "names_ok es" "\<forall>p \<in> set ps. good_seg p"
  shows "in_order (infos mime ps (vis es))"
proof -
  have "comps (join_with slash (ps @ fst x)) = ps @ fst x" if "x \<in> set (vis es)" for x
    using vis_good [OF assms(1) that] assms(2) by (intro comps_join) auto
  then show ?thesis
    using sorted_vis [OF assms(1)] unfolding in_order_def infos_def sorted_wrt_map
    by (rule_tac sorted_wrt_mono_rel) (auto simp: append_less)
qed

lemma infos_paths:
  assumes "names_ok es" "\<forall>p \<in> set ps. good_seg p" "i \<in> set (infos mime ps (vis es))"
  shows "oiPath i \<noteq> []"
proof -
  from assms(3) obtain x where x: "x \<in> set (vis es)" "oiPath i = join_with slash (ps @ fst x)"
    by (auto simp: infos_def)
  with vis_good [OF assms(1) x(1)] assms(2) join_last [of "ps @ fst x"] show ?thesis by auto
qed

section \<open>Pages\<close>

lemma get_err: "get t p = Inl e \<Longrightarrow> e = ENOENT \<or> e = ENOTDIR"
  by (induction t p rule: get.induct) (auto split: option.splits)

definition full_listing :: "(string \<Rightarrow> string) \<Rightarrow> bool \<Rightarrow> string list \<Rightarrow> node \<Rightarrow> object_info list" where
  "full_listing mime recursive ps t =
     (case get t ps of
        Inr (Dir es) \<Rightarrow>
          if \<not> recursive then shown mime ps (sort_key fst es)
          else if ps \<noteq> [] \<and> HasPrefix (last ps) tempPrefix then []
          else infos mime ps (vis (sort_key fst es))
      | _ \<Rightarrow> [])"

lemma page_of_capped: "0 < limit \<Longrightarrow> page_result limit (fst (capped limit all)) = page_result limit all"
  by (auto simp: page_result_def capped_def min_def)

lemma skip_all:
  assumes "ps \<noteq> []" "\<forall>p \<in> set ps. good_seg p" "names_ok es" "skips cursor (join_with slash ps)"
  shows "after cursor (infos mime ps (vis es)) = []"
  using skips_sound [OF assms(1,2) _ _ assms(4)] vis_good [OF assms(3)]
  by (auto simp: after_def filter_empty_conv infos_def)

lemma good_dir:
  assumes "P = [] \<or> wf_path (TrimSuffix P ''/'')" "CleanPrefix p = Inr P" and q: "q = TrimSuffix P ''/''"
  shows "(P = [] \<and> segs q = [] \<and> q = []) \<or>
    (q \<noteq> [] \<and> q \<noteq> ''.'' \<and> segs q = split_on slash q \<and> (\<forall>s \<in> set (segs q). good_seg s) \<and> segs q \<noteq> [] \<and>
     P = pre_of (segs q) \<and> q = join_with slash (segs q) \<and> valid_fs_path q \<and> q @ ''/'' = P)"
proof (cases "P = []")
  case True
  then show ?thesis using q by (simp add: TrimSuffix_def segs_def)
next
  case False
  with assms have wf: "wf_path q" by simp
  have P: "P = q @ ''/''" using False assms(2) q by (auto simp: CleanPrefix_Inr)
  note sq = segs_wf_path [OF wf]
  have good: "\<forall>s \<in> set (segs q). good_seg s"
    using segs_no_slash [of _ q] by (simp add: good_seg_def)
  have "pre_of ps = join_with slash ps @ ''/''" if "ps \<noteq> []" for ps
    using that by (induction ps rule: list_nonempty_induct) (auto simp: pre_of_def join_with_cons)
  then have "P = pre_of (segs q)" using P sq by simp
  moreover have "valid_fs_path q" using wf by (simp add: valid_fs_path_def wf_path_def list_all_iff)
  ultimately show ?thesis
    using wf sq good P wf_path_nonempty [OF wf] wf_path_dot [OF wf] by simp
qed

text \<open>
  A listing is a page of the full listing: the entries after the cursor, cut at the limit,
  with the last path as the cursor of the next page if there is more.
\<close>

lemma fs_List_pages:
  assumes t: "is_dir t" "wf_tree t" and P: "CleanPrefix (loPrefix opts) = Inr P"
    and dir: "P = [] \<or> wf_path (TrimSuffix P ''/'')"
  shows "fs_List mime opts (Some t) =
    (Inr (page_result (nat (EffectiveLimit opts))
       (after (loCursor opts) (full_listing mime (loRecursive opts) (segs (TrimSuffix P ''/'')) t))), Some t)"
proof -
  define q where "q = TrimSuffix P ''/''"
  define limit where "limit = nat (EffectiveLimit opts)"
  have pos: "0 < limit" using EffectiveLimit_bounds [of opts] by (simp add: limit_def)
  note D = good_dir [OF dir P q_def]
  have empty: "page_result limit [] = \<lparr>lrEntries = [], lrNextCursor = []\<rparr>" by (simp add: page_result_def)
  have dot: "segs ''.'' = []" by (simp add: segs_def)
  have open_t: "openRoot (Some t) = Inr t" using t by (simp add: openRoot_def)
  define start where "start = (if q = [] then ''.'' else q)"
  define collected where "collected = (if loRecursive opts then walk mime start (loCursor opts) limit t
    else listDir mime start P (loCursor opts) limit t)"
  define page where "page = (case collected of
      Inl e \<Rightarrow> if e = ENOENT \<or> isNotDir e then (Inr \<lparr>lrEntries = [], lrNextCursor = []\<rparr>, Some t) else (Inl (mapErr e), Some t)
    | Inr entries \<Rightarrow> (Inr (page_result limit entries), Some t))"
  have list: "fs_List mime opts (Some t) =
     (if start = ''.'' then page
      else case root_Stat start t of
             Inl e \<Rightarrow> if e = ENOENT \<or> isNotDir e then (Inr \<lparr>lrEntries = [], lrNextCursor = []\<rparr>, Some t) else (Inl (mapErr e), Some t)
           | Inr n \<Rightarrow> if is_dir n then page else (Inr \<lparr>lrEntries = [], lrNextCursor = []\<rparr>, Some t))"
    unfolding page_def collected_def start_def q_def limit_def fs_List_def Let_def P open_t by simp
  show ?thesis
  proof (cases "\<exists>es. get t (segs q) = Inr (Dir es)")
    case False
    then have full: "full_listing mime (loRecursive opts) (segs q) t = []"
      by (auto simp: full_listing_def split: sum.splits node.splits)
    have ne: "q \<noteq> []" using False t by (cases t) (auto simp: segs_def)
    with D have "start = q" "start \<noteq> ''.''" by (auto simp: start_def)
    then show ?thesis unfolding list full limit_def [symmetric] q_def [symmetric]
      using False by (cases "get t (segs q)")
        (auto simp: root_Stat_def after_def empty isNotDir_def dest: get_err elim!: is_dir.elims)
  next
    case True
    then obtain es where es: "get t (segs q) = Inr (Dir es)" by blast
    have ok: "names_ok (sort_key fst es)" using wf_get [OF t(2) es] by (rule names_ok_sort)
    have start: "get t (segs start) = Inr (Dir es)" using es dot by (auto simp: start_def segs_def)
    have good: "\<forall>s \<in> set (segs q). good_seg s" and pre: "P = pre_of (segs q)"
      using D by (auto simp: pre_of_def)
    have rec: "walk mime start (loCursor opts) limit t =
        Inr (fst (capped limit (after (loCursor opts) (full_listing mime True (segs q) t))))"
    proof (cases "q = []")
      case True
      with walk_entries_eq [OF ok, of "[]" "[]" limit mime "loCursor opts"] es
      show ?thesis by (simp add: start_def walk_def valid_fs_path_def root_Stat_def dot full_listing_def tempPrefix_def pre_of_def segs_def)
    next
      case False
      with D have q: "q \<noteq> ''.''" "segs q = split_on slash q" "segs q \<noteq> []" "q = join_with slash (segs q)" "valid_fs_path q" "q @ ''/'' = pre_of (segs q)"
        by auto
      show ?thesis
        using False q es walk_entries_eq [OF ok good, of "[]" limit mime "loCursor opts"]
          skip_all [OF q(3) good ok, of "loCursor opts" mime]
        by (auto simp: start_def walk_def root_Stat_def full_listing_def capped_def after_def Let_def)
    qed
    have flat: "listDir mime start P (loCursor opts) limit t =
        Inr (fst (capped limit (after (loCursor opts) (full_listing mime False (segs q) t))))"
      using start es list_entries_eq [of "[]" limit mime "segs q" "loCursor opts"]
      by (simp add: listDir_def root_Stat_def full_listing_def pre)
    have "page = (Inr (page_result limit (after (loCursor opts) (full_listing mime (loRecursive opts) (segs q) t))), Some t)"
      using rec flat by (cases "loRecursive opts") (simp_all add: page_def collected_def page_of_capped [OF pos])
    moreover have "root_Stat start t = Inr (Dir es)" using start by (simp add: root_Stat_def)
    ultimately show ?thesis unfolding list limit_def [symmetric] q_def [symmetric] by simp
  qed
qed

lemma full_listing_order:
  assumes t: "wf_tree t" and ps: "\<forall>s \<in> set ps. good_seg s"
  shows "in_order (full_listing mime recursive ps t) \<and> (\<forall>i \<in> set (full_listing mime recursive ps t). oiPath i \<noteq> [])"
proof (cases "\<exists>es. get t ps = Inr (Dir es)")
  case True
  then obtain es where es: "get t ps = Inr (Dir es)" by blast
  have ok: "names_ok (sort_key fst es)" using wf_get [OF t es] by (rule names_ok_sort)
  show ?thesis
    using es shown_in_order [OF ok ps] infos_in_order [OF ok ps] infos_paths [OF ok ps] shown_paths [OF ok ps]
    by (auto simp: full_listing_def in_order_def)
next
  case False
  then have "full_listing mime recursive ps t = []" by (auto simp: full_listing_def split: sum.splits node.splits)
  then show ?thesis by (simp add: in_order_def)
qed

text \<open>What a client does to get everything: it lists, and lists again from the cursor returned.\<close>

fun collect_pages ::
    "nat \<Rightarrow> (string \<Rightarrow> string) \<Rightarrow> list_options \<Rightarrow> node option \<Rightarrow> object_info list option" where
  "collect_pages 0 mime opts s = None"
| "collect_pages (Suc n) mime opts s =
     (case fs_List mime opts s of
        (Inl e, s1) \<Rightarrow> None
      | (Inr r, s1) \<Rightarrow>
          if lrNextCursor r = [] then Some (lrEntries r)
          else map_option ((@) (lrEntries r)) (collect_pages n mime (opts\<lparr>loCursor := lrNextCursor r\<rparr>) s1))"

lemma after_next:
  assumes "in_order all" "xs = after c all" "0 < limit" "limit < length xs" "\<forall>i \<in> set all. oiPath i \<noteq> []"
  shows "after (oiPath (xs ! (limit - 1))) all = drop limit xs"
proof -
  let ?i = "xs ! (limit - 1)"
  have i: "?i \<in> set xs" using assms(3,4) by simp
  then have ne: "oiPath ?i \<noteq> []" and aft: "afterCursor (oiPath ?i) c" using assms(2,5) by (auto simp: after_def)
  have "after (oiPath ?i) all = after (oiPath ?i) xs"
    unfolding assms(2) after_def filter_filter
    using aft ne assms(2) by (intro filter_cong refl) (auto simp: afterCursor_iff after_def)
  also have "\<dots> = after (oiPath ?i) (take limit xs @ drop limit xs)" by simp
  also have "\<dots> = drop limit xs"
  proof -
    have ord: "sorted_wrt (\<lambda>a b. comps (oiPath a) < comps (oiPath b)) xs"
      using assms(1,2) by (simp add: in_order_def after_def sorted_wrt_filter)
    have "\<not> comps (oiPath ?i) < comps (oiPath x)" if "x \<in> set (take limit xs)" for x
    proof -
      from that obtain j where j: "j < limit" "x = xs ! j" using assms(4) by (auto simp: in_set_conv_nth)
      then consider "j = limit - 1" | "j < limit - 1" by linarith
      then show ?thesis
      proof cases
        case 2
        with sorted_wrt_nth_less [OF ord 2] assms(4) j(2) have "comps (oiPath x) < comps (oiPath ?i)" by simp
        then show ?thesis by (rule less_not_sym)
      qed (use j(2) in simp)
    qed
    moreover have "comps (oiPath ?i) < comps (oiPath x)" if "x \<in> set (drop limit xs)" for x
    proof -
      from that obtain j where "x = xs ! (limit + j)" "limit + j < length xs" by (auto simp: in_set_conv_nth)
      then show ?thesis using sorted_wrt_nth_less [OF ord, of "limit - 1" "limit + j"] assms(3) by auto
    qed
    ultimately have "after (oiPath ?i) (take limit xs) = []" "after (oiPath ?i) (drop limit xs) = drop limit xs"
      using ne by (simp_all add: after_def afterCursor_iff filter_empty_conv filter_id_conv)
    then show ?thesis by (simp only: after_def filter_append append_Nil)
  qed
  finally show ?thesis .
qed

lemma collect_all:
  assumes t: "is_dir t" "wf_tree t" and P: "CleanPrefix (loPrefix opts) = Inr P"
    and dir: "P = [] \<or> wf_path (TrimSuffix P ''/'')"
    and all: "all = full_listing mime (loRecursive opts) (segs (TrimSuffix P ''/'')) t"
    and fuel: "length (after (loCursor opts) all) < n"
  shows "collect_pages n mime opts (Some t) = Some (after (loCursor opts) all)"
  using P all fuel
proof (induction n arbitrary: opts)
  case (Suc n)
  let ?xs = "after (loCursor opts) all"
  let ?limit = "nat (EffectiveLimit opts)"
  have pos: "0 < ?limit" using EffectiveLimit_bounds [of opts] by simp
  have list: "fs_List mime opts (Some t) = (Inr (page_result ?limit ?xs), Some t)"
    using fs_List_pages [OF t Suc.prems(1) dir] Suc.prems(2) by simp
  have "\<forall>s \<in> set (segs (TrimSuffix P ''/'')). good_seg s"
    using segs_no_slash by (auto simp: good_seg_def)
  from full_listing_order [OF t(2) this] Suc.prems(2)
  have ord: "in_order all" "\<forall>i \<in> set all. oiPath i \<noteq> []" by auto
  show ?case
  proof (cases "length ?xs > ?limit")
    case False
    with list show ?thesis by (simp add: page_result_def)
  next
    case True
    let ?c = "oiPath (?xs ! (?limit - 1))"
    have "?xs ! (?limit - 1) \<in> set all" using True pos nth_mem [of "?limit - 1" ?xs] by (auto simp: after_def)
    then have "?c \<noteq> []" using ord(2) by blast
    moreover have nx: "after ?c all = drop ?limit ?xs" by (rule after_next [OF ord(1) refl pos True ord(2)])
    moreover have "collect_pages n mime (opts\<lparr>loCursor := ?c\<rparr>) (Some t) = Some (after ?c all)"
      using Suc.IH [of "opts\<lparr>loCursor := ?c\<rparr>"] Suc.prems pos True nx by simp
    ultimately show ?thesis using list True by (simp add: page_result_def)
  qed
qed simp

section \<open>What the full listing holds\<close>

lemma full_listing_files:
  assumes t: "wf_tree t" and ps: "\<forall>s \<in> set ps. good_seg s" "ps = [] \<or> \<not> HasPrefix (last ps) tempPrefix"
  shows "set (full_listing mime True ps t) =
    {infoFor mime (join_with slash (ps @ ks)) c m | ks c m. seen ks \<and> file_at t (ps @ ks) = Some (c, m)}"
proof (cases "get t ps")
  case (Inl e)
  then show ?thesis using missing_no_file [OF Inl] by (simp add: full_listing_def)
next
  case (Inr n)
  have below: "file_at t (ps @ ks) = file_at n ks" for ks by (rule file_at_get [OF Inr])
  show ?thesis
  proof (cases n)
    case (Dir es)
    have w: "wf_tree (Dir es)" using wf_get [OF t Inr] Dir by simp
    have "set (full_listing mime True ps t) = set (infos mime ps (vis (sort_key fst es)))"
      using Inr Dir ps(2) by (auto simp: full_listing_def)
    also have "\<dots> = (\<lambda>x. infoFor mime (join_with slash (ps @ fst x)) (fst (snd x)) (snd (snd x))) `
        {(ks, x). seen ks \<and> file_at (Dir es) ks = Some x}"
      unfolding infos_def set_map set_vis [OF names_ok_sort [OF w]] file_at_sort [OF w] ..
    also have "\<dots> = {infoFor mime (join_with slash (ps @ ks)) c m | ks c m. seen ks \<and> file_at (Dir es) ks = Some (c, m)}"
      by (force simp: image_iff)
    finally show ?thesis using below Dir by simp
  qed (use Inr below in \<open>auto simp: full_listing_def file_at_File file_at_Special seen_def\<close>)
qed

text \<open>The entry a directory listing shows for a name, if any.\<close>

definition entry_shown :: "(string \<Rightarrow> string) \<Rightarrow> string list \<Rightarrow> string \<Rightarrow> node \<Rightarrow> object_info option" where
  "entry_shown mime ps k n =
     (if HasPrefix k tempPrefix then None
      else case n of
             Dir _ \<Rightarrow> Some (dir_entry (join_with slash (ps @ [k]) @ ''/''))
           | File c m \<Rightarrow> Some (infoFor mime (join_with slash (ps @ [k])) c m)
           | Special \<Rightarrow> None)"

lemma shown_Cons:
  "shown mime ps ((k, n) # es) = (case entry_shown mime ps k n of None \<Rightarrow> [] | Some i \<Rightarrow> [i]) @ shown mime ps es"
  by (cases n) (simp_all add: entry_shown_def)

lemma set_shown: "set (shown mime ps es) = {i. \<exists>k n. (k, n) \<in> set es \<and> entry_shown mime ps k n = Some i}"
proof (induction es)
  case (Cons e es)
  obtain k n where e: "e = (k, n)" by fastforce
  show ?case unfolding e shown_Cons set_append Cons.IH
    by (cases "entry_shown mime ps k n") (simp_all, auto)
qed simp

lemma full_listing_entries:
  assumes t: "wf_tree t"
  shows "set (full_listing mime False ps t) = {i. \<exists>k n. get t (ps @ [k]) = Inr n \<and> entry_shown mime ps k n = Some i}"
proof (cases "\<exists>es. get t ps = Inr (Dir es)")
  case True
  then obtain es where es: "get t ps = Inr (Dir es)" by blast
  have "distinct (map fst es)" using wf_get [OF t es] by simp
  then have "get t (ps @ [k]) = Inr n \<longleftrightarrow> (k, n) \<in> set es" for k n
    using es by (auto simp: get_append map_of_eq_None_iff dest: eq_key_imp_eq_value split: option.splits intro: rev_image_eqI)
  with es show ?thesis by (simp add: full_listing_def set_shown)
next
  case False
  then have "get t (ps @ [k]) \<noteq> Inr n" for k n
    by (auto simp: get_append split: sum.splits elim: get.elims)
  moreover from False have "full_listing mime False ps t = []"
    by (auto simp: full_listing_def split: sum.splits node.splits)
  ultimately show ?thesis by simp
qed

end
