(* ===== verification/Fs_Claims.thy ===== *)
theory Fs_Claims
  imports Fs_Listing
begin

text \<open>
  What the filesystem kind promises of the files under its root: writes, moves and deletes
  are all or nothing, what was written is what is read.  \<^const>\<open>file_at\<close> is every regular file
  of the tree, the backend's own temporary files included.
\<close>

definition example_tree :: node where
  "example_tree = Dir [(''a'', Dir [(''y'', File ''22'' 6), (''x'', File ''1'' 5)]), (''b'', File ''333'' 7)]"

definition no_mime :: "string \<Rightarrow> string" where "no_mime = (\<lambda>_. [])"

definition good_disk :: disk where
  "good_disk = \<lparr>dkWrite = None, dkSync = None, dkClose = None\<rparr>"

definition example_reader :: "string \<Rightarrow> reader" where
  "example_reader c = \<lparr>rdBytes = c, rdErr = None\<rparr>"

definition plain_write :: write_options where
  "plain_write = \<lparr>woContentType = [], woCreateOnly = False\<rparr>"

text \<open>Reading a path depends only on the file there.\<close>

lemma get_errors: "get t p = Inl e \<Longrightarrow> e = ENOENT \<or> e = ENOTDIR"
  by (induction t p rule: get.induct) (auto split: option.splits)

lemma read_file_at:
  "wf_path p \<Longrightarrow> is_dir t \<Longrightarrow> fs_Read mime p (Some t) =
     (case file_at t (segs p) of
        None \<Rightarrow> Inl ErrNotFound
      | Some (c, m) \<Rightarrow> Inr (\<lparr>rdBytes = c, rdErr = None\<rparr>, infoFor mime p c m), Some t)"
  by (auto simp: fs_Read_def CleanPath_Inr [THEN iffD2] openRoot_def root_Stat_def file_at_def mapErr_def isNotDir_def
      dest: get_errors split: sum.splits node.splits)

lemma fs_Write_files:
  assumes rn: "\<And>rn. rnd = Some rn \<Longrightarrow> slash \<notin> set rn" and call: "fs_Write mime now rnd dk p r opts (Some t) = (res, s')"
  shows "\<exists>t'. s' = Some t' \<and>
    (case res of
       Inl e \<Rightarrow> file_at t' = file_at t
     | Inr i \<Rightarrow> wf_path p \<and> rdErr r = None \<and> i = infoFor mime p (rdBytes r) now \<and>
         file_at t' = (file_at t)(segs p \<mapsto> (rdBytes r, now)) \<and>
         (woCreateOnly opts \<longrightarrow> file_at t (segs p) = None))"
proof (cases "wf_path p \<and> is_dir t")
  case False
  with call show ?thesis
    by (cases "CleanPath p") (auto simp: fs_Write_def openRoot_def CleanPath_Inr)
next
  case True
  then have cl: "CleanPath p = Inr p" and wf: "wf_path p" and op: "openRoot (Some t) = Inr t"
    by (simp_all add: CleanPath_Inr openRoot_def)
  obtain e t1 where mk: "(if path_dir p \<noteq> ''.'' then mkdirAll (path_dir p) t else (None, t)) = (e, t1)" by fastforce
  note f1 = made_dir_files [OF mk]
  show ?thesis
  proof (cases e)
    case (Some x)
    with call cl op mk f1 show ?thesis by (auto simp: fs_Write_def)
  next
    case None
    obtain res' t2 where w: "write_in_dir mime now rnd dk p r (woCreateOnly opts) t1 = (res', t2)" by fastforce
    with call cl op mk None have eq: "res = res'" "s' = Some t2" by (auto simp: fs_Write_def)
    have free: "isl (get t1 (segs p)) \<Longrightarrow> file_at t (segs p) = None"
      using f1 by (auto simp: file_at_def isl_def fun_eq_iff dest: spec [of _ "segs p"] split: sum.splits)
    from write_in_dir_files [OF wf rn w] eq f1 wf free show ?thesis
      by (auto split: sum.splits)
  qed
qed

text \<open>
  C9. A write to the filesystem is all or nothing: when it reports an error, every file of
  the tree (temporary files included) is as before; when it succeeds, exactly the file it
  names now holds the bytes of the body, whose reader ended without an error, the returned
  information describes it, and a create-only write found no file there.
\<close>

theorem fs_write_atomic:
  assumes "\<forall>rn. rnd = Some rn \<longrightarrow> slash \<notin> set rn" and "fs_Write mime now rnd dk p r opts (Some t) = (res, s')"
  shows "\<exists>t'. s' = Some t' \<and>
    (case res of
       Inl e \<Rightarrow> file_at t' = file_at t
     | Inr i \<Rightarrow> rdErr r = None \<and> i = infoFor mime p (rdBytes r) now \<and>
         file_at t' = (file_at t)(segs p \<mapsto> (rdBytes r, now)) \<and>
         (woCreateOnly opts \<longrightarrow> file_at t (segs p) = None))"
  using fs_Write_files [OF _ assms(2)] assms(1) by (fastforce split: sum.splits)

lemma fs_write_atomic_witness:
  "\<exists>t'. snd (fs_Write no_mime 9 (Some ''k'') good_disk ''a/z'' (example_reader ''new'') plain_write (Some example_tree)) = Some t' \<and>
     file_at t' [''a'', ''z''] = Some (''new'', 9) \<and> file_at t' [''a'', ''x''] = Some (''1'', 5)"
proof -
  obtain res s' where call: "fs_Write no_mime 9 (Some ''k'') good_disk ''a/z'' (example_reader ''new'') plain_write
      (Some example_tree) = (res, s')" by fastforce
  have "isl (fst (fs_Write no_mime 9 (Some ''k'') good_disk ''a/z'' (example_reader ''new'') plain_write
      (Some example_tree))) = False" by code_simp
  with call obtain i where i: "res = Inr i" by (cases res) auto
  have "segs ''a/z'' = [''a'', ''z'']" "file_at example_tree [''a'', ''x''] = Some (''1'', 5)"
    "rdBytes (example_reader ''new'') = ''new''" by code_simp+
  with fs_write_atomic [OF _ call] i show ?thesis by (auto simp: call)
qed

text \<open>
  C32. What was written is what is read: after a write that succeeded, reading the path gives
  the bytes written and the same information, and reading any other path gives what it gave
  before.
\<close>

theorem fs_write_read:
  assumes "\<forall>rn. rnd = Some rn \<longrightarrow> slash \<notin> set rn" and "fs_Write mime now rnd dk p r opts s = (Inr i, s')"
  shows "fs_Read mime p s' = (Inr (\<lparr>rdBytes = rdBytes r, rdErr = None\<rparr>, i), s') \<and>
    (\<forall>q. q \<noteq> p \<longrightarrow> fst (fs_Read mime q s') = fst (fs_Read mime q s))"
proof (cases s)
  case None
  with assms(2) show ?thesis by (auto simp: fs_Write_def openRoot_def split: sum.splits)
next
  case (Some t)
  from fs_Write_files [OF _ assms(2) [unfolded Some]] assms(1)
  obtain t' where t': "s' = Some t'" "wf_path p" "i = infoFor mime p (rdBytes r) now"
    "file_at t' = (file_at t)(segs p \<mapsto> (rdBytes r, now))" by auto
  have d: "is_dir t" using assms(2) Some by (auto simp: fs_Write_def openRoot_def split: sum.splits if_splits)
  have d': "is_dir t'"
  proof (cases t')
    case (File c m)
    have "[] \<noteq> segs p" using t'(2) segs_wf_path [of p] by (metis split_on_nonempty)
    with fun_cong [OF t'(4), of "[]"] have "file_at t' [] = file_at t []" by simp
    with File d show ?thesis by (cases t) (auto simp: file_at_File file_at_Dir)
  next
    case Special
    with fun_cong [OF t'(4), of "segs p"] show ?thesis by (simp add: file_at_Special)
  qed simp
  have "fst (fs_Read mime q s') = fst (fs_Read mime q s)" if ne: "q \<noteq> p" for q
  proof (cases "wf_path q")
    case True
    with ne t'(2) have "segs q \<noteq> segs p" by (auto simp: segs_wf_path dest: split_on_inj)
    with True d d' t' Some show ?thesis by (simp add: read_file_at)
  next
    case False
    then show ?thesis by (cases "CleanPath q") (auto simp: fs_Read_def CleanPath_Inr)
  qed
  with t' d' show ?thesis by (simp add: read_file_at)
qed

lemma fs_write_read_witness:
  "\<exists>i s'. fs_Write no_mime 9 (Some ''k'') good_disk ''b'' (example_reader ''new'') plain_write (Some example_tree) = (Inr i, s') \<and>
     fst (fs_Read no_mime ''b'' s') = Inr (\<lparr>rdBytes = ''new'', rdErr = None\<rparr>, i)"
proof -
  obtain res s' where call: "fs_Write no_mime 9 (Some ''k'') good_disk ''b'' (example_reader ''new'') plain_write
      (Some example_tree) = (res, s')" by fastforce
  have "isl (fst (fs_Write no_mime 9 (Some ''k'') good_disk ''b'' (example_reader ''new'') plain_write
      (Some example_tree))) = False" by code_simp
  with call obtain i where i: "res = Inr i" by (cases res) auto
  with fs_write_read [OF _ call [unfolded i]] call show ?thesis by (simp add: example_reader_def)
qed

text \<open>
  A move on the filesystem is exactly a rename.  Moving one object that succeeds took a
  file that existed to a path where there was none and changed nothing else; a move that
  fails changes no file.
\<close>

theorem fs_move_object_exact:
  assumes "fs_MoveObject src dst (Some t) = (e, s')"
  shows "\<exists>t'. s' = Some t' \<and>
    (case e of
       Some _ \<Rightarrow> file_at t' = file_at t
     | None \<Rightarrow> src = dst \<and> t' = t \<or>
         file_at t (segs src) \<noteq> None \<and> file_at t (segs dst) = None \<and>
         file_at t' = (file_at t)(segs dst := file_at t (segs src), segs src := None))"
proof (cases "wf_path src \<and> wf_path dst")
  case False
  with assms show ?thesis by (auto simp: fs_MoveObject_def CleanPath_Inr split: sum.splits)
next
  case True
  then have cl: "CleanPath src = Inr src" "CleanPath dst = Inr dst" by (simp_all add: CleanPath_Inr)
  with assms have mv: "fs_move src dst False (Some t) = (e, s')" by (simp add: fs_MoveObject_def)
  then obtain t' where t': "s' = Some t'" by (auto simp: fs_move_def split: sum.splits if_splits prod.splits option.splits)
  note F = fs_move_files [OF mv [unfolded t']]
  show ?thesis
  proof (cases "e = None \<and> src \<noteq> dst")
    case False
    with F t' show ?thesis by (auto split: option.splits)
  next
    case moved: True
    with F obtain n where n: "get t (segs dst) = Inl ENOENT" "get t (segs src) = Inr n" "\<not> is_dir n"
      "file_at t' = renamed (segs src) (segs dst) (file_at t)" by auto
    from mv moved n(2) have reg: "is_regular n"
      by (auto simp: fs_move_def root_Stat_def openRoot_def split: if_splits)
    then obtain c m where nf: "n = File c m" by (cases n) auto
    have below: "file_at t (segs src @ r) = (if r = [] then Some (c, m) else None)" for r
      using file_at_get [OF n(2)] nf by (simp add: file_at_File)
    have free: "file_at t (segs dst @ r) = None" for r by (rule missing_no_file [OF n(1)])
    have "renamed (segs src) (segs dst) (file_at t) x =
        ((file_at t)(segs dst := file_at t (segs src), segs src := None)) x" for x
    proof -
      have "segs src \<noteq> segs dst" using n(1,2) by auto
      moreover have "\<not> prefix (segs dst) (segs src)"
        using free below [of "[]"] by (auto simp: prefix_def)
      moreover have "file_at t x = None" if "prefix (segs src) x" "x \<noteq> segs src"
        using that below by (auto simp: prefix_def split: if_splits)
      moreover have "file_at t x = None" if "prefix (segs dst) x" using that free by (auto simp: prefix_def)
      moreover have "file_at t (segs src @ drop (length (segs dst)) x) = None" if "prefix (segs dst) x" "x \<noteq> segs dst"
        using that below by (auto simp: prefix_def)
      ultimately show ?thesis using below [of "[]"] by (auto simp: renamed_def)
    qed
    with moved t' n(4) below [of "[]"] free [of "[]"] show ?thesis by (auto simp: fun_eq_iff)
  qed
qed

lemma fs_move_object_exact_witness:
  "\<exists>t'. fs_MoveObject ''b'' ''c/d'' (Some example_tree) = (None, Some t') \<and>
     file_at t' [''c'', ''d''] = Some (''333'', 7) \<and> file_at t' [''b''] = None"
proof -
  obtain e s' where call: "fs_MoveObject ''b'' ''c/d'' (Some example_tree) = (e, s')" by fastforce
  have "fst (fs_MoveObject ''b'' ''c/d'' (Some example_tree)) = None" by code_simp
  with call have e: "e = None" by simp
  have "segs ''b'' = [''b'']" "segs ''c/d'' = [''c'', ''d'']" "file_at example_tree [''b''] = Some (''333'', 7)"
    by code_simp+
  with fs_move_object_exact [OF call [unfolded e]] call e show ?thesis by auto
qed



lemma existing_parent: "get t p = Inr n \<Longrightarrow> p \<noteq> [] \<Longrightarrow> parent_ok t p"
  using root_parent_ok [of p t] by (cases "root_parent p t") (auto simp: get_parent)

lemma removed_files:
  "get t p = Inr n \<Longrightarrow> p \<noteq> [] \<Longrightarrow> file_at (set_at p None t) = (\<lambda>x. if prefix p x then None else file_at t x)"
  by (subst files_set_at [OF existing_parent]) (auto simp: fun_eq_iff)

lemma fs_DeleteObject_files:
  assumes "fs_DeleteObject p (Some t) = (e, s')"
  shows "case e of
      Some _ \<Rightarrow> s' = Some t
    | None \<Rightarrow> file_at t (segs p) \<noteq> None \<and> (\<exists>t'. s' = Some t' \<and> file_at t' = (file_at t)(segs p := None))"
proof (cases "wf_path p \<and> is_dir t \<and> (\<exists>c m. get t (segs p) = Inr (File c m))")
  case True
  then obtain c m where g: "get t (segs p) = Inr (File c m)" and ne: "segs p \<noteq> []"
    and cl: "CleanPath p = Inr p" by (auto simp: CleanPath_Inr segs_wf_path)
  have "file_at t x = None" if "prefix (segs p) x" "x \<noteq> segs p" for x
    using that file_at_get [OF g] by (auto simp: prefix_def file_at_File split: if_splits)
  then have "file_at (set_at (segs p) None t) = (file_at t)(segs p := None)"
    unfolding removed_files [OF g ne] by (auto simp: fun_eq_iff)
  with True g ne cl assms show ?thesis
    by (auto simp: fs_DeleteObject_def openRoot_def root_Stat_def root_Remove_def file_at_def)
next
  case False
  with assms have "e \<noteq> None \<and> s' = Some t"
    by (auto simp: fs_DeleteObject_def openRoot_def root_Stat_def CleanPath_Inr
        split: sum.splits if_splits node.splits elim!: is_regular.elims)
  then show ?thesis by auto
qed

lemma fs_DeleteFolder_files:
  assumes wf: "wf_tree t" and f: "CleanFolder d = Inr f" "q = TrimSuffix f ''/''"
    and call: "fs_DeleteFolder d (Some t) = Some ((n, e), s')"
  shows "case e of
      Some _ \<Rightarrow> s' = Some t
    | None \<Rightarrow> (valid_fs_path q \<longrightarrow> n = card {x. prefix (segs q) x \<and> file_at t x \<noteq> None}) \<and>
        (\<exists>t'. s' = Some t' \<and> file_at t' = (\<lambda>x. if prefix (segs q) x then None else file_at t x))"
proof (cases "is_dir t \<and> segs q \<noteq> [] \<and> (\<exists>es. get t (segs q) = Inr (Dir es))")
  case True
  then obtain es where g: "get t (segs q) = Inr (Dir es)" and ne: "segs q \<noteq> []" by blast
  have "{x. prefix (segs q) x \<and> file_at t x \<noteq> None} = (@) (segs q) ` {r. file_at (Dir es) r \<noteq> None}"
    using file_at_get [OF g] by (auto simp: prefix_def)
  then have "card {x. prefix (segs q) x \<and> file_at t x \<noteq> None} = count_files (Dir es)"
    using count_files_card [OF wf_get [OF wf g]] by (simp add: card_image inj_on_def)
  moreover have "e = None" "s' = Some (set_at (segs q) None t)" "valid_fs_path q \<longrightarrow> n = count_files (Dir es)"
    using True g f call by (auto simp: fs_DeleteFolder_def openRoot_def root_Stat_def root_RemoveAll_def Let_def)
  ultimately show ?thesis using removed_files [OF g ne] by simp
next
  case False
  note D = fs_DeleteFolder_def openRoot_def root_Stat_def root_RemoveAll_def Let_def
  have "e \<noteq> None \<and> s' = Some t"
  proof (cases "is_dir t")
    case dir: True
    show ?thesis
    proof (cases "get t (segs q)")
      case (Inl x)
      then show ?thesis using dir f call by (auto simp: D)
    next
      case (Inr m)
      show ?thesis
      proof (cases m)
        case (Dir es)
        with False dir Inr have "segs q = []" by auto
        with Dir Inr dir f call show ?thesis by (auto simp: D)
      qed (use Inr dir f call in \<open>auto simp: D\<close>)
    qed
  qed (use f call in \<open>auto simp: D\<close>)
  then show ?thesis by auto
qed



text \<open>
  C35. Listing with cursors is complete.  A client that lists a folder page by page, with any
  page size, ends and has every visible entry exactly once, in the order of the path segments:
  for a recursive listing every file under the prefix that is not inside or itself a hidden
  temporary name, for a plain one every file and sub-folder of the folder.
\<close>

theorem fs_list_complete:
  assumes t: "is_dir t" "wf_tree t" and P: "CleanPrefix (loPrefix opts) = Inr P"
    and dir: "P = [] \<or> wf_path (TrimSuffix P ''/'')" and ps: "ps = segs (TrimSuffix P ''/'')"
    and opts: "loCursor opts = []" "ps = [] \<or> \<not> HasPrefix (last ps) tempPrefix"
  shows "\<exists>n all. collect_pages n mime opts (Some t) = Some all \<and>
    sorted_wrt (\<lambda>a b. comps (oiPath a) < comps (oiPath b)) all \<and>
    set all = (if loRecursive opts
      then {infoFor mime (join_with slash (ps @ ks)) c m | ks c m. seen ks \<and> file_at t (ps @ ks) = Some (c, m)}
      else {i. \<exists>k n. get t (ps @ [k]) = Inr n \<and> entry_shown mime ps k n = Some i})"
proof -
  let ?all = "full_listing mime (loRecursive opts) ps t"
  have "after (loCursor opts) ?all = ?all" using opts(1) by (simp add: after_def afterCursor_def)
  then obtain n where "collect_pages n mime opts (Some t) = Some ?all"
    using collect_all [OF t P dir refl, of mime "Suc (length ?all)"] ps by (metis lessI)
  moreover have good: "\<forall>s \<in> set ps. good_seg s" using segs_no_slash ps by (auto simp: good_seg_def)
  moreover have "in_order ?all" using full_listing_order [OF t(2) good] by blast
  ultimately show ?thesis
    using full_listing_files [OF t(2) good opts(2), of mime] full_listing_entries [OF t(2), of mime ps]
    by (cases "loRecursive opts") (auto simp: in_order_def)
qed

definition list_all_opts :: list_options where
  "list_all_opts = \<lparr>loPrefix = [], loRecursive = True, loLimit = 1, loCursor = [], loMarkers = False\<rparr>"

lemma fs_list_complete_witness:
  "\<exists>n all. collect_pages n no_mime list_all_opts (Some example_tree) = Some all \<and>
     infoFor no_mime ''a/x'' ''1'' 5 \<in> set all"
proof -
  have h: "is_dir example_tree" "wf_tree example_tree" "CleanPrefix (loPrefix list_all_opts) = Inr []"
    "[] = segs (TrimSuffix [] ''/'')" "loCursor list_all_opts = []" "loRecursive list_all_opts"
    "seen [''a'', ''x'']" "file_at example_tree ([] @ [''a'', ''x'']) = Some (''1'', 5)" "join_with slash ([] @ [''a'', ''x'']) = ''a/x''"
    by code_simp+
  obtain n all where "collect_pages n no_mime list_all_opts (Some example_tree) = Some all"
    "set all = {infoFor no_mime (join_with slash ([] @ ks)) c m | ks c m. seen ks \<and> file_at example_tree ([] @ ks) = Some (c, m)}"
    using fs_list_complete [OF h(1-3) _ h(4,5), of no_mime] h(6) by auto
  with h(7-9) show ?thesis by force
qed

text \<open>
  One listing never returns more entries than its limit, and returns a cursor exactly
  when entries remain; nothing at or before the cursor given is returned, and the tree is not
  touched.
\<close>

theorem fs_list_page_bounds:
  assumes t: "is_dir t" "wf_tree t" and P: "CleanPrefix (loPrefix opts) = Inr P"
    and dir: "P = [] \<or> wf_path (TrimSuffix P ''/'')"
  shows "\<exists>r. fs_List mime opts (Some t) = (Inr r, Some t) \<and> int (length (lrEntries r)) \<le> EffectiveLimit opts \<and>
    (\<forall>i \<in> set (lrEntries r). afterCursor (oiPath i) (loCursor opts)) \<and>
    (lrNextCursor r \<noteq> [] \<longleftrightarrow> (\<exists>i \<in> set (full_listing mime (loRecursive opts) (segs (TrimSuffix P ''/'')) t).
       afterCursor (oiPath i) (loCursor opts) \<and> i \<notin> set (lrEntries r)))"
proof -
  let ?all = "full_listing mime (loRecursive opts) (segs (TrimSuffix P ''/'')) t"
  let ?xs = "after (loCursor opts) ?all"
  let ?limit = "nat (EffectiveLimit opts)"
  have pos: "0 < ?limit" "int ?limit = EffectiveLimit opts" using EffectiveLimit_bounds [of opts] by simp_all
  have "\<forall>s \<in> set (segs (TrimSuffix P ''/'')). good_seg s" using segs_no_slash by (auto simp: good_seg_def)
  from full_listing_order [OF t(2) this] have ord: "in_order ?all" "\<forall>i \<in> set ?all. oiPath i \<noteq> []" by auto
  have aft: "set ?xs = {i \<in> set ?all. afterCursor (oiPath i) (loCursor opts)}" by (auto simp: after_def)
  have "sorted_wrt (<) (map (\<lambda>i. comps (oiPath i)) ?xs)"
    using ord(1) by (simp add: in_order_def after_def sorted_wrt_filter sorted_wrt_map)
  then have dist: "distinct ?xs" by (simp add: strict_sorted_iff distinct_map)
  show ?thesis
  proof (cases "?limit < length ?xs")
    case True
    have mem: "?xs ! (?limit - 1) \<in> set ?all" using True pos nth_mem [of "?limit - 1" ?xs] by (auto simp: after_def)
    have x: "?xs ! ?limit \<in> set ?xs" "?xs ! ?limit \<notin> set (take ?limit ?xs)"
      using True dist by (auto simp: in_set_conv_nth nth_eq_iff_index_eq)
    with fs_List_pages [OF t P dir, of mime] True pos aft ord(2) mem show ?thesis
      by (auto simp: page_result_def dest: in_set_takeD)
  next
    case False
    with fs_List_pages [OF t P dir, of mime] pos aft show ?thesis by (auto simp: page_result_def)
  qed
qed

lemma fs_list_page_bounds_witness:
  "\<exists>r. fs_List no_mime list_all_opts (Some example_tree) = (Inr r, Some example_tree) \<and> length (lrEntries r) \<le> 1"
proof -
  have h: "is_dir example_tree" "wf_tree example_tree" "CleanPrefix (loPrefix list_all_opts) = Inr []"
    "EffectiveLimit list_all_opts = 1" by code_simp+
  then show ?thesis using fs_list_page_bounds [OF h(1-3), of no_mime] by auto
qed

section \<open>The tree stays well formed\<close>

text \<open>One call of a state-changing method of the filesystem kind, with any outcome.\<close>

inductive fs_step :: "node option \<Rightarrow> node option \<Rightarrow> bool" where
  step_write: "fs_Write mime now rnd dk p r opts s = (res, s') \<Longrightarrow> fs_step s s'"
| step_mkdir: "fs_Mkdir p s = (e, s') \<Longrightarrow> fs_step s s'"
| step_delete_object: "fs_DeleteObject p s = (e, s') \<Longrightarrow> fs_step s s'"
| step_delete_folder: "fs_DeleteFolder p s = Some (r, s') \<Longrightarrow> fs_step s s'"
| step_move_object: "fs_MoveObject p q s = (e, s') \<Longrightarrow> fs_step s s'"
| step_move_folder: "fs_MoveFolder p q s = Some (e, s') \<Longrightarrow> fs_step s s'"

definition tree_ok :: "node \<Rightarrow> bool" where
  "tree_ok t \<longleftrightarrow> is_dir t \<and> wf_tree t"

lemma is_dir_set_at [simp]: "is_dir (set_at p x t) = is_dir t"
  by (induction p x t rule: set_at.induct) (auto split: option.splits)

lemma ok_root_Mkdir: "tree_ok t \<Longrightarrow> root_Mkdir p t = (e, t') \<Longrightarrow> tree_ok t'"
  using wf_root_Mkdir [of t p e t'] by (auto simp: tree_ok_def root_Mkdir_def split: if_splits sum.splits)

lemma ok_mkdir_segs: "tree_ok t \<Longrightarrow> mkdir_segs b ss t = (e, t') \<Longrightarrow> tree_ok t'"
proof (induction ss arbitrary: b t)
  case (Cons seg ss)
  obtain e1 t1 where m: "root_Mkdir (path_join b seg) t = (e1, t1)" by fastforce
  from ok_root_Mkdir [OF Cons.prems(1) m] Cons.IH [of t1 "path_join b seg"] Cons.prems m show ?case
    by (auto simp: Let_def split: option.splits if_splits sum.splits)
qed simp

lemma ok_mkdirAll: "tree_ok t \<Longrightarrow> mkdirAll dir t = (e, t') \<Longrightarrow> tree_ok t'"
  by (auto simp: mkdirAll_def dest: ok_mkdir_segs)

lemma ok_root_Remove: "tree_ok t \<Longrightarrow> root_Remove p t = (e, t') \<Longrightarrow> tree_ok t'"
  using wf_root_Remove [of t p]
  by (auto simp: tree_ok_def root_Remove_def split: sum.splits node.splits list.splits if_splits)

lemma ok_root_RemoveAll: "tree_ok t \<Longrightarrow> root_RemoveAll p t = (e, t') \<Longrightarrow> tree_ok t'"
  using wf_root_RemoveAll [of t p e t']
  by (auto simp: tree_ok_def root_RemoveAll_def split: sum.splits fs_err.splits if_splits)

lemma ok_root_CreateExcl: "tree_ok t \<Longrightarrow> root_CreateExcl p now t = (e, t') \<Longrightarrow> tree_ok t'"
  using wf_root_CreateExcl [of t p now e t'] by (auto simp: tree_ok_def root_CreateExcl_def split: if_splits sum.splits)

lemma ok_handle_Write: "tree_ok t \<Longrightarrow> tree_ok (handle_Write p c now t)"
  using wf_handle_Write [of t p c now] by (simp add: tree_ok_def handle_Write_def)

lemma ok_root_Link: "tree_ok t \<Longrightarrow> root_Link p q t = (e, t') \<Longrightarrow> tree_ok t'"
  using wf_root_Link [of t p q e t']
  by (auto simp: tree_ok_def root_Link_def split: if_splits sum.splits option.splits)

lemma ok_root_Rename: "tree_ok t \<Longrightarrow> root_Rename p q t = (e, t') \<Longrightarrow> tree_ok t'"
  using wf_root_Rename [of t p q e t']
  by (auto simp: tree_ok_def root_Rename_def split: if_splits sum.splits option.splits node.splits list.splits)

lemma ok_removed: "tree_ok t \<Longrightarrow> tree_ok (snd (root_Remove p t))"
  using ok_root_Remove [of t p] by (cases "root_Remove p t") simp

definition good_root :: "node option \<Rightarrow> bool" where
  "good_root s = (case s of None \<Rightarrow> False | Some t \<Rightarrow> tree_ok t)"

lemma ok_place_object: "tree_ok t \<Longrightarrow> place_object mime tmp p co t = (res, t') \<Longrightarrow> tree_ok t'"
  by (cases "root_Link tmp p t"; cases "root_Rename tmp p t")
    (auto simp: place_object_def Let_def intro: ok_removed dest: ok_root_Link ok_root_Rename
      split: if_splits option.splits sum.splits node.splits)

lemma ok_write_in_dir: "tree_ok t \<Longrightarrow> write_in_dir mime now rnd dk p r co t = (res, t') \<Longrightarrow> tree_ok t'"
  by (auto simp: write_in_dir_def Let_def intro!: ok_removed ok_handle_Write dest: ok_root_CreateExcl
      split: option.splits prod.splits intro: ok_place_object [OF ok_handle_Write])

lemma ok_made_dir:
  "tree_ok t \<Longrightarrow> (if b then mkdirAll d t else (None, t)) = (e, t') \<Longrightarrow> tree_ok t'"
  by (auto dest: ok_mkdirAll split: if_splits)

lemma good_fs_move: "good_root s \<Longrightarrow> fs_move p q b s = (e, s') \<Longrightarrow> good_root s'"
  by (auto simp: fs_move_def good_root_def openRoot_def dest: ok_mkdirAll ok_root_Rename
      split: option.splits sum.splits if_splits prod.splits)

lemma fs_step_good: "fs_step s s' \<Longrightarrow> good_root s \<Longrightarrow> good_root s'"
proof (induction rule: fs_step.induct)
  case (step_write mime now rnd dk p r opts s res s')
  then show ?case
    by (auto simp: fs_Write_def good_root_def openRoot_def dest: ok_made_dir ok_write_in_dir
        split: option.splits sum.splits if_splits prod.splits)
next
  case (step_mkdir p s e s')
  then show ?case
    by (auto simp: fs_Mkdir_def good_root_def openRoot_def Let_def dest: ok_mkdirAll
        split: option.splits sum.splits if_splits prod.splits)
next
  case (step_delete_object p s e s')
  then show ?case
    by (cases s) (auto simp: fs_DeleteObject_def good_root_def openRoot_def dest: ok_root_Remove
        split: sum.splits if_splits prod.splits)
next
  case (step_delete_folder p s r s')
  then show ?case
    by (auto simp: fs_DeleteFolder_def good_root_def openRoot_def Let_def dest: ok_root_RemoveAll
        split: option.splits sum.splits if_splits prod.splits)
next
  case (step_move_object p q s e s')
  then show ?case by (auto simp: fs_MoveObject_def intro: good_fs_move split: sum.splits)
next
  case (step_move_folder p q s e s')
  then show ?case by (auto simp: fs_MoveFolder_def intro: good_fs_move split: sum.splits if_splits)
qed



end
