(* ===== verification/Registry_Creds.thy ===== *)
theory Registry_Creds
  imports Registry_Store
begin

text \<open>
  The credential stores of \<^verbatim>\<open>internal/registry\<close>: the in-memory one (\<^verbatim>\<open>memory.go\<close>) and the one
  over Kubernetes Secrets (\<^verbatim>\<open>kubernetes.go\<close>), both providers of the locale \<open>cred_store\<close>.  The
  Kubernetes client and SHA-256 are parameters.
\<close>

section \<open>The interface\<close>

type_synonym creds = "(string \<times> string) list"

record 's cred_ops =
  cPut :: "string \<Rightarrow> string \<Rightarrow> creds \<Rightarrow> 's \<Rightarrow> rerr option \<times> 's"
  cGet :: "string \<Rightarrow> string \<Rightarrow> 's \<Rightarrow> (rerr + creds) \<times> 's"
  cDelete :: "string \<Rightarrow> string \<Rightarrow> 's \<Rightarrow> rerr option \<times> 's"

text \<open>
  \<open>held s w i\<close> is what is stored for a backend, \<open>served\<close> the backends a store tells apart.  A write that reports an error may or may not
  have happened; it never touches another backend's credentials.
\<close>

definition held_upd ::
    "(string \<Rightarrow> string \<Rightarrow> 'a option) \<Rightarrow> string \<Rightarrow> string \<Rightarrow> 'a option \<Rightarrow> string \<Rightarrow> string \<Rightarrow> 'a option" where
  "held_upd v w i x = v(w := (v w)(i := x))"

lemma held_upd_apply [simp]: "held_upd v w i x w' i' = (if w' = w \<and> i' = i then x else v w' i')"
  by (simp add: held_upd_def)

locale cred_store =
  fixes ops :: "'s cred_ops" and held :: "'s \<Rightarrow> string \<Rightarrow> string \<Rightarrow> (string \<rightharpoonup> string) option"
    and served :: "string \<Rightarrow> string \<Rightarrow> bool"
  assumes put: "served w i \<Longrightarrow> cPut ops w i c s = (e, s') \<Longrightarrow>
      (if e = None then held s' = held_upd (held s) w i (Some (map_of c))
       else held s' = held s \<or> held s' = held_upd (held s) w i (Some (map_of c))) \<and>
      (\<forall>f. e \<noteq> Some (RValidation f)) \<and> e \<noteq> Some RNotFound"
    and get: "served w i \<Longrightarrow> cGet ops w i s = (r, s') \<Longrightarrow>
      held s' = held s \<and>
      (case r of
         Inr c \<Rightarrow> held s w i = Some (map_of c)
       | Inl e \<Rightarrow> (e = RNoCredentials \<longrightarrow> held s w i = None) \<and> e \<noteq> RNotFound \<and> (\<forall>f. e \<noteq> RValidation f))"
    and delete: "served w i \<Longrightarrow> cDelete ops w i s = (e, s') \<Longrightarrow>
      (if e = None then held s' = held_upd (held s) w i None
       else held s' = held s \<or> held s' = held_upd (held s) w i None) \<and>
      (\<forall>f. e \<noteq> Some (RValidation f)) \<and> e \<noteq> Some RNotFound"

section \<open>In memory\<close>

type_synonym mem_creds = "(string \<times> creds) list"

definition memcred_Put :: "string \<Rightarrow> string \<Rightarrow> creds \<Rightarrow> mem_creds \<Rightarrow> rerr option \<times> mem_creds" where
  "memcred_Put w i c m = (None, AList.update (key w i) c m)"

definition memcred_Get :: "string \<Rightarrow> string \<Rightarrow> mem_creds \<Rightarrow> (rerr + creds) \<times> mem_creds" where
  "memcred_Get w i m = (case map_of m (key w i) of None \<Rightarrow> (Inl RNoCredentials, m) | Some c \<Rightarrow> (Inr c, m))"

definition memcred_Delete :: "string \<Rightarrow> string \<Rightarrow> mem_creds \<Rightarrow> rerr option \<times> mem_creds" where
  "memcred_Delete w i m = (None, AList.delete (key w i) m)"

definition mem_cred_ops :: "mem_creds cred_ops" where
  "mem_cred_ops = \<lparr>cPut = memcred_Put, cGet = memcred_Get, cDelete = memcred_Delete\<rparr>"

definition memcred_held :: "mem_creds \<Rightarrow> string \<Rightarrow> string \<Rightarrow> (string \<rightharpoonup> string) option" where
  "memcred_held m w i = (if slash \<in> set w then None else map_option map_of (map_of m (key w i)))"

lemma memcred_held_update:
  "slash \<notin> set w \<Longrightarrow> memcred_held (AList.update (key w i) c m) = held_upd (memcred_held m) w i (Some (map_of c))"
  "slash \<notin> set w \<Longrightarrow> memcred_held (AList.delete (key w i) m) = held_upd (memcred_held m) w i None"
  by (auto simp: memcred_held_def update_conv delete_conv fun_eq_iff key_inj)

interpretation mem_cred: cred_store mem_cred_ops memcred_held "\<lambda>w i. slash \<notin> set w"
proof (unfold_locales, goal_cases)
  case (1 w i c s e s')
  then show ?case
    by (auto simp: mem_cred_ops_def memcred_Put_def memcred_held_update)
next
  case (2 w i s r s')
  then show ?case
    by (auto simp: mem_cred_ops_def memcred_Get_def memcred_held_def split: option.splits)
next
  case (3 w i s e s')
  then show ?case
    by (auto simp: mem_cred_ops_def memcred_Delete_def memcred_held_update)
qed

section \<open>Kubernetes Secrets\<close>

datatype kerr = KNotFound | KAlreadyExists | KOther string

record secret =
  scName :: string
  scLabels :: "(string \<times> string) list"
  scData :: creds

record 's secrets_client =
  kGet :: "string \<Rightarrow> 's \<Rightarrow> (kerr + secret) \<times> 's"
  kCreate :: "secret \<Rightarrow> 's \<Rightarrow> kerr option \<times> 's"
  kUpdate :: "secret \<Rightarrow> 's \<Rightarrow> kerr option \<times> 's"
  kDelete :: "string \<Rightarrow> 's \<Rightarrow> kerr option \<times> 's"

text \<open>\<open>sha\<close> is the hexadecimal SHA-256 digest.\<close>

definition SecretName :: "(string \<Rightarrow> string) \<Rightarrow> string \<Rightarrow> string \<Rightarrow> string" where
  "SecretName sha w i = ''booth-storage-cred-'' @ take 24 (sha (w @ CHR 0x00 # i))"

definition secret_labels :: "string \<Rightarrow> string \<Rightarrow> (string \<times> string) list" where
  "secret_labels w i =
     [(''app.kubernetes.io/managed-by'', ''booth-storage''), (''booth.projectbooth.io/workspace'', w),
      (''booth.projectbooth.io/storage-backend'', i)]"

definition kwrap :: "string \<Rightarrow> kerr option \<Rightarrow> rerr option" where
  "kwrap op e = map_option (\<lambda>_. ROther op) e"

definition kube_Put :: "'s secrets_client \<Rightarrow> (string \<Rightarrow> string) \<Rightarrow> string \<Rightarrow> string \<Rightarrow> creds \<Rightarrow> 's \<Rightarrow> rerr option \<times> 's" where
  "kube_Put c sha w i kvs s =
     (let name = SecretName sha w i in
      case kGet c name s of
        (Inl KNotFound, s1) \<Rightarrow>
          (case kCreate c \<lparr>scName = name, scLabels = secret_labels w i, scData = kvs\<rparr> s1 of
             (e, s2) \<Rightarrow> (kwrap ''creating'' e, s2))
      | (Inl e, s1) \<Rightarrow> (kwrap ''reading'' (Some e), s1)
      | (Inr existing, s1) \<Rightarrow>
          (case kUpdate c (existing\<lparr>scData := kvs, scLabels := secret_labels w i\<rparr>) s1 of
             (e, s2) \<Rightarrow> (kwrap ''updating'' e, s2)))"

definition kube_Get :: "'s secrets_client \<Rightarrow> (string \<Rightarrow> string) \<Rightarrow> string \<Rightarrow> string \<Rightarrow> 's \<Rightarrow> (rerr + creds) \<times> 's" where
  "kube_Get c sha w i s =
     (case kGet c (SecretName sha w i) s of
        (Inl KNotFound, s1) \<Rightarrow> (Inl RNoCredentials, s1)
      | (Inl e, s1) \<Rightarrow> (Inl (ROther ''reading''), s1)
      | (Inr x, s1) \<Rightarrow> (Inr (scData x), s1))"

definition kube_Delete :: "'s secrets_client \<Rightarrow> (string \<Rightarrow> string) \<Rightarrow> string \<Rightarrow> string \<Rightarrow> 's \<Rightarrow> rerr option \<times> 's" where
  "kube_Delete c sha w i s =
     (case kDelete c (SecretName sha w i) s of
        (Some KNotFound, s1) \<Rightarrow> (None, s1)
      | (e, s1) \<Rightarrow> (kwrap ''deleting'' e, s1))"

definition kube_cred_ops :: "'s secrets_client \<Rightarrow> (string \<Rightarrow> string) \<Rightarrow> 's cred_ops" where
  "kube_cred_ops c sha = \<lparr>cPut = kube_Put c sha, cGet = kube_Get c sha, cDelete = kube_Delete c sha\<rparr>"

text \<open>
  The API server's documented behaviour: the objects of the namespace by name; a call that
  reports another error than "not found" or "already exists" may have taken effect.  \<open>used\<close>
  are the backends of the deployment; the truncated digests of their names must differ.
\<close>

locale kube_secrets =
  fixes c :: "'s secrets_client" and secs :: "'s \<Rightarrow> string \<rightharpoonup> secret" and sha :: "string \<Rightarrow> string"
    and used :: "string \<Rightarrow> string \<Rightarrow> bool"
  assumes k_get: "kGet c n s = (r, s') \<Longrightarrow> secs s' = secs s \<and>
      (case r of Inr x \<Rightarrow> secs s n = Some x \<and> scName x = n | Inl e \<Rightarrow> e = KNotFound \<longrightarrow> secs s n = None)"
    and k_create: "kCreate c x s = (e, s') \<Longrightarrow>
      (if e = None then secs s' = (secs s)(scName x \<mapsto> x) else secs s' = secs s \<or> secs s' = (secs s)(scName x \<mapsto> x))"
    and k_update: "kUpdate c x s = (e, s') \<Longrightarrow>
      (if e = None then secs s' = (secs s)(scName x \<mapsto> x) else secs s' = secs s \<or> secs s' = (secs s)(scName x \<mapsto> x))"
    and k_delete: "kDelete c n s = (e, s') \<Longrightarrow>
      (if e = None \<or> e = Some KNotFound then secs s' = (secs s)(n := None)
       else secs s' = secs s \<or> secs s' = (secs s)(n := None))"
    and used_nul: "used w i \<Longrightarrow> CHR 0x00 \<notin> set w"
    and no_collision: "used w i \<Longrightarrow> used w' i' \<Longrightarrow>
      take 24 (sha (w @ CHR 0x00 # i)) = take 24 (sha (w' @ CHR 0x00 # i')) \<Longrightarrow> w @ CHR 0x00 # i = w' @ CHR 0x00 # i'"
begin

definition kube_held :: "'s \<Rightarrow> string \<Rightarrow> string \<Rightarrow> (string \<rightharpoonup> string) option" where
  "kube_held s w i = (if used w i then map_option (\<lambda>x. map_of (scData x)) (secs s (SecretName sha w i)) else None)"

lemma SecretName_inj:
  assumes "used w i" "used w' i'" "SecretName sha w i = SecretName sha w' i'"
  shows "w = w' \<and> i = i'"
proof -
  have "w @ CHR 0x00 # i = w' @ CHR 0x00 # i'" using no_collision [OF assms(1,2)] assms(3) by (simp add: SecretName_def)
  then have "cut_first (CHR 0x00) (w @ CHR 0x00 # i) = cut_first (CHR 0x00) (w' @ CHR 0x00 # i')" by (rule arg_cong)
  with used_nul [OF assms(1)] used_nul [OF assms(2)] show ?thesis by simp
qed

lemma kube_held_put:
  "used w i \<Longrightarrow> secs s' = (secs s)(SecretName sha w i \<mapsto> x) \<Longrightarrow>
     kube_held s' = held_upd (kube_held s) w i (Some (map_of (scData x)))"
  by (auto simp: kube_held_def fun_eq_iff dest: SecretName_inj)

lemma kube_held_del:
  "used w i \<Longrightarrow> secs s' = (secs s)(SecretName sha w i := None) \<Longrightarrow>
     kube_held s' = held_upd (kube_held s) w i None"
  by (auto simp: kube_held_def fun_eq_iff dest: SecretName_inj)

lemma kube_held_same: "secs s' = secs s \<Longrightarrow> kube_held s' = kube_held s"
  by (simp add: kube_held_def fun_eq_iff)

end

sublocale kube_secrets \<subseteq> kube: cred_store "kube_cred_ops c sha" kube_held used
proof (unfold_locales, goal_cases)
  case (1 w i kvs s e s')
  note w = 1(1)
  obtain r s1 where g: "kGet c (SecretName sha w i) s = (r, s1)" by fastforce
  note gl = k_get [OF g]
  have upd: "if e' = None then kube_held s2 = held_upd (kube_held s) w i (Some (map_of (scData x)))
      else kube_held s2 = kube_held s \<or> kube_held s2 = held_upd (kube_held s) w i (Some (map_of (scData x)))"
    if "if e' = None then secs s2 = (secs s1)(scName x \<mapsto> x) else secs s2 = secs s1 \<or> secs s2 = (secs s1)(scName x \<mapsto> x)"
      "scName x = SecretName sha w i" for e' :: "kerr option" and s2 x
    using that gl kube_held_put [OF w, of s2 s x] kube_held_same [of s2 s] by (auto split: if_splits)
  show ?case
  proof (cases r)
    case (Inl err)
    show ?thesis
    proof (cases "err = KNotFound")
      case True
      let ?x = "\<lparr>scName = SecretName sha w i, scLabels = secret_labels w i, scData = kvs\<rparr>"
      obtain e1 s2 where cr: "kCreate c ?x s1 = (e1, s2)" by fastforce
      have "e = kwrap ''creating'' e1" "s' = s2"
        using 1(2) g Inl True cr by (simp_all add: kube_cred_ops_def kube_Put_def Let_def)
      then show ?thesis using upd [OF k_create [OF cr]] by (auto simp: kwrap_def)
    next
      case False
      then have "e = Some (ROther ''reading'')" "s' = s1"
        using 1(2) g Inl by (cases err; simp add: kube_cred_ops_def kube_Put_def Let_def kwrap_def)+
      then show ?thesis using kube_held_same [of s1 s] gl by simp
    qed
  next
    case (Inr x)
    let ?x = "x\<lparr>scData := kvs, scLabels := secret_labels w i\<rparr>"
    obtain e1 s2 where up: "kUpdate c ?x s1 = (e1, s2)" by fastforce
    have "e = kwrap ''updating'' e1" "s' = s2"
      using 1(2) g Inr up by (simp_all add: kube_cred_ops_def kube_Put_def Let_def)
    then show ?thesis using upd [OF k_update [OF up]] gl Inr by (auto simp: kwrap_def)
  qed
next
  case (2 w i s r s')
  note w = 2(1)
  obtain x s1 where g: "kGet c (SecretName sha w i) s = (x, s1)" by fastforce
  with k_get [OF g] 2(2) w kube_held_same [of s1 s] show ?case
    by (auto simp: kube_cred_ops_def kube_Get_def kube_held_def split: sum.splits kerr.splits)
next
  case (3 w i s e s')
  note w = 3(1)
  obtain x s1 where d: "kDelete c (SecretName sha w i) s = (x, s1)" by fastforce
  with k_delete [OF d] 3(2) kube_held_del [OF w, of s1 s] kube_held_same [of s1 s] show ?case
    by (auto simp: kube_cred_ops_def kube_Delete_def kwrap_def split: option.splits kerr.splits if_splits)
qed

text \<open>A reference API server, and a digest without collisions.\<close>

type_synonym mem_secrets = "(string \<times> secret) list"

definition mem_secrets_client :: "mem_secrets secrets_client" where
  "mem_secrets_client =
     \<lparr>kGet = (\<lambda>n m. (case map_of m n of None \<Rightarrow> Inl KNotFound | Some x \<Rightarrow> Inr (x\<lparr>scName := n\<rparr>), m)),
      kCreate = (\<lambda>x m. if map_of m (scName x) = None then (None, AList.update (scName x) x m) else (Some KAlreadyExists, m)),
      kUpdate = (\<lambda>x m. if map_of m (scName x) = None then (Some KNotFound, m) else (None, AList.update (scName x) x m)),
      kDelete = (\<lambda>n m. if map_of m n = None then (Some KNotFound, m) else (None, AList.delete n m))\<rparr>"

lemma mem_secrets_sel [simp]:
  "kGet mem_secrets_client n m = (case map_of m n of None \<Rightarrow> Inl KNotFound | Some x \<Rightarrow> Inr (x\<lparr>scName := n\<rparr>), m)"
  "kCreate mem_secrets_client x m =
     (if map_of m (scName x) = None then (None, AList.update (scName x) x m) else (Some KAlreadyExists, m))"
  "kUpdate mem_secrets_client x m =
     (if map_of m (scName x) = None then (Some KNotFound, m) else (None, AList.update (scName x) x m))"
  "kDelete mem_secrets_client n m = (if map_of m n = None then (Some KNotFound, m) else (None, AList.delete n m))"
  by (simp_all add: mem_secrets_client_def)

definition mem_secs :: "mem_secrets \<Rightarrow> string \<rightharpoonup> secret" where
  "mem_secs m n = map_option (\<lambda>x. x\<lparr>scName := n\<rparr>) (map_of m n)"

interpretation mem_kube: kube_secrets mem_secrets_client mem_secs "\<lambda>x. x"
    "\<lambda>w i. CHR 0x00 \<notin> set w \<and> length w + length i < 24"
proof (unfold_locales, goal_cases)
  case (1 n s r s')
  then show ?case by (auto simp: mem_secs_def split: option.splits)
next
  case (2 x s e s')
  then show ?case by (auto simp: mem_secs_def update_conv fun_eq_iff split: if_splits)
next
  case (3 x s e s')
  then show ?case by (auto simp: mem_secs_def update_conv fun_eq_iff split: if_splits)
next
  case (4 n s e s')
  then show ?case by (auto simp: mem_secs_def delete_conv fun_eq_iff split: if_splits)
next
  case (5 w i)
  then show ?case by blast
next
  case (6 w i w' i')
  have "take 24 (v @ CHR 0x00 # j) = v @ CHR 0x00 # j" if "length v + length j < 24" for v j :: string
    using that by (intro take_all) simp
  with 6 show ?case by metis
qed

end
