(* ===== verification/Registry_Policy.thy ===== *)
theory Registry_Policy
  imports Registry_Store Fs_Tree
begin

text \<open>
  \<^verbatim>\<open>internal/registry/fspolicy.go\<close> and \<^verbatim>\<open>fsroot.go\<close>: which directories a workspace may register,
  and making the directory usable at registration.  With them the operations of Go's
  \<^verbatim>\<open>path/filepath\<close> on Unix they use.  Symbolic links are the answers of \<^verbatim>\<open>EvalSymlinks\<close>, a
  parameter; the server's disk is a directory tree.
\<close>

section \<open>File paths\<close>

definition dotdot :: string where "dotdot = ''..''"

fun clean_segs :: "bool \<Rightarrow> string list \<Rightarrow> string list \<Rightarrow> string list" where
  "clean_segs rooted acc [] = rev acc"
| "clean_segs rooted acc (s # ss) =
     (if s = [] \<or> s = ''.'' then clean_segs rooted acc ss
      else if s = dotdot then
        (case acc of
           [] \<Rightarrow> if rooted then clean_segs rooted [] ss else clean_segs rooted [dotdot] ss
         | a # as \<Rightarrow> if a = dotdot then clean_segs rooted (dotdot # acc) ss else clean_segs rooted as ss)
      else clean_segs rooted (s # acc) ss)"

definition path_rooted :: "string \<Rightarrow> bool" where
  "path_rooted p = HasPrefix p ''/''"

definition path_segs :: "string \<Rightarrow> string list" where
  "path_segs p = clean_segs (path_rooted p) [] (split_on slash p)"

definition render :: "bool \<Rightarrow> string list \<Rightarrow> string" where
  "render rooted ss =
     (if rooted then slash # join_with slash ss else if ss = [] then ''.'' else join_with slash ss)"

definition path_Clean :: "string \<Rightarrow> string" where
  "path_Clean p = render (path_rooted p) (path_segs p)"

definition path_Dir :: "string \<Rightarrow> string" where
  "path_Dir p = (case cut_last slash p of None \<Rightarrow> path_Clean [] | Some (d, _) \<Rightarrow> path_Clean (d @ ''/''))"

definition path_Join :: "string \<Rightarrow> string \<Rightarrow> string" where
  "path_Join a b =
     (if a = [] \<and> b = [] then []
      else if a = [] then path_Clean b else if b = [] then path_Clean a else path_Clean (a @ slash # b))"

fun strip_common :: "string list \<Rightarrow> string list \<Rightarrow> string list \<times> string list" where
  "strip_common (b # bs) (t # ts) = (if b = t then strip_common bs ts else (b # bs, t # ts))"
| "strip_common bs ts = (bs, ts)"

definition path_Rel :: "string \<Rightarrow> string \<Rightarrow> string option" where
  "path_Rel base targ =
     (if path_Clean base = path_Clean targ then Some ''.''
      else if path_rooted base \<noteq> path_rooted targ then None
      else case strip_common (path_segs base) (path_segs targ) of
             (bs, ts) \<Rightarrow>
               if bs \<noteq> [] \<and> hd bs = dotdot then None
               else Some (join_with slash (replicate (length bs) dotdot @ ts)))"

definition within :: "string \<Rightarrow> string \<Rightarrow> bool" where
  "within base target =
     (case path_Rel base target of
        None \<Rightarrow> False
      | Some rel \<Rightarrow> rel = ''.'' \<or> (rel \<noteq> dotdot \<and> \<not> HasPrefix rel ''../''))"

text \<open>\<^verbatim>\<open>strings.ReplaceAll\<close>, for a non-empty pattern.\<close>

function replace_all :: "string \<Rightarrow> string \<Rightarrow> string \<Rightarrow> string" where
  "replace_all old new s =
     (if old = [] \<or> s = [] then s
      else if HasPrefix s old then new @ replace_all old new (drop (length old) s)
      else hd s # replace_all old new (tl s))"
  by pat_completeness auto

termination
  by (relation "measure (\<lambda>(old, new, s). length s)") (auto simp: length_greater_0_conv)

declare replace_all.simps [simp del]

section \<open>The policy\<close>

definition WorkspacePlaceholder :: string where "WorkspacePlaceholder = ''{workspace}''"

definition policy_Enabled :: "string list \<Rightarrow> bool" where
  "policy_Enabled roots \<longleftrightarrow> roots \<noteq> []"

text \<open>
  The deepest existing ancestor is resolved: \<open>up\<close> holds the segments of the path still to be
  tried, last first.
\<close>

fun resolve_up :: "(string \<Rightarrow> string option) \<Rightarrow> bool \<Rightarrow> string list \<Rightarrow> string \<Rightarrow> string option" where
  "resolve_up evalSymlinks rooted [] rest =
     map_option (\<lambda>r. path_Join r rest) (evalSymlinks (render rooted []))"
| "resolve_up evalSymlinks rooted (s # up) rest =
     (case evalSymlinks (render rooted (rev (s # up))) of
        Some r \<Rightarrow> Some (path_Join r rest)
      | None \<Rightarrow> resolve_up evalSymlinks rooted up (path_Join s rest))"

definition resolveExisting :: "(string \<Rightarrow> string option) \<Rightarrow> string \<Rightarrow> string option" where
  "resolveExisting evalSymlinks p = resolve_up evalSymlinks (path_rooted p) (rev (path_segs p)) []"

definition allowed_root :: "string \<Rightarrow> string \<Rightarrow> string" where
  "allowed_root workspace root = path_Clean (replace_all WorkspacePlaceholder workspace root)"

fun check_roots :: "(string \<Rightarrow> string option) \<Rightarrow> string \<Rightarrow> string \<Rightarrow> string list \<Rightarrow> bool" where
  "check_roots ev workspace target [] = False"
| "check_roots ev workspace target (root # roots) =
     (let allowed = allowed_root workspace root in
      if \<not> within allowed target then check_roots ev workspace target roots
      else case (resolveExisting ev target, resolveExisting ev allowed) of
             (Some rt, Some ra) \<Rightarrow> if \<not> within ra rt then check_roots ev workspace target roots else True
           | _ \<Rightarrow> True)"

definition policy_Check :: "(string \<Rightarrow> string option) \<Rightarrow> string list \<Rightarrow> string \<Rightarrow> string \<Rightarrow> rerr option" where
  "policy_Check ev roots workspace rootPath =
     (if \<not> policy_Enabled roots then Some (ROther ''not enabled'')
      else case ValidateWorkspace workspace of
             Some e \<Rightarrow> Some e
           | None \<Rightarrow>
               if \<not> path_rooted rootPath then Some (ROther ''not absolute'')
               else if check_roots ev workspace (path_Clean rootPath) roots then None
               else Some (ROther ''outside''))"

section \<open>The root directory at registration\<close>

datatype root_status = rootReady | rootWillBeCreated

text \<open>\<open>mkErr\<close> is the disk's refusal to make the directory, if any.\<close>

definition checkFilesystemRoot :: "fs_err option \<Rightarrow> string \<Rightarrow> bool \<Rightarrow> node \<Rightarrow> (rerr + root_status) \<times> node" where
  "checkFilesystemRoot mkErr rootPath create disk =
     (let root = path_Clean rootPath; parent = path_Dir root; bad = (Inl (RValidation ''config''), disk) in
      case root_Stat root disk of
        Inr n \<Rightarrow> if is_dir n then (Inr rootReady, disk) else bad
      | Inl e \<Rightarrow>
          if e \<noteq> ENOENT then bad
          else (case root_Stat parent disk of
                  Inl e1 \<Rightarrow> bad
                | Inr pn \<Rightarrow>
                    if \<not> is_dir pn then bad
                    else if \<not> create then (Inr rootWillBeCreated, disk)
                    else (case mkErr of
                            Some e2 \<Rightarrow> if e2 \<noteq> EEXIST then bad else (Inr rootReady, disk)
                          | None \<Rightarrow>
                              (case root_Mkdir root disk of
                                 (Some e3, d1) \<Rightarrow> if e3 \<noteq> EEXIST then (Inl (RValidation ''config''), d1) else (Inr rootReady, d1)
                               | (None, d1) \<Rightarrow> (Inr rootReady, d1)))))"

section \<open>What cleaning gives\<close>

definition clean_seg :: "string \<Rightarrow> bool" where
  "clean_seg s \<longleftrightarrow> s \<noteq> [] \<and> s \<noteq> ''.'' \<and> slash \<notin> set s"

lemma clean_segs_good:
  "\<forall>s \<in> set ss. slash \<notin> set s \<Longrightarrow> \<forall>a \<in> set acc. clean_seg a \<and> a \<noteq> dotdot \<Longrightarrow>
     \<forall>s \<in> set (clean_segs True acc ss). clean_seg s \<and> s \<noteq> dotdot"
proof (induction ss arbitrary: acc)
  case (Cons s ss)
  show ?case
  proof (cases "s = [] \<or> s = ''.''")
    case True
    with Cons.IH [of acc] Cons.prems show ?thesis by simp
  next
    case plain: False
    show ?thesis
    proof (cases "s = dotdot")
      case True
      have eq: "clean_segs True acc (s # ss) = clean_segs True (tl acc) ss"
        using plain True Cons.prems(2) by (cases acc) auto
      have "\<forall>a \<in> set (tl acc). clean_seg a \<and> a \<noteq> dotdot" using Cons.prems(2) by (cases acc) auto
      with Cons.IH [of "tl acc"] Cons.prems(1) show ?thesis unfolding eq by simp
    next
      case False
      have eq: "clean_segs True acc (s # ss) = clean_segs True (s # acc) ss" using plain False by auto
      have "clean_seg s" using plain Cons.prems(1) by (simp add: clean_seg_def)
      with False Cons.prems(2) have "\<forall>a \<in> set (s # acc). clean_seg a \<and> a \<noteq> dotdot" by simp
      moreover have "\<forall>s \<in> set ss. slash \<notin> set s" using Cons.prems(1) by simp
      ultimately show ?thesis unfolding eq by (rule Cons.IH [rotated])
    qed
  qed
qed simp

lemma clean_segs_step:
  "\<exists>acc'. clean_segs r acc (s # ss) = clean_segs r acc' ss \<and>
     (\<forall>a \<in> set acc'. a \<in> set acc \<or> a = dotdot \<or> a = s \<and> s \<noteq> [])"
proof (cases "s = [] \<or> s = ''.''")
  case True
  then show ?thesis by (intro exI [of _ acc]) auto
next
  case plain: False
  show ?thesis
  proof (cases "s = dotdot")
    case True
    let ?acc = "case acc of [] \<Rightarrow> if r then [] else [dotdot] | a # as \<Rightarrow> if a = dotdot then dotdot # acc else as"
    have "clean_segs r acc (s # ss) = clean_segs r ?acc ss" using plain True by (cases acc) auto
    moreover have "\<forall>a \<in> set ?acc. a \<in> set acc \<or> a = dotdot" by (cases acc) auto
    ultimately show ?thesis by blast
  next
    case False
    with plain show ?thesis by (intro exI [of _ "s # acc"]) auto
  qed
qed

lemma clean_segs_seg:
  "\<forall>s \<in> set ss. slash \<notin> set s \<Longrightarrow> \<forall>a \<in> set acc. a \<noteq> [] \<and> slash \<notin> set a \<Longrightarrow>
     \<forall>s \<in> set (clean_segs r acc ss). s \<noteq> [] \<and> slash \<notin> set s"
proof (induction ss arbitrary: acc)
  case (Cons s ss)
  obtain acc' where acc': "clean_segs r acc (s # ss) = clean_segs r acc' ss"
    "\<forall>a \<in> set acc'. a \<in> set acc \<or> a = dotdot \<or> a = s \<and> s \<noteq> []"
    using clean_segs_step by blast
  have "dotdot \<noteq> []" "slash \<notin> set dotdot" by (simp_all add: dotdot_def)
  with acc'(2) Cons.prems have "\<forall>a \<in> set acc'. a \<noteq> [] \<and> slash \<notin> set a" by auto
  with Cons.IH [of acc'] Cons.prems(1) show ?case unfolding acc'(1) by simp
qed simp

lemma path_segs_good: "path_rooted p \<Longrightarrow> \<forall>s \<in> set (path_segs p). clean_seg s \<and> s \<noteq> dotdot"
proof -
  assume p: "path_rooted p"
  have "\<forall>s \<in> set (split_on slash p). slash \<notin> set s" using split_on_segs by blast
  from clean_segs_good [OF this, of "[]"] p show ?thesis by (simp add: path_segs_def)
qed

lemma clean_segs_id: "\<forall>s \<in> set ss. clean_seg s \<and> s \<noteq> dotdot \<Longrightarrow> clean_segs r acc ss = rev acc @ ss"
  by (induction ss arbitrary: acc) (auto simp: clean_seg_def)

lemma path_segs_render:
  assumes "\<forall>s \<in> set ss. clean_seg s \<and> s \<noteq> dotdot"
  shows "path_segs (render True ss) = ss" "path_rooted (render True ss)"
proof -
  have "split_on slash (render True ss) = [] # (if ss = [] then [[]] else ss)"
    using assms split_join [of ss slash] by (auto simp: render_def clean_seg_def)
  then show "path_segs (render True ss) = ss"
    using clean_segs_id [OF assms, of True "[]"] by (auto simp: path_segs_def path_rooted_def render_def)
qed (simp add: render_def path_rooted_def)

lemma path_segs_Clean: "path_rooted p \<Longrightarrow> path_segs (path_Clean p) = path_segs p \<and> path_rooted (path_Clean p)"
  using path_segs_render [OF path_segs_good] by (simp add: path_Clean_def)

lemma strip_common_cases:
  "strip_common bs ts = (b, t) \<Longrightarrow> \<exists>c. bs = c @ b \<and> ts = c @ t \<and> (b = [] \<or> t = [] \<or> hd b \<noteq> hd t)"
  by (induction bs ts rule: strip_common.induct) (auto split: if_splits)

lemma within_rooted:
  assumes "path_rooted a" "path_rooted b"
  shows "within a b \<longleftrightarrow> prefix (path_segs a) (path_segs b)"
proof -
  obtain bs ts where sc: "strip_common (path_segs a) (path_segs b) = (bs, ts)" by fastforce
  from strip_common_cases [OF sc] obtain c where c: "path_segs a = c @ bs" "path_segs b = c @ ts"
    "bs = [] \<or> ts = [] \<or> hd bs \<noteq> hd ts" by blast
  have goodb: "\<forall>s \<in> set bs. s \<noteq> dotdot" using path_segs_good [OF assms(1)] c(1) by auto
  have goodt: "\<forall>s \<in> set ts. clean_seg s \<and> s \<noteq> dotdot" using path_segs_good [OF assms(2)] c(2) by auto
  have pre: "prefix (path_segs a) (path_segs b) \<longleftrightarrow> bs = []"
    using c by (cases bs; cases ts) auto
  have eq: "path_Clean a = path_Clean b \<longleftrightarrow> bs = [] \<and> ts = []"
  proof
    assume "path_Clean a = path_Clean b"
    then have "path_segs a = path_segs b" using path_segs_Clean assms by metis
    then show "bs = [] \<and> ts = []" using c by (cases bs; cases ts) auto
  qed (use c assms in \<open>simp add: path_Clean_def\<close>)
  show ?thesis
  proof (cases bs)
    case Nil
    show ?thesis
    proof (cases ts)
      case (Cons t ts')
      with goodt have t: "t \<noteq> dotdot" "t \<noteq> ''.''" "slash \<notin> set t" "t \<noteq> []" by (auto simp: clean_seg_def)
      have j: "join_with slash ts = t \<or> (\<exists>r. join_with slash ts = t @ slash # r)"
        using Cons by (cases ts') auto
      have "\<not> HasPrefix (join_with slash ts) ''../''"
      proof
        assume "HasPrefix (join_with slash ts) ''../''"
        then obtain r where "join_with slash ts = dotdot @ slash # r" by (auto simp: prefix_def dotdot_def)
        moreover have "cut_first slash (dotdot @ slash # r) = Some (dotdot, r)"
          by (rule cut_first_append) (simp add: dotdot_def)
        ultimately have "cut_first slash (join_with slash ts) = Some (dotdot, r)" by (simp only:)
        moreover have "cut_first slash (join_with slash ts) = None \<or> (\<exists>r. cut_first slash (join_with slash ts) = Some (t, r))"
          using j t(3) cut_first_append [OF t(3)] by (metis cut_first_None)
        ultimately show False using t(1) by auto
      qed
      moreover have "join_with slash ts \<noteq> dotdot"
        using j t by (auto simp: dotdot_def dest: arg_cong [of _ _ "\<lambda>x. slash \<in> set x"])
      ultimately show ?thesis using sc eq pre Nil Cons assms by (simp add: within_def path_Rel_def)
    qed (use sc eq pre Nil in \<open>simp add: within_def path_Rel_def\<close>)
  next
    case (Cons b bs')
    let ?rel = "join_with slash (replicate (length bs) dotdot @ ts)"
    have "?rel = dotdot \<or> HasPrefix ?rel ''../''"
      using Cons by (cases "replicate (length bs') dotdot @ ts") (auto simp: dotdot_def)
    moreover have "?rel \<noteq> ''.''" using calculation by (auto simp: dotdot_def)
    ultimately show ?thesis using sc eq pre Cons assms goodb by (auto simp: within_def path_Rel_def)
  qed
qed

lemma check_roots_True:
  "check_roots ev w target roots \<Longrightarrow> \<exists>root \<in> set roots. within (allowed_root w root) target \<and>
     (\<forall>rt ra. resolveExisting ev target = Some rt \<longrightarrow> resolveExisting ev (allowed_root w root) = Some ra \<longrightarrow> within ra rt)"
proof (induction roots)
  case (Cons root roots)
  then show ?case
    by (cases "within (allowed_root w root) target"; cases "resolveExisting ev target";
        cases "resolveExisting ev (allowed_root w root)") (auto simp: Let_def split: if_splits)
qed simp

lemma policy_Check_None:
  assumes "policy_Check ev roots w p = None"
  shows "ValidateWorkspace w = None \<and> path_rooted p \<and> (\<exists>root \<in> set roots. within (allowed_root w root) (path_Clean p) \<and>
    (\<forall>rt ra. resolveExisting ev (path_Clean p) = Some rt \<longrightarrow> resolveExisting ev (allowed_root w root) = Some ra \<longrightarrow> within ra rt))"
  using assms check_roots_True [of ev w "path_Clean p" roots]
  by (auto simp: policy_Check_def split: if_splits option.splits)

end
