(* ===== verification/Registry_Kinds.thy ===== *)
theory Registry_Kinds
  imports Registry_Policy Json_Laws "HOL-Library.Multiset"
begin

text \<open>
  \<^verbatim>\<open>internal/registry/kinds.go\<close> and the configurations of the four kinds: strict decoding,
  validation, the canonical form that is stored, credential rules, and the construction of a
  backend.  A constructed backend is a handle: the configuration and credentials its client
  is bound to.  \<^verbatim>\<open>url.Parse\<close>, the client constructors of the SDKs and
  \<^verbatim>\<open>EvalSymlinks\<close> are the parameters of \<open>env\<close>.
\<close>

section \<open>Configurations\<close>

record s3_config =
  s3Endpoint :: string
  s3Region :: string
  s3Bucket :: string
  s3Prefix :: string
  s3PathStyle :: bool
  s3CredentialProvider :: string

record azure_config =
  azAccountName :: string
  azContainer :: string
  azEndpoint :: string
  azPrefix :: string

record gcs_config =
  gcsBucket :: string
  gcsPrefix :: string

record fs_config =
  fsRootPath :: string

record s3_creds =
  s3AccessKeyID :: string
  s3SecretAccessKey :: string
  s3SessionToken :: string

record azure_creds =
  azAccountKey :: string
  azSASToken :: string

text \<open>The parts of a URL the code looks at.\<close>

record url =
  uScheme :: string
  uHost :: string
  uPath :: string
  uRawQuery :: string

record env =
  eUrlParse :: "string \<Rightarrow> url option"
  eMinioNew :: "s3_config \<Rightarrow> s3_creds \<Rightarrow> bool"
  eAzureNew :: "azure_config \<Rightarrow> azure_creds \<Rightarrow> bool"
  eGcsNew :: "string \<Rightarrow> bool"
  eSymlinks :: "string \<Rightarrow> string option"
  eRoots :: "string list"

section \<open>Validation of each kind\<close>

definition full_url :: "env \<Rightarrow> string \<Rightarrow> url option" where
  "full_url env endpoint =
     (case eUrlParse env endpoint of
        None \<Rightarrow> None
      | Some u \<Rightarrow> if uHost u = [] \<or> (uScheme u \<noteq> ''http'' \<and> uScheme u \<noteq> ''https'') then None else Some u)"

definition hostAndTLS :: "env \<Rightarrow> s3_config \<Rightarrow> (string \<times> bool) option" where
  "hostAndTLS env c =
     (if s3Endpoint c = [] then Some (''s3.amazonaws.com'', True)
      else case full_url env (s3Endpoint c) of
             None \<Rightarrow> None
           | Some u \<Rightarrow> if uPath u \<noteq> [] \<and> uPath u \<noteq> ''/'' then None else Some (uHost u, uScheme u = ''https''))"

definition s3_Validate :: "env \<Rightarrow> s3_config \<Rightarrow> bool" where
  "s3_Validate env c \<longleftrightarrow>
     s3Bucket c \<noteq> [] \<and> hostAndTLS env c \<noteq> None \<and> isl (CleanPrefix (s3Prefix c)) = False \<and>
     s3CredentialProvider c \<in> {[], ''minio-admin'', ''seaweedfs-iam''}"

definition accountNameRE :: "string \<Rightarrow> bool" where
  "accountNameRE s \<longleftrightarrow> 3 \<le> length s \<and> length s \<le> 24 \<and> list_all is_alnum s"

text \<open>\<open>^[a-z0-9](-?[a-z0-9])*$\<close>: hyphens are single and inside.\<close>

fun hyphen_words :: "string \<Rightarrow> bool" where
  "hyphen_words [] = False"
| "hyphen_words [c] = is_alnum c"
| "hyphen_words (c # d # s) =
     (is_alnum c \<and> (if d = CHR ''-'' then hyphen_words s else hyphen_words (d # s)))"

definition containerRE :: "string \<Rightarrow> bool" where
  "containerRE s = hyphen_words s"

definition azure_Validate :: "env \<Rightarrow> azure_config \<Rightarrow> bool" where
  "azure_Validate env c \<longleftrightarrow>
     accountNameRE (azAccountName c) \<and> 3 \<le> length (azContainer c) \<and> length (azContainer c) \<le> 63 \<and>
     containerRE (azContainer c) \<and>
     (azEndpoint c \<noteq> [] \<longrightarrow> (case full_url env (azEndpoint c) of None \<Rightarrow> False | Some u \<Rightarrow> uRawQuery u = [])) \<and>
     isl (CleanPrefix (azPrefix c)) = False"

definition is_bucket_byte :: "char \<Rightarrow> bool" where
  "is_bucket_byte c \<longleftrightarrow> is_alnum c \<or> c \<in> set ''._-''"

definition bucketRE :: "string \<Rightarrow> bool" where
  "bucketRE s \<longleftrightarrow>
     3 \<le> length s \<and> length s \<le> 222 \<and> is_alnum (hd s) \<and> is_alnum (List.last s) \<and> list_all is_bucket_byte s"

definition gcs_Validate :: "gcs_config \<Rightarrow> bool" where
  "gcs_Validate c \<longleftrightarrow> bucketRE (gcsBucket c) \<and> isl (CleanPrefix (gcsPrefix c)) = False"

text \<open>\<^verbatim>\<open>json.Unmarshal\<close> into the three fields of a key file, unknown keys ignored.\<close>

definition ValidateServiceAccountJSON :: "string \<Rightarrow> bool" where
  "ValidateServiceAccountJSON raw =
     (case Option.bind (Unmarshal raw) (struct_fields False [''type'', ''client_email'', ''private_key'']) of
        None \<Rightarrow> False
      | Some fs \<Rightarrow>
          (case (decode_field dec_str ''type'' [] fs, decode_field dec_str ''client_email'' [] fs,
                 decode_field dec_str ''private_key'' [] fs) of
             (Some ty, Some email, Some pk) \<Rightarrow> ty = ''service_account'' \<and> email \<noteq> [] \<and> pk \<noteq> []
           | _ \<Rightarrow> False))"

section \<open>Decoding and encoding\<close>

definition dec_s3 :: "bool \<Rightarrow> json \<Rightarrow> s3_config option" where
  "dec_s3 strict j =
     (case struct_fields strict [''endpoint'', ''region'', ''bucket'', ''prefix'', ''pathStyle'', ''credentialProvider''] j of
        None \<Rightarrow> None
      | Some fs \<Rightarrow>
          (case (decode_field dec_str ''endpoint'' [] fs, decode_field dec_str ''region'' [] fs,
                 decode_field dec_str ''bucket'' [] fs, decode_field dec_str ''prefix'' [] fs,
                 decode_field dec_bool ''pathStyle'' False fs, decode_field dec_str ''credentialProvider'' [] fs) of
             (Some e, Some r, Some b, Some p, Some ps, Some cp) \<Rightarrow>
               Some \<lparr>s3Endpoint = e, s3Region = r, s3Bucket = b, s3Prefix = p, s3PathStyle = ps, s3CredentialProvider = cp\<rparr>
           | _ \<Rightarrow> None))"

definition dec_azure :: "bool \<Rightarrow> json \<Rightarrow> azure_config option" where
  "dec_azure strict j =
     (case struct_fields strict [''accountName'', ''container'', ''endpoint'', ''prefix''] j of
        None \<Rightarrow> None
      | Some fs \<Rightarrow>
          (case (decode_field dec_str ''accountName'' [] fs, decode_field dec_str ''container'' [] fs,
                 decode_field dec_str ''endpoint'' [] fs, decode_field dec_str ''prefix'' [] fs) of
             (Some a, Some c, Some e, Some p) \<Rightarrow>
               Some \<lparr>azAccountName = a, azContainer = c, azEndpoint = e, azPrefix = p\<rparr>
           | _ \<Rightarrow> None))"

definition dec_gcs :: "bool \<Rightarrow> json \<Rightarrow> gcs_config option" where
  "dec_gcs strict j =
     (case struct_fields strict [''bucket'', ''prefix''] j of
        None \<Rightarrow> None
      | Some fs \<Rightarrow>
          (case (decode_field dec_str ''bucket'' [] fs, decode_field dec_str ''prefix'' [] fs) of
             (Some b, Some p) \<Rightarrow> Some \<lparr>gcsBucket = b, gcsPrefix = p\<rparr>
           | _ \<Rightarrow> None))"

definition dec_fs :: "bool \<Rightarrow> json \<Rightarrow> fs_config option" where
  "dec_fs strict j =
     (case struct_fields strict [''rootPath''] j of
        None \<Rightarrow> None
      | Some fs \<Rightarrow> map_option (\<lambda>r. \<lparr>fsRootPath = r\<rparr>) (decode_field dec_str ''rootPath'' [] fs))"

text \<open>\<^verbatim>\<open>json.Marshal\<close> with \<^verbatim>\<open>omitempty\<close>.\<close>

definition omit_str :: "string \<Rightarrow> string \<Rightarrow> (string \<times> json) list" where
  "omit_str k v = (if v = [] then [] else [(k, JStr v)])"

definition s3_fields :: "s3_config \<Rightarrow> (string \<times> json) list" where
  "s3_fields c =
     omit_str ''endpoint'' (s3Endpoint c) @ omit_str ''region'' (s3Region c) @ [(''bucket'', JStr (s3Bucket c))] @
     omit_str ''prefix'' (s3Prefix c) @ (if s3PathStyle c then [(''pathStyle'', JBool True)] else []) @
     omit_str ''credentialProvider'' (s3CredentialProvider c)"

definition azure_fields :: "azure_config \<Rightarrow> (string \<times> json) list" where
  "azure_fields c =
     [(''accountName'', JStr (azAccountName c)), (''container'', JStr (azContainer c))] @
     omit_str ''endpoint'' (azEndpoint c) @ omit_str ''prefix'' (azPrefix c)"

definition gcs_fields :: "gcs_config \<Rightarrow> (string \<times> json) list" where
  "gcs_fields c = (''bucket'', JStr (gcsBucket c)) # omit_str ''prefix'' (gcsPrefix c)"

definition enc_s3 :: "s3_config \<Rightarrow> json" where "enc_s3 c = JObj (s3_fields c)"

definition enc_azure :: "azure_config \<Rightarrow> json" where "enc_azure c = JObj (azure_fields c)"

definition enc_gcs :: "gcs_config \<Rightarrow> json" where "enc_gcs c = JObj (gcs_fields c)"

definition enc_fs :: "fs_config \<Rightarrow> json" where
  "enc_fs c = JObj [(''rootPath'', JStr (fsRootPath c))]"

section \<open>The canonical configuration\<close>

definition normalizeConfig :: "env \<Rightarrow> kind \<Rightarrow> json option \<Rightarrow> string \<Rightarrow> rerr + json" where
  "normalizeConfig env k raw workspace =
     (let j = (case raw of None \<Rightarrow> JObj [] | Some j \<Rightarrow> j); bad = Inl (RValidation ''config'') in
      if k = KindS3 then
        (case dec_s3 True j of None \<Rightarrow> bad | Some c \<Rightarrow> if s3_Validate env c then Inr (enc_s3 c) else bad)
      else if k = KindAzure then
        (case dec_azure True j of None \<Rightarrow> bad | Some c \<Rightarrow> if azure_Validate env c then Inr (enc_azure c) else bad)
      else if k = KindGCS then
        (case dec_gcs True j of None \<Rightarrow> bad | Some c \<Rightarrow> if gcs_Validate c then Inr (enc_gcs c) else bad)
      else if k = KindFilesystem then
        (case dec_fs True j of
           None \<Rightarrow> bad
         | Some c0 \<Rightarrow>
             let c = c0\<lparr>fsRootPath := path_Clean (fsRootPath c0)\<rparr> in
             if fsRootPath c = ''.'' then bad
             else case policy_Check (eSymlinks env) (eRoots env) workspace (fsRootPath c) of
                    Some e \<Rightarrow> bad
                  | None \<Rightarrow> Inr (enc_fs c))
      else Inl (RValidation ''kind''))"

section \<open>Credentials\<close>

definition maxCredentialBytes :: nat where "maxCredentialBytes = 32768"

definition cred_keys :: "kind \<Rightarrow> string list" where
  "cred_keys k =
     (if k = KindS3 then [''accessKeyId'', ''secretAccessKey'', ''sessionToken'']
      else if k = KindAzure then [''accountKey'', ''sasToken'']
      else if k = KindGCS then [''serviceAccountJson'']
      else [])"

fun cred_entries :: "string list \<Rightarrow> nat \<Rightarrow> (string \<times> string) list \<Rightarrow> rerr + nat" where
  "cred_entries allowed used [] = Inr used"
| "cred_entries allowed used ((k, v) # kvs) =
     (if k \<notin> set allowed then Inl (RValidation ''credentials'')
      else if TrimSpace v = [] then Inl (RValidation (''credentials.'' @ k))
      else cred_entries allowed (used + length v) kvs)"

text \<open>Reading a Go map at a key: the zero value when it is not there.\<close>

definition cred :: "(string \<times> string) list \<Rightarrow> string \<Rightarrow> string" where
  "cred kvs k = (case map_of kvs k of None \<Rightarrow> [] | Some v \<Rightarrow> v)"

definition validateCredentials :: "env \<Rightarrow> kind \<Rightarrow> (string \<times> string) list \<Rightarrow> rerr option" where
  "validateCredentials env k kvs =
     (case cred_entries (cred_keys k) 0 kvs of
        Inl e \<Rightarrow> Some e
      | Inr used \<Rightarrow>
          if used > maxCredentialBytes then Some (RValidation ''credentials'')
          else if k = KindS3 then
            (let hasID = cred kvs ''accessKeyId'' \<noteq> []; hasSecret = cred kvs ''secretAccessKey'' \<noteq> [] in
             if hasID \<noteq> hasSecret then Some (RValidation ''credentials'')
             else if cred kvs ''sessionToken'' \<noteq> [] \<and> \<not> hasID then Some (RValidation ''credentials'')
             else None)
          else if k = KindAzure then
            (if (cred kvs ''accountKey'' \<noteq> []) = (cred kvs ''sasToken'' \<noteq> []) then Some (RValidation ''credentials'') else None)
          else if k = KindGCS then
            (if cred kvs ''serviceAccountJson'' \<noteq> [] \<and> \<not> ValidateServiceAccountJSON (cred kvs ''serviceAccountJson'')
             then Some (RValidation ''credentials.serviceAccountJson'') else None)
          else None)"

section \<open>Constructing a backend\<close>

datatype handle =
    S3Handle s3_config s3_creds
  | AzureHandle azure_config azure_creds
  | GCSHandle gcs_config string
  | FSHandle string

definition s3_New :: "env \<Rightarrow> s3_config \<Rightarrow> s3_creds \<Rightarrow> handle option" where
  "s3_New env c cr = (if \<not> s3_Validate env c then None else if eMinioNew env c cr then Some (S3Handle c cr) else None)"

definition azure_New :: "env \<Rightarrow> azure_config \<Rightarrow> azure_creds \<Rightarrow> handle option" where
  "azure_New env c cr =
     (if \<not> azure_Validate env c then None
      else if azAccountKey cr \<noteq> [] \<and> azSASToken cr \<noteq> [] then None
      else if azAccountKey cr = [] \<and> azSASToken cr = [] then None
      else if eAzureNew env c cr then Some (AzureHandle c cr) else None)"

definition gcs_New :: "env \<Rightarrow> gcs_config \<Rightarrow> string \<Rightarrow> handle option" where
  "gcs_New env c sa =
     (if \<not> gcs_Validate c then None
      else if sa \<noteq> [] \<and> \<not> ValidateServiceAccountJSON sa then None
      else if eGcsNew env sa then Some (GCSHandle c sa) else None)"

definition fs_New :: "fs_config \<Rightarrow> handle option" where
  "fs_New c =
     (if fsRootPath c = [] then None
      else if \<not> path_rooted (fsRootPath c) then None
      else Some (FSHandle (path_Clean (fsRootPath c))))"

definition buildBackend :: "env \<Rightarrow> kind \<Rightarrow> json \<Rightarrow> (string \<times> string) list \<Rightarrow> string \<Rightarrow> handle option" where
  "buildBackend env k cfg kvs workspace =
     (if k = KindS3 then
        (case dec_s3 True cfg of
           None \<Rightarrow> None
         | Some c \<Rightarrow> s3_New env c \<lparr>s3AccessKeyID = cred kvs ''accessKeyId'', s3SecretAccessKey = cred kvs ''secretAccessKey'',
                                   s3SessionToken = cred kvs ''sessionToken''\<rparr>)
      else if k = KindAzure then
        (case dec_azure True cfg of
           None \<Rightarrow> None
         | Some c \<Rightarrow> azure_New env c \<lparr>azAccountKey = cred kvs ''accountKey'', azSASToken = cred kvs ''sasToken''\<rparr>)
      else if k = KindGCS then
        (case dec_gcs True cfg of None \<Rightarrow> None | Some c \<Rightarrow> gcs_New env c (cred kvs ''serviceAccountJson''))
      else if k = KindFilesystem then
        (case dec_fs True cfg of
           None \<Rightarrow> None
         | Some c \<Rightarrow>
             if policy_Check (eSymlinks env) (eRoots env) workspace (fsRootPath c) \<noteq> None then None else fs_New c)
      else None)"

section \<open>The location shown for a record\<close>

definition slashPrefix :: "string \<Rightarrow> string" where
  "slashPrefix p = (let q = TrimByte slash p in if q = [] then [] else slash # q)"

definition Location :: "kind \<Rightarrow> json \<Rightarrow> string" where
  "Location k cfg =
     (if k = KindS3 then
        (case dec_s3 False cfg of None \<Rightarrow> [] | Some c \<Rightarrow> ''s3://'' @ s3Bucket c @ slashPrefix (s3Prefix c))
      else if k = KindAzure then
        (case dec_azure False cfg of
           None \<Rightarrow> [] | Some c \<Rightarrow> ''azure://'' @ azAccountName c @ ''/'' @ azContainer c @ slashPrefix (azPrefix c))
      else if k = KindGCS then
        (case dec_gcs False cfg of None \<Rightarrow> [] | Some c \<Rightarrow> ''gs://'' @ gcsBucket c @ slashPrefix (gcsPrefix c))
      else if k = KindFilesystem then
        (case dec_fs False cfg of None \<Rightarrow> [] | Some c \<Rightarrow> fsRootPath c)
      else [])"

section \<open>What is stored decodes to what was validated\<close>

text \<open>An object whose keys are distinct field names, whatever their order.\<close>

definition flat_obj :: "string list \<Rightarrow> (string \<times> json) list \<Rightarrow> bool" where
  "flat_obj names kvs \<longleftrightarrow> distinct (map fst kvs) \<and> fst ` set kvs \<subseteq> set names"

lemma struct_entries_flat: "fst ` set kvs \<subseteq> set names \<Longrightarrow> struct_entries strict names kvs = Some kvs"
  by (induction kvs) (auto simp: field_of_def)

lemma struct_fields_flat: "flat_obj names kvs \<Longrightarrow> struct_fields strict names (JObj kvs) = Some kvs"
  by (simp add: struct_fields_def struct_entries_flat flat_obj_def)

lemma decode_field_map:
  "distinct (map fst kvs) \<Longrightarrow> decode_field dec f acc kvs =
     (case map_of kvs f of None \<Rightarrow> Some acc | Some v \<Rightarrow> if v = JNull then Some acc else dec v)"
proof (induction kvs arbitrary: acc)
  case (Cons kv kvs)
  obtain k v where kv: "kv = (k, v)" by fastforce
  show ?case
  proof (cases "k = f")
    case True
    with Cons.prems kv have "map_of kvs f = None" by (auto simp: map_of_eq_None_iff)
    with Cons kv True show ?thesis by (auto split: option.splits)
  qed (use Cons kv in simp)
qed simp

text \<open>A \<^verbatim>\<open>JSONB\<close> column keeps such an object's fields.\<close>

lemma jsonb_flat:
  assumes "flat_obj names kvs" "\<forall>v \<in> set (map snd kvs). jsonb v = v"
  shows "\<exists>kvs'. jsonb (JObj kvs) = JObj kvs' \<and> flat_obj names kvs' \<and> map_of kvs' = map_of kvs \<and>
    (\<forall>v \<in> set (map snd kvs'). jsonb v = v)"
proof -
  have "map (\<lambda>(k, v). (k, jsonb v)) kvs = kvs" using assms(2) by (intro map_idI) auto
  then have j: "jsonb (JObj kvs) = JObj (sort_key (\<lambda>p. (length (fst p), fst p)) (AList.clearjunk (rev kvs)))" by simp
  have d: "distinct (map fst (rev kvs))" using assms(1) by (simp add: flat_obj_def rev_map [symmetric])
  then have c: "AList.clearjunk (rev kvs) = rev kvs" by (rule distinct_clearjunk_id)
  let ?s = "sort_key (\<lambda>p. (length (fst p), fst p)) (rev kvs)"
  have "mset (map fst ?s) = mset (map fst (rev kvs))" by simp
  then have ds: "distinct (map fst ?s)" using d mset_eq_imp_distinct_iff by blast
  have "map_of ?s = map_of (rev kvs)" using ds d by (intro map_of_inject_set [THEN iffD2]) simp_all
  also have "\<dots> = map_of kvs" using assms(1) d by (intro map_of_inject_set [THEN iffD2]) (simp_all add: flat_obj_def)
  finally show ?thesis using j c ds assms by (auto simp: flat_obj_def)
qed

lemma map_of_omit [simp]: "map_of (omit_str k v) f = (if f = k \<and> v \<noteq> [] then Some (JStr v) else None)"
  by (auto simp: omit_str_def)

lemma set_omit: "set (omit_str k v) = (if v = [] then {} else {(k, JStr v)})"
  by (simp add: omit_str_def)

text \<open>Two such objects with the same fields decode alike.\<close>

lemma flat_distinct: "flat_obj names kvs \<Longrightarrow> distinct (map fst kvs)"
  by (simp add: flat_obj_def)

lemmas dec_flat = struct_fields_flat decode_field_map flat_distinct

lemma dec_same:
  "map_of kvs' = map_of kvs \<Longrightarrow> flat_obj [''endpoint'', ''region'', ''bucket'', ''prefix'', ''pathStyle'', ''credentialProvider''] kvs \<Longrightarrow>
      flat_obj [''endpoint'', ''region'', ''bucket'', ''prefix'', ''pathStyle'', ''credentialProvider''] kvs' \<Longrightarrow>
      dec_s3 strict (JObj kvs') = dec_s3 strict (JObj kvs)"
  "map_of kvs' = map_of kvs \<Longrightarrow> flat_obj [''accountName'', ''container'', ''endpoint'', ''prefix''] kvs \<Longrightarrow>
      flat_obj [''accountName'', ''container'', ''endpoint'', ''prefix''] kvs' \<Longrightarrow>
      dec_azure strict (JObj kvs') = dec_azure strict (JObj kvs)"
  "map_of kvs' = map_of kvs \<Longrightarrow> flat_obj [''bucket'', ''prefix''] kvs \<Longrightarrow> flat_obj [''bucket'', ''prefix''] kvs' \<Longrightarrow>
      dec_gcs strict (JObj kvs') = dec_gcs strict (JObj kvs)"
  "map_of kvs' = map_of kvs \<Longrightarrow> flat_obj [''rootPath''] kvs \<Longrightarrow> flat_obj [''rootPath''] kvs' \<Longrightarrow>
      dec_fs strict (JObj kvs') = dec_fs strict (JObj kvs)"
  by (simp_all only: dec_s3_def dec_azure_def dec_gcs_def dec_fs_def dec_flat option.case)

lemma s3_flat:
  "flat_obj [''endpoint'', ''region'', ''bucket'', ''prefix'', ''pathStyle'', ''credentialProvider''] (s3_fields c)"
  "\<forall>v \<in> set (map snd (s3_fields c)). jsonb v = v"
  by (auto simp: s3_fields_def flat_obj_def omit_str_def)

lemma azure_flat:
  "flat_obj [''accountName'', ''container'', ''endpoint'', ''prefix''] (azure_fields c)"
  "\<forall>v \<in> set (map snd (azure_fields c)). jsonb v = v"
  by (auto simp: azure_fields_def flat_obj_def omit_str_def)

lemma gcs_flat:
  "flat_obj [''bucket'', ''prefix''] (gcs_fields c)" "\<forall>v \<in> set (map snd (gcs_fields c)). jsonb v = v"
  by (auto simp: gcs_fields_def flat_obj_def omit_str_def)

lemma dec_enc_s3: "dec_s3 strict (enc_s3 c) = Some c"
  unfolding enc_s3_def dec_s3_def struct_fields_flat [OF s3_flat(1)] option.case decode_field_map [OF flat_distinct [OF s3_flat(1)]]
  by (cases c) (simp add: s3_fields_def dec_str_def dec_bool_def map_add_def)

lemma dec_enc_azure: "dec_azure strict (enc_azure c) = Some c"
  unfolding enc_azure_def dec_azure_def struct_fields_flat [OF azure_flat(1)] option.case decode_field_map [OF flat_distinct [OF azure_flat(1)]]
  by (cases c) (simp add: azure_fields_def dec_str_def map_add_def)

lemma dec_enc_gcs: "dec_gcs strict (enc_gcs c) = Some c"
  unfolding enc_gcs_def dec_gcs_def struct_fields_flat [OF gcs_flat(1)] option.case decode_field_map [OF flat_distinct [OF gcs_flat(1)]]
  by (cases c) (simp add: gcs_fields_def dec_str_def map_add_def)

lemma dec_enc_fs: "dec_fs strict (enc_fs c) = Some c"
  by (cases c) (simp add: dec_fs_def enc_fs_def struct_fields_def field_of_def dec_str_def)

lemma dec_jsonb_s3: "dec_s3 strict (jsonb (enc_s3 c)) = Some c"
proof -
  obtain kvs where "jsonb (JObj (s3_fields c)) = JObj kvs" "flat_obj [''endpoint'', ''region'', ''bucket'', ''prefix'', ''pathStyle'', ''credentialProvider''] kvs" "map_of kvs = map_of (s3_fields c)"
    using jsonb_flat [OF s3_flat] by blast
  then show ?thesis using dec_same(1) [OF _ s3_flat(1)] dec_enc_s3 [of strict c] by (simp only: enc_s3_def)
qed

lemma dec_jsonb_azure: "dec_azure strict (jsonb (enc_azure c)) = Some c"
proof -
  obtain kvs where "jsonb (JObj (azure_fields c)) = JObj kvs" "flat_obj [''accountName'', ''container'', ''endpoint'', ''prefix''] kvs" "map_of kvs = map_of (azure_fields c)"
    using jsonb_flat [OF azure_flat] by blast
  then show ?thesis using dec_same(2) [OF _ azure_flat(1)] dec_enc_azure [of strict c] by (simp only: enc_azure_def)
qed

lemma dec_jsonb_gcs: "dec_gcs strict (jsonb (enc_gcs c)) = Some c"
proof -
  obtain kvs where "jsonb (JObj (gcs_fields c)) = JObj kvs" "flat_obj [''bucket'', ''prefix''] kvs" "map_of kvs = map_of (gcs_fields c)"
    using jsonb_flat [OF gcs_flat] by blast
  then show ?thesis using dec_same(3) [OF _ gcs_flat(1)] dec_enc_gcs [of strict c] by (simp only: enc_gcs_def)
qed

lemma dec_jsonb_fs: "dec_fs strict (jsonb (enc_fs c)) = Some c"
  using dec_enc_fs [of strict c] by (simp add: enc_fs_def)

lemmas dec_stored = dec_enc_s3 dec_enc_azure dec_enc_gcs dec_enc_fs dec_jsonb_s3 dec_jsonb_azure dec_jsonb_gcs dec_jsonb_fs

lemma path_Clean_idem: "path_rooted p \<Longrightarrow> path_Clean (path_Clean p) = path_Clean p"
  using path_segs_Clean [of p] by (simp add: path_Clean_def [of "path_Clean p"]) (simp add: path_Clean_def)

lemma path_rooted_Clean: "path_rooted (path_Clean p) \<longleftrightarrow> path_rooted p"
proof (cases "path_rooted p")
  case False
  have "\<forall>s \<in> set (path_segs p). s \<noteq> [] \<and> slash \<notin> set s"
    unfolding path_segs_def by (rule clean_segs_seg) (auto dest: split_on_segs)
  then have "\<not> HasPrefix (join_with slash (path_segs p)) ''/''"
  proof (cases "path_segs p")
    case (Cons k ks)
    with \<open>\<forall>s \<in> set (path_segs p). s \<noteq> [] \<and> slash \<notin> set s\<close> have k: "k \<noteq> []" "hd k \<noteq> slash"
      by (auto dest: hd_in_set)
    then have "hd (join_with slash (path_segs p)) = hd k" unfolding Cons by (cases ks) simp_all
    with k show ?thesis by (cases "join_with slash (path_segs p)") auto
  qed simp
  with False show ?thesis by (auto simp: path_Clean_def render_def path_rooted_def)
qed (use path_segs_Clean in blast)

section \<open>The stored configuration as text\<close>

text \<open>
  What \<^const>\<open>normalizeConfig\<close> returns is the text \<^verbatim>\<open>json.Marshal\<close> writes for the canonical value.
  From a configuration that was read as JSON it reads back as that value.
\<close>

lemma struct_entries_all:
  "struct_entries strict names kvs = Some fs \<Longrightarrow> \<forall>p \<in> set kvs. P (snd p) \<Longrightarrow> \<forall>p \<in> set fs. P (snd p)"
proof (induction kvs arbitrary: fs)
  case (Cons p kvs)
  obtain k v where "p = (k, v)" by fastforce
  with Cons show ?case by (cases "field_of names k") (fastforce split: if_splits)+
qed simp

lemma struct_fields_fit:
  assumes "fits d j" "struct_fields strict names j = Some fs"
  shows "\<forall>p \<in> set fs. fits (d - 1) (snd p)"
proof (cases j)
  case (JObj kvs)
  with assms show ?thesis by (intro struct_entries_all [of strict names kvs fs]) (auto simp: struct_fields_def)
qed (use assms in \<open>auto simp: struct_fields_def\<close>)

lemma dec_str_Some: "dec_str v = Some a \<longleftrightarrow> v = JStr a"
  by (cases v) (auto simp: dec_str_def)

lemma decode_str_valid:
  "decode_field dec_str f acc fs = Some s \<Longrightarrow> \<forall>p \<in> set fs. fits d (snd p) \<Longrightarrow> to_valid acc = acc \<Longrightarrow> to_valid s = s"
proof (induction fs arbitrary: acc)
  case (Cons p fs)
  obtain k v where p: "p = (k, v)" by fastforce
  show ?case
  proof (cases "k \<noteq> f \<or> v = JNull")
    case True
    with Cons p show ?thesis by auto
  next
    case False
    with Cons.prems(1) p obtain a where "v = JStr a" "decode_field dec_str f a fs = Some s"
      by (cases "dec_str v") (auto simp: dec_str_Some dec_str_Some [THEN iffD2])
    with Cons.IH [of a] Cons.prems(2) p show ?thesis by simp
  qed
qed simp

lemma decoded_str_valid:
  assumes "fits d j" "struct_fields strict names j = Some fs" "decode_field dec_str f [] fs = Some s"
  shows "to_valid s = s"
  using decode_str_valid [OF assms(3) struct_fields_fit [OF assms(1,2)]] by simp

lemma fits_omit: "to_valid s = s \<Longrightarrow> (k', v) \<in> set (omit_str k s) \<Longrightarrow> k' = k \<and> fits d v"
  by (auto simp: omit_str_def split: if_splits)

lemma fits_fields:
  assumes "0 < d" "list_all (list_all (\<lambda>c. byte c < 128)) (map fst kvs)" "\<And>k v. (k, v) \<in> set kvs \<Longrightarrow> fits (d - 1) v"
  shows "fits d (JObj kvs)"
proof -
  have "to_valid k = k" if "(k, v) \<in> set kvs" for k v using that assms(2) by (intro ascii_valid) (auto simp: list_all_iff)
  with assms(1,3) show ?thesis by auto
qed

lemma s3_text:
  assumes "fits d j" "dec_s3 strict j = Some c" "0 < e"
  shows "fits e (enc_s3 c)"
proof -
  from assms(2) obtain fs where fs: "struct_fields strict [''endpoint'', ''region'', ''bucket'', ''prefix'', ''pathStyle'', ''credentialProvider''] j = Some fs"
    by (auto simp: dec_s3_def split: option.splits)
  note v = decoded_str_valid [OF assms(1) fs]
  from assms(2) fs have "to_valid (s3Endpoint c) = s3Endpoint c" "to_valid (s3Region c) = s3Region c" "to_valid (s3Bucket c) = s3Bucket c"
    "to_valid (s3Prefix c) = s3Prefix c" "to_valid (s3CredentialProvider c) = s3CredentialProvider c"
    by (auto simp: dec_s3_def split: option.splits intro: v)
  with assms(3) show ?thesis
    unfolding enc_s3_def by (intro fits_fields) (auto simp: s3_fields_def omit_str_def split: if_splits)
qed

lemma azure_text:
  assumes "fits d j" "dec_azure strict j = Some c" "0 < e"
  shows "fits e (enc_azure c)"
proof -
  from assms(2) obtain fs where fs: "struct_fields strict [''accountName'', ''container'', ''endpoint'', ''prefix''] j = Some fs"
    by (auto simp: dec_azure_def split: option.splits)
  note v = decoded_str_valid [OF assms(1) fs]
  from assms(2) fs have "to_valid (azAccountName c) = azAccountName c" "to_valid (azContainer c) = azContainer c"
    "to_valid (azEndpoint c) = azEndpoint c" "to_valid (azPrefix c) = azPrefix c"
    by (auto simp: dec_azure_def split: option.splits intro: v)
  with assms(3) show ?thesis
    unfolding enc_azure_def by (intro fits_fields) (auto simp: azure_fields_def omit_str_def split: if_splits)
qed

lemma gcs_text:
  assumes "fits d j" "dec_gcs strict j = Some c" "0 < e"
  shows "fits e (enc_gcs c)"
proof -
  from assms(2) obtain fs where fs: "struct_fields strict [''bucket'', ''prefix''] j = Some fs"
    by (auto simp: dec_gcs_def split: option.splits)
  note v = decoded_str_valid [OF assms(1) fs]
  from assms(2) fs have "to_valid (gcsBucket c) = gcsBucket c" "to_valid (gcsPrefix c) = gcsPrefix c"
    by (auto simp: dec_gcs_def split: option.splits intro: v)
  with assms(3) show ?thesis
    unfolding enc_gcs_def by (intro fits_fields) (auto simp: gcs_fields_def omit_str_def split: if_splits)
qed

lemma clean_segs_valid:
  "\<forall>s \<in> set acc \<union> set ss. to_valid s = s \<Longrightarrow> \<forall>s \<in> set (clean_segs rooted acc ss). to_valid s = s"
proof (induction rooted acc ss rule: clean_segs.induct)
  case (2 rooted acc s ss)
  have "to_valid dotdot = dotdot" by (simp add: dotdot_def ascii_valid)
  with 2 show ?case by (auto split: list.split)
qed simp

lemma path_Clean_valid: "to_valid p = p \<Longrightarrow> to_valid (path_Clean p) = path_Clean p"
proof -
  assume "to_valid p = p"
  then have "\<forall>s \<in> set (path_segs p). to_valid s = s"
    unfolding path_segs_def by (intro clean_segs_valid) (auto intro: split_on_valid [of slash p])
  then have "to_valid (join_with slash (path_segs p)) = join_with slash (path_segs p)" by (intro join_valid) auto
  then show ?thesis using to_valid_split [of slash "[]"] by (simp add: path_Clean_def render_def ascii_valid)
qed

lemma fs_text:
  assumes "fits d j" "dec_fs strict j = Some c" "0 < e"
  shows "fits e (enc_fs (c\<lparr>fsRootPath := path_Clean (fsRootPath c)\<rparr>))"
proof -
  from assms(2) obtain fs where fs: "struct_fields strict [''rootPath''] j = Some fs"
    by (auto simp: dec_fs_def split: option.splits)
  from assms(2) fs have "to_valid (fsRootPath c) = fsRootPath c"
    using decoded_str_valid [OF assms(1) fs] by (auto simp: dec_fs_def)
  with assms(3) show ?thesis unfolding enc_fs_def by (intro fits_fields) (auto simp: path_Clean_valid)
qed

lemma normalizeConfig_fits:
  assumes "normalizeConfig env k raw w = Inr cfg" "\<forall>j. raw = Some j \<longrightarrow> fits d j" "0 < d"
  shows "fits maxNestingDepth cfg"
proof -
  obtain j where j: "(case raw of None \<Rightarrow> JObj [] | Some j \<Rightarrow> j) = j" by blast
  have f: "fits d j" "0 < maxNestingDepth" using assms(2,3) j by (auto simp: maxNestingDepth_def split: option.splits)
  from assms(1) s3_text [OF f(1) _ f(2)] azure_text [OF f(1) _ f(2)] gcs_text [OF f(1) _ f(2)] fs_text [OF f(1) _ f(2)]
  show "fits maxNestingDepth cfg"
    unfolding normalizeConfig_def Let_def j by (auto split: if_splits option.splits)
qed

end
