(* ===== verification/Registry_Service.thy ===== *)
theory Registry_Service
  imports Registry_Creds Registry_Kinds
begin

text \<open>
  \<^verbatim>\<open>internal/registry/service.go\<close> and \<^verbatim>\<open>probe.go\<close>: the registry's operations over a metadata store,
  a credential store and the cache of opened backends.  A clock reading is an argument, the
  random bytes of a probe key too; \<open>rgWorld\<close> is the server's disk with the remote services, on
  which \<open>svMethods\<close> gives the methods of an opened backend.  A wrapped error is the error it
  wraps; the failures the code only logs are dropped.
\<close>

section \<open>The service and its state\<close>

record cached =
  chUpdatedAt :: int
  chLoadedAt :: int
  chBackend :: handle

record ('m, 'c, 'w) regst =
  rgMeta :: 'm
  rgCreds :: 'c
  rgCache :: "(string \<times> cached) list"
  rgWorld :: "node \<times> 'w"

record ('m, 'c, 'w) svc =
  svMeta :: "'m meta_ops"
  svCreds :: "'c cred_ops"
  svEnv :: env
  svMethods :: "handle \<Rightarrow> (node \<times> 'w) backend"
  svMkErr :: "fs_err option"

record create_input =
  ciID :: string
  ciDisplayName :: string
  ciKind :: kind
  ciConfig :: "json option"
  ciCredentials :: creds

record update_input =
  uiDisplayName :: "string option"
  uiConfig :: "json option"
  uiCredentials :: "creds option"

definition openCacheTTL :: int where "openCacheTTL = 10 * 60 * 1000000000"

definition FilesystemEnabled :: "('m, 'c, 'w) svc \<Rightarrow> bool" where
  "FilesystemEnabled sv = policy_Enabled (eRoots (svEnv sv))"

definition reg_Ping :: "('m, 'c, 'w) svc \<Rightarrow> ('m, 'c, 'w) regst \<Rightarrow> rerr option" where
  "reg_Ping sv st = mPing (svMeta sv) (rgMeta st)"

definition reg_Get :: "('m, 'c, 'w) svc \<Rightarrow> string \<Rightarrow> string \<Rightarrow> ('m, 'c, 'w) regst \<Rightarrow> (rerr + backend_rec) \<times> ('m, 'c, 'w) regst" where
  "reg_Get sv w i st =
     (case ValidateWorkspace w of
        Some e \<Rightarrow> (Inl e, st)
      | None \<Rightarrow> (case mGet (svMeta sv) w i (rgMeta st) of (r, m) \<Rightarrow> (r, st\<lparr>rgMeta := m\<rparr>)))"

definition reg_List :: "('m, 'c, 'w) svc \<Rightarrow> string \<Rightarrow> ('m, 'c, 'w) regst \<Rightarrow> (rerr + backend_rec list) \<times> ('m, 'c, 'w) regst" where
  "reg_List sv w st =
     (case ValidateWorkspace w of
        Some e \<Rightarrow> (Inl e, st)
      | None \<Rightarrow> (case mList (svMeta sv) w (rgMeta st) of (r, m) \<Rightarrow> (r, st\<lparr>rgMeta := m\<rparr>)))"

definition invalidate :: "string \<Rightarrow> string \<Rightarrow> ('m, 'c, 'w) regst \<Rightarrow> ('m, 'c, 'w) regst" where
  "invalidate w i st = st\<lparr>rgCache := AList.delete (key w i) (rgCache st)\<rparr>"

section \<open>Registering a backend\<close>

definition display_name :: "string \<Rightarrow> string \<Rightarrow> rerr + string" where
  "display_name i raw =
     (let name = (if TrimSpace raw = [] then i else TrimSpace raw) in
      if length name > 100 then Inl (RValidation ''displayName'') else Inr name)"

text \<open>\<^verbatim>\<open>checkFilesystemRoot\<close> decodes the stored configuration first.\<close>

definition root_check ::
    "('m, 'c, 'w) svc \<Rightarrow> json \<Rightarrow> bool \<Rightarrow> ('m, 'c, 'w) regst \<Rightarrow> (rerr + root_status) \<times> ('m, 'c, 'w) regst" where
  "root_check sv cfg create st =
     (case dec_fs False cfg of
        None \<Rightarrow> (Inl (RValidation ''config''), st)
      | Some c \<Rightarrow>
          (case checkFilesystemRoot (svMkErr sv) (fsRootPath c) create (fst (rgWorld st)) of
             (r, disk) \<Rightarrow> (r, st\<lparr>rgWorld := (disk, snd (rgWorld st))\<rparr>)))"

definition create_root :: "('m, 'c, 'w) svc \<Rightarrow> bool \<Rightarrow> json \<Rightarrow> ('m, 'c, 'w) regst \<Rightarrow> rerr option \<times> ('m, 'c, 'w) regst" where
  "create_root sv needed cfg st =
     (if needed then
        (case root_check sv cfg True st of (Inl e, st1) \<Rightarrow> (Some e, st1) | (Inr _, st1) \<Rightarrow> (None, st1))
      else (None, st))"

text \<open>The checks of \<^verbatim>\<open>Create\<close> up to the canonical configuration: the name and that configuration.\<close>

definition create_checks :: "('m, 'c, 'w) svc \<Rightarrow> string \<Rightarrow> create_input \<Rightarrow> rerr + string \<times> json" where
  "create_checks sv w inp =
     (case ValidateWorkspace w of
        Some e \<Rightarrow> Inl e
      | None \<Rightarrow>
     (case ValidateID (ciID inp) of
        Some e \<Rightarrow> Inl e
      | None \<Rightarrow>
     (case display_name (ciID inp) (ciDisplayName inp) of
        Inl e \<Rightarrow> Inl e
      | Inr name \<Rightarrow>
     (if \<not> kind_Valid (ciKind inp) then Inl (RValidation ''kind'')
      else case normalizeConfig (svEnv sv) (ciKind inp) (ciConfig inp) w of
        Inl e \<Rightarrow> Inl e
      | Inr cfg \<Rightarrow>
     (case validateCredentials (svEnv sv) (ciKind inp) (ciCredentials inp) of
        Some e \<Rightarrow> Inl e
      | None \<Rightarrow> Inr (name, cfg))))))"

definition new_record :: "int \<Rightarrow> string \<Rightarrow> string \<Rightarrow> create_input \<Rightarrow> string \<Rightarrow> json \<Rightarrow> backend_rec" where
  "new_record now w actor inp name cfg =
     \<lparr>rWorkspace = w, rID = ciID inp, rDisplayName = name, rKind = ciKind inp, rConfig = cfg,
      rHasCredentials = (ciCredentials inp \<noteq> []), rCreateOnlyVerified = False, rCreatedBy = actor,
      rCreatedAt = trunc_us now, rUpdatedAt = trunc_us now\<rparr>"

text \<open>The id is reserved first; if the credentials cannot be stored, the record is removed again.\<close>

definition create_store ::
    "('m, 'c, 'w) svc \<Rightarrow> backend_rec \<Rightarrow> creds \<Rightarrow> ('m, 'c, 'w) regst \<Rightarrow> (rerr + backend_rec) \<times> ('m, 'c, 'w) regst" where
  "create_store sv r kvs st =
     (case mCreate (svMeta sv) r (rgMeta st) of
        (Some e, m) \<Rightarrow> (Inl e, st\<lparr>rgMeta := m\<rparr>)
      | (None, m) \<Rightarrow>
          if kvs = [] then (Inr r, st\<lparr>rgMeta := m\<rparr>)
          else (case cPut (svCreds sv) (rWorkspace r) (rID r) kvs (rgCreds st) of
                  (None, c) \<Rightarrow> (Inr r, st\<lparr>rgMeta := m, rgCreds := c\<rparr>)
                | (Some e, c) \<Rightarrow>
                    (case mDelete (svMeta sv) (rWorkspace r) (rID r) m of
                       (derr, m') \<Rightarrow> (Inl e, st\<lparr>rgMeta := m', rgCreds := c\<rparr>))))"

definition reg_Create ::
    "('m, 'c, 'w) svc \<Rightarrow> int \<Rightarrow> string \<Rightarrow> string \<Rightarrow> create_input \<Rightarrow> ('m, 'c, 'w) regst \<Rightarrow>
     (rerr + backend_rec) \<times> ('m, 'c, 'w) regst" where
  "reg_Create sv now w actor inp st =
     (case create_checks sv w inp of
        Inl e \<Rightarrow> (Inl e, st)
      | Inr (name, cfg) \<Rightarrow>
     (case create_root sv (ciKind inp = KindFilesystem) cfg st of
        (Some e, st1) \<Rightarrow> (Inl e, st1)
      | (None, st1) \<Rightarrow>
          if buildBackend (svEnv sv) (ciKind inp) cfg (ciCredentials inp) w = None then (Inl (RValidation []), st1)
          else create_store sv (new_record now w actor inp name cfg) (ciCredentials inp) st1))"

section \<open>Changing one\<close>

record prepared =
  puRec :: backend_rec
  puCreds :: creds
  puReplace :: bool
  puNew :: creds

text \<open>The record with the requested name and configuration; a new configuration is unproven.\<close>

definition update_record :: "('m, 'c, 'w) svc \<Rightarrow> string \<Rightarrow> string \<Rightarrow> update_input \<Rightarrow> backend_rec \<Rightarrow> rerr + backend_rec" where
  "update_record sv w i inp r =
     (case (case uiDisplayName inp of None \<Rightarrow> Inr (rDisplayName r) | Some raw \<Rightarrow> display_name i raw) of
        Inl e \<Rightarrow> Inl e
      | Inr name \<Rightarrow>
          (case uiConfig inp of
             None \<Rightarrow> Inr (r\<lparr>rDisplayName := name\<rparr>)
           | Some j \<Rightarrow>
               (case normalizeConfig (svEnv sv) (rKind r) (Some j) w of
                  Inl e \<Rightarrow> Inl e
                | Inr cfg \<Rightarrow> Inr (r\<lparr>rDisplayName := name, rConfig := cfg, rCreateOnlyVerified := False\<rparr>))))"

text \<open>The credentials the updated backend will use: the new ones, or those stored.\<close>

definition update_creds ::
    "('m, 'c, 'w) svc \<Rightarrow> string \<Rightarrow> string \<Rightarrow> update_input \<Rightarrow> backend_rec \<Rightarrow> ('m, 'c, 'w) regst \<Rightarrow>
     (rerr + prepared) \<times> ('m, 'c, 'w) regst" where
  "update_creds sv w i inp r st =
     (case uiCredentials inp of
        Some kvs \<Rightarrow>
          (case validateCredentials (svEnv sv) (rKind r) kvs of
             Some e \<Rightarrow> (Inl e, st)
           | None \<Rightarrow> (Inr \<lparr>puRec = r\<lparr>rHasCredentials := (kvs \<noteq> [])\<rparr>, puCreds = kvs, puReplace = True, puNew = kvs\<rparr>, st))
      | None \<Rightarrow>
          if rHasCredentials r then
            (case cGet (svCreds sv) w i (rgCreds st) of
               (Inr stored, c) \<Rightarrow> (Inr \<lparr>puRec = r, puCreds = stored, puReplace = False, puNew = []\<rparr>, st\<lparr>rgCreds := c\<rparr>)
             | (Inl e, c) \<Rightarrow>
                 if e = RNoCredentials
                 then (Inr \<lparr>puRec = r, puCreds = [], puReplace = False, puNew = []\<rparr>, st\<lparr>rgCreds := c\<rparr>)
                 else (Inl e, st\<lparr>rgCreds := c\<rparr>))
          else (Inr \<lparr>puRec = r, puCreds = [], puReplace = False, puNew = []\<rparr>, st))"

definition bump :: "int \<Rightarrow> int \<Rightarrow> int" where
  "bump prev now = (if \<not> now > prev then prev + 1000 else now)"

definition prepareUpdate ::
    "('m, 'c, 'w) svc \<Rightarrow> int \<Rightarrow> string \<Rightarrow> string \<Rightarrow> update_input \<Rightarrow> ('m, 'c, 'w) regst \<Rightarrow>
     (rerr + prepared) \<times> ('m, 'c, 'w) regst" where
  "prepareUpdate sv now w i inp st =
     (case reg_Get sv w i st of
        (Inl e, st1) \<Rightarrow> (Inl e, st1)
      | (Inr r0, st1) \<Rightarrow>
     (case update_record sv w i inp r0 of
        Inl e \<Rightarrow> (Inl e, st1)
      | Inr r1 \<Rightarrow>
     (case update_creds sv w i inp r1 st1 of
        (Inl e, st2) \<Rightarrow> (Inl e, st2)
      | (Inr p, st2) \<Rightarrow>
          if buildBackend (svEnv sv) (rKind r1) (rConfig (puRec p)) (puCreds p) w = None then (Inl (RValidation []), st2)
          else (Inr (p\<lparr>puRec := (puRec p)\<lparr>rUpdatedAt := bump (rUpdatedAt r0) (trunc_us now)\<rparr>\<rparr>), st2))))"

text \<open>The credentials are written before the record.\<close>

definition update_secrets :: "('m, 'c, 'w) svc \<Rightarrow> string \<Rightarrow> string \<Rightarrow> prepared \<Rightarrow> ('m, 'c, 'w) regst \<Rightarrow> rerr option \<times> ('m, 'c, 'w) regst" where
  "update_secrets sv w i p st =
     (if puReplace p then
        (if puNew p = [] then (case cDelete (svCreds sv) w i (rgCreds st) of (e, c) \<Rightarrow> (e, st\<lparr>rgCreds := c\<rparr>))
         else (case cPut (svCreds sv) w i (puNew p) (rgCreds st) of (e, c) \<Rightarrow> (e, st\<lparr>rgCreds := c\<rparr>)))
      else (None, st))"

definition reg_Update ::
    "('m, 'c, 'w) svc \<Rightarrow> int \<Rightarrow> string \<Rightarrow> string \<Rightarrow> update_input \<Rightarrow> ('m, 'c, 'w) regst \<Rightarrow>
     (rerr + backend_rec) \<times> ('m, 'c, 'w) regst" where
  "reg_Update sv now w i inp st =
     (case prepareUpdate sv now w i inp st of
        (Inl e, st1) \<Rightarrow> (Inl e, st1)
      | (Inr p, st1) \<Rightarrow>
     (case create_root sv (rKind (puRec p) = KindFilesystem \<and> uiConfig inp \<noteq> None) (rConfig (puRec p)) st1 of
        (Some e, st2) \<Rightarrow> (Inl e, st2)
      | (None, st2) \<Rightarrow>
     (case update_secrets sv w i p st2 of
        (Some e, st3) \<Rightarrow> (Inl e, st3)
      | (None, st3) \<Rightarrow>
     (case mUpdate (svMeta sv) (puRec p) (rgMeta st3) of
        (Some e, m) \<Rightarrow> (Inl e, st3\<lparr>rgMeta := m\<rparr>)
      | (None, m) \<Rightarrow> (Inr (puRec p), invalidate w i (st3\<lparr>rgMeta := m\<rparr>))))))"

definition reg_Delete :: "('m, 'c, 'w) svc \<Rightarrow> string \<Rightarrow> string \<Rightarrow> ('m, 'c, 'w) regst \<Rightarrow> rerr option \<times> ('m, 'c, 'w) regst" where
  "reg_Delete sv w i st =
     (case ValidateWorkspace w of
        Some e \<Rightarrow> (Some e, st)
      | None \<Rightarrow>
     (case mDelete (svMeta sv) w i (rgMeta st) of
        (Some e, m) \<Rightarrow> (Some e, st\<lparr>rgMeta := m\<rparr>)
      | (None, m) \<Rightarrow>
          (case cDelete (svCreds sv) w i (rgCreds st) of
             (cerr, c) \<Rightarrow> (None, (invalidate w i (st\<lparr>rgMeta := m\<rparr>))\<lparr>rgCreds := c\<rparr>))))"

section \<open>Opening and testing\<close>

text \<open>\<open>now\<close> is the clock when the cache is looked up, \<open>later\<close> when an entry is stored.\<close>

definition reg_Open ::
    "('m, 'c, 'w) svc \<Rightarrow> int \<Rightarrow> int \<Rightarrow> string \<Rightarrow> string \<Rightarrow> ('m, 'c, 'w) regst \<Rightarrow> (rerr + handle) \<times> ('m, 'c, 'w) regst" where
  "reg_Open sv now later w i st =
     (case reg_Get sv w i st of
        (Inl e, st1) \<Rightarrow> (Inl e, st1)
      | (Inr r, st1) \<Rightarrow>
          let hit = (case map_of (rgCache st1) (key w i) of
                       None \<Rightarrow> None
                     | Some c \<Rightarrow> if chUpdatedAt c = rUpdatedAt r \<and> trunc_us now - chLoadedAt c < openCacheTTL then Some (chBackend c) else None) in
          (case hit of
             Some h \<Rightarrow> (Inr h, st1)
           | None \<Rightarrow>
               (case (if rHasCredentials r then cGet (svCreds sv) w i (rgCreds st1) else (Inr [], rgCreds st1)) of
                  (Inl e, c) \<Rightarrow> (Inl (if e = RNoCredentials then ROther ''credentials are missing'' else e), st1\<lparr>rgCreds := c\<rparr>)
                | (Inr kvs, c) \<Rightarrow>
                    (case buildBackend (svEnv sv) (rKind r) (rConfig r) kvs w of
                       None \<Rightarrow> (Inl (ROther ''opening''), st1\<lparr>rgCreds := c\<rparr>)
                     | Some h \<Rightarrow>
                         (Inr h, st1\<lparr>rgCreds := c,
                            rgCache := AList.update (key w i)
                              \<lparr>chUpdatedAt = rUpdatedAt r, chLoadedAt = trunc_us later, chBackend = h\<rparr> (rgCache st1)\<rparr>)))))"

text \<open>The record is returned with \<^const>\<open>RNoCredentials\<close> when it says it has none; \<^const>\<open>None\<close> is the zero record.\<close>

definition RawCredentials ::
    "('m, 'c, 'w) svc \<Rightarrow> string \<Rightarrow> string \<Rightarrow> ('m, 'c, 'w) regst \<Rightarrow> (backend_rec option \<times> (rerr + creds)) \<times> ('m, 'c, 'w) regst" where
  "RawCredentials sv w i st =
     (case reg_Get sv w i st of
        (Inl e, st1) \<Rightarrow> ((None, Inl e), st1)
      | (Inr r, st1) \<Rightarrow>
          if \<not> rHasCredentials r then ((Some r, Inl RNoCredentials), st1)
          else (case cGet (svCreds sv) w i (rgCreds st1) of
                  (Inl e, c) \<Rightarrow> ((None, Inl e), st1\<lparr>rgCreds := c\<rparr>)
                | (Inr kvs, c) \<Rightarrow> ((Some r, Inr kvs), st1\<lparr>rgCreds := c\<rparr>)))"

definition asTestFailure :: "rerr \<Rightarrow> rerr" where
  "asTestFailure e = (case e of RValidation f \<Rightarrow> ROther f | _ \<Rightarrow> e)"

definition check_handle :: "('m, 'c, 'w) svc \<Rightarrow> handle \<Rightarrow> ('m, 'c, 'w) regst \<Rightarrow> rerr option \<times> ('m, 'c, 'w) regst" where
  "check_handle sv h st =
     (case bCheck (svMethods sv h) (rgWorld st) of (e, wd) \<Rightarrow> (map_option RBackend e, st\<lparr>rgWorld := wd\<rparr>))"

text \<open>What testing a root directory says before a backend is built: a verdict, or go on.\<close>

definition test_root :: "('m, 'c, 'w) svc \<Rightarrow> bool \<Rightarrow> json \<Rightarrow> ('m, 'c, 'w) regst \<Rightarrow> rerr option option \<times> ('m, 'c, 'w) regst" where
  "test_root sv needed cfg st =
     (if needed then
        (case root_check sv cfg False st of
           (Inl e, st1) \<Rightarrow> (Some (Some (asTestFailure e)), st1)
         | (Inr s, st1) \<Rightarrow> (if s = rootWillBeCreated then Some None else None, st1))
      else (None, st))"

definition test_spec ::
    "('m, 'c, 'w) svc \<Rightarrow> bool \<Rightarrow> kind \<Rightarrow> json \<Rightarrow> creds \<Rightarrow> string \<Rightarrow> ('m, 'c, 'w) regst \<Rightarrow> rerr option \<times> ('m, 'c, 'w) regst" where
  "test_spec sv root_too k cfg kvs w st =
     (case test_root sv root_too cfg st of
        (Some verdict, st1) \<Rightarrow> (verdict, st1)
      | (None, st1) \<Rightarrow>
          (case buildBackend (svEnv sv) k cfg kvs w of
             None \<Rightarrow> (Some (RValidation []), st1)
           | Some h \<Rightarrow> check_handle sv h st1))"

definition reg_TestUpdate ::
    "('m, 'c, 'w) svc \<Rightarrow> int \<Rightarrow> string \<Rightarrow> string \<Rightarrow> update_input \<Rightarrow> ('m, 'c, 'w) regst \<Rightarrow> rerr option \<times> ('m, 'c, 'w) regst" where
  "reg_TestUpdate sv now w i inp st =
     (case prepareUpdate sv now w i inp st of
        (Inl e, st1) \<Rightarrow> (Some e, st1)
      | (Inr p, st1) \<Rightarrow>
          test_spec sv (rKind (puRec p) = KindFilesystem \<and> uiConfig inp \<noteq> None) (rKind (puRec p)) (rConfig (puRec p)) (puCreds p) w st1)"

definition reg_Test :: "('m, 'c, 'w) svc \<Rightarrow> string \<Rightarrow> create_input \<Rightarrow> ('m, 'c, 'w) regst \<Rightarrow> rerr option \<times> ('m, 'c, 'w) regst" where
  "reg_Test sv w inp st =
     (case ValidateWorkspace w of
        Some e \<Rightarrow> (Some e, st)
      | None \<Rightarrow>
     (if \<not> kind_Valid (ciKind inp) then (Some (RValidation ''kind''), st)
      else case normalizeConfig (svEnv sv) (ciKind inp) (ciConfig inp) w of
        Inl e \<Rightarrow> (Some e, st)
      | Inr cfg \<Rightarrow>
     (case validateCredentials (svEnv sv) (ciKind inp) (ciCredentials inp) of
        Some e \<Rightarrow> (Some e, st)
      | None \<Rightarrow> test_spec sv (ciKind inp = KindFilesystem) (ciKind inp) cfg (ciCredentials inp) w st)))"

section \<open>The create-only probe\<close>

definition probeKeyPrefix :: string where "probeKeyPrefix = ''.booth-create-only-probe-''"

text \<open>\<open>rnd\<close>: the hexadecimal text of the random bytes, if the generator delivered any.\<close>

definition probeKey :: "string option \<Rightarrow> string option" where
  "probeKey rnd = map_option (\<lambda>hex. probeKeyPrefix @ hex) rnd"

definition create_only_opts :: write_options where
  "create_only_opts = \<lparr>woContentType = [], woCreateOnly = True\<rparr>"

definition probeCreateOnly :: "'s backend \<Rightarrow> string option \<Rightarrow> 's \<Rightarrow> berr option \<times> 's" where
  "probeCreateOnly b rnd s =
     (case probeKey rnd of
        None \<Rightarrow> (Some (ErrOther ''generating probe key''), s)
      | Some k \<Rightarrow>
          let empty = \<lparr>rdBytes = [], rdErr = None\<rparr>; cleanup = (\<lambda>s. snd (bDeleteObject b k s)) in
          (case bWrite b k empty create_only_opts s of
             (Inl e, s1) \<Rightarrow> (Some e, cleanup s1)
           | (Inr _, s1) \<Rightarrow>
               (case bWrite b k empty create_only_opts s1 of
                  (Inr _, s2) \<Rightarrow> (Some (ErrOther ''accepted a second create-only write''), cleanup s2)
                | (Inl e, s2) \<Rightarrow> (if e = ErrPreconditionFailed then None else Some e, cleanup s2))))"

definition reg_TestSaved ::
    "('m, 'c, 'w) svc \<Rightarrow> int \<Rightarrow> int \<Rightarrow> string option \<Rightarrow> string \<Rightarrow> string \<Rightarrow> ('m, 'c, 'w) regst \<Rightarrow>
     rerr option \<times> ('m, 'c, 'w) regst" where
  "reg_TestSaved sv now later rnd w i st =
     (case reg_Open sv now later w i st of
        (Inl e, st1) \<Rightarrow> (Some e, st1)
      | (Inr h, st1) \<Rightarrow>
     (case check_handle sv h st1 of
        (Some e, st2) \<Rightarrow> (Some e, st2)
      | (None, st2) \<Rightarrow>
     (case reg_Get sv w i st2 of
        (Inl e, st3) \<Rightarrow> (Some e, st3)
      | (Inr r, st3) \<Rightarrow>
          if rKind r = KindS3 then
            (case probeCreateOnly (svMethods sv h) rnd (rgWorld st3) of
               (perr, wd) \<Rightarrow>
                 (case mSetCreateOnlyVerified (svMeta sv) w i (perr = None) (rgMeta st3) of
                    (serr, m) \<Rightarrow> (None, st3\<lparr>rgMeta := m, rgWorld := wd\<rparr>)))
          else (None, st3))))"

end
