(* ===== verification/Registry_Laws.thy ===== *)
theory Registry_Laws
  imports Registry_Service
begin

text \<open>
  What the registry's operations promise over any metadata store and any credential store that
  keep their contracts: the locale \<open>registry\<close>.  Each operation changes one record in one of a few
  ways (\<open>rec_change\<close>) and nothing of any other backend; deployments are sequences of calls made
  by several replicas that share the stores and keep a cache each (\<open>reg_reach\<close>).
\<close>

section \<open>Calls and runs\<close>

datatype reg_call =
    CallGet string string
  | CallList string
  | CallCreate int string string create_input
  | CallUpdate int string string update_input
  | CallDelete string string
  | CallOpen int int string string
  | CallRaw string string
  | CallTest string create_input
  | CallTestUpdate int string string update_input
  | CallTestSaved int int "string option" string string

fun call_target :: "reg_call \<Rightarrow> string \<times> string" where
  "call_target (CallGet w i) = (w, i)"
| "call_target (CallList w) = (w, [])"
| "call_target (CallCreate now w actor inp) = (w, ciID inp)"
| "call_target (CallUpdate now w i inp) = (w, i)"
| "call_target (CallDelete w i) = (w, i)"
| "call_target (CallOpen now later w i) = (w, i)"
| "call_target (CallRaw w i) = (w, i)"
| "call_target (CallTest w inp) = (w, [])"
| "call_target (CallTestUpdate now w i inp) = (w, i)"
| "call_target (CallTestSaved now later rnd w i) = (w, i)"

fun reg_run :: "('m, 'c, 'w) svc \<Rightarrow> reg_call \<Rightarrow> ('m, 'c, 'w) regst \<Rightarrow> ('m, 'c, 'w) regst" where
  "reg_run sv (CallGet w i) st = snd (reg_Get sv w i st)"
| "reg_run sv (CallList w) st = snd (reg_List sv w st)"
| "reg_run sv (CallCreate now w actor inp) st = snd (reg_Create sv now w actor inp st)"
| "reg_run sv (CallUpdate now w i inp) st = snd (reg_Update sv now w i inp st)"
| "reg_run sv (CallDelete w i) st = snd (reg_Delete sv w i st)"
| "reg_run sv (CallOpen now later w i) st = snd (reg_Open sv now later w i st)"
| "reg_run sv (CallRaw w i) st = snd (RawCredentials sv w i st)"
| "reg_run sv (CallTest w inp) st = snd (reg_Test sv w inp st)"
| "reg_run sv (CallTestUpdate now w i inp) st = snd (reg_TestUpdate sv now w i inp st)"
| "reg_run sv (CallTestSaved now later rnd w i) st = snd (reg_TestSaved sv now later rnd w i st)"

text \<open>The handle whose server passed the create-only probe during a call, if any.\<close>

definition probe_passed ::
    "('m, 'c, 'w) svc \<Rightarrow> int \<Rightarrow> int \<Rightarrow> string option \<Rightarrow> string \<Rightarrow> string \<Rightarrow> ('m, 'c, 'w) regst \<Rightarrow> handle option" where
  "probe_passed sv now later rnd w i st =
     (case reg_Open sv now later w i st of
        (Inl e, st1) \<Rightarrow> None
      | (Inr h, st1) \<Rightarrow>
          (case check_handle sv h st1 of
             (Some e, st2) \<Rightarrow> None
           | (None, st2) \<Rightarrow> if fst (probeCreateOnly (svMethods sv h) rnd (rgWorld st2)) = None then Some h else None))"

fun call_probe :: "('m, 'c, 'w) svc \<Rightarrow> reg_call \<Rightarrow> ('m, 'c, 'w) regst \<Rightarrow> handle option" where
  "call_probe sv (CallTestSaved now later rnd w i) st = probe_passed sv now later rnd w i st"
| "call_probe sv _ st = None"

text \<open>The clock of a \<^verbatim>\<open>Create\<close>, which the versions cached for that id precede.\<close>

fun call_clock :: "reg_call \<Rightarrow> int option" where
  "call_clock (CallCreate now w actor inp) = Some (trunc_us now)"
| "call_clock _ = None"

section \<open>How a record may change\<close>

inductive rec_change ::
    "env \<Rightarrow> (json \<Rightarrow> json) \<Rightarrow> string \<Rightarrow> int option \<Rightarrow> handle option \<Rightarrow> backend_rec option \<Rightarrow> backend_rec option \<Rightarrow> bool"
  for env canon w clock probe where
  kept: "rec_change env canon w clock probe x x"
| gone: "rec_change env canon w clock probe x None"
| made: "ValidateWorkspace w = None \<Longrightarrow> ValidateID (rID r) = None \<Longrightarrow> rWorkspace r = w \<Longrightarrow>
    normalizeConfig env (rKind r) raw w = Inr cfg \<Longrightarrow> rConfig r = canon cfg \<Longrightarrow>
    \<not> rCreateOnlyVerified r \<Longrightarrow> clock = Some (rUpdatedAt r) \<Longrightarrow>
    rec_change env canon w clock probe None (Some r)"
| edited: "rWorkspace r' = rWorkspace r \<Longrightarrow> rID r' = rID r \<Longrightarrow> rKind r' = rKind r \<Longrightarrow> rUpdatedAt r < rUpdatedAt r' \<Longrightarrow>
    rConfig r' = rConfig r \<and> rCreateOnlyVerified r' = rCreateOnlyVerified r \<or>
      (\<exists>raw cfg. normalizeConfig env (rKind r) raw w = Inr cfg \<and> rConfig r' = canon cfg) \<and> \<not> rCreateOnlyVerified r' \<Longrightarrow>
    rec_change env canon w clock probe (Some r) (Some r')"
| judged: "rKind r = KindS3 \<Longrightarrow>
    v \<Longrightarrow> probe = Some h \<Longrightarrow> buildBackend env (rKind r) (rConfig r) kvs w = Some h \<Longrightarrow>
    rec_change env canon w clock probe (Some r) (Some (r\<lparr>rCreateOnlyVerified := v\<rparr>))"
| refuted: "rec_change env canon w clock probe (Some r) (Some (r\<lparr>rCreateOnlyVerified := False\<rparr>))"

inductive_cases rec_change_to_Some: "rec_change env canon w clock probe x (Some r)"

lemma trunc_us_step: "trunc_us prev = prev \<Longrightarrow> trunc_us (prev + 1000) = prev + 1000"
  unfolding trunc_us_def by simp

lemma trunc_bump:
  assumes "trunc_us prev = prev"
  shows "prev < trunc_us (bump prev (trunc_us now))"
  using trunc_us_step [OF assms] unfolding bump_def by auto

lemma display_name_bound: "display_name i raw = Inr name \<Longrightarrow> length name \<le> 100"
  by (auto simp: display_name_def Let_def split: if_splits)

lemma create_checks_Inr:
  "create_checks sv w inp = Inr (name, cfg) \<Longrightarrow>
     ValidateWorkspace w = None \<and> ValidateID (ciID inp) = None \<and> length name \<le> 100 \<and> kind_Valid (ciKind inp) \<and>
     normalizeConfig (svEnv sv) (ciKind inp) (ciConfig inp) w = Inr cfg \<and>
     validateCredentials (svEnv sv) (ciKind inp) (ciCredentials inp) = None"
  by (auto simp: create_checks_def dest: display_name_bound split: option.splits sum.splits if_splits)

lemma update_record_Inr:
  "update_record sv w i inp r = Inr r' \<Longrightarrow>
     rWorkspace r' = rWorkspace r \<and> rID r' = rID r \<and> rKind r' = rKind r \<and> rHasCredentials r' = rHasCredentials r \<and>
     (if uiConfig inp = None then rConfig r' = rConfig r \<and> rCreateOnlyVerified r' = rCreateOnlyVerified r
      else normalizeConfig (svEnv sv) (rKind r) (uiConfig inp) w = Inr (rConfig r') \<and> \<not> rCreateOnlyVerified r')"
  by (auto simp: update_record_def split: option.splits sum.splits)

text \<open>What the parts that only look at the disk or at a service do.\<close>

lemma root_check_parts:
  "root_check sv cfg create st = (x, st') \<Longrightarrow> rgMeta st' = rgMeta st \<and> rgCreds st' = rgCreds st \<and> rgCache st' = rgCache st"
  by (auto simp: root_check_def split: option.splits prod.splits)

lemma root_check_looks: "root_check sv cfg False st = (x, st') \<Longrightarrow> st' = st"
  by (auto simp: root_check_def checkFilesystemRoot_def Let_def split: option.splits prod.splits sum.splits if_splits)

lemma create_root_parts:
  "create_root sv needed cfg st = (x, st') \<Longrightarrow> rgMeta st' = rgMeta st \<and> rgCreds st' = rgCreds st \<and> rgCache st' = rgCache st"
  by (auto simp: create_root_def dest: root_check_parts split: prod.splits sum.splits if_splits)

lemma check_handle_parts:
  "check_handle sv h st = (e, st') \<Longrightarrow> rgMeta st' = rgMeta st \<and> rgCreds st' = rgCreds st \<and> rgCache st' = rgCache st"
  by (auto simp: check_handle_def split: prod.splits)

lemma test_root_looks: "test_root sv needed cfg st = (x, st') \<Longrightarrow> st' = st"
  by (auto simp: test_root_def dest: root_check_looks split: prod.splits sum.splits if_splits)

lemma test_spec_looks:
  assumes "test_spec sv root_too k cfg kvs w st = (e, st')"
  shows "st' = st \<or> (\<exists>h. buildBackend (svEnv sv) k cfg kvs w = Some h \<and> check_handle sv h st = (e, st'))"
proof -
  obtain x st1 where t: "test_root sv root_too cfg st = (x, st1)" by fastforce
  with assms test_root_looks [OF t] show ?thesis
    by (auto simp: test_spec_def split: option.splits)
qed

section \<open>Deployments\<close>

text \<open>
  Several replicas share the two stores and the services and keep a cache each.  A call of any
  replica is a step; in between, credentials may be edited behind the registry's back and the
  services and the disk may change.  \<open>P\<close> collects the handles whose server passed a probe made for
  a backend.  The clock of a \<^verbatim>\<open>Create\<close> is later than the versions still cached for that id.
\<close>

inductive reg_reach ::
    "('m, 'c, 'w) svc \<Rightarrow> (string \<Rightarrow> string \<Rightarrow> bool) \<Rightarrow> ('m \<Rightarrow> bool) \<Rightarrow> 'm \<Rightarrow> 'c \<Rightarrow> node \<times> 'w \<Rightarrow>
     (nat \<Rightarrow> (string \<times> cached) list) \<Rightarrow> (string \<times> string \<times> handle) set \<Rightarrow> bool"
  for sv served init where
  started: "init m \<Longrightarrow> reg_reach sv served init m c wd (\<lambda>_. []) {}"
| called: "reg_reach sv served init m c wd caches P \<Longrightarrow>
    call_target call = (w, i) \<Longrightarrow> served w i \<Longrightarrow>
    \<forall>t n' e. call_clock call = Some t \<longrightarrow> map_of (caches n') (key w i) = Some e \<longrightarrow> chUpdatedAt e < t \<Longrightarrow>
    st = \<lparr>rgMeta = m, rgCreds = c, rgCache = caches n, rgWorld = wd\<rparr> \<Longrightarrow>
    reg_run sv call st = st' \<Longrightarrow>
    reg_reach sv served init (rgMeta st') (rgCreds st') (rgWorld st') (caches(n := rgCache st'))
      (P \<union> {(w, i, h) | h. call_probe sv call st = Some h})"
| elsewhere: "reg_reach sv served init m c wd caches P \<Longrightarrow> reg_reach sv served init m c' wd' caches P"

text \<open>What holds of every stored record, and of every cached entry for a record.\<close>

definition record_ok :: "env \<Rightarrow> (json \<Rightarrow> json) \<Rightarrow> (string \<times> string \<times> handle) set \<Rightarrow> string \<Rightarrow> string \<Rightarrow> backend_rec option \<Rightarrow> bool" where
  "record_ok env canon P w i x \<longleftrightarrow>
     (\<forall>r. x = Some r \<longrightarrow>
        ValidateWorkspace w = None \<and> ValidateID i = None \<and> rWorkspace r = w \<and> rID r = i \<and>
        (\<exists>raw cfg. normalizeConfig env (rKind r) raw w = Inr cfg \<and> rConfig r = canon cfg) \<and>
        (rCreateOnlyVerified r \<longrightarrow> rKind r = KindS3 \<and>
          (\<exists>h kvs. (w, i, h) \<in> P \<and> buildBackend env (rKind r) (rConfig r) kvs w = Some h)))"

definition entry_ok :: "env \<Rightarrow> string \<Rightarrow> backend_rec option \<Rightarrow> cached \<Rightarrow> bool" where
  "entry_ok env w x c \<longleftrightarrow>
     (\<forall>r. x = Some r \<longrightarrow> chUpdatedAt c \<le> rUpdatedAt r \<and>
        (chUpdatedAt c = rUpdatedAt r \<longrightarrow> (\<exists>kvs. buildBackend env (rKind r) (rConfig r) kvs w = Some (chBackend c))))"

lemma entry_step:
  assumes "rec_change env canon w clock probe x y" "entry_ok env w x c"
    and "\<And>t. x = None \<Longrightarrow> clock = Some t \<Longrightarrow> chUpdatedAt c < t"
  shows "entry_ok env w y c"
  using assms by (cases rule: rec_change.cases) (force simp: entry_ok_def)+

lemma record_ok_mono: "record_ok env canon P w i x \<Longrightarrow> P \<subseteq> Q \<Longrightarrow> record_ok env canon Q w i x"
  unfolding record_ok_def by blast

lemma record_step:
  assumes "rec_change env canon w clock probe x y" "record_ok env canon P w i x"
    and "\<And>r. y = Some r \<Longrightarrow> rID r = i"
  shows "record_ok env canon (P \<union> {(w, i, h) | h. probe = Some h}) w i y"
  using assms
proof (cases rule: rec_change.cases)
  case kept
  then show ?thesis using record_ok_mono [OF assms(2)] by blast
next
  case (edited r' r)
  then show ?thesis using assms(2) unfolding record_ok_def by (elim disjE) (auto, blast+)
next
  case (judged r v h kvs)
  then show ?thesis using assms(2) unfolding record_ok_def by auto
next
  case (made r raw cfg)
  then show ?thesis using assms(3) unfolding record_ok_def by auto
next
  case (refuted r)
  then show ?thesis using assms(2) unfolding record_ok_def by auto
qed (simp add: record_ok_def)

section \<open>The operations over any stores that keep their contracts\<close>

locale registry =
  M: meta_store "svMeta sv" recs ok canon + C: cred_store "svCreds sv" held served
  for sv :: "('m, 'c, 'w) svc"
    and recs :: "'m \<Rightarrow> string \<Rightarrow> string \<Rightarrow> backend_rec option" and ok canon
    and held :: "'c \<Rightarrow> string \<Rightarrow> string \<Rightarrow> (string \<rightharpoonup> string) option" and served
begin

definition same_recs :: "('m, 'c, 'w) regst \<Rightarrow> ('m, 'c, 'w) regst \<Rightarrow> bool" where
  "same_recs st st' \<longleftrightarrow> ok (rgMeta st') \<and> recs (rgMeta st') = recs (rgMeta st)"

definition same_regs :: "('m, 'c, 'w) regst \<Rightarrow> ('m, 'c, 'w) regst \<Rightarrow> bool" where
  "same_regs st st' \<longleftrightarrow> same_recs st st' \<and> held (rgCreds st') = held (rgCreds st)"

lemma valid_slash: "ValidateWorkspace w = None \<Longrightarrow> slash \<notin> set w"
  using ValidateWorkspace_None by blast

lemma same_regs_refl: "ok (rgMeta st) \<Longrightarrow> same_regs st st"
  by (simp add: same_regs_def same_recs_def)

lemma same_regs_trans: "same_regs st st1 \<Longrightarrow> same_regs st1 st2 \<Longrightarrow> same_regs st st2"
  by (simp add: same_regs_def same_recs_def)

lemma get_spec:
  assumes "ok (rgMeta st)" "reg_Get sv w i st = (x, st')"
  shows "same_regs st st' \<and> rgCreds st' = rgCreds st \<and> rgCache st' = rgCache st \<and> rgWorld st' = rgWorld st \<and>
    (\<forall>r. x = Inr r \<longrightarrow> recs (rgMeta st) w i = Some r \<and> ValidateWorkspace w = None)"
proof (cases "ValidateWorkspace w")
  case None
  obtain y m where g: "mGet (svMeta sv) w i (rgMeta st) = (y, m)" by fastforce
  with M.get [OF assms(1) valid_slash [OF None] g] assms(2) None show ?thesis
    by (auto simp: reg_Get_def same_regs_def same_recs_def split: sum.splits)
qed (use assms in \<open>auto simp: reg_Get_def same_regs_def same_recs_def\<close>)

lemma cget_same: "served w i \<Longrightarrow> cGet (svCreds sv) w i c = (x, c') \<Longrightarrow> held c' = held c"
  using C.get by blast

lemma update_creds_spec:
  assumes "served w i" "ok (rgMeta st)" "update_creds sv w i inp r st = (x, st')"
  shows "same_regs st st' \<and> rgMeta st' = rgMeta st \<and> rgCache st' = rgCache st \<and> rgWorld st' = rgWorld st \<and>
    (\<forall>p. x = Inr p \<longrightarrow> (\<exists>b. puRec p = r\<lparr>rHasCredentials := b\<rparr>))"
proof -
  have same: "\<exists>b. r = r\<lparr>rHasCredentials := b\<rparr>" by (rule exI [of _ "rHasCredentials r"]) simp
  show ?thesis
  proof (cases "uiCredentials inp = None \<and> rHasCredentials r")
    case True
    obtain y c where g: "cGet (svCreds sv) w i (rgCreds st) = (y, c)" by fastforce
    from cget_same [OF assms(1) g] have h: "held c = held (rgCreds st)" .
    with assms True g same show ?thesis
      by (cases y) (auto simp: update_creds_def same_regs_def same_recs_def split: if_splits)
  next
    case False
    with assms same show ?thesis
      by (auto simp: update_creds_def same_regs_def same_recs_def split: option.splits)
  qed
qed

lemma prepare_spec:
  assumes "served w i" "ok (rgMeta st)" "prepareUpdate sv now w i inp st = (x, st')"
  shows "same_regs st st' \<and> rgCache st' = rgCache st \<and> rgWorld st' = rgWorld st \<and>
    (\<forall>p. x = Inr p \<longrightarrow> (\<exists>r0 r1 b. recs (rgMeta st) w i = Some r0 \<and> ValidateWorkspace w = None \<and>
      update_record sv w i inp r0 = Inr r1 \<and>
      puRec p = r1\<lparr>rHasCredentials := b, rUpdatedAt := bump (rUpdatedAt r0) (trunc_us now)\<rparr> \<and>
      buildBackend (svEnv sv) (rKind r1) (rConfig r1) (puCreds p) w \<noteq> None))"
proof -
  obtain y st1 where g: "reg_Get sv w i st = (y, st1)" by fastforce
  note G = get_spec [OF assms(2) g]
  show ?thesis
  proof (cases y)
    case (Inl e)
    with g G assms show ?thesis by (auto simp: prepareUpdate_def)
  next
    case r0: (Inr r0)
    show ?thesis
    proof (cases "update_record sv w i inp r0")
      case (Inl e)
      with g G assms r0 show ?thesis by (auto simp: prepareUpdate_def)
    next
      case r1: (Inr r1)
      obtain z st2 where u: "update_creds sv w i inp r1 st1 = (z, st2)" by fastforce
      have ok1: "ok (rgMeta st1)" using G by (simp add: same_regs_def same_recs_def)
      note U = update_creds_spec [OF assms(1) ok1 u]
      have same: "same_regs st st2" using G U same_regs_trans by blast
      show ?thesis
      proof (cases z)
        case (Inl e)
        with g G assms r0 r1 u U same show ?thesis by (auto simp: prepareUpdate_def)
      next
        case p0: (Inr p0)
        then obtain b where b: "puRec p0 = r1\<lparr>rHasCredentials := b\<rparr>" using U by blast
        then have [simp]: "rConfig (puRec p0) = rConfig r1" by simp
        have base: "same_regs st st2 \<and> rgCache st2 = rgCache st \<and> rgWorld st2 = rgWorld st" using same G U by simp
        show ?thesis
        proof (cases "buildBackend (svEnv sv) (rKind r1) (rConfig r1) (puCreds p0) w = None")
          case True
          with assms(3) g r0 r1 u p0 have "st' = st2" "isl x" by (auto simp: prepareUpdate_def)
          with base show ?thesis by auto
        next
          case False
          let ?p = "p0\<lparr>puRec := (puRec p0)\<lparr>rUpdatedAt := bump (rUpdatedAt r0) (trunc_us now)\<rparr>\<rparr>"
          have res: "x = Inr ?p" "st' = st2" using assms(3) g r0 r1 u p0 False by (auto simp: prepareUpdate_def)
          have "recs (rgMeta st) w i = Some r0 \<and> ValidateWorkspace w = None" using G r0 by blast
          moreover have "puRec ?p = r1\<lparr>rHasCredentials := b, rUpdatedAt := bump (rUpdatedAt r0) (trunc_us now)\<rparr>" using b by simp
          moreover have "puCreds ?p = puCreds p0" by simp
          ultimately show ?thesis unfolding res using base r1 False by (intro conjI allI impI) (blast, blast, blast, metis sum.inject(2))
        qed
      qed
    qed
  qed
qed

text \<open>A call for backend \<open>i\<close> of workspace \<open>w\<close> changes no other backend, and its record as \<open>rec_change\<close> says.\<close>

definition effect ::
    "string \<Rightarrow> string \<Rightarrow> int option \<Rightarrow> handle option \<Rightarrow> ('m, 'c, 'w) regst \<Rightarrow> ('m, 'c, 'w) regst \<Rightarrow> bool" where
  "effect w i clock probe st st' \<longleftrightarrow>
     ok (rgMeta st') \<and>
     (\<forall>w' i'. (w', i') \<noteq> (w, i) \<longrightarrow>
        recs (rgMeta st') w' i' = recs (rgMeta st) w' i' \<and> held (rgCreds st') w' i' = held (rgCreds st) w' i') \<and>
     rec_change (svEnv sv) canon w clock probe (recs (rgMeta st) w i) (recs (rgMeta st') w i)"

definition cache_effect :: "string \<Rightarrow> string \<Rightarrow> ('m, 'c, 'w) regst \<Rightarrow> ('m, 'c, 'w) regst \<Rightarrow> bool" where
  "cache_effect w i st st' \<longleftrightarrow>
     (\<forall>k. k \<noteq> key w i \<longrightarrow> map_of (rgCache st') k = map_of (rgCache st) k) \<and>
     (map_of (rgCache st') (key w i) = map_of (rgCache st) (key w i) \<or>
      map_of (rgCache st') (key w i) = None \<or>
      (\<exists>r kvs c. recs (rgMeta st) w i = Some r \<and> map_of (rgCache st') (key w i) = Some c \<and> chUpdatedAt c = rUpdatedAt r \<and>
         buildBackend (svEnv sv) (rKind r) (rConfig r) kvs w = Some (chBackend c)))"

lemma effect_same: "same_regs st st' \<Longrightarrow> effect w i clock probe st st'"
  by (simp add: effect_def same_regs_def same_recs_def rec_change.kept)

lemma effect_cong:
  "effect w i clock probe st st' \<Longrightarrow> rgMeta st = rgMeta s0 \<Longrightarrow> rgCreds st = rgCreds s0 \<Longrightarrow> effect w i clock probe s0 st'"
  by (simp add: effect_def)

lemma effect_after: "same_regs st st1 \<Longrightarrow> effect w i clock probe st1 st' \<Longrightarrow> effect w i clock probe st st'"
  by (simp add: effect_def same_regs_def same_recs_def)

lemma cache_effect_same: "rgCache st' = rgCache st \<Longrightarrow> cache_effect w i st st'"
  by (simp add: cache_effect_def)

lemma cache_effect_invalidate: "cache_effect w i st (invalidate w i st')" if "rgCache st' = rgCache st"
  using that by (simp add: cache_effect_def invalidate_def delete_conv)

lemma held_upd_other: "h' = h \<or> h' = held_upd h w i x \<Longrightarrow> (w', i') \<noteq> (w, i) \<Longrightarrow> h' w' i' = h w' i'"
  by auto

lemma put_other:
  "served w i \<Longrightarrow> cPut (svCreds sv) w i kvs c = (e, c') \<Longrightarrow> (w', i') \<noteq> (w, i) \<Longrightarrow> held c' w' i' = held c w' i'"
  using C.put [of w i kvs c e c'] held_upd_other [of "held c'" "held c" w i "Some (map_of kvs)"] by (auto split: if_splits)

lemma cdelete_other:
  "served w i \<Longrightarrow> cDelete (svCreds sv) w i c = (e, c') \<Longrightarrow> (w', i') \<noteq> (w, i) \<Longrightarrow> held c' w' i' = held c w' i'"
  using C.delete [of w i c e c'] held_upd_other [of "held c'" "held c" w i None] by (auto split: if_splits)

lemma create_store_effect:
  assumes "served w (rID r)" "ok (rgMeta st)" "rWorkspace r = w" "ValidateWorkspace w = None" "ValidateID (rID r) = None"
    and norm: "normalizeConfig (svEnv sv) (rKind r) raw w = Inr (rConfig r)"
    and fresh: "\<not> rCreateOnlyVerified r" "clock = Some (trunc_us (rUpdatedAt r))"
    and call: "create_store sv r kvs st = (x, st')"
  shows "effect w (rID r) clock probe st st' \<and> rgCache st' = rgCache st"
proof -
  have ns: "slash \<notin> set (rWorkspace r)" using assms(3,4) valid_slash by simp
  obtain e m where cr: "mCreate (svMeta sv) r (rgMeta st) = (e, m)" by fastforce
  note K = M.create [OF assms(2) ns cr]
  show ?thesis
  proof (cases e)
    case (Some y)
    with cr call have "st' = st\<lparr>rgMeta := m\<rparr>" by (simp add: create_store_def)
    with K Some show ?thesis by (auto intro!: effect_same simp: same_regs_def same_recs_def)
  next
    case None
    let ?r = "clone_rec (r\<lparr>rConfig := canon (rConfig r)\<rparr>)"
    from K None have m: "ok m" "recs (rgMeta st) w (rID r) = None" "recs m w (rID r) = Some ?r"
      "\<And>w' i'. (w', i') \<noteq> (w, rID r) \<Longrightarrow> recs m w' i' = recs (rgMeta st) w' i'"
      using assms(3) by (auto simp: fun_eq_iff)
    have made: "rec_change (svEnv sv) canon w clock probe None (Some ?r)"
      using rec_change.made [of w ?r "svEnv sv" raw "rConfig r" canon clock probe] assms norm fresh by simp
    have meta: "effect w (rID r) clock probe st st1"
      if "rgMeta st1 = m" "\<And>w' i'. (w', i') \<noteq> (w, rID r) \<Longrightarrow> held (rgCreds st1) w' i' = held (rgCreds st) w' i'" for st1
      using that m made by (simp add: effect_def)
    show ?thesis
    proof (cases "kvs = []")
      case True
      with cr None call have "st' = st\<lparr>rgMeta := m\<rparr>" by (simp add: create_store_def)
      then show ?thesis by (simp add: meta)
    next
      case False
      obtain e2 c where p: "cPut (svCreds sv) w (rID r) kvs (rgCreds st) = (e2, c)" by fastforce
      note P = put_other [OF assms(1) p]
      show ?thesis
      proof (cases e2)
        case None2: None
        with cr None call False p assms(3) have "st' = st\<lparr>rgMeta := m, rgCreds := c\<rparr>" by (simp add: create_store_def)
        moreover from this P have "effect w (rID r) clock probe st st'" by (intro meta) auto
        ultimately show ?thesis by simp
      next
        case (Some y)
        obtain d m' where dl: "mDelete (svMeta sv) w (rID r) m = (d, m')" by fastforce
        from cr None call False p assms(3) Some dl have st': "st' = st\<lparr>rgMeta := m', rgCreds := c\<rparr>" by (simp add: create_store_def)
        note D = M.delete [OF m(1) _ dl]
        show ?thesis
        proof (cases d)
          case None3: None
          with D ns assms(3) have "ok m'" "recs m' = (recs m)(w := (recs m w)(rID r := None))" by auto
          with m P show ?thesis unfolding st' by (simp add: effect_def rec_change.gone)
        next
          case (Some z)
          with D ns assms(3) have "ok m'" "recs m' = recs m" by auto
          with m made P show ?thesis unfolding st' by (simp add: effect_def)
        qed
      qed
    qed
  qed
qed

lemma create_effect:
  assumes "served w (ciID inp)" "ok (rgMeta st)" "reg_Create sv now w actor inp st = (x, st')"
  shows "effect w (ciID inp) (Some (trunc_us now)) probe st st' \<and> cache_effect w (ciID inp) st st'"
proof (cases "create_checks sv w inp")
  case (Inl e)
  with assms show ?thesis by (simp add: reg_Create_def effect_same same_regs_refl cache_effect_same)
next
  case (Inr nc)
  obtain name cfg where nc: "nc = (name, cfg)" by fastforce
  with Inr have chk: "create_checks sv w inp = Inr (name, cfg)" by simp
  note I = create_checks_Inr [OF chk]
  obtain e st1 where rt: "create_root sv (ciKind inp = KindFilesystem) cfg st = (e, st1)" by fastforce
  note R = create_root_parts [OF rt]
  let ?r = "new_record now w actor inp name cfg"
  show ?thesis
  proof (cases "e = None \<and> buildBackend (svEnv sv) (ciKind inp) cfg (ciCredentials inp) w \<noteq> None")
    case True
    with assms(3) chk rt have st: "create_store sv ?r (ciCredentials inp) st1 = (x, st')"
      by (simp add: reg_Create_def del: not_None_eq)
    have "effect w (rID ?r) (Some (trunc_us now)) probe st1 st' \<and> rgCache st' = rgCache st1"
      by (rule create_store_effect [OF _ _ _ _ _ _ _ _ st]) (use assms I R in \<open>auto simp: new_record_def\<close>)
    with R show ?thesis using effect_cong [of w "ciID inp" _ probe st1 st' st] by (simp add: new_record_def cache_effect_same)
  next
    case False
    with assms(3) chk rt have "st' = st1" by (auto simp: reg_Create_def split: option.splits)
    with R assms(2) show ?thesis by (simp add: effect_same same_regs_def same_recs_def cache_effect_same)
  qed
qed

lemma update_secrets_spec:
  assumes "served w i" "update_secrets sv w i p st = (e, st')"
  shows "rgMeta st' = rgMeta st \<and> rgCache st' = rgCache st \<and>
    (\<forall>w' i'. (w', i') \<noteq> (w, i) \<longrightarrow> held (rgCreds st') w' i' = held (rgCreds st) w' i')"
proof -
  obtain e1 c1 where d: "cDelete (svCreds sv) w i (rgCreds st) = (e1, c1)" by fastforce
  obtain e2 c2 where p: "cPut (svCreds sv) w i (puNew p) (rgCreds st) = (e2, c2)" by fastforce
  from assms(2) d p have "st' = st \<or> st' = st\<lparr>rgCreds := c1\<rparr> \<or> st' = st\<lparr>rgCreds := c2\<rparr>"
    by (auto simp: update_secrets_def split: if_splits)
  moreover have "held c1 w' i' = held (rgCreds st) w' i'" "held c2 w' i' = held (rgCreds st) w' i'"
    if "(w', i') \<noteq> (w, i)" for w' i'
    using cdelete_other [OF assms(1) d that] put_other [OF assms(1) p that] by blast+
  ultimately show ?thesis by auto
qed

lemma edited_record:
  assumes "recs m w i = Some r0" "ok m" "update_record sv w i inp r0 = Inr r1"
  shows "rec_change (svEnv sv) canon w clock probe (Some r0)
    (Some (clone_rec (mutable_fields (r1\<lparr>rHasCredentials := b, rUpdatedAt := bump (rUpdatedAt r0) (trunc_us now),
      rConfig := canon (rConfig r1)\<rparr>) r0)))" (is "rec_change _ _ _ _ _ _ (Some ?r)")
proof (rule rec_change.edited)
  note I = M.recs_id [OF assms(2,1)] and U = update_record_Inr [OF assms(3)]
  show "rUpdatedAt r0 < rUpdatedAt ?r" using trunc_bump [of "rUpdatedAt r0" now] I by simp
  show "rConfig ?r = rConfig r0 \<and> rCreateOnlyVerified ?r = rCreateOnlyVerified r0 \<or>
      (\<exists>raw cfg. normalizeConfig (svEnv sv) (rKind r0) raw w = Inr cfg \<and> rConfig ?r = canon cfg) \<and> \<not> rCreateOnlyVerified ?r"
    using I U by (cases "uiConfig inp = None") auto
qed simp_all

lemma update_effect:
  assumes "served w i" "ok (rgMeta st)" "reg_Update sv now w i inp st = (x, st')"
  shows "effect w i clock probe st st' \<and> cache_effect w i st st'"
proof -
  obtain y st1 where pu: "prepareUpdate sv now w i inp st = (y, st1)" by fastforce
  note P = prepare_spec [OF assms(1,2) pu]
  have quiet: "effect w i clock probe st st2 \<and> cache_effect w i st st2"
    if "rgMeta st2 = rgMeta st1" "rgCache st2 = rgCache st1"
      "\<forall>w' i'. (w', i') \<noteq> (w, i) \<longrightarrow> held (rgCreds st2) w' i' = held (rgCreds st1) w' i'" for st2
    using P that by (simp add: effect_def same_regs_def same_recs_def cache_effect_same rec_change.kept)
  show ?thesis
  proof (cases y)
    case (Inl e)
    with assms(3) pu have "st' = st1" by (simp add: reg_Update_def)
    then show ?thesis using quiet by simp
  next
    case p: (Inr p)
    with P obtain r0 r1 b where r: "recs (rgMeta st) w i = Some r0" "ValidateWorkspace w = None"
      "update_record sv w i inp r0 = Inr r1"
      "puRec p = r1\<lparr>rHasCredentials := b, rUpdatedAt := bump (rUpdatedAt r0) (trunc_us now)\<rparr>" by blast
    obtain e2 st2 where rt: "create_root sv (rKind (puRec p) = KindFilesystem \<and> uiConfig inp \<noteq> None) (rConfig (puRec p)) st1 = (e2, st2)"
      by fastforce
    note R = create_root_parts [OF rt]
    obtain e3 st3 where us: "update_secrets sv w i p st2 = (e3, st3)" by fastforce
    note S = update_secrets_spec [OF assms(1) us]
    obtain e4 m where up: "mUpdate (svMeta sv) (puRec p) (rgMeta st3) = (e4, m)" by fastforce
    show ?thesis
    proof (cases "e2 = None \<and> e3 = None")
      case False
      with assms(3) pu p rt us have "st' = st2 \<or> st' = st3" by (auto simp: reg_Update_def split: option.splits)
      then show ?thesis using quiet [of st2] quiet [of st3] R S by auto
    next
      case True
      have id: "rWorkspace (puRec p) = w" "rID (puRec p) = i"
        using r update_record_Inr [OF r(3)] M.recs_id [OF assms(2) r(1)] by simp_all
      have m3: "rgMeta st3 = rgMeta st1" "ok (rgMeta st1)" "recs (rgMeta st1) = recs (rgMeta st)"
        using R S P by (simp_all add: same_regs_def same_recs_def)
      have "ok (rgMeta st3)" "slash \<notin> set (rWorkspace (puRec p))" using m3 id valid_slash [OF r(2)] by simp_all
      note U = M.update [OF this up]
      show ?thesis
      proof (cases e4)
        case (Some z)
        with assms(3) pu p rt us True up have "st' = st3\<lparr>rgMeta := m\<rparr>" by (simp add: reg_Update_def)
        with U Some m3 P R S show ?thesis
          by (simp add: effect_def same_regs_def same_recs_def cache_effect_same rec_change.kept)
      next
        case None
        with assms(3) pu p rt us True up have st': "st' = invalidate w i (st3\<lparr>rgMeta := m\<rparr>)" by (simp add: reg_Update_def)
        have cache: "cache_effect w i st st'" unfolding st' by (rule cache_effect_invalidate) (simp add: P R S)
        let ?r = "clone_rec (mutable_fields (r1\<lparr>rHasCredentials := b, rUpdatedAt := bump (rUpdatedAt r0) (trunc_us now),
          rConfig := canon (rConfig r1)\<rparr>) r0)"
        have "ok m" "recs m = (recs (rgMeta st))(w := (recs (rgMeta st) w)(i \<mapsto> ?r))"
          using U None m3 id r(1,4) by auto
        then have "effect w i clock probe st st'"
          unfolding st' using S R P r(1) edited_record [OF r(1) assms(2) r(3), of clock probe now b]
          by (simp add: effect_def invalidate_def same_regs_def)
        with cache show ?thesis by blast
      qed
    qed
  qed
qed

lemma delete_effect:
  assumes "served w i" "ok (rgMeta st)" "reg_Delete sv w i st = (x, st')"
  shows "effect w i clock probe st st' \<and> cache_effect w i st st'"
proof (cases "ValidateWorkspace w")
  case (Some e)
  with assms show ?thesis by (simp add: reg_Delete_def effect_same same_regs_refl cache_effect_same)
next
  case None
  obtain e m where dl: "mDelete (svMeta sv) w i (rgMeta st) = (e, m)" by fastforce
  note D = M.delete [OF assms(2) valid_slash [OF None] dl]
  show ?thesis
  proof (cases e)
    case (Some z)
    with None dl assms(3) have "st' = st\<lparr>rgMeta := m\<rparr>" by (simp add: reg_Delete_def)
    with D Some show ?thesis by (simp add: effect_same same_regs_def same_recs_def cache_effect_same)
  next
    case ok: None
    obtain ce c where cd: "cDelete (svCreds sv) w i (rgCreds st) = (ce, c)" by fastforce
    from None dl ok cd assms(3) have st': "st' = (invalidate w i (st\<lparr>rgMeta := m\<rparr>))\<lparr>rgCreds := c\<rparr>" by (simp add: reg_Delete_def)
    have "cache_effect w i st st'"
      using cache_effect_invalidate [of "st\<lparr>rgMeta := m\<rparr>" st w i] unfolding st' cache_effect_def by simp
    moreover have "effect w i clock probe st st'"
      unfolding st' using D ok cdelete_other [OF assms(1) cd] by (simp add: effect_def invalidate_def rec_change.gone)
    ultimately show ?thesis by blast
  qed
qed

text \<open>Opening serves what the current record describes, unless an entry of its version says otherwise.\<close>

lemma open_spec:
  assumes "served w i" "ok (rgMeta st)" "reg_Open sv now later w i st = (x, st')"
  shows "same_regs st st' \<and> rgWorld st' = rgWorld st \<and> cache_effect w i st st' \<and>
    (\<forall>h. x = Inr h \<longrightarrow> ValidateWorkspace w = None \<and> (\<exists>r c. recs (rgMeta st) w i = Some r \<and>
      ((\<exists>kvs. buildBackend (svEnv sv) (rKind r) (rConfig r) kvs w = Some h) \<or>
       map_of (rgCache st) (key w i) = Some c \<and> chUpdatedAt c = rUpdatedAt r \<and> chBackend c = h)))"
proof -
  obtain y st1 where g: "reg_Get sv w i st = (y, st1)" by fastforce
  note G = get_spec [OF assms(2) g]
  show ?thesis
  proof (cases y)
    case (Inl e)
    with g assms(3) have "st' = st1" "isl x" by (auto simp: reg_Open_def)
    with G show ?thesis by (auto simp: cache_effect_same)
  next
    case r: (Inr r)
    with G have rec: "recs (rgMeta st) w i = Some r" "ValidateWorkspace w = None" by blast+
    define hit where "hit = (case map_of (rgCache st1) (key w i) of
      None \<Rightarrow> None
    | Some c \<Rightarrow> if chUpdatedAt c = rUpdatedAt r \<and> trunc_us now - chLoadedAt c < openCacheTTL then Some (chBackend c) else None)"
    obtain z c where cg: "(if rHasCredentials r then cGet (svCreds sv) w i (rgCreds st1) else (Inr [], rgCreds st1)) = (z, c)"
      by fastforce
    have hc: "held c = held (rgCreds st)" using cg G cget_same [OF assms(1), of "rgCreds st1" z c] by (auto split: if_splits)
    show ?thesis
    proof (cases hit)
      case (Some h)
      with g r assms(3) have "x = Inr h" "st' = st1" by (simp_all add: reg_Open_def Let_def hit_def)
      moreover from Some obtain ch where "map_of (rgCache st) (key w i) = Some ch" "chUpdatedAt ch = rUpdatedAt r" "chBackend ch = h"
        using G by (auto simp: hit_def split: option.splits if_splits)
      ultimately show ?thesis using G rec by (auto simp: cache_effect_same)
    next
      case miss: None
      show ?thesis
      proof (cases z)
        case (Inl e)
        with g r miss cg assms(3) have "isl x" "st' = st1\<lparr>rgCreds := c\<rparr>" by (auto simp: reg_Open_def Let_def hit_def [symmetric])
        with G hc show ?thesis by (auto simp: cache_effect_same same_regs_def same_recs_def)
      next
        case kvs: (Inr kvs)
        show ?thesis
        proof (cases "buildBackend (svEnv sv) (rKind r) (rConfig r) kvs w")
          case None
          with g r miss cg kvs assms(3) have "isl x" "st' = st1\<lparr>rgCreds := c\<rparr>" by (auto simp: reg_Open_def Let_def hit_def [symmetric])
          with G hc show ?thesis by (auto simp: cache_effect_same same_regs_def same_recs_def)
        next
          case (Some h)
          let ?c = "\<lparr>chUpdatedAt = rUpdatedAt r, chLoadedAt = trunc_us later, chBackend = h\<rparr>"
          from g r miss cg kvs Some assms(3)
          have res: "x = Inr h" "st' = st1\<lparr>rgCreds := c, rgCache := AList.update (key w i) ?c (rgCache st1)\<rparr>"
            by (simp_all add: reg_Open_def Let_def hit_def [symmetric])
          have "cache_effect w i st st'"
            unfolding cache_effect_def res using G rec Some by (auto simp: update_conv intro!: exI [of _ kvs])
          with G hc rec Some show ?thesis unfolding res by (auto simp: same_regs_def same_recs_def)
        qed
      qed
    qed
  qed
qed

lemma raw_spec:
  assumes "served w i" "ok (rgMeta st)" "RawCredentials sv w i st = (x, st')"
  shows "same_regs st st' \<and> rgCache st' = rgCache st \<and> rgWorld st' = rgWorld st \<and>
    (\<forall>r. fst x = Some r \<longrightarrow> recs (rgMeta st) w i = Some r) \<and>
    (\<forall>kvs. snd x = Inr kvs \<longrightarrow> fst x \<noteq> None)"
proof -
  obtain y st1 where g: "reg_Get sv w i st = (y, st1)" by fastforce
  obtain z c where cg: "cGet (svCreds sv) w i (rgCreds st1) = (z, c)" by fastforce
  from assms(3) g cg have "st' = st1 \<or> st' = st1\<lparr>rgCreds := c\<rparr>" "fst x = Some r \<Longrightarrow> y = Inr r" "snd x = Inr kvs \<Longrightarrow> fst x \<noteq> None" for r kvs
    by (auto simp: RawCredentials_def split: sum.splits if_splits)
  with get_spec [OF assms(2) g] cget_same [OF assms(1) cg] show ?thesis
    by (auto simp: same_regs_def same_recs_def)
qed

lemma list_spec:
  assumes "ok (rgMeta st)" "reg_List sv w st = (x, st')"
  shows "same_regs st st' \<and> rgCache st' = rgCache st \<and> (\<forall>rs. x = Inr rs \<longrightarrow>
    set rs = {r. \<exists>i. recs (rgMeta st) w i = Some r} \<and> sorted (map rID rs) \<and> distinct (map rID rs))"
proof (cases "ValidateWorkspace w")
  case None
  obtain y m where g: "mList (svMeta sv) w (rgMeta st) = (y, m)" by fastforce
  from M.list [OF assms(1) valid_slash [OF None] g] None g assms(2) show ?thesis
    by (auto simp: reg_List_def same_regs_def same_recs_def split: sum.splits)
next
  case (Some e)
  with assms show ?thesis by (auto simp: reg_List_def same_regs_def same_recs_def)
qed

lemma test_spec_same:
  assumes "ok (rgMeta st)" "test_spec sv root_too k cfg kvs w st = (e, st')"
  shows "same_regs st st' \<and> rgCache st' = rgCache st"
  using test_spec_looks [OF assms(2)] check_handle_parts [of sv _ st e st'] assms(1)
  by (auto simp: same_regs_def same_recs_def)

lemma test_same:
  assumes "ok (rgMeta st)" "reg_Test sv w inp st = (e, st')"
  shows "same_regs st st' \<and> rgCache st' = rgCache st"
proof (cases "st' = st")
  case False
  with assms(2) obtain cfg where "test_spec sv (ciKind inp = KindFilesystem) (ciKind inp) cfg (ciCredentials inp) w st = (e, st')"
    by (auto simp: reg_Test_def split: option.splits sum.splits if_splits)
  from test_spec_same [OF assms(1) this] show ?thesis .
qed (use assms in \<open>simp add: same_regs_refl\<close>)

lemma test_update_same:
  assumes "served w i" "ok (rgMeta st)" "reg_TestUpdate sv now w i inp st = (e, st')"
  shows "same_regs st st' \<and> rgCache st' = rgCache st"
proof -
  obtain y st1 where pu: "prepareUpdate sv now w i inp st = (y, st1)" by fastforce
  note P = prepare_spec [OF assms(1,2) pu]
  then have ok1: "ok (rgMeta st1)" by (simp add: same_regs_def same_recs_def)
  show ?thesis
  proof (cases y)
    case (Inr p)
    with assms(3) pu test_spec_same [OF ok1] P show ?thesis
      by (fastforce simp: reg_TestUpdate_def dest: same_regs_trans)
  qed (use assms(3) pu P in \<open>simp add: reg_TestUpdate_def\<close>)
qed

lemma test_saved_effect:
  assumes "served w i" "ok (rgMeta st)" "reg_TestSaved sv now later rnd w i st = (e, st')"
    and fresh: "\<And>r c. recs (rgMeta st) w i = Some r \<Longrightarrow> map_of (rgCache st) (key w i) = Some c \<Longrightarrow> chUpdatedAt c = rUpdatedAt r \<Longrightarrow>
      \<exists>kvs. buildBackend (svEnv sv) (rKind r) (rConfig r) kvs w = Some (chBackend c)"
  shows "effect w i clock (probe_passed sv now later rnd w i st) st st' \<and> cache_effect w i st st'"
proof -
  obtain x st1 where o: "reg_Open sv now later w i st = (x, st1)" by fastforce
  note O = open_spec [OF assms(1,2) o]
  have quiet: "effect w i clock p st st2 \<and> cache_effect w i st st2"
    if "same_regs st1 st2" "rgCache st2 = rgCache st1" for st2 p
    using O that effect_same [OF same_regs_trans [of st st1 st2]] by (simp add: cache_effect_def)
  have ok1: "ok (rgMeta st1)" using O by (simp add: same_regs_def same_recs_def)
  show ?thesis
  proof (cases x)
    case (Inl z)
    with assms(3) o have "st' = st1" by (simp add: reg_TestSaved_def)
    then show ?thesis using quiet same_regs_refl [OF ok1] by simp
  next
    case h: (Inr h)
    obtain ce st2 where ch: "check_handle sv h st1 = (ce, st2)" by fastforce
    note CH = check_handle_parts [OF ch]
    have same2: "same_regs st1 st2" using CH ok1 by (simp add: same_regs_def same_recs_def)
    show ?thesis
    proof (cases ce)
      case (Some z)
      with assms(3) o h ch have "st' = st2" by (simp add: reg_TestSaved_def)
      then show ?thesis using quiet same2 CH by simp
    next
      case None
      obtain y st3 where g: "reg_Get sv w i st2 = (y, st3)" by fastforce
      have ok2: "ok (rgMeta st2)" using same2 by (simp add: same_regs_def same_recs_def)
      note G = get_spec [OF ok2 g]
      have same3: "same_regs st1 st3" using same2 G same_regs_trans by blast
      show ?thesis
      proof (cases "\<exists>r. y = Inr r \<and> rKind r = KindS3")
        case False
        with assms(3) o h ch None g have "st' = st3"
          by (cases y) (auto simp: reg_TestSaved_def)
        then show ?thesis using quiet same3 G CH by simp
      next
        case True
        then obtain r where r: "y = Inr r" "rKind r = KindS3" by blast
        have recs3: "recs (rgMeta st3) = recs (rgMeta st)" "ok (rgMeta st3)"
          using same3 O by (simp_all add: same_regs_def same_recs_def)
        have rec: "recs (rgMeta st) w i = Some r" "ValidateWorkspace w = None"
          using G r O same2 by (auto simp: same_regs_def same_recs_def)
        obtain perr wd where pr: "probeCreateOnly (svMethods sv h) rnd (rgWorld st3) = (perr, wd)" by (rule prod.exhaust)
        obtain se m where sc: "mSetCreateOnlyVerified (svMeta sv) w i (perr = None) (rgMeta st3) = (se, m)" by fastforce
        from assms(3) o h ch None g r pr sc have st': "st' = st3\<lparr>rgMeta := m, rgWorld := wd\<rparr>"
          by (simp add: reg_TestSaved_def)
        have passed: "probe_passed sv now later rnd w i st = (if perr = None then Some h else None)"
          using o h ch None pr G by (simp add: probe_passed_def)
        have cache: "cache_effect w i st st'" using O G CH unfolding st' cache_effect_def by simp
        note V = M.set_verified [OF recs3(2) valid_slash [OF rec(2)] sc]
        show ?thesis
        proof (cases se)
          case (Some z)
          with V recs3 have "effect w i clock (probe_passed sv now later rnd w i st) st st'"
            unfolding st' using same3 O by (simp add: effect_def same_regs_def rec_change.kept)
          with cache show ?thesis by blast
        next
          case ok: None
          with V recs3 rec have m: "ok m" "recs m = (recs (rgMeta st))(w := (recs (rgMeta st) w)(i \<mapsto> r\<lparr>rCreateOnlyVerified := (perr = None)\<rparr>))"
            by auto
          have "rec_change (svEnv sv) canon w clock (probe_passed sv now later rnd w i st) (Some r)
              (Some (r\<lparr>rCreateOnlyVerified := (perr = None)\<rparr>))"
          proof (cases perr)
            case None
            have "\<exists>kvs. buildBackend (svEnv sv) (rKind r) (rConfig r) kvs w = Some h"
              using O h rec(1) fresh [OF rec(1)] by auto
            then obtain kvs where "buildBackend (svEnv sv) (rKind r) (rConfig r) kvs w = Some h" by blast
            from rec_change.judged [OF r(2), of True, OF _ _ this] None passed show ?thesis by simp
          next
            case (Some z)
            then show ?thesis using rec_change.refuted by simp
          qed
          with m rec same3 O have "effect w i clock (probe_passed sv now later rnd w i st) st st'"
            unfolding st' by (simp add: effect_def same_regs_def)
          with cache show ?thesis by blast
        qed
      qed
    qed
  qed
qed

text \<open>Every call, in one statement.\<close>

definition cache_fresh :: "('m, 'c, 'w) regst \<Rightarrow> bool" where
  "cache_fresh st \<longleftrightarrow>
     (\<forall>w i r c. ValidateWorkspace w = None \<longrightarrow> recs (rgMeta st) w i = Some r \<longrightarrow> map_of (rgCache st) (key w i) = Some c \<longrightarrow>
        chUpdatedAt c \<le> rUpdatedAt r \<and>
        (chUpdatedAt c = rUpdatedAt r \<longrightarrow> (\<exists>kvs. buildBackend (svEnv sv) (rKind r) (rConfig r) kvs w = Some (chBackend c))))"

lemma run_effect:
  assumes "call_target call = (w, i)" "served w i" "ok (rgMeta st)" "cache_fresh st"
  shows "effect w i (call_clock call) (call_probe sv call st) st (reg_run sv call st) \<and> cache_effect w i st (reg_run sv call st)"
proof -
  have quiet: "effect w i clock probe st st' \<and> cache_effect w i st st'"
    if "same_regs st st' \<and> rgCache st' = rgCache st" for st' clock probe
    using that by (simp add: effect_same cache_effect_same)
  show ?thesis
  proof (cases call)
    case (CallGet w' i')
    with assms get_spec [OF assms(3) prod.collapse [symmetric], of w i] quiet show ?thesis by auto
  next
    case (CallList w')
    with assms list_spec [OF assms(3) prod.collapse [symmetric], of w] quiet show ?thesis by auto
  next
    case (CallCreate now w' actor inp)
    with assms create_effect [OF _ assms(3) prod.collapse [symmetric], where w = w and inp = inp and now = now and actor = actor] show ?thesis by auto
  next
    case (CallUpdate now w' i' inp)
    with assms update_effect [OF assms(2,3) prod.collapse [symmetric]] show ?thesis by auto
  next
    case (CallDelete w' i')
    with assms delete_effect [OF assms(2,3) prod.collapse [symmetric]] show ?thesis by auto
  next
    case (CallOpen now later w' i')
    with assms open_spec [OF assms(2,3) prod.collapse [symmetric], of now later] show ?thesis
      by (auto intro: effect_same)
  next
    case (CallRaw w' i')
    with assms raw_spec [OF assms(2,3) prod.collapse [symmetric]] quiet show ?thesis by auto
  next
    case (CallTest w' inp)
    with assms test_same [OF assms(3) prod.collapse [symmetric], of w inp] quiet show ?thesis by auto
  next
    case (CallTestUpdate now w' i' inp)
    with assms test_update_same [OF assms(2,3) prod.collapse [symmetric], of now inp] quiet show ?thesis by auto
  next
    case (CallTestSaved now later rnd w' i')
    show ?thesis
    proof (cases "ValidateWorkspace w = None")
      case True
      from CallTestSaved assms(1) have "w' = w" "i' = i" by simp_all
      with CallTestSaved test_saved_effect [OF assms(2,3) prod.collapse [symmetric], where now = now and later = later and rnd = rnd] assms(4) True show ?thesis
        by (simp add: cache_fresh_def)
    next
      case False
      then have "reg_run sv call st = st" using CallTestSaved assms(1) by (auto simp: reg_TestSaved_def reg_Open_def reg_Get_def)
      then show ?thesis using quiet same_regs_refl [OF assms(3)] by simp
    qed
  qed
qed

lemma prepare_creds:
  assumes "prepareUpdate sv now w i inp st = (Inr p, st')"
  shows "(puReplace p \<longleftrightarrow> uiCredentials inp \<noteq> None) \<and>
    (\<forall>kvs. uiCredentials inp = Some kvs \<longrightarrow> puNew p = kvs \<and> rHasCredentials (puRec p) = (kvs \<noteq> []))"
proof -
  from assms obtain r1 st1 p0 where u: "update_creds sv w i inp r1 st1 = (Inr p0, st')"
    and p: "\<exists>t. p = p0\<lparr>puRec := (puRec p0)\<lparr>rUpdatedAt := t\<rparr>\<rparr>"
    by (auto simp: prepareUpdate_def split: prod.splits sum.splits if_splits)
  from u have "(puReplace p0 \<longleftrightarrow> uiCredentials inp \<noteq> None) \<and>
    (\<forall>kvs. uiCredentials inp = Some kvs \<longrightarrow> puNew p0 = kvs \<and> rHasCredentials (puRec p0) = (kvs \<noteq> []))"
    by (auto simp: update_creds_def split: option.splits prod.splits sum.splits if_splits)
  with p show ?thesis by auto
qed

lemma update_secrets_exact:
  assumes "served w i" "update_secrets sv w i p st = (None, st')"
  shows "held (rgCreds st') w i = (if puReplace p then (if puNew p = [] then None else Some (map_of (puNew p))) else held (rgCreds st) w i)"
proof -
  obtain e1 c1 where d: "cDelete (svCreds sv) w i (rgCreds st) = (e1, c1)" by fastforce
  obtain e2 c2 where p: "cPut (svCreds sv) w i (puNew p) (rgCreds st) = (e2, c2)" by fastforce
  from assms(2) d p C.delete [OF assms(1) d] C.put [OF assms(1) p] show ?thesis
    by (auto simp: update_secrets_def split: if_splits)
qed

lemma update_exact:
  assumes "served w i" "ok (rgMeta st)" "reg_Update sv now w i inp st = (Inr r', st')"
  shows "\<exists>r0 r. recs (rgMeta st) w i = Some r0 \<and> recs (rgMeta st') w i = Some r \<and> rKind r = rKind r0 \<and>
    rUpdatedAt r0 < rUpdatedAt r \<and>
    (if uiConfig inp = None then rConfig r = rConfig r0 \<and> rCreateOnlyVerified r = rCreateOnlyVerified r0
     else (\<exists>cfg. normalizeConfig (svEnv sv) (rKind r0) (uiConfig inp) w = Inr cfg \<and> rConfig r = canon cfg) \<and> \<not> rCreateOnlyVerified r) \<and>
    held (rgCreds st') w i = (case uiCredentials inp of None \<Rightarrow> held (rgCreds st) w i
      | Some kvs \<Rightarrow> if kvs = [] then None else Some (map_of kvs))"
proof -
  obtain y st1 where pu: "prepareUpdate sv now w i inp st = (y, st1)" by fastforce
  note P = prepare_spec [OF assms(1,2) pu]
  from assms(3) pu obtain p where y: "y = Inr p" by (auto simp: reg_Update_def split: sum.splits)
  with P obtain r0 r1 b where r: "recs (rgMeta st) w i = Some r0" "ValidateWorkspace w = None"
    "update_record sv w i inp r0 = Inr r1"
    "puRec p = r1\<lparr>rHasCredentials := b, rUpdatedAt := bump (rUpdatedAt r0) (trunc_us now)\<rparr>" by blast
  note N = prepare_creds [OF pu [unfolded y]]
  obtain e2 st2 where rt: "create_root sv (rKind (puRec p) = KindFilesystem \<and> uiConfig inp \<noteq> None) (rConfig (puRec p)) st1 = (e2, st2)"
    by fastforce
  note R = create_root_parts [OF rt]
  obtain e3 st3 where us: "update_secrets sv w i p st2 = (e3, st3)" by fastforce
  note S = update_secrets_spec [OF assms(1) us]
  obtain e4 m where up: "mUpdate (svMeta sv) (puRec p) (rgMeta st3) = (e4, m)" by fastforce
  from assms(3) pu y rt us up have e: "e2 = None" "e3 = None" "e4 = None" "st' = invalidate w i (st3\<lparr>rgMeta := m\<rparr>)"
    by (auto simp: reg_Update_def split: option.splits)
  have m3: "ok (rgMeta st3)" "recs (rgMeta st3) = recs (rgMeta st)" using R S P by (simp_all add: same_regs_def same_recs_def)
  note I = update_record_Inr [OF r(3)] M.recs_id [OF assms(2) r(1)]
  have id: "rWorkspace (puRec p) = w" "rID (puRec p) = i" using I r(4) by simp_all
  let ?r = "clone_rec (mutable_fields ((puRec p)\<lparr>rConfig := canon (rConfig (puRec p))\<rparr>) r0)"
  have "recs m w i = Some ?r"
    using M.update [OF m3(1) _ up] e(3) id r(1) valid_slash [OF r(2)] by (auto simp: m3(2))
  then have "recs (rgMeta st') w i = Some ?r" using e(4) by (simp add: invalidate_def)
  moreover have "rKind ?r = rKind r0" by simp
  moreover have "rUpdatedAt r0 < rUpdatedAt ?r" using trunc_bump [of "rUpdatedAt r0" now] I r(4) by simp
  moreover have "if uiConfig inp = None then rConfig ?r = rConfig r0 \<and> rCreateOnlyVerified ?r = rCreateOnlyVerified r0
     else (\<exists>cfg. normalizeConfig (svEnv sv) (rKind r0) (uiConfig inp) w = Inr cfg \<and> rConfig ?r = canon cfg) \<and> \<not> rCreateOnlyVerified ?r"
    using I r(4) by (cases "uiConfig inp = None") auto
  moreover have "held (rgCreds st') w i = (case uiCredentials inp of None \<Rightarrow> held (rgCreds st) w i
      | Some kvs \<Rightarrow> if kvs = [] then None else Some (map_of kvs))"
    using update_secrets_exact [OF assms(1) us [unfolded e(2)]] N R P e(4)
    by (cases "uiCredentials inp") (simp_all add: invalidate_def same_regs_def)
  ultimately show ?thesis using r(1) by blast
qed

lemma create_taken_spec:
  assumes "ok (rgMeta st)" "recs (rgMeta st) w (ciID inp) = Some r" "reg_Create sv now w actor inp st = (x, st')"
  shows "isl x \<and> recs (rgMeta st') = recs (rgMeta st) \<and> rgCreds st' = rgCreds st \<and> rgCache st' = rgCache st"
proof (cases "create_checks sv w inp")
  case (Inl e)
  with assms show ?thesis by (auto simp: reg_Create_def)
next
  case (Inr nc)
  obtain name cfg where nc: "nc = (name, cfg)" by fastforce
  with Inr have chk: "create_checks sv w inp = Inr (name, cfg)" by simp
  obtain e st1 where rt: "create_root sv (ciKind inp = KindFilesystem) cfg st = (e, st1)" by fastforce
  note R = create_root_parts [OF rt]
  let ?r = "new_record now w actor inp name cfg"
  have id: "rWorkspace ?r = w" "rID ?r = ciID inp" by (simp_all add: new_record_def)
  have ns: "slash \<notin> set (rWorkspace ?r)" using create_checks_Inr [OF chk] valid_slash by (simp add: id)
  obtain ce m where cr: "mCreate (svMeta sv) ?r (rgMeta st) = (ce, m)" by fastforce
  from M.create_taken [OF assms(1) ns] M.create [OF assms(1) ns cr] assms(2) cr id
  have "ce \<noteq> None" "recs m = recs (rgMeta st)" by (auto split: option.splits)
  with assms(3) chk rt cr R show ?thesis
    by (auto simp: reg_Create_def create_store_def split: option.splits if_splits)
qed

lemma tests_look:
  assumes "served w i" "ok (rgMeta st)"
    and "reg_run sv call st = st'" "call = CallTest w ci \<or> call = CallTestUpdate now w i ui"
  shows "rgWorld st' = rgWorld st \<or> (\<exists>h e. bCheck (svMethods sv h) (rgWorld st) = (e, rgWorld st'))"
proof -
  have spec: "rgWorld st2 = rgWorld st1 \<or> (\<exists>h e. bCheck (svMethods sv h) (rgWorld st1) = (e, rgWorld st2))"
    if "test_spec sv rt k cfg kvs w st1 = (e1, st2)" for rt k cfg kvs e1 st1 st2
  proof -
    have "\<exists>e. bCheck (svMethods sv h) (rgWorld st1) = (e, rgWorld st2)" if "check_handle sv h st1 = (e1, st2)" for h
    proof -
      obtain e wd where b: "bCheck (svMethods sv h) (rgWorld st1) = (e, wd)" by (rule prod.exhaust)
      with that show ?thesis by (auto simp: check_handle_def)
    qed
    with test_spec_looks [OF that] show ?thesis by blast
  qed
  from assms(4) show ?thesis
  proof
    assume call: "call = CallTest w ci"
    have "st' = st \<or> (\<exists>cfg e. test_spec sv (ciKind ci = KindFilesystem) (ciKind ci) cfg (ciCredentials ci) w st = (e, st'))"
      using assms(3) unfolding call
      by (cases "ValidateWorkspace w"; cases "kind_Valid (ciKind ci)"; cases "normalizeConfig (svEnv sv) (ciKind ci) (ciConfig ci) w";
          cases "validateCredentials (svEnv sv) (ciKind ci) (ciCredentials ci)") (auto simp: reg_Test_def intro: prod.collapse [symmetric])
    then show ?thesis using spec by blast
  next
    assume call: "call = CallTestUpdate now w i ui"
    obtain y st1 where pu: "prepareUpdate sv now w i ui st = (y, st1)" by fastforce
    have w: "rgWorld st1 = rgWorld st" using prepare_spec [OF assms(1,2) pu] by blast
    show ?thesis
    proof (cases y)
      case (Inl e)
      with assms(3) pu w show ?thesis unfolding call by (simp add: reg_TestUpdate_def)
    next
      case (Inr p)
      with assms(3) pu have "st' = snd (test_spec sv (rKind (puRec p) = KindFilesystem \<and> uiConfig ui \<noteq> None) (rKind (puRec p))
          (rConfig (puRec p)) (puCreds p) w st1)" unfolding call by (simp add: reg_TestUpdate_def)
      then show ?thesis using spec w by (metis prod.collapse)
    qed
  qed
qed

text \<open>And every deployment.\<close>

lemma cache_fresh_entry:
  "cache_fresh st \<longleftrightarrow>
     (\<forall>w i c. ValidateWorkspace w = None \<longrightarrow> map_of (rgCache st) (key w i) = Some c \<longrightarrow> entry_ok (svEnv sv) w (recs (rgMeta st) w i) c)"
  by (auto simp: cache_fresh_def entry_ok_def)

lemma cache_step:
  assumes "effect w i clock probe st st'" "cache_fresh st0" "rgMeta st0 = rgMeta st" "rgMeta st1 = rgMeta st'"
    and w: "ValidateWorkspace w = None"
    and other: "\<And>k. k \<noteq> key w i \<Longrightarrow> map_of (rgCache st1) k = map_of (rgCache st0) k"
    and here: "\<And>c. map_of (rgCache st1) (key w i) = Some c \<Longrightarrow> entry_ok (svEnv sv) w (recs (rgMeta st) w i) c"
    and clock: "\<And>c t. recs (rgMeta st) w i = None \<Longrightarrow> clock = Some t \<Longrightarrow> map_of (rgCache st1) (key w i) = Some c \<Longrightarrow> chUpdatedAt c < t"
  shows "cache_fresh st1"
  unfolding cache_fresh_entry assms(4)
proof (intro allI impI)
  fix w' i' c assume v: "ValidateWorkspace w' = None" and c: "map_of (rgCache st1) (key w' i') = Some c"
  show "entry_ok (svEnv sv) w' (recs (rgMeta st') w' i') c"
  proof (cases "key w' i' = key w i")
    case True
    then have same: "w' = w" "i' = i" using key_inj [OF valid_slash [OF v] valid_slash [OF w]] by simp_all
    from assms(1) have "rec_change (svEnv sv) canon w clock probe (recs (rgMeta st) w i) (recs (rgMeta st') w i)"
      by (simp add: effect_def)
    from entry_step [OF this here clock] same c show ?thesis by auto
  next
    case False
    with assms(1) have "recs (rgMeta st') w' i' = recs (rgMeta st) w' i'" by (auto simp: effect_def)
    with False c other assms(2,3) v show ?thesis by (auto simp: cache_fresh_entry)
  qed
qed

lemma run_invalid:
  "ValidateWorkspace w \<noteq> None \<Longrightarrow> call_target call = (w, i) \<Longrightarrow> reg_run sv call st = st \<and> call_probe sv call st = None"
  by (cases call) (auto simp: reg_Get_def reg_List_def reg_Create_def create_checks_def reg_Update_def prepareUpdate_def
      reg_Delete_def reg_Open_def RawCredentials_def reg_Test_def reg_TestUpdate_def reg_TestSaved_def probe_passed_def)

definition deployed :: "'m \<Rightarrow> (nat \<Rightarrow> (string \<times> cached) list) \<Rightarrow> (string \<times> string \<times> handle) set \<Rightarrow> bool" where
  "deployed m caches P \<longleftrightarrow>
     ok m \<and> (\<forall>w i. record_ok (svEnv sv) canon P w i (recs m w i)) \<and>
     (\<forall>n c wd. cache_fresh \<lparr>rgMeta = m, rgCreds = c, rgCache = caches n, rgWorld = wd\<rparr>)"

lemma cache_fresh_indep:
  "cache_fresh st \<Longrightarrow> rgMeta st' = rgMeta st \<Longrightarrow> rgCache st' = rgCache st \<Longrightarrow> cache_fresh st'"
  by (simp add: cache_fresh_def)

lemma deployed_call:
  assumes D: "deployed m caches P" and t: "call_target call = (w, i)" and s: "served w i"
    and clock: "\<forall>t n' e. call_clock call = Some t \<longrightarrow> map_of (caches n') (key w i) = Some e \<longrightarrow> chUpdatedAt e < t"
    and st: "st = \<lparr>rgMeta = m, rgCreds = c, rgCache = caches n, rgWorld = wd\<rparr>" and run: "reg_run sv call st = st'"
  shows "deployed (rgMeta st') (caches(n := rgCache st')) (P \<union> {(w, i, h) | h. call_probe sv call st = Some h})"
proof (cases "ValidateWorkspace w = None")
  case False
  from run_invalid [OF this t, of st] run have same: "st' = st" "call_probe sv call st = None" by auto
  show ?thesis unfolding same using D st by simp
next
  case w: True
  have ok: "ok (rgMeta st)" "cache_fresh st" using D unfolding deployed_def st by (simp, blast)
  from run_effect [OF t s ok] run
  have E: "effect w i (call_clock call) (call_probe sv call st) st st'" and C: "cache_effect w i st st'" by simp_all
  have recs: "record_ok (svEnv sv) canon (P \<union> {(w, i, h) | h. call_probe sv call st = Some h}) w' i' (recs (rgMeta st') w' i')" for w' i'
  proof (cases "(w', i') = (w, i)")
    case True
    then have old: "record_ok (svEnv sv) canon P w i (recs (rgMeta st) w i)" using D st by (simp add: deployed_def)
    have "rID r = i" if "recs (rgMeta st') w i = Some r" for r
      using E that M.recs_id [of "rgMeta st'" w i r] by (simp add: effect_def)
    moreover have "rec_change (svEnv sv) canon w (call_clock call) (call_probe sv call st) (recs (rgMeta st) w i) (recs (rgMeta st') w i)"
      using E by (simp add: effect_def)
    ultimately show ?thesis using record_step [OF _ old] True by blast
  next
    case False
    with E have "recs (rgMeta st') w' i' = recs m w' i'" using st by (simp add: effect_def)
    moreover have "record_ok (svEnv sv) canon P w' i' (recs m w' i')" using D by (simp add: deployed_def)
    ultimately show ?thesis using record_ok_mono by simp
  qed
  have caches: "cache_fresh \<lparr>rgMeta = rgMeta st', rgCreds = c', rgCache = (caches(n := rgCache st')) n', rgWorld = wd'\<rparr>" for n' c' wd'
  proof -
    let ?old = "\<lparr>rgMeta = m, rgCreds = c', rgCache = caches n', rgWorld = wd'\<rparr>"
    have old: "cache_fresh ?old" using D unfolding deployed_def by blast
    then have entry: "entry_ok (svEnv sv) w (recs m w i) e" if "map_of (caches n') (key w i) = Some e" for e
      using w that by (simp add: cache_fresh_entry)
    show ?thesis
    proof (cases "n' = n")
      case False
      show ?thesis
        by (rule cache_step [OF E old _ _ w]) (use False st entry clock in auto)
    next
      case True
      have here: "entry_ok (svEnv sv) w (recs m w i) e" if "map_of (rgCache st') (key w i) = Some e" for e
        using C that st True entry by (auto simp: cache_effect_def entry_ok_def)
      have late: "chUpdatedAt e < t" if "recs m w i = None" "call_clock call = Some t" "map_of (rgCache st') (key w i) = Some e" for e t
        using C that st clock by (auto simp: cache_effect_def)
      show ?thesis
        by (rule cache_step [OF E old _ _ w]) (use True st C here late in \<open>auto simp: cache_effect_def\<close>)
    qed
  qed
  show ?thesis using E recs caches by (simp add: deployed_def effect_def)
qed

lemma reach_deployed:
  assumes "reg_reach sv served init m c wd caches P" "\<And>m. init m \<Longrightarrow> ok m \<and> (\<forall>w i. recs m w i = None)"
  shows "deployed m caches P"
  using assms(1)
proof (induction rule: reg_reach.induct)
  case (started m c wd)
  with assms(2) show ?case by (simp add: deployed_def record_ok_def cache_fresh_def)
next
  case (called m c wd caches P call w i st n st')
  from deployed_call [OF called.IH called.hyps(2-6)] show ?case .
qed simp

end

section \<open>The registry in memory, and in production\<close>

definition memory_service :: "env \<Rightarrow> (handle \<Rightarrow> (node \<times> 'w) backend) \<Rightarrow> fs_err option \<Rightarrow> (memreg_recs, mem_creds, 'w) svc" where
  "memory_service env methods mkErr =
     \<lparr>svMeta = memreg_meta_ops, svCreds = mem_cred_ops, svEnv = env, svMethods = methods, svMkErr = mkErr\<rparr>"

text \<open>Records in PostgreSQL, credentials in Kubernetes Secrets.\<close>

definition production_service ::
    "'c secrets_client \<Rightarrow> (string \<Rightarrow> string) \<Rightarrow> env \<Rightarrow> (handle \<Rightarrow> (node \<times> 'w) backend) \<Rightarrow> fs_err option \<Rightarrow> (pg_state, 'c, 'w) svc" where
  "production_service c sha env methods mkErr =
     \<lparr>svMeta = PostgresStore, svCreds = kube_cred_ops c sha, svEnv = env, svMethods = methods, svMkErr = mkErr\<rparr>"

lemma service_sel [simp]:
  "svMeta (memory_service env methods mkErr) = memreg_meta_ops" "svCreds (memory_service env methods mkErr) = mem_cred_ops"
  "svEnv (memory_service env methods mkErr) = env" "svMethods (memory_service env methods mkErr) = methods"
  "svMkErr (memory_service env methods mkErr) = mkErr"
  "svMeta (production_service c sha env methods mkErr) = PostgresStore"
  "svCreds (production_service c sha env methods mkErr) = kube_cred_ops c sha"
  "svEnv (production_service c sha env methods mkErr) = env" "svMethods (production_service c sha env methods mkErr) = methods"
  "svMkErr (production_service c sha env methods mkErr) = mkErr"
  by (simp_all add: memory_service_def production_service_def)

interpretation mem_registry: registry "memory_service env methods mkErr" memreg_view memreg_ok "\<lambda>j. j" memcred_held "\<lambda>w i. slash \<notin> set w"
  for env methods mkErr
  by (rule registry.intro) (simp_all add: mem_reg.meta_store_axioms mem_cred.cred_store_axioms)

sublocale kube_secrets \<subseteq> production: registry "production_service c sha env methods mkErr"
    "\<lambda>s. pgreg_view (fst s)" "\<lambda>s. pgreg_ok (fst s)" jsonb kube_held used
  for env methods mkErr
  by (rule registry.intro) (simp_all add: pg_store.meta_store_axioms kube.cred_store_axioms)

end
