(* ===== verification/Registry_Example.thy ===== *)
theory Registry_Example
  imports Registry_Laws S3_Backend
begin

text \<open>
  The states of the production registry, the methods of an opened backend on the state the whole
  server shares, and a concrete run: a bucket is registered, then tested, on the
  reference services.
\<close>

section \<open>States of the production registry\<close>
text \<open>
  \<open>in_production\<close>: the states reached from an empty table.  \<open>stored_secret\<close> is what the Secret
  of a backend holds.
\<close>

definition in_production ::
    "'c secrets_client \<Rightarrow> (string \<Rightarrow> string) \<Rightarrow> env \<Rightarrow> (handle \<Rightarrow> (node \<times> 'w) backend) \<Rightarrow> fs_err option \<Rightarrow> (string \<Rightarrow> string \<Rightarrow> bool) \<Rightarrow>
     (pg_state, 'c, 'w) regst \<Rightarrow> nat \<Rightarrow> (string \<times> string \<times> handle) set \<Rightarrow> bool" where
  "in_production c sha env methods mkErr used st n P \<longleftrightarrow>
     (\<exists>caches. reg_reach (production_service c sha env methods mkErr) used (\<lambda>s. fst s = [])
        (rgMeta st) (rgCreds st) (rgWorld st) caches P \<and> rgCache st = caches n)"

definition stored_rec :: "(pg_state, 'c, 'w) regst \<Rightarrow> string \<Rightarrow> string \<Rightarrow> backend_rec option" where
  "stored_rec st w i = pgreg_view (fst (rgMeta st)) w i"

definition stored_secret ::
    "('c \<Rightarrow> string \<rightharpoonup> secret) \<Rightarrow> (string \<Rightarrow> string) \<Rightarrow> (pg_state, 'c, 'w) regst \<Rightarrow> string \<Rightarrow> string \<Rightarrow> (string \<rightharpoonup> string) option" where
  "stored_secret secs sha st w i = map_option (\<lambda>x. map_of (scData x)) (secs (rgCreds st) (SecretName sha w i))"

definition demo_env :: env where
  "demo_env =
     \<lparr>eUrlParse = (\<lambda>s. Some \<lparr>uScheme = ''https'', uHost = s, uPath = [], uRawQuery = []\<rparr>),
      eMinioNew = (\<lambda>_ _. True), eAzureNew = (\<lambda>_ _. True), eGcsNew = (\<lambda>_. True),
      eSymlinks = (\<lambda>p. Some p), eRoots = [''/data/{workspace}'']\<rparr>"

definition demo_config :: json where
  "demo_config = JObj [(''prefix'', JStr ''team''), (''bucket'', JStr ''b1'')]"

text \<open>The methods of an opened backend, on the state the whole server shares.\<close>

definition focus :: "('s \<Rightarrow> 'a) \<Rightarrow> ('a \<Rightarrow> 's \<Rightarrow> 's) \<Rightarrow> 'a backend \<Rightarrow> 's backend" where
  "focus look set_to b =
     \<lparr>bList = (\<lambda>o1 s. case bList b o1 (look s) of (r, x) \<Rightarrow> (r, set_to x s)),
      bRead = (\<lambda>p s. case bRead b p (look s) of (r, x) \<Rightarrow> (r, set_to x s)),
      bReadRange = (\<lambda>p rg s. case bReadRange b p rg (look s) of (r, x) \<Rightarrow> (r, set_to x s)),
      bStat = (\<lambda>p s. case bStat b p (look s) of (r, x) \<Rightarrow> (r, set_to x s)),
      bWrite = (\<lambda>p rd o1 s. case bWrite b p rd o1 (look s) of (r, x) \<Rightarrow> (r, set_to x s)),
      bMkdir = (\<lambda>p s. case bMkdir b p (look s) of (r, x) \<Rightarrow> (r, set_to x s)),
      bDeleteObject = (\<lambda>p s. case bDeleteObject b p (look s) of (r, x) \<Rightarrow> (r, set_to x s)),
      bDeleteFolder = (\<lambda>p s. map_option (\<lambda>(r, x). (r, set_to x s)) (bDeleteFolder b p (look s))),
      bMoveObject = (\<lambda>p q s. case bMoveObject b p q (look s) of (r, x) \<Rightarrow> (r, set_to x s)),
      bMoveFolder = (\<lambda>p q s. map_option (\<lambda>(r, x). (r, set_to x s)) (bMoveFolder b p q (look s))),
      bCheck = (\<lambda>s. case bCheck b (look s) of (r, x) \<Rightarrow> (r, set_to x s))\<rparr>"

definition s3_bound :: "s3_config \<Rightarrow> s3_backend" where
  "s3_bound c = \<lparr>sbBucket = s3Bucket c, sbPrefix = (case CleanPrefix (s3Prefix c) of Inl _ \<Rightarrow> [] | Inr p \<Rightarrow> p)\<rparr>"

text \<open>An example: a bucket is registered and tested on the reference services.\<close>

definition small_names :: "string \<Rightarrow> string \<Rightarrow> bool" where
  "small_names w i \<longleftrightarrow> CHR 0x00 \<notin> set w \<and> length w + length i < 24"

definition demo_methods :: "handle \<Rightarrow> (node \<times> bucket) backend" where
  "demo_methods h = (case h of S3Handle c _ \<Rightarrow> focus snd (\<lambda>x s. (fst s, x)) (s3_methods (mem_s3 [] []) (s3_bound c))
     | _ \<Rightarrow> focus snd (\<lambda>x s. (fst s, x)) (s3_methods (mem_s3 [] []) \<lparr>sbBucket = [], sbPrefix = []\<rparr>))"

definition demo_input :: create_input where
  "demo_input = \<lparr>ciID = ''b1'', ciDisplayName = [], ciKind = KindS3, ciConfig = Some demo_config,
     ciCredentials = [(''accessKeyId'', ''k''), (''secretAccessKey'', ''s'')]\<rparr>"

abbreviation demo_service :: "(pg_state, mem_secrets, bucket) svc" where
  "demo_service \<equiv> production_service mem_secrets_client (\<lambda>x. x) demo_env demo_methods None"

definition demo_st0 :: "(pg_state, mem_secrets, bucket) regst" where
  "demo_st0 = \<lparr>rgMeta = ([], []), rgCreds = [], rgCache = [], rgWorld = (Dir [], [])\<rparr>"

definition demo_create :: reg_call where
  "demo_create = CallCreate 5000000 ''acme'' ''ann'' demo_input"

definition demo_probe :: reg_call where
  "demo_probe = CallTestSaved 6000000 6000000 (Some ''00ff'') ''acme'' ''b1''"

definition demo_rec :: backend_rec where
  "demo_rec = \<lparr>rWorkspace = ''acme'', rID = ''b1'', rDisplayName = ''b1'', rKind = KindS3,
     rConfig = JObj [(''bucket'', JStr ''b1''), (''prefix'', JStr ''team'')], rHasCredentials = True,
     rCreateOnlyVerified = False, rCreatedBy = ''ann'', rCreatedAt = 5000000, rUpdatedAt = 5000000\<rparr>"

definition demo_creds :: creds where
  "demo_creds = [(''accessKeyId'', ''k''), (''secretAccessKey'', ''s'')]"

definition demo_secrets :: mem_secrets where
  "demo_secrets = [(SecretName (\<lambda>x. x) ''acme'' ''b1'',
     \<lparr>scName = SecretName (\<lambda>x. x) ''acme'' ''b1'', scLabels = secret_labels ''acme'' ''b1'', scData = demo_creds\<rparr>)]"

definition demo_handle :: handle where
  "demo_handle = S3Handle
     \<lparr>s3Endpoint = [], s3Region = [], s3Bucket = ''b1'', s3Prefix = ''team'', s3PathStyle = False, s3CredentialProvider = []\<rparr>
     \<lparr>s3AccessKeyID = ''k'', s3SecretAccessKey = ''s'', s3SessionToken = []\<rparr>"

definition demo_st1 :: "(pg_state, mem_secrets, bucket) regst" where
  "demo_st1 = \<lparr>rgMeta = ([demo_rec], []), rgCreds = demo_secrets, rgCache = [], rgWorld = (Dir [], [])\<rparr>"

definition demo_st2 :: "(pg_state, mem_secrets, bucket) regst" where
  "demo_st2 = \<lparr>rgMeta = ([demo_rec\<lparr>rCreateOnlyVerified := True\<rparr>], []), rgCreds = demo_secrets,
     rgCache = [(key ''acme'' ''b1'', \<lparr>chUpdatedAt = 5000000, chLoadedAt = 6000000, chBackend = demo_handle\<rparr>)],
     rgWorld = (Dir [], [])\<rparr>"

lemma demo_checks:
  "create_checks demo_service ''acme'' demo_input = Inr (''b1'', rConfig demo_rec)"
proof -
  have "ValidateWorkspace ''acme'' = None" "ValidateID (ciID demo_input) = None"
    "kind_Valid (ciKind demo_input)"
    "normalizeConfig demo_env (ciKind demo_input) (ciConfig demo_input) ''acme'' = Inr (rConfig demo_rec)"
    by code_simp+
  moreover have "TrimSpace ''k'' = ''k''" "TrimSpace ''s'' = ''s''" by (rule TrimSpace_word; code_simp)+
  then have "cred_entries (cred_keys KindS3) 0 (ciCredentials demo_input) = Inr 2" by (simp add: cred_keys_def demo_input_def)
  then have "validateCredentials demo_env (ciKind demo_input) (ciCredentials demo_input) = None"
    by (simp add: validateCredentials_def demo_input_def maxCredentialBytes_def cred_def)
  moreover have "display_name (ciID demo_input) (ciDisplayName demo_input) = Inr ''b1''"
    by (simp add: display_name_def demo_input_def TrimSpace_def trim_left.simps trim_right.simps)
  ultimately show ?thesis by (simp add: create_checks_def)
qed

lemma demo_build:
  "buildBackend demo_env KindS3 (rConfig demo_rec) demo_creds ''acme'' = Some demo_handle"
  by code_simp

lemma demo_run1: "reg_run demo_service demo_create demo_st0 = demo_st1"
proof -
  have "new_record 5000000 ''acme'' ''ann'' demo_input ''b1'' (rConfig demo_rec) = demo_rec"
    "pgreg_rec demo_rec = demo_rec" "rWorkspace demo_rec = ''acme''" "rID demo_rec = ''b1''"
    "ciKind demo_input = KindS3" "ciCredentials demo_input = demo_creds" "demo_creds \<noteq> []"
    by code_simp+
  note parts = this
  then show ?thesis
    using demo_build
    by (simp add: demo_create_def reg_Create_def demo_checks create_root_def create_store_def parts
        pg_call_def pgreg_meta_ops_def pgreg_Create_def demo_st0_def demo_st1_def kube_cred_ops_def kube_Put_def
        demo_secrets_def Let_def kwrap_def)
qed

lemma demo_methods_handle:
  "demo_methods demo_handle =
     focus snd (\<lambda>x s. (fst s, x)) (s3_methods (mem_s3 [] []) \<lparr>sbBucket = ''b1'', sbPrefix = ''team/''\<rparr>)"
proof -
  have "CleanPrefix ''team'' = Inr ''team/''" by code_simp
  then show ?thesis by (simp add: demo_methods_def demo_handle_def s3_bound_def)
qed

lemma focus_sel [simp]:
  "bWrite (focus look set_to b) p rd o1 s = (case bWrite b p rd o1 (look s) of (r, x) \<Rightarrow> (r, set_to x s))"
  "bDeleteObject (focus look set_to b) p s = (case bDeleteObject b p (look s) of (r, x) \<Rightarrow> (r, set_to x s))"
  "bCheck (focus look set_to b) s = (case bCheck b (look s) of (r, x) \<Rightarrow> (r, set_to x s))"
  by (simp_all add: focus_def)

lemma s3_methods_sel [simp]:
  "bWrite (s3_methods c b) = s3_Write c b" "bDeleteObject (s3_methods c b) = s3_DeleteObject c b" "bCheck (s3_methods c b) = s3_Check c b"
  by (simp_all add: s3_methods_def)

lemma demo_probe_ok: "probeCreateOnly (demo_methods demo_handle) (Some ''00ff'') (Dir [], []) = (None, (Dir [], []))"
proof -
  let ?b = "\<lparr>sbBucket = ''b1'', sbPrefix = ''team/''\<rparr>" and ?k = "''.booth-create-only-probe-00ff''"
  let ?empty = "\<lparr>rdBytes = [], rdErr = None\<rparr>" and ?kept = "[(''team/'' @ ?k, [])]"
  have "CleanPath ?k = Inr ?k" by (simp add: CleanPath_def checkSegments_def TrimSuffix_def suffix_def maxPathLen_def)
  then have "\<exists>oi. s3_Write (mem_s3 [] []) ?b ?k ?empty create_only_opts [] = (Inr oi, ?kept)"
    "s3_Write (mem_s3 [] []) ?b ?k ?empty create_only_opts ?kept = (Inl ErrPreconditionFailed, ?kept)"
    "s3_DeleteObject (mem_s3 [] []) ?b ?k ?kept = (None, [])"
    by (simp_all add: s3_Write_def s3_put_result_def s3_DeleteObject_def create_only_opts_def s3_KeyExists_def s3_DeleteKey_def
        mem_s3_def mem_put_def mem_lookup_def mem_del_def s3_describe_def s3_describe_opt_def)
  then show ?thesis
    by (auto simp: probeCreateOnly_def probeKey_def probeKeyPrefix_def demo_methods_handle Let_def)
qed

lemma demo_sel [simp]:
  "rgMeta demo_st1 = ([demo_rec], [])" "rgCreds demo_st1 = demo_secrets" "rgCache demo_st1 = []" "rgWorld demo_st1 = (Dir [], [])"
  by (simp_all add: demo_st1_def)

lemma demo_get: "reg_Get demo_service ''acme'' ''b1'' st = (Inr demo_rec, st)" if "rgMeta st = ([demo_rec], [])"
proof -
  have "ValidateWorkspace ''acme'' = None" "rWorkspace demo_rec = ''acme''" "rID demo_rec = ''b1''" by code_simp+
  with that show ?thesis by (cases st) (simp add: reg_Get_def pg_call_def pgreg_meta_ops_def pgreg_Get_def row_is_def)
qed

lemma demo_open:
  "reg_Open demo_service 6000000 6000000 ''acme'' ''b1'' demo_st1 = (Inr demo_handle, demo_st2\<lparr>rgMeta := ([demo_rec], [])\<rparr>)"
proof -
  have "rHasCredentials demo_rec" "rKind demo_rec = KindS3" "rUpdatedAt demo_rec = 5000000" "trunc_us 6000000 = 6000000" by code_simp+
  moreover have "kube_Get mem_secrets_client (\<lambda>x. x) ''acme'' ''b1'' demo_secrets = (Inr demo_creds, demo_secrets)"
    by (simp add: kube_Get_def demo_secrets_def)
  ultimately show ?thesis using demo_build
    by (simp add: reg_Open_def demo_get kube_cred_ops_def demo_st1_def demo_st2_def)
qed

lemma demo_run2: "reg_run demo_service demo_probe demo_st1 = demo_st2"
proof -
  have "check_handle demo_service demo_handle (demo_st2\<lparr>rgMeta := ([demo_rec], [])\<rparr>) = (None, demo_st2\<lparr>rgMeta := ([demo_rec], [])\<rparr>)"
    by (simp add: check_handle_def demo_methods_handle s3_Check_def demo_st2_def)
  moreover have "rKind demo_rec = KindS3" "rWorkspace demo_rec = ''acme''" "rID demo_rec = ''b1''" by code_simp+
  ultimately show ?thesis
    by (simp add: demo_probe_def reg_TestSaved_def demo_open demo_get demo_probe_ok demo_st2_def pg_call_def pgreg_meta_ops_def
        pgreg_SetCreateOnlyVerified_def pgreg_set_def row_is_def)
qed

lemma demo_kube: "kube_secrets mem_secrets_client mem_secs (\<lambda>x. x) small_names"
  using mem_kube.kube_secrets_axioms unfolding small_names_def [abs_def] .

lemma in_productionI:
  "reg_reach (production_service c sha env methods mkErr) used (\<lambda>s. fst s = [])
     (rgMeta st) (rgCreds st) (rgWorld st) (caches(n := rgCache st)) P \<Longrightarrow> in_production c sha env methods mkErr used st n P"
  unfolding in_production_def by (rule exI [of _ "caches(n := rgCache st)"]) simp

lemma in_production_call:
  assumes "in_production c sha env methods mkErr used st n P" "rgCache st = []"
    and "call_target call = (w, i)" "used w i" "call_clock call = None"
  shows "\<exists>P. in_production c sha env methods mkErr used (reg_run (production_service c sha env methods mkErr) call st) n P"
proof -
  from assms(1) obtain caches where r: "reg_reach (production_service c sha env methods mkErr) used (\<lambda>s. fst s = [])
      (rgMeta st) (rgCreds st) (rgWorld st) caches P" and n: "rgCache st = caches n"
    unfolding in_production_def by blast
  have "st = \<lparr>rgMeta = rgMeta st, rgCreds = rgCreds st, rgCache = caches n, rgWorld = rgWorld st\<rparr>" using n by simp
  moreover have "\<forall>t n' e. call_clock call = Some t \<longrightarrow> map_of (caches n') (key w i) = Some e \<longrightarrow> chUpdatedAt e < t"
    using assms(5) by simp
  ultimately show ?thesis
    using reg_reach.called [OF r assms(3,4), of st n, OF _ _ refl] in_productionI by blast
qed


lemma demo_production:
  "in_production mem_secrets_client (\<lambda>x. x) demo_env demo_methods None small_names demo_st0 0 {}"
  "\<exists>P. in_production mem_secrets_client (\<lambda>x. x) demo_env demo_methods None small_names demo_st1 0 P"
  "\<exists>P. in_production mem_secrets_client (\<lambda>x. x) demo_env demo_methods None small_names demo_st2 0 P"
proof -
  have r0: "reg_reach demo_service small_names (\<lambda>s. fst s = []) ([], []) [] (Dir [], []) (\<lambda>_. []) {}"
    by (rule reg_reach.started) simp
  then show "in_production mem_secrets_client (\<lambda>x. x) demo_env demo_methods None small_names demo_st0 0 {}"
    unfolding in_production_def demo_st0_def by auto
  have u: "small_names ''acme'' ''b1''" by code_simp
  have t: "call_target demo_create = (''acme'', ''b1'')" "call_target demo_probe = (''acme'', ''b1'')" "call_clock demo_probe = None" by code_simp+
  have "\<forall>t n' e. call_clock demo_create = Some t \<longrightarrow> map_of ((\<lambda>_. []) n') (key ''acme'' ''b1'') = Some e \<longrightarrow> chUpdatedAt e < t"
    by simp
  from in_productionI [OF reg_reach.called [OF r0 t(1) u this demo_st0_def demo_run1]]
  show p1: "\<exists>P. in_production mem_secrets_client (\<lambda>x. x) demo_env demo_methods None small_names demo_st1 0 P"
    by (rule exI)
  have "rgCache demo_st1 = []" by simp
  with p1 in_production_call [where used = small_names and call = demo_probe and w = "''acme''" and i = "''b1''"] u t(2,3)
  show "\<exists>P. in_production mem_secrets_client (\<lambda>x. x) demo_env demo_methods None small_names demo_st2 0 P"
    unfolding demo_run2 [symmetric] by blast
qed

end
