(* ===== verification/Registry_Claims.thy ===== *)
theory Registry_Claims
  imports Registry_Example
begin

text \<open>
  The properties of the registry, stated over the production service (records in PostgreSQL
  behind a connection that may fail, credentials in Kubernetes Secrets), with an example of each.
\<close>

section \<open>Configurations\<close>

lemma normalizeConfig_cases:
  assumes "normalizeConfig env k raw w = Inr cfg"
  obtains (s3) c where "k = KindS3" "s3_Validate env c" "cfg = enc_s3 c"
  | (azure) c where "k = KindAzure" "azure_Validate env c" "cfg = enc_azure c"
  | (gcs) c where "k = KindGCS" "gcs_Validate c" "cfg = enc_gcs c"
  | (fs) c where "k = KindFilesystem" "path_Clean (fsRootPath c) = fsRootPath c" "fsRootPath c \<noteq> ''.''"
      "policy_Check (eSymlinks env) (eRoots env) w (fsRootPath c) = None" "cfg = enc_fs c"
proof -
  consider "k = KindS3" | "k = KindAzure" | "k = KindGCS" | "k = KindFilesystem"
    using assms by (auto simp: normalizeConfig_def Let_def split: if_splits)
  then show thesis
  proof cases
    case 4
    then obtain c0 where c0: "path_Clean (fsRootPath c0) \<noteq> ''.''"
      "policy_Check (eSymlinks env) (eRoots env) w (path_Clean (fsRootPath c0)) = None"
      "cfg = enc_fs (c0\<lparr>fsRootPath := path_Clean (fsRootPath c0)\<rparr>)"
      using assms by (auto simp: normalizeConfig_def Let_def split: option.splits if_splits)
    from policy_Check_None [OF c0(2)] have "path_rooted (path_Clean (fsRootPath c0))" by blast
    then have "path_Clean (path_Clean (fsRootPath c0)) = path_Clean (fsRootPath c0)"
      by (simp add: path_rooted_Clean path_Clean_idem)
    with fs [of "c0\<lparr>fsRootPath := path_Clean (fsRootPath c0)\<rparr>"] 4 c0 show thesis by simp
  qed (use assms s3 azure gcs in \<open>auto simp: normalizeConfig_def Let_def split: option.splits if_splits\<close>)
qed

text \<open>
  C25. The canonical configuration is stable: what normalizeConfig returned, once it has
  been through a JSONB column, is accepted again and canonicalises to the same value; the same
  backend is built from it, and it is shown at the same location.  As JSON text it is read back as
  the same value, strictly or not, when the configuration itself came as JSON text.
\<close>

theorem canonical_config_stable:
  assumes "normalizeConfig env k raw w = Inr cfg"
  shows "normalizeConfig env k (Some (jsonb cfg)) w = Inr cfg \<and>
    (\<forall>kvs. buildBackend env k (jsonb cfg) kvs w = buildBackend env k cfg kvs w) \<and> Location k (jsonb cfg) = Location k cfg \<and>
    (\<forall>s. Unmarshal s = raw \<longrightarrow>
       Unmarshal (json_text cfg) = Some cfg \<and> decodeStrict (dec_s3 True) (json_text cfg) = dec_s3 True cfg \<and>
       decodeStrict (dec_azure True) (json_text cfg) = dec_azure True cfg \<and>
       decodeStrict (dec_gcs True) (json_text cfg) = dec_gcs True cfg \<and> decodeStrict (dec_fs True) (json_text cfg) = dec_fs True cfg)"
proof -
  have written: "Unmarshal (json_text cfg) = Some cfg \<and> decodeStrict (dec_s3 True) (json_text cfg) = dec_s3 True cfg \<and>
      decodeStrict (dec_azure True) (json_text cfg) = dec_azure True cfg \<and>
      decodeStrict (dec_gcs True) (json_text cfg) = dec_gcs True cfg \<and> decodeStrict (dec_fs True) (json_text cfg) = dec_fs True cfg"
    if "Unmarshal s = raw" for s
  proof -
    have "fits maxNestingDepth cfg"
      using normalizeConfig_fits [OF assms, of maxNestingDepth] Unmarshal_fits [of s] that by (simp add: maxNestingDepth_def)
    then show ?thesis by (simp add: Unmarshal_written decodeStrict_written)
  qed
  from assms have "normalizeConfig env k (Some (jsonb cfg)) w = Inr cfg \<and>
    (\<forall>kvs. buildBackend env k (jsonb cfg) kvs w = buildBackend env k cfg kvs w) \<and> Location k (jsonb cfg) = Location k cfg"
    by (cases rule: normalizeConfig_cases) (simp_all add: normalizeConfig_def buildBackend_def Location_def Let_def dec_stored)
  with written show ?thesis by blast
qed

lemma canonical_config_stable_witness:
  "\<exists>cfg. normalizeConfig demo_env KindS3 (Unmarshal (json_text demo_config)) ''acme'' = Inr cfg \<and> jsonb cfg = cfg \<and>
     normalizeConfig demo_env KindS3 (Some (jsonb cfg)) ''acme'' = Inr cfg \<and> Unmarshal (json_text cfg) = Some cfg"
proof -
  let ?cfg = "JObj [(''bucket'', JStr ''b1''), (''prefix'', JStr ''team'')]"
  have "fits maxNestingDepth demo_config" by (simp add: demo_config_def maxNestingDepth_def ascii_valid)
  then have d: "Unmarshal (json_text demo_config) = Some demo_config" by (rule Unmarshal_written)
  have n: "normalizeConfig demo_env KindS3 (Some demo_config) ''acme'' = Inr ?cfg" by code_simp
  moreover have "jsonb ?cfg = ?cfg" by code_simp
  ultimately show ?thesis using canonical_config_stable [OF n] d by auto
qed

section \<open>Directories\<close>

lemma buildBackend_fs:
  assumes "buildBackend env KindFilesystem cfg kvs w = Some h"
  shows "\<exists>c :: fs_config. policy_Check (eSymlinks env) (eRoots env) w (fsRootPath c) = None \<and> h = FSHandle (path_Clean (fsRootPath c))"
proof (cases "dec_fs True cfg")
  case (Some c)
  with assms have "policy_Check (eSymlinks env) (eRoots env) w (fsRootPath c) = None \<and> h = FSHandle (path_Clean (fsRootPath c))"
    by (auto simp: buildBackend_def fs_New_def split: if_splits)
  then show ?thesis by blast
qed (use assms in \<open>simp add: buildBackend_def\<close>)

lemma filesystem_root:
  assumes "buildBackend env KindFilesystem cfg kvs w = Some (FSHandle p)"
  shows "\<exists>root \<in> set (eRoots env). prefix (path_segs (allowed_root w root)) (path_segs p) \<and>
    (\<forall>rt ra. resolveExisting (eSymlinks env) p = Some rt \<longrightarrow>
       resolveExisting (eSymlinks env) (allowed_root w root) = Some ra \<longrightarrow> within ra rt)"
proof -
  from assms obtain c :: fs_config where c: "policy_Check (eSymlinks env) (eRoots env) w (fsRootPath c) = None"
    "p = path_Clean (fsRootPath c)" using buildBackend_fs by blast
  from policy_Check_None [OF c(1)] obtain root where root: "path_rooted (fsRootPath c)" "root \<in> set (eRoots env)"
    "within (allowed_root w root) p"
    "\<forall>rt ra. resolveExisting (eSymlinks env) p = Some rt \<longrightarrow>
       resolveExisting (eSymlinks env) (allowed_root w root) = Some ra \<longrightarrow> within ra rt"
    unfolding c(2) by blast
  have p: "path_rooted p" using root(1) c(2) by (simp add: path_rooted_Clean)
  have "path_rooted (allowed_root w root)"
  proof (rule ccontr)
    assume "\<not> path_rooted (allowed_root w root)"
    with p have "path_Rel (allowed_root w root) p = None \<or> path_Clean (allowed_root w root) = path_Clean p"
      by (auto simp: path_Rel_def Let_def)
    with root(3) have "path_Clean (allowed_root w root) = path_Clean p" by (auto simp: within_def)
    with \<open>\<not> path_rooted (allowed_root w root)\<close> p show False using path_rooted_Clean by metis
  qed
  with within_rooted [OF _ p] root show ?thesis by blast
qed

text \<open>
  C5. A filesystem backend is only ever opened inside a directory the operator allows for that
  workspace: its root lies at or below an allowed root with the workspace's name filled in, and
  stays there when symbolic links are resolved as far as the paths exist.
\<close>

theorem filesystem_confined:
  assumes "buildBackend env KindFilesystem cfg kvs w = Some (FSHandle p)"
  shows "\<exists>root \<in> set (eRoots env). prefix (path_segs (allowed_root w root)) (path_segs p) \<and>
    (\<forall>rt ra. resolveExisting (eSymlinks env) p = Some rt \<longrightarrow>
       resolveExisting (eSymlinks env) (allowed_root w root) = Some ra \<longrightarrow> within ra rt)"
  using assms by (rule filesystem_root)

lemma filesystem_confined_witness:
  "path_segs (allowed_root ''acme'' ''/data/{workspace}'') = [''data'', ''acme''] \<and>
     prefix (path_segs (allowed_root ''acme'' ''/data/{workspace}'')) (path_segs ''/data/acme/x'')"
proof -
  have "buildBackend demo_env KindFilesystem (JObj [(''rootPath'', JStr ''/data/acme/../acme/x'')]) [] ''acme'' = Some (FSHandle ''/data/acme/x'')"
    by code_simp
  moreover have "eRoots demo_env = [''/data/{workspace}'']" by (simp add: demo_env_def)
  ultimately have "prefix (path_segs (allowed_root ''acme'' ''/data/{workspace}'')) (path_segs ''/data/acme/x'')"
    using filesystem_confined by fastforce
  moreover have "path_segs (allowed_root ''acme'' ''/data/{workspace}'') = [''data'', ''acme'']" by code_simp
  ultimately show ?thesis by blast
qed

lemma replace_all_old: "old \<noteq> [] \<Longrightarrow> replace_all old new old = new"
  by (simp add: replace_all.simps [of old new old] replace_all.simps [of old new "[]"])

lemma replace_all_absent: "\<not> sublist old s \<Longrightarrow> replace_all old new s = s"
proof (induction s)
  case Nil
  then show ?case by (simp add: replace_all.simps)
next
  case (Cons x s)
  then have "\<not> prefix old (x # s)" using prefix_imp_sublist by blast
  moreover have "\<not> sublist old s" using Cons.prems by (metis append_Cons sublist_def)
  ultimately show ?case using Cons.IH by (simp add: replace_all.simps [of old new "x # s"])
qed

lemma prefix_before_slash:
  assumes s: "slash \<notin> set old"
  shows "prefix old (a @ slash # b) \<longleftrightarrow> prefix old a"
proof
  assume p: "prefix old (a @ slash # b)"
  show "prefix old a"
  proof (cases "length old \<le> length a")
    case True
    with p show ?thesis by (meson prefix_length_prefix prefixI)
  next
    case False
    with p have "prefix (a @ [slash]) old" by (intro prefix_length_prefix [OF _ p]) (auto simp: prefix_def)
    then have "slash \<in> set old" by (auto simp: prefix_def)
    with s show ?thesis by blast
  qed
qed (auto simp: prefix_def)

lemma replace_all_slash:
  assumes "slash \<notin> set old"
  shows "replace_all old new (a @ slash # b) = replace_all old new a @ slash # replace_all old new b"
proof (induction a rule: length_induct)
  case (1 a)
  show ?case
  proof (cases "old = []")
    case ne: False
    show ?thesis
    proof (cases "prefix old a")
      case True
      then obtain r where a: "a = old @ r" by (auto simp: prefix_def)
      with ne 1 have "replace_all old new (r @ slash # b) = replace_all old new r @ slash # replace_all old new b" by simp
      then show ?thesis unfolding a using ne
        by (simp add: replace_all.simps [of old new "old @ r @ slash # b"] replace_all.simps [of old new "old @ r"])
    next
      case False
      then have np: "\<not> prefix old (a @ slash # b)" using prefix_before_slash [OF assms] by simp
      show ?thesis
      proof (cases a)
        case Nil
        with np ne show ?thesis by (simp add: replace_all.simps [of old new "slash # b"] replace_all.simps [of old new "[]"])
      next
        case (Cons x r)
        with 1 have "replace_all old new (r @ slash # b) = replace_all old new r @ slash # replace_all old new b" by simp
        with np ne False Cons show ?thesis
          by (simp add: replace_all.simps [of old new "x # r @ slash # b"] replace_all.simps [of old new "x # r"])
      qed
    qed
  qed (simp add: replace_all.simps)
qed

lemma clean_segs_Nil: "clean_segs r acc (ss @ [[]]) = clean_segs r acc ss"
  by (induction r acc ss rule: clean_segs.induct) (auto split: list.splits)

lemma clean_segs_snoc: "clean_seg s \<Longrightarrow> s \<noteq> dotdot \<Longrightarrow> clean_segs r acc (ss @ [s]) = clean_segs r acc ss @ [s]"
  by (induction r acc ss rule: clean_segs.induct) (auto simp: clean_seg_def split: list.splits)

lemma slug_clean: "ValidateWorkspace w = None \<Longrightarrow> clean_seg w \<and> w \<noteq> dotdot"
  using ValidateWorkspace_None [of w] by (auto simp: clean_seg_def dotdot_def is_slug_def is_alnum_def is_lower_def is_digit_def)

lemma allowed_root_segs:
  assumes "\<not> sublist WorkspacePlaceholder d" "d = [] \<or> path_rooted d" "ValidateWorkspace w = None"
  shows "path_segs (allowed_root w (d @ slash # WorkspacePlaceholder)) = path_segs (d @ ''/'') @ [w]"
proof -
  have "slash \<notin> set WorkspacePlaceholder" "WorkspacePlaceholder \<noteq> []" by (simp_all add: WorkspacePlaceholder_def)
  then have r: "replace_all WorkspacePlaceholder w (d @ slash # WorkspacePlaceholder) = d @ slash # w"
    using assms(1) by (simp add: replace_all_slash replace_all_old replace_all_absent)
  have rooted: "path_rooted (d @ slash # w)" "path_rooted (d @ ''/'')" using assms(2) by (auto simp: path_rooted_def prefix_def)
  have w: "clean_seg w" "w \<noteq> dotdot" "slash \<notin> set w" using slug_clean [OF assms(3)] by (simp_all add: clean_seg_def)
  have "path_segs (d @ slash # w) = clean_segs True [] (split_on slash d @ [w])"
    using rooted(1) w(3) by (simp add: path_segs_def split_on_append_sep split_on_no_sep)
  also have "\<dots> = clean_segs True [] (split_on slash d) @ [w]" by (rule clean_segs_snoc [OF w(1,2)])
  also have "clean_segs True [] (split_on slash d) = path_segs (d @ ''/'')"
    using rooted(2) by (simp add: path_segs_def split_on_append_sep clean_segs_Nil)
  finally show ?thesis using path_segs_Clean [OF rooted(1)] by (simp add: allowed_root_def r)
qed



section \<open>The registry in production\<close>

context kube_secrets begin

lemma held_secret: "used w i \<Longrightarrow> kube_held (rgCreds st) w i = stored_secret secs sha st w i"
  by (simp add: kube_held_def stored_secret_def)

lemma prod_state:
  assumes "in_production c sha env methods mkErr used st n P"
  shows "pgreg_ok (fst (rgMeta st))" and "record_ok env jsonb P w i (stored_rec st w i)"
    and "production.cache_fresh env methods mkErr st"
proof -
  from assms obtain caches where r: "reg_reach (production_service c sha env methods mkErr) used (\<lambda>s. fst s = [])
      (rgMeta st) (rgCreds st) (rgWorld st) caches P" and n: "rgCache st = caches n"
    unfolding in_production_def by blast
  have "pgreg_ok (fst m) \<and> (\<forall>w i. pgreg_view (fst m) w i = None)" if "fst m = []" for m :: pg_state
    using that by (simp add: pgreg_ok_def pgreg_view_def)
  note D = production.reach_deployed [OF r this, unfolded production.deployed_def service_sel]
  from D show "pgreg_ok (fst (rgMeta st))" by blast
  from D show "record_ok env jsonb P w i (stored_rec st w i)" by (simp add: stored_rec_def)
  from D have "production.cache_fresh env methods mkErr \<lparr>rgMeta = rgMeta st, rgCreds = rgCreds st, rgCache = caches n, rgWorld = rgWorld st\<rparr>"
    by blast
  from production.cache_fresh_indep [OF this] n show "production.cache_fresh env methods mkErr st" by simp
qed

lemma prod_effect:
  assumes "in_production c sha env methods mkErr used st n P" "call_target call = (w, i)" "used w i"
  shows "production.effect env methods mkErr w i (call_clock call) (call_probe (production_service c sha env methods mkErr) call st)
    st (reg_run (production_service c sha env methods mkErr) call st)"
  using production.run_effect [OF assms(2,3) prod_state(1,3) [OF assms(1)]] by blast

lemma prod_open:
  assumes "in_production c sha env methods mkErr used st n P" "used w i"
    and "reg_Open (production_service c sha env methods mkErr) now later w i st = (Inr h, st')"
  shows "\<exists>r kvs. stored_rec st w i = Some r \<and> buildBackend env (rKind r) (rConfig r) kvs w = Some h"
proof -
  from production.open_spec [OF assms(2) prod_state(1) [OF assms(1)] assms(3)]
  obtain r c where r: "ValidateWorkspace w = None" "stored_rec st w i = Some r"
    "(\<exists>kvs. buildBackend env (rKind r) (rConfig r) kvs w = Some h) \<or>
     map_of (rgCache st) (key w i) = Some c \<and> chUpdatedAt c = rUpdatedAt r \<and> chBackend c = h"
    unfolding stored_rec_def service_sel by blast
  with prod_state(3) [OF assms(1)] show ?thesis
    unfolding production.cache_fresh_def stored_rec_def service_sel by blast
qed

lemma prod_create_taken:
  assumes "in_production c sha env methods mkErr used st n P" "stored_rec st w (ciID inp) = Some r"
    and "reg_Create (production_service c sha env methods mkErr) now w actor inp st = (x, st')"
  shows "isl x \<and> (\<forall>w' i'. stored_rec st' w' i' = stored_rec st w' i') \<and> rgCreds st' = rgCreds st \<and> rgCache st' = rgCache st"
  using production.create_taken_spec [OF prod_state(1) [OF assms(1)] assms(2) [unfolded stored_rec_def] assms(3)]
  by (simp add: stored_rec_def)

lemma prod_update:
  assumes "in_production c sha env methods mkErr used st n P" "used w i"
    and "reg_Update (production_service c sha env methods mkErr) now w i inp st = (Inr r', st')"
  shows "\<exists>r0 r. stored_rec st w i = Some r0 \<and> stored_rec st' w i = Some r \<and> rKind r = rKind r0 \<and> rUpdatedAt r0 < rUpdatedAt r \<and>
    (if uiConfig inp = None then rConfig r = rConfig r0 \<and> rCreateOnlyVerified r = rCreateOnlyVerified r0
     else (\<exists>cfg. normalizeConfig env (rKind r0) (uiConfig inp) w = Inr cfg \<and> rConfig r = jsonb cfg) \<and> \<not> rCreateOnlyVerified r) \<and>
    stored_secret secs sha st' w i = (case uiCredentials inp of None \<Rightarrow> stored_secret secs sha st w i
      | Some kvs \<Rightarrow> if kvs = [] then None else Some (map_of kvs))"
  using production.update_exact [OF assms(2) prod_state(1) [OF assms(1)] assms(3)]
  unfolding stored_rec_def held_secret [OF assms(2)] service_sel .

lemma prod_tests:
  assumes "in_production c sha env methods mkErr used st n P" "used w i"
    and call: "call = CallTest w ci \<or> call = CallTestUpdate now w i ui"
    and run: "reg_run (production_service c sha env methods mkErr) call st = st'"
  shows "stored_rec st' = stored_rec st \<and> (\<forall>w' i'. used w' i' \<longrightarrow> stored_secret secs sha st' w' i' = stored_secret secs sha st w' i') \<and>
    rgCache st' = rgCache st \<and>
    (rgWorld st' = rgWorld st \<or> (\<exists>h e. bCheck (methods h) (rgWorld st) = (e, rgWorld st')))"
proof -
  note ok = prod_state(1) [OF assms(1)]
  have same: "production.same_regs st st' \<and> rgCache st' = rgCache st"
    using call run production.test_same [OF ok prod.collapse [symmetric], of env methods mkErr w ci]
      production.test_update_same [OF assms(2) ok prod.collapse [symmetric], of env methods mkErr now ui] by auto
  then have "pgreg_view (fst (rgMeta st')) = pgreg_view (fst (rgMeta st))" "kube_held (rgCreds st') = kube_held (rgCreds st)"
    by (simp_all add: production.same_regs_def production.same_recs_def)
  then have "stored_rec st' = stored_rec st" "used w' i' \<Longrightarrow> stored_secret secs sha st' w' i' = stored_secret secs sha st w' i'" for w' i'
    using held_secret [of w' i' st] held_secret [of w' i' st'] by (simp_all add: stored_rec_def fun_eq_iff)
  with same production.tests_look [OF assms(2) ok run call] show ?thesis by simp
qed

lemma prod_isolation:
  assumes "in_production c sha env methods mkErr used st n P"
    and "call_target call = (w, i)" "used w i" "used w' i'" "(w', i') \<noteq> (w, i)"
  shows "stored_rec (reg_run (production_service c sha env methods mkErr) call st) w' i' = stored_rec st w' i' \<and>
    stored_secret secs sha (reg_run (production_service c sha env methods mkErr) call st) w' i' = stored_secret secs sha st w' i'"
proof -
  let ?st = "reg_run (production_service c sha env methods mkErr) call st"
  have "pgreg_view (fst (rgMeta ?st)) w' i' = pgreg_view (fst (rgMeta st)) w' i' \<and> kube_held (rgCreds ?st) w' i' = kube_held (rgCreds st) w' i'"
    using prod_effect [OF assms(1-3)] assms(5) unfolding production.effect_def by blast
  then show ?thesis unfolding held_secret [OF assms(4)] stored_rec_def .
qed

end

text \<open>
  C8. A call for one backend leaves every other backend alone, those of other workspaces above
  all: whatever it does and however the stores fail, the other backend's record and stored
  credentials are what they were.
\<close>

theorem registry_isolation:
  assumes "kube_secrets c secs sha used" "in_production c sha env methods mkErr used st n P"
    and "call_target call = (w, i)" "used w i" "used w' i'" "(w', i') \<noteq> (w, i)"
  shows "stored_rec (reg_run (production_service c sha env methods mkErr) call st) w' i' = stored_rec st w' i' \<and>
    stored_secret secs sha (reg_run (production_service c sha env methods mkErr) call st) w' i' = stored_secret secs sha st w' i'"
  using kube_secrets.prod_isolation [OF assms] .

lemma registry_isolation_witness:
  "stored_rec (reg_run demo_service (CallDelete ''acme'' ''b2'') demo_st1) ''acme'' ''b1'' = Some demo_rec \<and>
     stored_secret mem_secs (\<lambda>x. x) (reg_run demo_service (CallDelete ''beta'' ''b1'') demo_st1) ''acme'' ''b1'' =
       stored_secret mem_secs (\<lambda>x. x) demo_st1 ''acme'' ''b1''"
proof -
  obtain P where P: "in_production mem_secrets_client (\<lambda>x. x) demo_env demo_methods None small_names demo_st1 0 P"
    using demo_production(2) by blast
  have u: "small_names ''acme'' ''b1''" "small_names ''acme'' ''b2''" "small_names ''beta'' ''b1''" by code_simp+
  have "rWorkspace demo_rec = ''acme''" "rID demo_rec = ''b1''" by code_simp+
  then have "stored_rec demo_st1 ''acme'' ''b1'' = Some demo_rec" by (simp add: stored_rec_def pgreg_view_def row_is_def)
  with registry_isolation [OF demo_kube P _ u(2) u(1), of "CallDelete ''acme'' ''b2''"]
    registry_isolation [OF demo_kube P _ u(3) u(1), of "CallDelete ''beta'' ''b1''"]
  show ?thesis by simp
qed



text \<open>
  C23. What Open returns is a client for the configuration stored now, cached or not: the
  cache never serves a client built from an earlier version of the record, whichever replica
  made the change.
\<close>

theorem open_serves_current:
  assumes "kube_secrets c secs sha used" "in_production c sha env methods mkErr used st n P" "used w i"
    and "reg_Open (production_service c sha env methods mkErr) now later w i st = (Inr h, st')"
  shows "\<exists>r kvs. stored_rec st w i = Some r \<and> buildBackend env (rKind r) (rConfig r) kvs w = Some h"
  using kube_secrets.prod_open [OF assms] .

lemma open_serves_current_witness:
  "\<exists>st'. reg_Open demo_service 6000000 6000000 ''acme'' ''b1'' demo_st1 = (Inr demo_handle, st') \<and>
     (\<exists>r kvs. stored_rec demo_st1 ''acme'' ''b1'' = Some r \<and> buildBackend demo_env (rKind r) (rConfig r) kvs ''acme'' = Some demo_handle)"
proof -
  obtain P where P: "in_production mem_secrets_client (\<lambda>x. x) demo_env demo_methods None small_names demo_st1 0 P"
    using demo_production(2) by blast
  have "small_names ''acme'' ''b1''" by code_simp
  from open_serves_current [OF demo_kube P this demo_open] demo_open show ?thesis by blast
qed

text \<open>
  C26. Every stored record is well formed: its workspace and id are valid slugs, it is filed
  under them, and its configuration is one that normalizeConfig accepted for its kind.
\<close>

theorem stored_records_valid:
  assumes "kube_secrets c secs sha used" "in_production c sha env methods mkErr used st n P" "stored_rec st w i = Some r"
  shows "ValidateWorkspace w = None \<and> ValidateID i = None \<and> rWorkspace r = w \<and> rID r = i \<and>
    (\<exists>raw cfg. normalizeConfig env (rKind r) raw w = Inr cfg \<and> rConfig r = jsonb cfg)"
  using kube_secrets.prod_state(2) [OF assms(1,2), of w i] assms(3) by (auto simp: record_ok_def)

lemma stored_records_valid_witness:
  "\<exists>raw cfg. normalizeConfig demo_env (rKind demo_rec) raw ''acme'' = Inr cfg \<and> rConfig demo_rec = jsonb cfg"
proof -
  obtain P where P: "in_production mem_secrets_client (\<lambda>x. x) demo_env demo_methods None small_names demo_st1 0 P"
    using demo_production(2) by blast
  have "rWorkspace demo_rec = ''acme''" "rID demo_rec = ''b1''" by code_simp+
  then have "stored_rec demo_st1 ''acme'' ''b1'' = Some demo_rec" by (simp add: stored_rec_def pgreg_view_def row_is_def)
  from stored_records_valid [OF demo_kube P this] show ?thesis by blast
qed

text \<open>
  Registering an id that is taken is refused and leaves the registration alone: its record,
  every other record and every stored credential are what they were (the id is reserved before
  the credentials are written).
\<close>

theorem create_keeps_registered:
  assumes "kube_secrets c secs sha used" "in_production c sha env methods mkErr used st n P"
    and "stored_rec st w (ciID inp) = Some r"
    and "reg_Create (production_service c sha env methods mkErr) now w actor inp st = (x, st')"
  shows "isl x \<and> (\<forall>w' i'. stored_rec st' w' i' = stored_rec st w' i') \<and> rgCreds st' = rgCreds st \<and> rgCache st' = rgCache st"
  using kube_secrets.prod_create_taken [OF assms] .

lemma create_keeps_registered_witness:
  "\<exists>e st'. reg_Create demo_service 9000000 ''acme'' ''eve'' demo_input demo_st1 = (Inl e, st') \<and>
     stored_rec st' ''acme'' ''b1'' = Some demo_rec \<and> rgCreds st' = demo_secrets"
proof -
  obtain P where P: "in_production mem_secrets_client (\<lambda>x. x) demo_env demo_methods None small_names demo_st1 0 P"
    using demo_production(2) by blast
  have "rWorkspace demo_rec = ''acme''" "rID demo_rec = ''b1''" "ciID demo_input = ''b1''" by code_simp+
  then have rec: "stored_rec demo_st1 ''acme'' (ciID demo_input) = Some demo_rec" "ciID demo_input = ''b1''"
    by (simp_all add: stored_rec_def pgreg_view_def row_is_def)
  obtain x st' where call: "reg_Create demo_service 9000000 ''acme'' ''eve'' demo_input demo_st1 = (x, st')" by fastforce
  from create_keeps_registered [OF demo_kube P rec(1) call] rec call show ?thesis by (cases x) auto
qed

text \<open>
  Testing saves nothing: testing a specification, or what an update would produce, leaves
  every record, all stored credentials and the cache as they were, and touches the disk and the
  services with one Check at most.
\<close>

theorem tests_save_nothing:
  assumes "kube_secrets c secs sha used" "in_production c sha env methods mkErr used st n P" "used w i"
    and "call = CallTest w ci \<or> call = CallTestUpdate now w i ui"
    and "reg_run (production_service c sha env methods mkErr) call st = st'"
  shows "stored_rec st' = stored_rec st \<and> (\<forall>w' i'. used w' i' \<longrightarrow> stored_secret secs sha st' w' i' = stored_secret secs sha st w' i') \<and>
    rgCache st' = rgCache st \<and>
    (rgWorld st' = rgWorld st \<or> (\<exists>h e. bCheck (methods h) (rgWorld st) = (e, rgWorld st')))"
  using kube_secrets.prod_tests [OF assms] .

lemma tests_save_nothing_witness:
  "stored_rec (reg_run demo_service (CallTest ''acme'' demo_input) demo_st1) = stored_rec demo_st1"
proof -
  obtain P where P: "in_production mem_secrets_client (\<lambda>x. x) demo_env demo_methods None small_names demo_st1 0 P"
    using demo_production(2) by blast
  have "small_names ''acme'' ''b1''" by code_simp
  from tests_save_nothing [OF demo_kube P this _ refl, of "CallTest ''acme'' demo_input" demo_input] show ?thesis by blast
qed


definition demo_update :: update_input where
  "demo_update = \<lparr>uiDisplayName = None, uiConfig = None, uiCredentials = Some []\<rparr>"

lemma demo_update_ok: "\<exists>r st'. reg_Update demo_service 5000000 ''acme'' ''b1'' demo_update demo_st1 = (Inr r, st')"
proof -
  have build: "buildBackend demo_env KindS3 (rConfig demo_rec) [] ''acme'' \<noteq> None" by code_simp
  have "rKind demo_rec = KindS3" "rWorkspace demo_rec = ''acme''" "rID demo_rec = ''b1''" by code_simp+
  moreover have "validateCredentials demo_env KindS3 [] = None" by (simp add: validateCredentials_def cred_def)
  ultimately show ?thesis using build
    by (auto simp: reg_Update_def prepareUpdate_def demo_get update_record_def update_creds_def demo_update_def create_root_def
        update_secrets_def kube_cred_ops_def kube_Delete_def demo_secrets_def kwrap_def pg_call_def pgreg_meta_ops_def
        pgreg_Update_def pgreg_set_def row_is_def)
qed


end
