(* ===== verification/Registry_Race.thy ===== *)
theory Registry_Race
  imports Registry_Claims
begin

text \<open>
  \<^verbatim>\<open>Service.TestSaved\<close> of \<^verbatim>\<open>internal/registry/service.go\<close> is not atomic: it probes the server first and
  records the verdict afterwards, by workspace and id only.  The two halves are separated here, and
  an update that comes between them is shown to inherit the verdict on the old configuration.
\<close>

definition TestSaved_probe ::
    "('m, 'c, 'w) svc \<Rightarrow> int \<Rightarrow> int \<Rightarrow> string option \<Rightarrow> string \<Rightarrow> string \<Rightarrow> ('m, 'c, 'w) regst \<Rightarrow>
     (rerr + bool option) \<times> ('m, 'c, 'w) regst" where
  "TestSaved_probe sv now later rnd w i st =
     (case reg_Open sv now later w i st of
        (Inl e, st1) \<Rightarrow> (Inl e, st1)
      | (Inr h, st1) \<Rightarrow>
     (case check_handle sv h st1 of
        (Some e, st2) \<Rightarrow> (Inl e, st2)
      | (None, st2) \<Rightarrow>
     (case reg_Get sv w i st2 of
        (Inl e, st3) \<Rightarrow> (Inl e, st3)
      | (Inr r, st3) \<Rightarrow>
          if rKind r = KindS3 then
            (case probeCreateOnly (svMethods sv h) rnd (rgWorld st3) of (perr, wd) \<Rightarrow> (Inr (Some (perr = None)), st3\<lparr>rgWorld := wd\<rparr>))
          else (Inr None, st3))))"

definition TestSaved_record ::
    "('m, 'c, 'w) svc \<Rightarrow> string \<Rightarrow> string \<Rightarrow> (rerr + bool option) \<Rightarrow> ('m, 'c, 'w) regst \<Rightarrow> rerr option \<times> ('m, 'c, 'w) regst" where
  "TestSaved_record sv w i verdict st =
     (case verdict of
        Inl e \<Rightarrow> (Some e, st)
      | Inr None \<Rightarrow> (None, st)
      | Inr (Some verified) \<Rightarrow>
          (case mSetCreateOnlyVerified (svMeta sv) w i verified (rgMeta st) of (serr, m) \<Rightarrow> (None, st\<lparr>rgMeta := m\<rparr>)))"

text \<open>With nothing in between, the two halves are the call.\<close>

lemma TestSaved_halves:
  "reg_TestSaved sv now later rnd w i st =
     (case TestSaved_probe sv now later rnd w i st of (verdict, st1) \<Rightarrow> TestSaved_record sv w i verdict st1)"
  by (simp add: reg_TestSaved_def TestSaved_probe_def TestSaved_record_def split: prod.split sum.split option.split)

definition demo_rebucket :: update_input where
  "demo_rebucket = \<lparr>uiDisplayName = None, uiConfig = Some (JObj [(''bucket'', JStr ''other'')]), uiCredentials = None\<rparr>"

definition demo_probed :: "(pg_state, mem_secrets, bucket) regst" where
  "demo_probed = demo_st2\<lparr>rgMeta := ([demo_rec], [])\<rparr>"

lemma demo_probe_first:
  "TestSaved_probe demo_service 6000000 6000000 (Some ''00ff'') ''acme'' ''b1'' demo_st1 = (Inr (Some True), demo_probed)"
proof -
  have "check_handle demo_service demo_handle demo_probed = (None, demo_probed)"
    by (simp add: check_handle_def demo_methods_handle s3_Check_def demo_st2_def demo_probed_def)
  moreover have "rKind demo_rec = KindS3" "rgMeta demo_probed = ([demo_rec], [])" by (code_simp, simp add: demo_probed_def)
  ultimately show ?thesis
    by (simp add: TestSaved_probe_def demo_open demo_probed_def [symmetric] demo_get demo_probe_ok)
      (simp add: demo_probed_def demo_st2_def demo_probe_ok)
qed

text \<open>
  The server of bucket \<open>other\<close> was never probed, and yet create-only writes are sent to it: the update
  reset the flag, and the verdict on bucket \<open>b1\<close> set it again.
\<close>

theorem late_verdict_marks_new_config:
  "\<exists>r st2 st3 rec. TestSaved_probe demo_service 6000000 6000000 (Some ''00ff'') ''acme'' ''b1'' demo_st1 = (Inr (Some True), demo_probed) \<and>
     reg_Update demo_service 7000000 ''acme'' ''b1'' demo_rebucket demo_probed = (Inr r, st2) \<and> \<not> SupportsCreateOnly r \<and>
     TestSaved_record demo_service ''acme'' ''b1'' (Inr (Some True)) st2 = (None, st3) \<and>
     stored_rec st3 ''acme'' ''b1'' = Some rec \<and> SupportsCreateOnly rec \<and> rConfig rec = JObj [(''bucket'', JStr ''other'')]"
proof -
  let ?cfg = "JObj [(''bucket'', JStr ''other'')]"
  have n: "normalizeConfig demo_env KindS3 (Some ?cfg) ''acme'' = Inr ?cfg" by code_simp
  have build: "buildBackend demo_env KindS3 ?cfg demo_creds ''acme'' \<noteq> None" by code_simp
  have r: "rKind demo_rec = KindS3" "rWorkspace demo_rec = ''acme''" "rID demo_rec = ''b1''" "rHasCredentials demo_rec" "jsonb ?cfg = ?cfg"
    by code_simp+
  have get: "kube_Get mem_secrets_client (\<lambda>x. x) ''acme'' ''b1'' demo_secrets = (Inr demo_creds, demo_secrets)"
    by (simp add: kube_Get_def demo_secrets_def)
  have st: "rgMeta demo_probed = ([demo_rec], [])" "rgCreds demo_probed = demo_secrets" by (simp_all add: demo_probed_def demo_st2_def)
  show ?thesis
    using build [unfolded KindS3_def]
    by (auto simp: demo_probe_first reg_Update_def prepareUpdate_def demo_get st update_record_def n [unfolded KindS3_def] r update_creds_def
        demo_rebucket_def create_root_def update_secrets_def kube_cred_ops_def get kwrap_def pg_call_def pgreg_meta_ops_def TestSaved_record_def
        pgreg_Update_def pgreg_set_def pgreg_rec_def mutable_fields_def row_is_def pgreg_SetCreateOnlyVerified_def SupportsCreateOnly_def
        stored_rec_def pgreg_view_def invalidate_def)
qed

end
