(* ===== verification/Api_Server.thy ===== *)
theory Api_Server
  imports Auth Upload_Grants Http_Range Registry_Service
begin

text \<open>
  \<^verbatim>\<open>internal/api/server.go\<close>: the routes and their tiers, every handler, and the mapping of errors
  to statuses.  Parameters: chi's route matching (\<open>dpRoute\<close>), the credential-broker route, Go's
  \<^verbatim>\<open>mime\<close> package and time format.  A request's clock readings and random bytes come in a \<open>tick\<close>.  A handler yields \<^const>\<open>None\<close> where a backend's folder operation
  does not return.  Error and log texts are not modelled; a publisher's own failure is only logged.
\<close>

section \<open>What the layer is made of\<close>

datatype route =
    RtHealthz | RtLivez | RtBroker
  | RtKinds | RtListBackends | RtGetBackend string | RtListObjects string | RtReadObject string | RtStatObject string
  | RtWriteObject string
  | RtDeleteObject string | RtCreateFolder string | RtDeleteFolder string | RtMove string
  | RtAdminList | RtAdminCreate | RtAdminGet string | RtAdminUpdate string | RtAdminDelete string
  | RtAdminTestSaved string | RtAdminTestNew
  | RtListGrants | RtCreateGrant | RtDeleteGrant string
  | RtRevokePrincipal

record summary =
  smID :: string
  smDisplayName :: string
  smKind :: kind
  smLocation :: string
  smCreatedAt :: int
  smUpdatedAt :: int

record admin_backend =
  abSummary :: summary
  abConfig :: json
  abCredentialsSet :: bool
  abCreatedBy :: string
  abCreateOnlySupported :: bool

datatype api_body =
    JHealth bool
  | JKinds "kind list" bool
  | JSummaries "summary list" | JSummary summary
  | JListing list_result | JInfo object_info | Content string
  | JPath string | JDeleted nat | JMoved string string bool
  | JAdmins "admin_backend list" | JAdmin admin_backend
  | JTest bool
  | JGrants "grant list" | JGrant grant | JRevoked nat "grant list"
  | JOther string

type_synonym resp = "api_body response"

record event =
  evWorkspace :: string
  evType :: string
  evBackendId :: string
  evPath :: string
  evSize :: int
  evPrincipal :: string
  evVia :: string

record ('m, 'c, 'w, 'g) apist =
  apReg :: "('m, 'c, 'w) regst"
  apGrants :: 'g
  apEvents :: "event list"

record tick =
  tkNow :: int
  tkLater :: int
  tkRnd :: "string option"
  tkUuid :: "string option"

record ('m, 'c, 'w, 'g) deps =
  dpVerify :: "string \<Rightarrow> claims option"
  dpRegistry :: "('m, 'c, 'w) svc"
  dpGrants :: "'g grant_ops"
  dpMaxUploadBytes :: int
  dpRoute :: "request \<Rightarrow> route option"
  dpBroker :: "request \<Rightarrow> ('m, 'c, 'w, 'g) apist \<Rightarrow> resp \<times> ('m, 'c, 'w, 'g) apist"
  dpParseMediaType :: "string \<Rightarrow> (string \<times> (string \<times> string) list) option"
  dpFormatMediaType :: "string \<Rightarrow> (string \<times> string) list \<Rightarrow> string"
  dpHttpTime :: "int \<Rightarrow> string"

section \<open>Views and errors\<close>

definition summarize :: "backend_rec \<Rightarrow> summary" where
  "summarize r =
     \<lparr>smID = rID r, smDisplayName = rDisplayName r, smKind = rKind r, smLocation = Location (rKind r) (rConfig r),
      smCreatedAt = rCreatedAt r, smUpdatedAt = rUpdatedAt r\<rparr>"

definition adminView :: "backend_rec \<Rightarrow> admin_backend" where
  "adminView r =
     \<lparr>abSummary = summarize r, abConfig = rConfig r, abCredentialsSet = rHasCredentials r, abCreatedBy = rCreatedBy r,
      abCreateOnlySupported = SupportsCreateOnly r\<rparr>"

definition fieldError :: "nat \<Rightarrow> string \<Rightarrow> resp" where
  "fieldError status f =
     \<lparr>rsStatus = status, rsHeaders = [(''Content-Type'', ''application/json'')],
      rsBody = ErrBody (if f = [] then None else Some f)\<rparr>"

definition writeRegistryError :: "rerr \<Rightarrow> resp" where
  "writeRegistryError e =
     (case e of
        RValidation f \<Rightarrow> fieldError 422 f
      | RNotFound \<Rightarrow> WriteError 404
      | RExists \<Rightarrow> WriteError 409
      | _ \<Rightarrow> WriteError 502)"

definition writeGrantError :: "gerr \<Rightarrow> resp" where
  "writeGrantError e =
     (case e of GValidation f \<Rightarrow> fieldError 422 f | GNotFound \<Rightarrow> WriteError 404 | GOther _ \<Rightarrow> WriteError 502)"

definition writeBackendError :: "berr \<Rightarrow> resp" where
  "writeBackendError e =
     (case e of
        ErrNotFound \<Rightarrow> WriteError 404
      | ErrInvalidPath \<Rightarrow> WriteError 400
      | ErrConflict \<Rightarrow> WriteError 409
      | ErrPreconditionFailed \<Rightarrow> WriteError 412
      | ErrInvalidRange \<Rightarrow> WriteError 416
      | ErrCanceled \<Rightarrow> writeHeader 499
      | ErrTooBig \<Rightarrow> WriteError 502
      | ErrOther _ \<Rightarrow> WriteError 502)"

definition writeTestResult :: "rerr option \<Rightarrow> resp" where
  "writeTestResult e =
     (case e of
        None \<Rightarrow> writeJSON 200 (JTest True)
      | Some RNotFound \<Rightarrow> writeRegistryError RNotFound
      | Some (RValidation f) \<Rightarrow> writeRegistryError (RValidation f)
      | Some _ \<Rightarrow> writeJSON 200 (JTest False))"

section \<open>Request bodies\<close>

definition maxJSONBody :: int where "maxJSONBody = 256 * 1024"

definition decodeBody :: "(json \<Rightarrow> 'a option) \<Rightarrow> request \<Rightarrow> resp + 'a" where
  "decodeBody dec r =
     (case Decode (MaxBytesReader maxJSONBody (rqBody r)) of
        Inl e \<Rightarrow> Inl (if e = ErrTooBig then WriteError 413 else WriteError 400)
      | Inr j \<Rightarrow> (case dec j of None \<Rightarrow> Inl (WriteError 400) | Some x \<Rightarrow> Inr x))"

definition upd_map :: "creds option \<Rightarrow> json \<Rightarrow> creds option option" where
  "upd_map acc j =
     (case j of
        JNull \<Rightarrow> Some None
      | JObj kvs \<Rightarrow>
          map_option (\<lambda>es. Some (AList.clearjunk (rev es @ (case acc of None \<Rightarrow> [] | Some m \<Rightarrow> m)))) (dec_str_entries kvs)
      | _ \<Rightarrow> None)"

definition dec_createRequest :: "json \<Rightarrow> create_input option" where
  "dec_createRequest j =
     (case struct_fields True [''id'', ''displayName'', ''kind'', ''config'', ''credentials''] j of
        None \<Rightarrow> None
      | Some fs \<Rightarrow>
          (case (decode_field dec_str ''id'' [] fs, decode_field dec_str ''displayName'' [] fs, decode_field dec_str ''kind'' [] fs,
                 fold_field upd_raw ''config'' None fs, fold_field upd_map ''credentials'' None fs) of
             (Some i, Some n, Some k, Some c, Some m) \<Rightarrow>
               Some \<lparr>ciID = i, ciDisplayName = n, ciKind = k, ciConfig = c, ciCredentials = (case m of None \<Rightarrow> [] | Some kvs \<Rightarrow> kvs)\<rparr>
           | _ \<Rightarrow> None))"

definition dec_updateRequest :: "json \<Rightarrow> update_input option" where
  "dec_updateRequest j =
     (case struct_fields True [''displayName'', ''config'', ''credentials''] j of
        None \<Rightarrow> None
      | Some fs \<Rightarrow>
          (case (fold_field upd_ptr ''displayName'' None fs, fold_field upd_raw ''config'' None fs, fold_field upd_map ''credentials'' None fs) of
             (Some n, Some c, Some m) \<Rightarrow> Some \<lparr>uiDisplayName = n, uiConfig = c, uiCredentials = m\<rparr>
           | _ \<Rightarrow> None))"

definition dec_pathRequest :: "json \<Rightarrow> string option" where
  "dec_pathRequest j = Option.bind (struct_fields True [''path''] j) (decode_field dec_str ''path'' [])"

definition dec_moveRequest :: "json \<Rightarrow> (string \<times> string \<times> bool) option" where
  "dec_moveRequest j =
     (case struct_fields True [''from'', ''to'', ''folder''] j of
        None \<Rightarrow> None
      | Some fs \<Rightarrow>
          (case (decode_field dec_str ''from'' [] fs, decode_field dec_str ''to'' [] fs, decode_field dec_bool ''folder'' False fs) of
             (Some a, Some b, Some f) \<Rightarrow> Some (a, b, f)
           | _ \<Rightarrow> None))"

definition dec_grantRequest :: "json \<Rightarrow> grant_input option" where
  "dec_grantRequest j =
     (case struct_fields True [''principal'', ''backendId'', ''prefix'', ''extensions'', ''maxBytes''] j of
        None \<Rightarrow> None
      | Some fs \<Rightarrow>
          (case (decode_field dec_str ''principal'' [] fs, decode_field dec_str ''backendId'' [] fs, decode_field dec_str ''prefix'' [] fs,
                 fold_field upd_strs ''extensions'' [] fs, decode_field dec_int64 ''maxBytes'' 0 fs) of
             (Some p, Some b, Some pre, Some ex, Some mx) \<Rightarrow>
               Some \<lparr>giPrincipal = p, giBackendID = b, giPrefix = pre, giExtensions = ex, giMaxBytes = mx\<rparr>
           | _ \<Rightarrow> None))"

definition dec_revokeRequest :: "json \<Rightarrow> string option" where
  "dec_revokeRequest j = Option.bind (struct_fields True [''principal''] j) (decode_field dec_str ''principal'' [])"

section \<open>The regular view\<close>

text \<open>Running an operation of the registry, or a method of an opened backend, inside the whole state.\<close>

definition in_reg :: "(('m, 'c, 'w) regst \<Rightarrow> 'r \<times> ('m, 'c, 'w) regst) \<Rightarrow> ('m, 'c, 'w, 'g) apist \<Rightarrow> 'r \<times> ('m, 'c, 'w, 'g) apist" where
  "in_reg f st = (case f (apReg st) of (x, rg) \<Rightarrow> (x, st\<lparr>apReg := rg\<rparr>))"

definition set_world :: "node \<times> 'w \<Rightarrow> ('m, 'c, 'w, 'g) apist \<Rightarrow> ('m, 'c, 'w, 'g) apist" where
  "set_world wd st = st\<lparr>apReg := (apReg st)\<lparr>rgWorld := wd\<rparr>\<rparr>"

definition in_world :: "(node \<times> 'w \<Rightarrow> 'r \<times> node \<times> 'w) \<Rightarrow> ('m, 'c, 'w, 'g) apist \<Rightarrow> 'r \<times> ('m, 'c, 'w, 'g) apist" where
  "in_world f st = (case f (rgWorld (apReg st)) of (x, wd) \<Rightarrow> (x, set_world wd st))"

definition in_grants :: "('g \<Rightarrow> 'r \<times> 'g) \<Rightarrow> ('m, 'c, 'w, 'g) apist \<Rightarrow> 'r \<times> ('m, 'c, 'w, 'g) apist" where
  "in_grants f st = (case f (apGrants st) of (x, g) \<Rightarrow> (x, st\<lparr>apGrants := g\<rparr>))"

definition handleHealthz :: "('m, 'c, 'w, 'g) deps \<Rightarrow> ('m, 'c, 'w, 'g) apist \<Rightarrow> resp \<times> ('m, 'c, 'w, 'g) apist" where
  "handleHealthz d st =
     (case reg_Ping (dpRegistry d) (apReg st) of
        Some _ \<Rightarrow> (writeJSON 503 (JHealth False), st)
      | None \<Rightarrow> (writeJSON 200 (JHealth True), st))"

definition handleKinds :: "('m, 'c, 'w, 'g) deps \<Rightarrow> ('m, 'c, 'w, 'g) apist \<Rightarrow> resp \<times> ('m, 'c, 'w, 'g) apist" where
  "handleKinds d st =
     (writeJSON 200
        (JKinds (filter (\<lambda>k. \<not> (k = KindFilesystem \<and> \<not> FilesystemEnabled (dpRegistry d))) Kinds) (FilesystemEnabled (dpRegistry d))),
      st)"

definition handleListBackends :: "('m, 'c, 'w, 'g) deps \<Rightarrow> identity \<Rightarrow> ('m, 'c, 'w, 'g) apist \<Rightarrow> resp \<times> ('m, 'c, 'w, 'g) apist" where
  "handleListBackends d idn st =
     (case in_reg (reg_List (dpRegistry d) (idWorkspace idn)) st of
        (Inl e, st1) \<Rightarrow> (writeRegistryError e, st1)
      | (Inr recs, st1) \<Rightarrow> (writeJSON 200 (JSummaries (map summarize recs)), st1))"

definition handleGetBackend :: "('m, 'c, 'w, 'g) deps \<Rightarrow> string \<Rightarrow> identity \<Rightarrow> ('m, 'c, 'w, 'g) apist \<Rightarrow> resp \<times> ('m, 'c, 'w, 'g) apist" where
  "handleGetBackend d i idn st =
     (case in_reg (reg_Get (dpRegistry d) (idWorkspace idn) i) st of
        (Inl e, st1) \<Rightarrow> (writeRegistryError e, st1)
      | (Inr r, st1) \<Rightarrow> (writeJSON 200 (JSummary (summarize r)), st1))"

section \<open>Reading objects\<close>

text \<open>\<^verbatim>\<open>openBackend\<close>: the error response, or the backend with its handle.\<close>

definition openBackend ::
    "('m, 'c, 'w, 'g) deps \<Rightarrow> tick \<Rightarrow> string \<Rightarrow> identity \<Rightarrow> ('m, 'c, 'w, 'g) apist \<Rightarrow> (resp + (node \<times> 'w) backend) \<times> ('m, 'c, 'w, 'g) apist" where
  "openBackend d tk i idn st =
     (case in_reg (reg_Open (dpRegistry d) (tkNow tk) (tkLater tk) (idWorkspace idn) i) st of
        (Inl e, st1) \<Rightarrow> (Inl (writeRegistryError e), st1)
      | (Inr h, st1) \<Rightarrow> (Inr (svMethods (dpRegistry d) h), st1))"

text \<open>\<^verbatim>\<open>strconv.Atoi\<close> on a 64-bit machine.\<close>

definition list_limit :: "string \<Rightarrow> int option" where
  "list_limit v =
     (if v = [] then Some 0
      else case ParseInt64 v of None \<Rightarrow> None | Some n \<Rightarrow> if n < 1 then None else Some n)"

definition handleListObjects ::
    "('m, 'c, 'w, 'g) deps \<Rightarrow> tick \<Rightarrow> string \<Rightarrow> identity \<Rightarrow> request \<Rightarrow> ('m, 'c, 'w, 'g) apist \<Rightarrow> resp \<times> ('m, 'c, 'w, 'g) apist" where
  "handleListObjects d tk i idn r st =
     (case openBackend d tk i idn st of
        (Inl e, st1) \<Rightarrow> (e, st1)
      | (Inr b, st1) \<Rightarrow>
          (case list_limit (rqQuery r ''limit'') of
             None \<Rightarrow> (WriteError 400, st1)
           | Some n \<Rightarrow>
               (case in_world (bList b \<lparr>loPrefix = rqQuery r ''prefix'', loRecursive = (rqQuery r ''recursive'' = ''true''), loLimit = n,
                                        loCursor = rqQuery r ''cursor'', loMarkers = False\<rparr>) st1 of
                  (Inl e, st2) \<Rightarrow> (writeBackendError e, st2)
                | (Inr res, st2) \<Rightarrow> (writeJSON 200 (JListing res), st2))))"

definition objectPath :: "request \<Rightarrow> string \<Rightarrow> string" where
  "objectPath r i = TrimPrefix (rqPath r) (''/api/backends/'' @ i @ ''/objects/'')"

definition lastSegment :: "string \<Rightarrow> string" where
  "lastSegment p = (case cut_last slash p of None \<Rightarrow> p | Some (_, s) \<Rightarrow> s)"

definition setObjectHeaders :: "('m, 'c, 'w, 'g) deps \<Rightarrow> object_info \<Rightarrow> (string \<times> string) list" where
  "setObjectHeaders d info =
     [(''Content-Type'', if oiContentType info = [] then ''application/octet-stream'' else oiContentType info),
      (''Content-Disposition'', dpFormatMediaType d ''attachment'' [(''filename'', lastSegment (oiPath info))]),
      (''X-Content-Type-Options'', ''nosniff''),
      (''Content-Security-Policy'', ''default-src '' @ [CHR 0x27] @ ''none'' @ [CHR 0x27] @ ''; sandbox''),
      (''Accept-Ranges'', ''bytes'')] @
     (if oiETag info \<noteq> [] then [(''ETag'', oiETag info)] else []) @
     (case oiModTime info of None \<Rightarrow> [] | Some t \<Rightarrow> [(''Last-Modified'', dpHttpTime d t)])"

definition object_response :: "('m, 'c, 'w, 'g) deps \<Rightarrow> nat \<Rightarrow> object_info \<Rightarrow> (string \<times> string) list \<Rightarrow> api_body body \<Rightarrow> resp" where
  "object_response d status info extra b =
     \<lparr>rsStatus = status, rsHeaders = setObjectHeaders d info @ extra, rsBody = b\<rparr>"

text \<open>A body that fails midway is sent as far as it goes.\<close>

definition serveWholeObject ::
    "('m, 'c, 'w, 'g) deps \<Rightarrow> (node \<times> 'w) backend \<Rightarrow> string \<Rightarrow> ('m, 'c, 'w, 'g) apist \<Rightarrow> resp \<times> ('m, 'c, 'w, 'g) apist" where
  "serveWholeObject d b path st =
     (case in_world (bRead b path) st of
        (Inl e, st1) \<Rightarrow> (writeBackendError e, st1)
      | (Inr (rc, info), st1) \<Rightarrow>
          (object_response d 200 info [(''Content-Length'', dec_int (oiSize info))] (Body (Content (rdBytes rc))), st1))"

definition serveObjectRange ::
    "('m, 'c, 'w, 'g) deps \<Rightarrow> (node \<times> 'w) backend \<Rightarrow> string \<Rightarrow> byte_range \<Rightarrow> int \<Rightarrow> ('m, 'c, 'w, 'g) apist \<Rightarrow> resp \<times> ('m, 'c, 'w, 'g) apist" where
  "serveObjectRange d b path rg totalSize st =
     (case in_world (bReadRange b path rg) st of
        (Inl e, st1) \<Rightarrow> (writeBackendError e, st1)
      | (Inr (rc, info), st1) \<Rightarrow>
          (object_response d 206 info
             [(''Content-Range'', ''bytes '' @ dec_int (brStart rg) @ ''-'' @ dec_int (brEnd rg) @ ''/'' @ dec_int totalSize),
              (''Content-Length'', dec_int (brEnd rg - brStart rg + 1))]
             (Body (Content (rdBytes rc))), st1))"

definition handleReadObject ::
    "('m, 'c, 'w, 'g) deps \<Rightarrow> tick \<Rightarrow> string \<Rightarrow> identity \<Rightarrow> request \<Rightarrow> ('m, 'c, 'w, 'g) apist \<Rightarrow> resp \<times> ('m, 'c, 'w, 'g) apist" where
  "handleReadObject d tk i idn r st =
     (case openBackend d tk i idn st of
        (Inl e, st1) \<Rightarrow> (e, st1)
      | (Inr b, st1) \<Rightarrow>
          let path = objectPath r i; rangeHeader = rqHeader r ''Range'' in
          if rangeHeader = [] then serveWholeObject d b path st1
          else (case in_world (bStat b path) st1 of
                  (Inl e, st2) \<Rightarrow> (writeBackendError e, st2)
                | (Inr info, st2) \<Rightarrow>
                    (case parseRange rangeHeader (oiSize info) of
                       Unsatisfiable \<Rightarrow>
                         (\<lparr>rsStatus = 416,
                           rsHeaders = [(''Content-Range'', ''bytes */'' @ dec_int (oiSize info)), (''Content-Type'', ''application/json'')],
                           rsBody = ErrBody None\<rparr>, st2)
                     | NotParsed \<Rightarrow> serveWholeObject d b path st2
                     | Parsed rg \<Rightarrow> serveObjectRange d b path rg (oiSize info) st2)))"

definition handleStatObject ::
    "('m, 'c, 'w, 'g) deps \<Rightarrow> tick \<Rightarrow> string \<Rightarrow> identity \<Rightarrow> request \<Rightarrow> ('m, 'c, 'w, 'g) apist \<Rightarrow> resp \<times> ('m, 'c, 'w, 'g) apist" where
  "handleStatObject d tk i idn r st =
     (case openBackend d tk i idn st of
        (Inl e, st1) \<Rightarrow> (e, st1)
      | (Inr b, st1) \<Rightarrow>
          (case in_world (bStat b (objectPath r i)) st1 of
             (Inl e, st2) \<Rightarrow> (writeBackendError e, st2)
           | (Inr info, st2) \<Rightarrow> (object_response d 200 info [(''Content-Length'', dec_int (oiSize info))] NoBody, st2)))"

section \<open>Writing objects\<close>

definition cleanContentType :: "('m, 'c, 'w, 'g) deps \<Rightarrow> string \<Rightarrow> string" where
  "cleanContentType d v =
     (if v = [] then []
      else case dpParseMediaType d v of None \<Rightarrow> [] | Some (mt, params) \<Rightarrow> dpFormatMediaType d mt params)"

text \<open>Who may write: an error, a writer (\<open>Inr None\<close>), or the grant that admits the upload.\<close>

definition write_admission ::
    "('m, 'c, 'w, 'g) deps \<Rightarrow> string \<Rightarrow> identity \<Rightarrow> string \<Rightarrow> bool \<Rightarrow> ('m, 'c, 'w, 'g) apist \<Rightarrow>
     (resp + grant option) \<times> ('m, 'c, 'w, 'g) apist" where
  "write_admission d backendID idn clean createOnly st =
     (if CanWrite idn then (Inr None, st)
      else if \<not> createOnly then (Inl (WriteError 403), st)
      else (case in_grants (MatchForUpload (dpGrants d) (idWorkspace idn) (idSubject idn) backendID clean) st of
              (Inl e, st1) \<Rightarrow> (Inl (WriteError 502), st1)
            | (Inr None, st1) \<Rightarrow> (Inl (WriteError 403), st1)
            | (Inr (Some g), st1) \<Rightarrow>
                if \<not> HasExtension clean (gExtensions g) then (Inl (WriteError 415), st1) else (Inr (Some g), st1)))"

definition create_only_check ::
    "('m, 'c, 'w, 'g) deps \<Rightarrow> string \<Rightarrow> identity \<Rightarrow> bool \<Rightarrow> ('m, 'c, 'w, 'g) apist \<Rightarrow> resp option \<times> ('m, 'c, 'w, 'g) apist" where
  "create_only_check d backendID idn createOnly st =
     (if \<not> createOnly then (None, st)
      else case in_reg (reg_Get (dpRegistry d) (idWorkspace idn) backendID) st of
             (Inl e, st1) \<Rightarrow> (Some (writeRegistryError e), st1)
           | (Inr r, st1) \<Rightarrow> if \<not> SupportsCreateOnly r then (Some (WriteError 501), st1) else (None, st1))"

definition upload_limit :: "int \<Rightarrow> grant option \<Rightarrow> int" where
  "upload_limit maxBytes g =
     (case g of None \<Rightarrow> maxBytes | Some g \<Rightarrow> if maxBytes \<le> 0 \<or> gMaxBytes g < maxBytes then gMaxBytes g else maxBytes)"

definition write_error :: "berr \<Rightarrow> resp" where
  "write_error e =
     (if e = ErrTooBig then WriteError 413 else if e = ErrPreconditionFailed then WriteError 412 else writeBackendError e)"

definition publishObjectCreated ::
    "identity \<Rightarrow> string \<Rightarrow> string \<Rightarrow> int \<Rightarrow> bool \<Rightarrow> ('m, 'c, 'w, 'g) apist \<Rightarrow> ('m, 'c, 'w, 'g) apist" where
  "publishObjectCreated idn backendID path sz viaGrant st =
     st\<lparr>apEvents := apEvents st @
       [\<lparr>evWorkspace = idWorkspace idn, evType = ''storage.object.created'', evBackendId = backendID, evPath = path, evSize = sz,
         evPrincipal = idSubject idn, evVia = (if viaGrant then ''app-upload'' else ''workspace-user'')\<rparr>]\<rparr>"

definition handleWriteObject ::
    "('m, 'c, 'w, 'g) deps \<Rightarrow> tick \<Rightarrow> string \<Rightarrow> identity \<Rightarrow> request \<Rightarrow> ('m, 'c, 'w, 'g) apist \<Rightarrow> resp \<times> ('m, 'c, 'w, 'g) apist" where
  "handleWriteObject d tk backendID idn r st =
     (case CleanPath (objectPath r backendID) of
        Inl e \<Rightarrow> (writeBackendError e, st)
      | Inr clean \<Rightarrow>
     (let createOnly = (rqHeader r ''If-None-Match'' = ''*'') in
      case write_admission d backendID idn clean createOnly st of
        (Inl e, st1) \<Rightarrow> (e, st1)
      | (Inr g, st1) \<Rightarrow>
     (case create_only_check d backendID idn createOnly st1 of
        (Some e, st2) \<Rightarrow> (e, st2)
      | (None, st2) \<Rightarrow>
     (case openBackend d tk backendID idn st2 of
        (Inl e, st3) \<Rightarrow> (e, st3)
      | (Inr b, st3) \<Rightarrow>
     (let maxBytes = upload_limit (dpMaxUploadBytes d) g;
          body = (if maxBytes > 0 then MaxBytesReader maxBytes (rqBody r) else rqBody r) in
      case in_world (bWrite b clean body
             \<lparr>woContentType = cleanContentType d (rqHeader r ''Content-Type''), woCreateOnly = createOnly\<rparr>) st3 of
        (Inl e, st4) \<Rightarrow> (write_error e, st4)
      | (Inr info, st4) \<Rightarrow>
          (writeJSON 200 (JInfo info), publishObjectCreated idn backendID clean (oiSize info) (g \<noteq> None) st4))))))"

section \<open>Folders, deletes and moves\<close>

definition handleCreateFolder ::
    "('m, 'c, 'w, 'g) deps \<Rightarrow> tick \<Rightarrow> string \<Rightarrow> identity \<Rightarrow> request \<Rightarrow> ('m, 'c, 'w, 'g) apist \<Rightarrow> resp \<times> ('m, 'c, 'w, 'g) apist" where
  "handleCreateFolder d tk i idn r st =
     (case openBackend d tk i idn st of
        (Inl e, st1) \<Rightarrow> (e, st1)
      | (Inr b, st1) \<Rightarrow>
          (case decodeBody dec_pathRequest r of
             Inl e \<Rightarrow> (e, st1)
           | Inr path \<Rightarrow>
               (case in_world (bMkdir b path) st1 of
                  (Some e, st2) \<Rightarrow> (writeBackendError e, st2)
                | (None, st2) \<Rightarrow>
                    (writeJSON 201 (JPath (case CleanFolder path of Inl _ \<Rightarrow> [] | Inr f \<Rightarrow> f)), st2))))"

definition handleDeleteObject ::
    "('m, 'c, 'w, 'g) deps \<Rightarrow> tick \<Rightarrow> string \<Rightarrow> identity \<Rightarrow> request \<Rightarrow> ('m, 'c, 'w, 'g) apist \<Rightarrow> resp \<times> ('m, 'c, 'w, 'g) apist" where
  "handleDeleteObject d tk i idn r st =
     (case openBackend d tk i idn st of
        (Inl e, st1) \<Rightarrow> (e, st1)
      | (Inr b, st1) \<Rightarrow>
          (case in_world (bDeleteObject b (objectPath r i)) st1 of
             (Some e, st2) \<Rightarrow> (writeBackendError e, st2)
           | (None, st2) \<Rightarrow> (writeHeader 204, st2)))"

definition handleDeleteFolder ::
    "('m, 'c, 'w, 'g) deps \<Rightarrow> tick \<Rightarrow> string \<Rightarrow> identity \<Rightarrow> request \<Rightarrow> ('m, 'c, 'w, 'g) apist \<Rightarrow> (resp \<times> ('m, 'c, 'w, 'g) apist) option" where
  "handleDeleteFolder d tk i idn r st =
     (case openBackend d tk i idn st of
        (Inl e, st1) \<Rightarrow> Some (e, st1)
      | (Inr b, st1) \<Rightarrow>
          (case bDeleteFolder b (TrimPrefix (rqPath r) (''/api/backends/'' @ i @ ''/folders/'')) (rgWorld (apReg st1)) of
             None \<Rightarrow> None
           | Some ((n, e), wd) \<Rightarrow>
               Some (case e of
                       Some x \<Rightarrow> (writeBackendError x, set_world wd st1)
                     | None \<Rightarrow> (writeJSON 200 (JDeleted n), set_world wd st1))))"

definition handleMove ::
    "('m, 'c, 'w, 'g) deps \<Rightarrow> tick \<Rightarrow> string \<Rightarrow> identity \<Rightarrow> request \<Rightarrow> ('m, 'c, 'w, 'g) apist \<Rightarrow> (resp \<times> ('m, 'c, 'w, 'g) apist) option" where
  "handleMove d tk i idn r st =
     (case openBackend d tk i idn st of
        (Inl e, st1) \<Rightarrow> Some (e, st1)
      | (Inr b, st1) \<Rightarrow>
          (case decodeBody dec_moveRequest r of
             Inl e \<Rightarrow> Some (e, st1)
           | Inr (src, dst, folder) \<Rightarrow>
               (case (if folder then bMoveFolder b src dst (rgWorld (apReg st1)) else Some (bMoveObject b src dst (rgWorld (apReg st1)))) of
                  None \<Rightarrow> None
                | Some (e, wd) \<Rightarrow>
                    Some (case e of
                            Some x \<Rightarrow> (writeBackendError x, set_world wd st1)
                          | None \<Rightarrow> (writeJSON 200 (JMoved src dst folder), set_world wd st1)))))"

section \<open>The admin view\<close>

definition handleAdminList :: "('m, 'c, 'w, 'g) deps \<Rightarrow> identity \<Rightarrow> ('m, 'c, 'w, 'g) apist \<Rightarrow> resp \<times> ('m, 'c, 'w, 'g) apist" where
  "handleAdminList d idn st =
     (case in_reg (reg_List (dpRegistry d) (idWorkspace idn)) st of
        (Inl e, st1) \<Rightarrow> (writeRegistryError e, st1)
      | (Inr recs, st1) \<Rightarrow> (writeJSON 200 (JAdmins (map adminView recs)), st1))"

definition handleAdminGet :: "('m, 'c, 'w, 'g) deps \<Rightarrow> string \<Rightarrow> identity \<Rightarrow> ('m, 'c, 'w, 'g) apist \<Rightarrow> resp \<times> ('m, 'c, 'w, 'g) apist" where
  "handleAdminGet d i idn st =
     (case in_reg (reg_Get (dpRegistry d) (idWorkspace idn) i) st of
        (Inl e, st1) \<Rightarrow> (writeRegistryError e, st1)
      | (Inr r, st1) \<Rightarrow> (writeJSON 200 (JAdmin (adminView r)), st1))"

definition handleAdminCreate ::
    "('m, 'c, 'w, 'g) deps \<Rightarrow> tick \<Rightarrow> identity \<Rightarrow> request \<Rightarrow> ('m, 'c, 'w, 'g) apist \<Rightarrow> resp \<times> ('m, 'c, 'w, 'g) apist" where
  "handleAdminCreate d tk idn r st =
     (case decodeBody dec_createRequest r of
        Inl e \<Rightarrow> (e, st)
      | Inr inp \<Rightarrow>
          (case in_reg (reg_Create (dpRegistry d) (tkNow tk) (idWorkspace idn) (idSubject idn) inp) st of
             (Inl e, st1) \<Rightarrow> (writeRegistryError e, st1)
           | (Inr rec, st1) \<Rightarrow> (writeJSON 201 (JAdmin (adminView rec)), st1)))"

definition handleAdminUpdate ::
    "('m, 'c, 'w, 'g) deps \<Rightarrow> tick \<Rightarrow> string \<Rightarrow> identity \<Rightarrow> request \<Rightarrow> ('m, 'c, 'w, 'g) apist \<Rightarrow> resp \<times> ('m, 'c, 'w, 'g) apist" where
  "handleAdminUpdate d tk i idn r st =
     (case decodeBody dec_updateRequest r of
        Inl e \<Rightarrow> (e, st)
      | Inr inp \<Rightarrow>
          (case in_reg (reg_Update (dpRegistry d) (tkNow tk) (idWorkspace idn) i inp) st of
             (Inl e, st1) \<Rightarrow> (writeRegistryError e, st1)
           | (Inr rec, st1) \<Rightarrow> (writeJSON 200 (JAdmin (adminView rec)), st1)))"

definition handleAdminDelete :: "('m, 'c, 'w, 'g) deps \<Rightarrow> string \<Rightarrow> identity \<Rightarrow> ('m, 'c, 'w, 'g) apist \<Rightarrow> resp \<times> ('m, 'c, 'w, 'g) apist" where
  "handleAdminDelete d i idn st =
     (case in_reg (reg_Delete (dpRegistry d) (idWorkspace idn) i) st of
        (Some e, st1) \<Rightarrow> (writeRegistryError e, st1)
      | (None, st1) \<Rightarrow> (writeHeader 204, st1))"

definition handleAdminTestNew ::
    "('m, 'c, 'w, 'g) deps \<Rightarrow> identity \<Rightarrow> request \<Rightarrow> ('m, 'c, 'w, 'g) apist \<Rightarrow> resp \<times> ('m, 'c, 'w, 'g) apist" where
  "handleAdminTestNew d idn r st =
     (case decodeBody dec_createRequest r of
        Inl e \<Rightarrow> (e, st)
      | Inr inp \<Rightarrow>
          (case in_reg (reg_Test (dpRegistry d) (idWorkspace idn) (inp\<lparr>ciID := [], ciDisplayName := []\<rparr>)) st of
             (e, st1) \<Rightarrow> (writeTestResult e, st1)))"

definition handleAdminTestSaved ::
    "('m, 'c, 'w, 'g) deps \<Rightarrow> tick \<Rightarrow> string \<Rightarrow> identity \<Rightarrow> request \<Rightarrow> ('m, 'c, 'w, 'g) apist \<Rightarrow> resp \<times> ('m, 'c, 'w, 'g) apist" where
  "handleAdminTestSaved d tk i idn r st =
     (case (if rqContentLength r \<noteq> 0 then decodeBody dec_updateRequest r
            else Inr \<lparr>uiDisplayName = None, uiConfig = None, uiCredentials = None\<rparr>) of
        Inl e \<Rightarrow> (e, st)
      | Inr inp \<Rightarrow>
          (case in_reg (if uiDisplayName inp = None \<and> uiConfig inp = None \<and> uiCredentials inp = None
                        then reg_TestSaved (dpRegistry d) (tkNow tk) (tkLater tk) (tkRnd tk) (idWorkspace idn) i
                        else reg_TestUpdate (dpRegistry d) (tkNow tk) (idWorkspace idn) i inp) st of
             (e, st1) \<Rightarrow> (writeTestResult e, st1)))"

section \<open>Upload grants\<close>

definition handleAdminListUploadGrants ::
    "('m, 'c, 'w, 'g) deps \<Rightarrow> identity \<Rightarrow> request \<Rightarrow> ('m, 'c, 'w, 'g) apist \<Rightarrow> resp \<times> ('m, 'c, 'w, 'g) apist" where
  "handleAdminListUploadGrants d idn r st =
     (case in_grants (goList (dpGrants d) (idWorkspace idn) (rqQuery r ''principal'')) st of
        (Inl e, st1) \<Rightarrow> (writeGrantError e, st1)
      | (Inr gs, st1) \<Rightarrow> (writeJSON 200 (JGrants gs), st1))"

definition handleAdminCreateUploadGrant ::
    "('m, 'c, 'w, 'g) deps \<Rightarrow> tick \<Rightarrow> identity \<Rightarrow> request \<Rightarrow> ('m, 'c, 'w, 'g) apist \<Rightarrow> resp \<times> ('m, 'c, 'w, 'g) apist" where
  "handleAdminCreateUploadGrant d tk idn r st =
     (case decodeBody dec_grantRequest r of
        Inl e \<Rightarrow> (e, st)
      | Inr inp \<Rightarrow>
          (case in_reg (reg_Get (dpRegistry d) (idWorkspace idn) (giBackendID inp)) st of
             (Inl e, st1) \<Rightarrow> (writeRegistryError e, st1)
           | (Inr _, st1) \<Rightarrow>
               (case in_grants (grants_Create (dpGrants d) (tkUuid tk) (tkNow tk) (idWorkspace idn) (idSubject idn) inp) st1 of
                  (Inl e, st2) \<Rightarrow> (writeGrantError e, st2)
                | (Inr g, st2) \<Rightarrow> (writeJSON 201 (JGrant g), st2))))"

definition handleAdminDeleteUploadGrant ::
    "('m, 'c, 'w, 'g) deps \<Rightarrow> string \<Rightarrow> identity \<Rightarrow> ('m, 'c, 'w, 'g) apist \<Rightarrow> resp \<times> ('m, 'c, 'w, 'g) apist" where
  "handleAdminDeleteUploadGrant d grantID idn st =
     (case in_grants (goDelete (dpGrants d) (idWorkspace idn) grantID) st of
        (Some e, st1) \<Rightarrow> (writeGrantError e, st1)
      | (None, st1) \<Rightarrow> (writeHeader 204, st1))"

definition handleRevokeUploadGrantsByPrincipal ::
    "('m, 'c, 'w, 'g) deps \<Rightarrow> identity \<Rightarrow> request \<Rightarrow> ('m, 'c, 'w, 'g) apist \<Rightarrow> resp \<times> ('m, 'c, 'w, 'g) apist" where
  "handleRevokeUploadGrantsByPrincipal d idn r st =
     (case decodeBody dec_revokeRequest r of
        Inl e \<Rightarrow> (e, st)
      | Inr prin \<Rightarrow>
          if IsAdmin idn \<or> (IsGrantsService idn \<and> ValidatePrincipal prin (idWorkspace idn) = None) then
            (case in_grants (RevokePrincipal (dpGrants d) (idWorkspace idn) prin) st of
               (Inl e, st1) \<Rightarrow> (writeGrantError e, st1)
             | (Inr gs, st1) \<Rightarrow> (writeJSON 200 (JRevoked (length gs) gs), st1))
          else (WriteError 403, st))"

section \<open>The router\<close>

text \<open>The identity \<^verbatim>\<open>auth.Middleware\<close> attaches, or the response it ends the request with.\<close>

definition authenticate :: "(string \<Rightarrow> claims option) \<Rightarrow> request \<Rightarrow> resp + identity" where
  "authenticate verify r =
     (case Middleware verify (\<lambda>idn r _. (writeHeader 200, Some idn)) r None of
        (_, Some idn) \<Rightarrow> Inr idn
      | (e, None) \<Rightarrow> Inl e)"

text \<open>The tier of a route: what \<^verbatim>\<open>auth.Require\<close> asks before its handler runs.\<close>

fun tier :: "route \<Rightarrow> identity \<Rightarrow> bool" where
  "tier RtKinds = CanRead" | "tier RtListBackends = CanRead" | "tier (RtGetBackend _) = CanRead"
| "tier (RtListObjects _) = CanRead" | "tier (RtReadObject _) = CanRead" | "tier (RtStatObject _) = CanRead"
| "tier (RtDeleteObject _) = CanWrite" | "tier (RtCreateFolder _) = CanWrite" | "tier (RtDeleteFolder _) = CanWrite"
| "tier (RtMove _) = CanWrite"
| "tier RtAdminList = IsAdmin" | "tier RtAdminCreate = IsAdmin" | "tier (RtAdminGet _) = IsAdmin"
| "tier (RtAdminUpdate _) = IsAdmin" | "tier (RtAdminDelete _) = IsAdmin" | "tier (RtAdminTestSaved _) = IsAdmin"
| "tier RtAdminTestNew = IsAdmin" | "tier RtListGrants = IsAdmin" | "tier RtCreateGrant = IsAdmin"
| "tier (RtDeleteGrant _) = IsAdmin"
| "tier _ = (\<lambda>_. True)"

fun handle_route ::
    "('m, 'c, 'w, 'g) deps \<Rightarrow> tick \<Rightarrow> route \<Rightarrow> identity \<Rightarrow> request \<Rightarrow> ('m, 'c, 'w, 'g) apist \<Rightarrow> (resp \<times> ('m, 'c, 'w, 'g) apist) option" where
  "handle_route d tk RtKinds idn r st = Some (handleKinds d st)"
| "handle_route d tk RtListBackends idn r st = Some (handleListBackends d idn st)"
| "handle_route d tk (RtGetBackend i) idn r st = Some (handleGetBackend d i idn st)"
| "handle_route d tk (RtListObjects i) idn r st = Some (handleListObjects d tk i idn r st)"
| "handle_route d tk (RtReadObject i) idn r st = Some (handleReadObject d tk i idn r st)"
| "handle_route d tk (RtStatObject i) idn r st = Some (handleStatObject d tk i idn r st)"
| "handle_route d tk (RtWriteObject i) idn r st = Some (handleWriteObject d tk i idn r st)"
| "handle_route d tk (RtDeleteObject i) idn r st = Some (handleDeleteObject d tk i idn r st)"
| "handle_route d tk (RtCreateFolder i) idn r st = Some (handleCreateFolder d tk i idn r st)"
| "handle_route d tk (RtDeleteFolder i) idn r st = handleDeleteFolder d tk i idn r st"
| "handle_route d tk (RtMove i) idn r st = handleMove d tk i idn r st"
| "handle_route d tk RtAdminList idn r st = Some (handleAdminList d idn st)"
| "handle_route d tk RtAdminCreate idn r st = Some (handleAdminCreate d tk idn r st)"
| "handle_route d tk (RtAdminGet i) idn r st = Some (handleAdminGet d i idn st)"
| "handle_route d tk (RtAdminUpdate i) idn r st = Some (handleAdminUpdate d tk i idn r st)"
| "handle_route d tk (RtAdminDelete i) idn r st = Some (handleAdminDelete d i idn st)"
| "handle_route d tk (RtAdminTestSaved i) idn r st = Some (handleAdminTestSaved d tk i idn r st)"
| "handle_route d tk RtAdminTestNew idn r st = Some (handleAdminTestNew d idn r st)"
| "handle_route d tk RtListGrants idn r st = Some (handleAdminListUploadGrants d idn r st)"
| "handle_route d tk RtCreateGrant idn r st = Some (handleAdminCreateUploadGrant d tk idn r st)"
| "handle_route d tk (RtDeleteGrant i) idn r st = Some (handleAdminDeleteUploadGrant d i idn st)"
| "handle_route d tk RtRevokePrincipal idn r st = Some (handleRevokeUploadGrantsByPrincipal d idn r st)"
| "handle_route d tk RtHealthz idn r st = Some (handleHealthz d st)"
| "handle_route d tk RtLivez idn r st = Some (writeHeader 200, st)"
| "handle_route d tk RtBroker idn r st = Some (dpBroker d r st)"

definition unauthenticated :: "route set" where
  "unauthenticated = {RtHealthz, RtLivez, RtBroker}"

definition nobody :: identity where
  "nobody = \<lparr>idSubject = [], idWorkspace = [], idRole = []\<rparr>"

text \<open>What \<^verbatim>\<open>NewRouter\<close> answers; a request no route matches is refused (404 or 405).\<close>

definition NewRouter ::
    "('m, 'c, 'w, 'g) deps \<Rightarrow> tick \<Rightarrow> request \<Rightarrow> ('m, 'c, 'w, 'g) apist \<Rightarrow> (resp \<times> ('m, 'c, 'w, 'g) apist) option" where
  "NewRouter d tk r st =
     (case dpRoute d r of
        None \<Rightarrow> Some (writeHeader 404, st)
      | Some rt \<Rightarrow>
          if rt \<in> unauthenticated then handle_route d tk rt nobody r st
          else (case authenticate (dpVerify d) r of
                  Inl e \<Rightarrow> Some (e, st)
                | Inr idn \<Rightarrow> if tier rt idn then handle_route d tk rt idn r st else Some (WriteError 403, st)))"

end
