(* ===== verification/Api_Laws.thy ===== *)
theory Api_Laws
  imports Api_Server Registry_Example
begin

text \<open>
  What the HTTP layer's handlers promise over any registry and any grant store that keep their
  contracts: the locale \<open>http_api\<close>, which joins \<open>registry\<close> and \<open>grant_store\<close>.  Most handlers are
  \<open>quiet\<close> (no record, credential, grant, object or event changes); the write handler and the
  revocation are followed exactly.  The locale is interpreted on the production services.
\<close>

section \<open>Who is let in\<close>

text \<open>The roles a route asks for, stated apart from the router.\<close>

fun route_roles :: "route \<Rightarrow> role set" where
  "route_roles RtKinds = {RoleOwner, RoleEditor, RoleViewer}"
| "route_roles RtListBackends = {RoleOwner, RoleEditor, RoleViewer}"
| "route_roles (RtGetBackend _) = {RoleOwner, RoleEditor, RoleViewer}"
| "route_roles (RtListObjects _) = {RoleOwner, RoleEditor, RoleViewer}"
| "route_roles (RtReadObject _) = {RoleOwner, RoleEditor, RoleViewer}"
| "route_roles (RtStatObject _) = {RoleOwner, RoleEditor, RoleViewer}"
| "route_roles (RtDeleteObject _) = {RoleOwner, RoleEditor}"
| "route_roles (RtCreateFolder _) = {RoleOwner, RoleEditor}"
| "route_roles (RtDeleteFolder _) = {RoleOwner, RoleEditor}"
| "route_roles (RtMove _) = {RoleOwner, RoleEditor}"
| "route_roles (RtWriteObject _) = UNIV"
| "route_roles RtRevokePrincipal = UNIV"
| "route_roles RtHealthz = UNIV" | "route_roles RtLivez = UNIV" | "route_roles RtBroker = UNIV"
| "route_roles _ = {RoleOwner}"

lemma tier_roles: "tier rt idn \<longleftrightarrow> idRole idn \<in> route_roles rt"
  by (cases rt) (auto simp: CanRead_def CanWrite_def IsAdmin_def)

lemma route_roles_upward:
  "r \<in> route_roles rt \<Longrightarrow> rank r \<noteq> 0 \<Longrightarrow> rank r \<le> rank r' \<Longrightarrow> r' \<in> route_roles rt"
  by (cases rt) (auto simp: rank_def split: if_splits)

lemma CanWrite_roles: "CanWrite idn \<longleftrightarrow> idRole idn \<in> {RoleOwner, RoleEditor}"
  by (auto simp: CanWrite_def)

lemma IsAdmin_writes: "IsAdmin idn \<Longrightarrow> CanWrite idn"
  by (simp add: IsAdmin_def CanWrite_def)

lemma authenticate_cases:
  obtains st where "authenticate verify r = Inl (WriteError st)" "st \<in> {400, 401, 403}"
  | c where "authenticate verify r = Inr \<lparr>idSubject = clSubject c, idWorkspace = rqHeader r ''X-Booth-Workspace'', idRole = RoleGrantsService\<rparr>"
      "verify (bearerToken r) = Some c" "grantsServiceWorkspace c = Some (rqHeader r ''X-Booth-Workspace'')"
  | c where "authenticate verify r = Inr \<lparr>idSubject = clSubject c, idWorkspace = rqHeader r ''X-Booth-Workspace'',
        idRole = EffectiveRole (rqHeader r ''X-Booth-Role'') (RoleInWorkspace (clGroups c) (rqHeader r ''X-Booth-Workspace''))\<rparr>"
      "verify (bearerToken r) = Some c" "RoleInWorkspace (clGroups c) (rqHeader r ''X-Booth-Workspace'') \<noteq> []"
proof -
  let ?nxt = "\<lambda>idn (r::request) (_::identity option). (writeHeader 200 :: resp, Some idn)"
  show ?thesis
  proof (cases rule: Middleware_cases [of verify ?nxt r None])
    case (1 st)
    show ?thesis by (rule that(1) [OF _ 1(2)]) (simp add: authenticate_def 1(1))
  next
    case (2 c gw)
    show ?thesis by (rule that(2)) (use 2 in \<open>simp_all add: authenticate_def\<close>)
  next
    case (3 c ws)
    show ?thesis by (rule that(3)) (use 3 in \<open>simp_all add: authenticate_def\<close>)
  qed
qed

section \<open>Reading methods\<close>

text \<open>The documented behaviour of a storage service the reading routes rely on: looking changes nothing.\<close>

definition reads_pure :: "'s backend \<Rightarrow> bool" where
  "reads_pure b \<longleftrightarrow>
     (\<forall>o1 s. snd (bList b o1 s) = s) \<and> (\<forall>p s. snd (bRead b p s) = s) \<and>
     (\<forall>p rg s. snd (bReadRange b p rg s) = s) \<and> (\<forall>p s. snd (bStat b p s) = s)"

lemma reads_pureD:
  assumes "reads_pure b"
  shows "bList b o1 s = (x, s') \<Longrightarrow> s' = s" "bRead b p s = (y, s') \<Longrightarrow> s' = s"
    "bReadRange b p rg s = (z, s') \<Longrightarrow> s' = s" "bStat b p s = (w, s') \<Longrightarrow> s' = s"
proof -
  note all = assms [unfolded reads_pure_def]
  show "bList b o1 s = (x, s') \<Longrightarrow> s' = s" using all by (metis snd_conv)
  show "bRead b p s = (y, s') \<Longrightarrow> s' = s" using all by (metis snd_conv)
  show "bReadRange b p rg s = (z, s') \<Longrightarrow> s' = s" using all by (metis snd_conv)
  show "bStat b p s = (w, s') \<Longrightarrow> s' = s" using all by (metis snd_conv)
qed

lemma set_world_same [simp]: "set_world (rgWorld (apReg st)) st = st"
  by (simp add: set_world_def)

lemma set_world_sel [simp]:
  "apGrants (set_world wd st) = apGrants st" "apEvents (set_world wd st) = apEvents st"
  "rgWorld (apReg (set_world wd st)) = wd" "rgMeta (apReg (set_world wd st)) = rgMeta (apReg st)"
  "rgCreds (apReg (set_world wd st)) = rgCreds (apReg st)" "rgCache (apReg (set_world wd st)) = rgCache (apReg st)"
  by (simp_all add: set_world_def)

lemma in_world_reads:
  assumes "\<And>s'. f (rgWorld (apReg st)) = (x, s') \<Longrightarrow> s' = rgWorld (apReg st)" "in_world f st = (x, st')"
  shows "st' = st"
  using assms by (cases "f (rgWorld (apReg st))") (simp add: in_world_def)

lemma serve_same:
  assumes "reads_pure b"
  shows "serveWholeObject d b path st = (x, st') \<Longrightarrow> st' = st"
    and "serveObjectRange d b path rg n st = (x, st') \<Longrightarrow> st' = st"
  using in_world_reads [where f = "bRead b path" and st = st, OF reads_pureD(2) [OF assms]]
    in_world_reads [where f = "bReadRange b path rg" and st = st, OF reads_pureD(3) [OF assms]]
  by (auto simp: serveWholeObject_def serveObjectRange_def split: prod.splits sum.splits)

text \<open>Who the write handler admits, stated over the set of grants held.\<close>

definition may_write :: "string \<Rightarrow> identity \<Rightarrow> string \<Rightarrow> bool \<Rightarrow> grant set \<Rightarrow> grant option \<Rightarrow> bool" where
  "may_write i idn clean createOnly gs g \<longleftrightarrow>
     (case g of
        None \<Rightarrow> CanWrite idn
      | Some g \<Rightarrow> \<not> CanWrite idn \<and> createOnly \<and> g \<in> gs \<and> gWorkspace g = idWorkspace idn \<and> gPrincipal g = idSubject idn \<and>
          gBackendID g = i \<and> gPrefix g = dirOf clean \<and> HasExtension clean (gExtensions g))"

section \<open>The handlers over any registry and grant store\<close>

locale http_api =
  R: registry sv recs ok canon held served + G: grant_store gops good grants
  for sv :: "('m, 'c, 'w) svc"
    and recs :: "'m \<Rightarrow> string \<Rightarrow> string \<Rightarrow> backend_rec option" and ok canon
    and held :: "'c \<Rightarrow> string \<Rightarrow> string \<Rightarrow> (string \<rightharpoonup> string) option" and served
    and gops :: "'g grant_ops" and good and grants :: "'g \<Rightarrow> grant set"
begin

text \<open>No record, credential, grant, object or event is changed.\<close>

definition quiet :: "('m, 'c, 'w, 'g) apist \<Rightarrow> ('m, 'c, 'w, 'g) apist \<Rightarrow> bool" where
  "quiet st st' \<longleftrightarrow> R.same_regs (apReg st) (apReg st') \<and> rgWorld (apReg st') = rgWorld (apReg st) \<and>
     apGrants st' = apGrants st \<and> apEvents st' = apEvents st"

definition sound :: "('m, 'c, 'w, 'g) apist \<Rightarrow> bool" where
  "sound st \<longleftrightarrow> ok (rgMeta (apReg st)) \<and> R.cache_fresh (apReg st) \<and> good (apGrants st)"

lemma quiet_refl: "sound st \<Longrightarrow> quiet st st"
  by (simp add: quiet_def sound_def R.same_regs_refl)

lemma quiet_trans: "quiet st st1 \<Longrightarrow> quiet st1 st2 \<Longrightarrow> quiet st st2"
  by (auto simp: quiet_def intro: R.same_regs_trans)

lemma in_reg_quiet:
  assumes "in_reg f st = (x, st')"
    and "\<And>rg. f (apReg st) = (x, rg) \<Longrightarrow> R.same_regs (apReg st) rg \<and> rgWorld rg = rgWorld (apReg st)"
  shows "quiet st st'"
  using assms by (auto simp: in_reg_def quiet_def split: prod.splits)

lemma get_quiet:
  assumes "sound st" "in_reg (reg_Get sv w i) st = (x, st')"
  shows "quiet st st' \<and> sound st' \<and> (\<forall>r. x = Inr r \<longrightarrow> recs (rgMeta (apReg st)) w i = Some r)"
proof -
  obtain rg where g: "reg_Get sv w i (apReg st) = (x, rg)" "st' = st\<lparr>apReg := rg\<rparr>"
    using assms(2) by (auto simp: in_reg_def split: prod.splits)
  have o: "ok (rgMeta (apReg st))" using assms(1) by (simp add: sound_def)
  note G = R.get_spec [OF o g(1)]
  have "R.cache_fresh rg"
    using G assms(1) by (auto simp: sound_def R.cache_fresh_def R.same_regs_def R.same_recs_def)
  with G g assms(1) show ?thesis
    by (auto simp: quiet_def sound_def R.same_regs_def R.same_recs_def)
qed

lemma list_quiet:
  assumes "sound st" "in_reg (reg_List sv w) st = (x, st')"
  shows "quiet st st'"
proof -
  obtain rg where g: "reg_List sv w (apReg st) = (x, rg)" "st' = st\<lparr>apReg := rg\<rparr>"
    using assms(2) by (auto simp: in_reg_def split: prod.splits)
  have o: "ok (rgMeta (apReg st))" using assms(1) by (simp add: sound_def)
  from g(1) have "rgWorld rg = rgWorld (apReg st)" by (auto simp: reg_List_def split: option.splits prod.splits)
  with R.list_spec [OF o g(1)] g show ?thesis by (simp add: quiet_def)
qed

lemma open_quiet:
  assumes d: "dpRegistry d = sv" and s: "sound st" "served (idWorkspace idn) i"
    and o: "openBackend d tk i idn st = (x, st')"
  shows "quiet st st' \<and> (\<forall>b. x = Inr b \<longrightarrow> (\<exists>r kvs h. recs (rgMeta (apReg st)) (idWorkspace idn) i = Some r \<and>
      buildBackend (svEnv sv) (rKind r) (rConfig r) kvs (idWorkspace idn) = Some h \<and> b = svMethods sv h))"
proof -
  obtain y rg where g: "reg_Open sv (tkNow tk) (tkLater tk) (idWorkspace idn) i (apReg st) = (y, rg)" by fastforce
  with o d have x: "x = (case y of Inl e \<Rightarrow> Inl (writeRegistryError e) | Inr h \<Rightarrow> Inr (svMethods sv h))" "st' = st\<lparr>apReg := rg\<rparr>"
    by (auto simp: openBackend_def in_reg_def split: sum.splits)
  have okst: "ok (rgMeta (apReg st))" using s(1) by (simp add: sound_def)
  note S = R.open_spec [OF s(2) okst g]
  then have "quiet st st'" using x(2) by (simp add: quiet_def)
  moreover have "\<exists>r kvs h. recs (rgMeta (apReg st)) (idWorkspace idn) i = Some r \<and>
      buildBackend (svEnv sv) (rKind r) (rConfig r) kvs (idWorkspace idn) = Some h \<and> b = svMethods sv h"
    if "x = Inr b" for b
  proof -
    from that x(1) obtain h where h: "y = Inr h" "b = svMethods sv h" by (auto split: sum.splits)
    with S obtain r c where r: "ValidateWorkspace (idWorkspace idn) = None" "recs (rgMeta (apReg st)) (idWorkspace idn) i = Some r"
      "(\<exists>kvs. buildBackend (svEnv sv) (rKind r) (rConfig r) kvs (idWorkspace idn) = Some h) \<or>
       map_of (rgCache (apReg st)) (key (idWorkspace idn) i) = Some c \<and> chUpdatedAt c = rUpdatedAt r \<and> chBackend c = h" by blast
    with s(1) have "\<exists>kvs. buildBackend (svEnv sv) (rKind r) (rConfig r) kvs (idWorkspace idn) = Some h"
      unfolding sound_def R.cache_fresh_def by blast
    with r h show ?thesis by blast
  qed
  ultimately show ?thesis by blast
qed

text \<open>The reading routes.\<close>

lemma read_routes_quiet:
  assumes d: "dpRegistry d = sv" "\<And>h. reads_pure (svMethods sv h)" and s: "sound st" "served (idWorkspace idn) i"
  shows "handleListObjects d tk i idn r st = (x, st') \<Longrightarrow> quiet st st'"
    and "handleReadObject d tk i idn r st = (x, st') \<Longrightarrow> quiet st st'"
    and "handleStatObject d tk i idn r st = (x, st') \<Longrightarrow> quiet st st'"
proof -
  obtain y st1 where o: "openBackend d tk i idn st = (y, st1)" by fastforce
  note Q = open_quiet [OF d(1) s o]
  have b: "reads_pure b" if "y = Inr b" for b using Q that d(2) by blast
  have list: "st2 = st1" if "y = Inr b" "in_world (bList b opts) st1 = (z, st2)" for b opts z st2
    using in_world_reads [OF reads_pureD(1) [OF b [OF that(1)]] that(2)] .
  have stat: "st2 = st1" if "y = Inr b" "in_world (bStat b p) st1 = (z, st2)" for b p z st2
    using in_world_reads [OF reads_pureD(4) [OF b [OF that(1)]] that(2)] .
  note serve = serve_same [OF b]
  show "handleListObjects d tk i idn r st = (x, st') \<Longrightarrow> quiet st st'"
    using Q o list by (auto simp: handleListObjects_def split: sum.splits option.splits prod.splits)
  show "handleStatObject d tk i idn r st = (x, st') \<Longrightarrow> quiet st st'"
    using Q o stat by (auto simp: handleStatObject_def split: sum.splits prod.splits)
  show "handleReadObject d tk i idn r st = (x, st') \<Longrightarrow> quiet st st'"
    using Q o stat serve
    by (fastforce simp: handleReadObject_def Let_def split: sum.splits prod.splits range_result.splits if_splits)
qed

lemma admission_quiet:
  assumes d: "dpGrants d = gops" and s: "sound st" "idSubject idn \<noteq> []"
    and a: "write_admission d i idn clean createOnly st = (x, st')"
  shows "st' = st \<and> (\<forall>e. x = Inl e \<longrightarrow> rsStatus e \<noteq> 200) \<and>
    (\<forall>g. x = Inr g \<longrightarrow> may_write i idn clean createOnly (grants (apGrants st)) g)"
proof (cases "CanWrite idn \<or> \<not> createOnly")
  case True
  then show ?thesis using a by (auto simp: write_admission_def may_write_def split: if_splits)
next
  case False
  obtain y gs where m: "MatchForUpload gops (idWorkspace idn) (idSubject idn) i clean (apGrants st) = (y, gs)" by fastforce
  have "good (apGrants st)" using s(1) by (simp add: sound_def)
  note exact = G.match_exact [OF this s(2)]
  have same: "gs = apGrants st"
  proof (cases y)
    case (Inl e)
    with m G.list_error [of "idWorkspace idn" "idSubject idn" "apGrants st"] show ?thesis
      by (auto simp: MatchForUpload_def split: prod.splits sum.splits)
  next
    case (Inr z)
    with m exact show ?thesis by blast
  qed
  with False a d m have x: "st' = st" "x = (case y of Inl e \<Rightarrow> Inl (WriteError 502) | Inr None \<Rightarrow> Inl (WriteError 403)
      | Inr (Some g) \<Rightarrow> if \<not> HasExtension clean (gExtensions g) then Inl (WriteError 415) else Inr (Some g))"
    by (auto simp: write_admission_def in_grants_def split: sum.splits option.splits if_splits)
  with False m exact show ?thesis
    by (auto simp: may_write_def split: sum.splits option.splits if_splits)
qed

lemma create_only_quiet:
  assumes d: "dpRegistry d = sv" and s: "sound st" and c: "create_only_check d i idn createOnly st = (x, st')"
  shows "quiet st st' \<and> sound st' \<and> (\<forall>e. x = Some e \<longrightarrow> rsStatus e \<noteq> 200) \<and>
    (x = None \<and> createOnly \<longrightarrow> (\<exists>r. recs (rgMeta (apReg st)) (idWorkspace idn) i = Some r \<and> SupportsCreateOnly r))"
proof (cases createOnly)
  case False
  with c s quiet_refl show ?thesis by (simp add: create_only_check_def)
next
  case True
  obtain y st1 where g: "in_reg (reg_Get sv (idWorkspace idn) i) st = (y, st1)" by fastforce
  have err: "rsStatus (writeRegistryError e) \<noteq> 200" for e
    by (cases e) (simp_all add: writeRegistryError_def fieldError_def)
  from get_quiet [OF s g] True c d g err show ?thesis
    by (auto simp: create_only_check_def split: sum.splits if_splits)
qed

lemma write_error_status: "rsStatus (write_error e) \<noteq> 200"
  by (cases e) (simp_all add: write_error_def writeBackendError_def)

lemma write_effect:
  assumes d: "dpRegistry d = sv" "dpGrants d = gops" and s: "sound st" "served (idWorkspace idn) i" "idSubject idn \<noteq> []"
    and w: "handleWriteObject d tk i idn r st = (resp, st')"
  shows "quiet st st' \<and> rsStatus resp \<noteq> 200 \<or>
    (\<exists>clean g rec kvs h body wr. CleanPath (objectPath r i) = Inr clean \<and>
       may_write i idn clean (rqHeader r ''If-None-Match'' = ''*'') (grants (apGrants st)) g \<and>
       recs (rgMeta (apReg st)) (idWorkspace idn) i = Some rec \<and> (rqHeader r ''If-None-Match'' = ''*'' \<longrightarrow> SupportsCreateOnly rec) \<and>
       buildBackend (svEnv sv) (rKind rec) (rConfig rec) kvs (idWorkspace idn) = Some h \<and>
       body = (if upload_limit (dpMaxUploadBytes d) g > 0 then MaxBytesReader (upload_limit (dpMaxUploadBytes d) g) (rqBody r) else rqBody r) \<and>
       bWrite (svMethods sv h) clean body
         \<lparr>woContentType = cleanContentType d (rqHeader r ''Content-Type''), woCreateOnly = (rqHeader r ''If-None-Match'' = ''*'')\<rparr>
         (rgWorld (apReg st)) = (wr, rgWorld (apReg st')) \<and>
       R.same_regs (apReg st) (apReg st') \<and> apGrants st' = apGrants st \<and>
       (case wr of
          Inl e \<Rightarrow> resp = write_error e \<and> apEvents st' = apEvents st
        | Inr info \<Rightarrow> resp = writeJSON 200 (JInfo info) \<and>
            apEvents st' = apEvents (publishObjectCreated idn i clean (oiSize info) (g \<noteq> None) st)))"
    (is "_ \<or> ?written")
proof -
  let ?co = "rqHeader r ''If-None-Match'' = ''*''"
  have reg_err: "rsStatus (writeRegistryError e) \<noteq> 200" for e
    by (cases e) (simp_all add: writeRegistryError_def fieldError_def)
  have be_err: "rsStatus (writeBackendError e) \<noteq> 200" for e
    by (cases e) (simp_all add: writeBackendError_def)
  show ?thesis
  proof (cases "CleanPath (objectPath r i)")
    case (Inl e)
    with w be_err quiet_refl [OF s(1)] show ?thesis by (auto simp: handleWriteObject_def)
  next
    case clean: (Inr clean)
    obtain x st1 where a: "write_admission d i idn clean ?co st = (x, st1)" by fastforce
    note A = admission_quiet [OF d(2) s(1,3) a]
    show ?thesis
    proof (cases x)
      case (Inl e)
      with w clean a A quiet_refl [OF s(1)] show ?thesis by (auto simp: handleWriteObject_def Let_def)
    next
      case g: (Inr g)
      obtain y st2 where c: "create_only_check d i idn ?co st = (y, st2)" by fastforce
      note C = create_only_quiet [OF d(1) s(1) c]
      show ?thesis
      proof (cases y)
        case (Some e)
        with w clean a A g c C show ?thesis by (auto simp: handleWriteObject_def Let_def)
      next
        case None
        obtain z st3 where o: "openBackend d tk i idn st2 = (z, st3)" by fastforce
        have "sound st2" using C by blast
        note O = open_quiet [OF d(1) this s(2) o]
        have q: "quiet st st3" using O C quiet_trans by blast
        show ?thesis
        proof (cases z)
          case (Inl e)
          with o have "rsStatus e \<noteq> 200"
            using reg_err by (auto simp: openBackend_def in_reg_def split: sum.splits prod.splits)
          with w clean a A g c None o Inl q show ?thesis by (auto simp: handleWriteObject_def Let_def)
        next
          case (Inr b)
          have recs2: "recs (rgMeta (apReg st2)) = recs (rgMeta (apReg st))"
            using C by (simp add: quiet_def R.same_regs_def R.same_recs_def)
          from O Inr obtain rec kvs h where rec: "recs (rgMeta (apReg st)) (idWorkspace idn) i = Some rec"
            "buildBackend (svEnv sv) (rKind rec) (rConfig rec) kvs (idWorkspace idn) = Some h" "b = svMethods sv h"
            unfolding recs2 by blast
          let ?body = "if upload_limit (dpMaxUploadBytes d) g > 0 then MaxBytesReader (upload_limit (dpMaxUploadBytes d) g) (rqBody r) else rqBody r"
          let ?opts = "\<lparr>woContentType = cleanContentType d (rqHeader r ''Content-Type''), woCreateOnly = ?co\<rparr>"
          obtain wr wd where b: "bWrite b clean ?body ?opts (rgWorld (apReg st3)) = (wr, wd)"
            by (rule prod.exhaust)
          have out: "resp = (case wr of Inl e \<Rightarrow> write_error e | Inr info \<Rightarrow> writeJSON 200 (JInfo info))"
            "st' = (case wr of Inl e \<Rightarrow> set_world wd st3
               | Inr info \<Rightarrow> publishObjectCreated idn i clean (oiSize info) (g \<noteq> None) (set_world wd st3))"
            using w clean a A g c None o Inr b
            by (auto simp: handleWriteObject_def Let_def in_world_def split: sum.splits)
          have reg: "apReg st' = (apReg st3)\<lparr>rgWorld := wd\<rparr>" "apGrants st' = apGrants st3"
            unfolding out(2) by (auto simp: set_world_def publishObjectCreated_def split: sum.splits)
          have same: "R.same_regs (apReg st) (apReg st')" "rgWorld (apReg st') = wd" "apGrants st' = apGrants st"
            "rgWorld (apReg st3) = rgWorld (apReg st)" "apEvents st3 = apEvents st"
            using q reg by (simp_all add: quiet_def R.same_regs_def R.same_recs_def)
          have "?written"
            apply (rule exI [of _ clean], rule exI [of _ g], rule exI [of _ rec], rule exI [of _ kvs], rule exI [of _ h],
              rule exI [of _ ?body], rule exI [of _ wr])
            using clean A g rec C None b same out
            by (auto simp: publishObjectCreated_def split: sum.splits)
          then show ?thesis by blast
        qed
      qed
    qed
  qed
qed

text \<open>Revoking by principal: the workspace's own grants of one principal go, and nothing else.\<close>

lemma revoke_effect:
  assumes d: "dpGrants d = gops" and s: "sound st"
    and v: "handleRevokeUploadGrantsByPrincipal d idn r st = (resp, st')"
  shows "quiet st st' \<or> (\<exists>p. decodeBody dec_revokeRequest r = Inr p \<and>
    (IsAdmin idn \<or> IsGrantsService idn \<and> ValidatePrincipal p (idWorkspace idn) = None) \<and>
    apReg st' = apReg st \<and> apEvents st' = apEvents st \<and> good (apGrants st') \<and>
    grants (apGrants st') = {g \<in> grants (apGrants st). \<not> (gWorkspace g = idWorkspace idn \<and> gPrincipal g = p)})"
proof (cases "decodeBody dec_revokeRequest r")
  case (Inl e)
  with v quiet_refl [OF s] show ?thesis by (auto simp: handleRevokeUploadGrantsByPrincipal_def)
next
  case p: (Inr p)
  obtain y gs where g: "goDeleteByPrincipal gops (idWorkspace idn) p (apGrants st) = (y, gs)" by fastforce
  show ?thesis
  proof (cases "IsAdmin idn \<or> IsGrantsService idn \<and> ValidatePrincipal p (idWorkspace idn) = None")
    case False
    with v p quiet_refl [OF s] show ?thesis by (auto simp: handleRevokeUploadGrantsByPrincipal_def)
  next
    case True
    with v p d g have st': "st' = st\<lparr>apGrants := gs\<rparr>"
      by (simp add: handleRevokeUploadGrantsByPrincipal_def in_grants_def RevokePrincipal_def split: sum.splits)
    show ?thesis
    proof (cases y)
      case (Inl e)
      with g G.revoke_error have "gs = apGrants st" by blast
      with st' quiet_refl [OF s] show ?thesis by simp
    next
      case (Inr gone)
      have "good (apGrants st)" using s by (simp add: sound_def)
      from G.revoke_ok [OF this g [unfolded Inr]] st' p True show ?thesis by simp
    qed
  qed
qed

text \<open>The routes that are not the data of one backend.\<close>

lemma view_routes_quiet:
  assumes d: "dpRegistry d = sv" and s: "sound st"
  shows "handleKinds d st = (x, st') \<Longrightarrow> quiet st st'"
    and "handleListBackends d idn st = (x, st') \<Longrightarrow> quiet st st'"
    and "handleGetBackend d i idn st = (x, st') \<Longrightarrow> quiet st st'"
proof -
  show "handleKinds d st = (x, st') \<Longrightarrow> quiet st st'"
    using quiet_refl [OF s] by (auto simp: handleKinds_def)
  show "handleListBackends d idn st = (x, st') \<Longrightarrow> quiet st st'"
    using list_quiet [OF s] d by (auto simp: handleListBackends_def split: prod.splits sum.splits)
  show "handleGetBackend d i idn st = (x, st') \<Longrightarrow> quiet st st'"
    using get_quiet [OF s] d by (auto simp: handleGetBackend_def split: prod.splits sum.splits)
qed

text \<open>An identity that may not write: only the two routes with a check of their own can change anything.\<close>

lemma non_writer_route:
  assumes d: "dpRegistry d = sv" "\<And>h. reads_pure (svMethods sv h)"
    and s: "sound st" "\<And>i. rt = RtListObjects i \<or> rt = RtReadObject i \<or> rt = RtStatObject i \<Longrightarrow> served (idWorkspace idn) i"
    and t: "rt \<notin> unauthenticated" "tier rt idn" "\<not> CanWrite idn" "\<And>i. rt \<noteq> RtWriteObject i" "rt \<noteq> RtRevokePrincipal"
    and h: "handle_route d tk rt idn r st = Some (resp, st')"
  shows "quiet st st'"
proof -
  note reads = read_routes_quiet [OF d s(1)] and views = view_routes_quiet [OF d(1) s(1)]
  have no_admin: "\<not> IsAdmin idn" using t(3) IsAdmin_writes by blast
  show ?thesis
  proof (cases rt)
    case (RtListObjects i)
    with h reads(1) s(2) show ?thesis by simp
  next
    case (RtReadObject i)
    with h reads(2) s(2) show ?thesis by simp
  next
    case (RtStatObject i)
    with h reads(3) s(2) show ?thesis by simp
  qed (use h views t no_admin in \<open>simp_all add: unauthenticated_def\<close>)
qed

text \<open>Removing a registration leaves every object where it is.\<close>

lemma admin_delete_keeps_objects:
  "handleAdminDelete d i idn st = (resp, st') \<Longrightarrow>
     rgWorld (apReg st') = rgWorld (apReg st) \<and> apGrants st' = apGrants st \<and> apEvents st' = apEvents st"
  by (auto simp: handleAdminDelete_def in_reg_def reg_Delete_def invalidate_def split: prod.splits option.splits)

end

section \<open>In memory, and in production\<close>

interpretation mem_api: http_api "memory_service env methods mkErr" memreg_view memreg_ok "\<lambda>j. j" memcred_held
    "\<lambda>w i. slash \<notin> set w" mem_grant_ops mem_inv mem_held
  for env methods mkErr
  by (rule http_api.intro) (rule mem_registry.registry_axioms mem.grant_store_axioms)+

sublocale kube_secrets \<subseteq> prod_api: http_api "production_service c sha env methods mkErr"
    "\<lambda>s. pgreg_view (fst s)" "\<lambda>s. pgreg_ok (fst s)" jsonb kube_held used "pg_grant_ops err is_uuid" "\<lambda>rows. rows_unique (set rows)" set
  for env methods mkErr err is_uuid
  by (rule http_api.intro) (rule production.registry_axioms pg.grant_store_axioms)+

text \<open>
  The state of a server in production: the registry behind one replica, and the table of grants
  as the service filled it, whatever statements failed.
\<close>

inductive grants_reached :: "(string \<Rightarrow> bool) \<Rightarrow> grant_rows \<Rightarrow> bool" for is_uuid where
  empty: "grants_reached is_uuid []"
| step: "grants_reached is_uuid rows \<Longrightarrow> grants_step (pg_grant_ops err is_uuid) set rows rows' \<Longrightarrow> grants_reached is_uuid rows'"

lemma grants_reached_valid: "grants_reached is_uuid rows \<Longrightarrow> rows_unique (set rows) \<and> (\<forall>g \<in> set rows. grant_valid g)"
proof (induction rule: grants_reached.induct)
  case empty
  show ?case by (simp add: rows_unique_def)
next
  case (step rows err rows')
  from pg.step_inv [OF step.hyps(2)] step.IH show ?case by blast
qed

definition api_in_production ::
    "'c secrets_client \<Rightarrow> (string \<Rightarrow> string) \<Rightarrow> env \<Rightarrow> (handle \<Rightarrow> (node \<times> 'w) backend) \<Rightarrow> fs_err option \<Rightarrow> (string \<Rightarrow> string \<Rightarrow> bool) \<Rightarrow>
     (string \<Rightarrow> bool) \<Rightarrow> (pg_state, 'c, 'w, grant_rows) apist \<Rightarrow> bool" where
  "api_in_production c sha env methods mkErr used is_uuid st \<longleftrightarrow>
     (\<exists>n P. in_production c sha env methods mkErr used (apReg st) n P) \<and> grants_reached is_uuid (apGrants st)"

text \<open>The services the layer runs with there; \<open>err\<close> is the failure of the grants' database, if any.\<close>

definition production_deps ::
    "'c secrets_client \<Rightarrow> (string \<Rightarrow> string) \<Rightarrow> env \<Rightarrow> (handle \<Rightarrow> (node \<times> 'w) backend) \<Rightarrow> fs_err option \<Rightarrow>
     string option \<Rightarrow> (string \<Rightarrow> bool) \<Rightarrow> (pg_state, 'c, 'w, grant_rows) deps \<Rightarrow> bool" where
  "production_deps c sha env methods mkErr err is_uuid d \<longleftrightarrow>
     dpRegistry d = production_service c sha env methods mkErr \<and> dpGrants d = pg_grant_ops err is_uuid"

definition same_registry ::
    "('c \<Rightarrow> string \<rightharpoonup> secret) \<Rightarrow> (string \<Rightarrow> string) \<Rightarrow> (string \<Rightarrow> string \<Rightarrow> bool) \<Rightarrow>
     (pg_state, 'c, 'w) regst \<Rightarrow> (pg_state, 'c, 'w) regst \<Rightarrow> bool" where
  "same_registry secs sha used rg rg' \<longleftrightarrow>
     stored_rec rg' = stored_rec rg \<and> (\<forall>w i. used w i \<longrightarrow> stored_secret secs sha rg' w i = stored_secret secs sha rg w i)"

fun route_backend :: "route \<Rightarrow> string option" where
  "route_backend (RtGetBackend i) = Some i" | "route_backend (RtListObjects i) = Some i"
| "route_backend (RtReadObject i) = Some i" | "route_backend (RtStatObject i) = Some i"
| "route_backend (RtWriteObject i) = Some i" | "route_backend (RtDeleteObject i) = Some i"
| "route_backend (RtCreateFolder i) = Some i" | "route_backend (RtDeleteFolder i) = Some i"
| "route_backend (RtMove i) = Some i" | "route_backend (RtAdminGet i) = Some i"
| "route_backend (RtAdminUpdate i) = Some i" | "route_backend (RtAdminDelete i) = Some i"
| "route_backend (RtAdminTestSaved i) = Some i"
| "route_backend _ = None"

end
