(* ===== verification/Api_Example.thy ===== *)
theory Api_Example
  imports Api_Laws
begin

text \<open>
  A concrete request through the whole server: an app with an upload grant for \<open>in/\<close> creates
  \<open>in/x.csv\<close> on the bucket registered and tested in the registry's example.
\<close>

definition demo_grant :: grant where
  "demo_grant = \<lparr>gID = ''u1'', gWorkspace = ''acme'', gPrincipal = ''streamlit:acme:app1'', gBackendID = ''b1'',
     gPrefix = ''in/'', gExtensions = [''csv''], gMaxBytes = 100, gGrantedBy = ''ann'', gCreatedAt = 7000\<rparr>"

definition demo_grant_input :: grant_input where
  "demo_grant_input = \<lparr>giPrincipal = ''streamlit:acme:app1'', giBackendID = ''b1'', giPrefix = ''in'',
     giExtensions = [''.CSV'', ''csv''], giMaxBytes = 100\<rparr>"

definition demo_api :: "(pg_state, mem_secrets, bucket, grant_rows) apist" where
  "demo_api = \<lparr>apReg = demo_st2, apGrants = [demo_grant], apEvents = []\<rparr>"

definition demo_claims :: claims where
  "demo_claims = \<lparr>clSubject = ''streamlit:acme:app1'', clGroups = [''/workspaces/acme/viewer''], clBoothModule = []\<rparr>"

definition demo_app :: identity where
  "demo_app = \<lparr>idSubject = ''streamlit:acme:app1'', idWorkspace = ''acme'', idRole = RoleViewer\<rparr>"

definition demo_deps :: "(pg_state, mem_secrets, bucket, grant_rows) deps" where
  "demo_deps =
     \<lparr>dpVerify = (\<lambda>tok. if tok = ''t'' then Some demo_claims else None), dpRegistry = demo_service,
      dpGrants = pg_grant_ops None (\<lambda>_. True), dpMaxUploadBytes = 0, dpRoute = (\<lambda>_. Some (RtWriteObject ''b1'')),
      dpBroker = (\<lambda>_ st. (WriteError 401, st)), dpParseMediaType = (\<lambda>_. None),
      dpFormatMediaType = (\<lambda>m _. m), dpHttpTime = (\<lambda>_. [])\<rparr>"

definition demo_tick :: tick where
  "demo_tick = \<lparr>tkNow = 7000000, tkLater = 7000000, tkRnd = None, tkUuid = None\<rparr>"

definition demo_request :: request where
  "demo_request =
     \<lparr>rqMethod = ''PUT'', rqPath = ''/api/backends/b1/objects/in/x.csv'',
      rqHeader = (\<lambda>h. if h = ''Authorization'' then ''Bearer t'' else if h = ''X-Booth-Workspace'' then ''acme''
                      else if h = ''If-None-Match'' then ''*'' else []),
      rqQuery = (\<lambda>_. []), rqBody = \<lparr>rdBytes = ''hi'', rdErr = None\<rparr>, rqContentLength = 2\<rparr>"

definition demo_after :: "(pg_state, mem_secrets, bucket, grant_rows) apist" where
  "demo_after =
     \<lparr>apReg = demo_st2\<lparr>rgWorld := (Dir [], [(''team/in/x.csv'', ''hi'')])\<rparr>, apGrants = [demo_grant],
      apEvents = [\<lparr>evWorkspace = ''acme'', evType = ''storage.object.created'', evBackendId = ''b1'', evPath = ''in/x.csv'', evSize = 2,
         evPrincipal = ''streamlit:acme:app1'', evVia = ''app-upload''\<rparr>]\<rparr>"

lemma demo_deps_sel [simp]:
  "dpRegistry demo_deps = demo_service" "dpGrants demo_deps = pg_grant_ops None (\<lambda>_. True)" "dpMaxUploadBytes demo_deps = 0"
  "dpRoute demo_deps r = Some (RtWriteObject ''b1'')"
  by (simp_all add: demo_deps_def)

lemma demo_auth: "authenticate (dpVerify demo_deps) demo_request = Inr demo_app"
proof -
  have "TrimSpace ''t'' = ''t''" by (rule TrimSpace_word; code_simp)
  then have "bearerToken demo_request = ''t''" by (simp add: bearerToken_def demo_request_def EqualFoldAscii_def)
  moreover have "RoleInWorkspace (clGroups demo_claims) ''acme'' = RoleViewer" "grantsServiceWorkspace demo_claims = None" by code_simp+
  moreover have "rqHeader demo_request ''X-Booth-Workspace'' = ''acme''" "rqHeader demo_request ''X-Booth-Role'' = []"
    by (simp_all add: demo_request_def)
  ultimately show ?thesis
    by (simp add: authenticate_def Middleware_def demo_deps_def EffectiveRole_def demo_app_def rank_def demo_claims_def)
qed

lemma demo_grants: "grants_reached (\<lambda>_. True) [demo_grant]"
proof -
  have "ValidatePrincipal ''streamlit:acme:app1'' ''acme'' = None"
    by (simp add: ValidatePrincipal_def principalWorkspace_def principalRE_def byte_classes reservedAppID_def suffix_def cut_first_def)
  moreover have "CleanPrefix ''in'' = Inr ''in/''"
    by (simp add: CleanPrefix_def TrimSuffix_def checkSegments_def maxPathLen_def suffix_def)
  moreover have "ValidateExtensions [''.CSV'', ''csv''] = Inr [''csv'']" by code_simp
  ultimately have "grants_Create (pg_grant_ops None (\<lambda>_. True)) (Some ''u1'') 7123 ''acme'' ''ann'' demo_grant_input [] =
      (Inr demo_grant, [demo_grant])"
    by (simp add: grants_Create_def demo_grant_input_def demo_grant_def TrimSpace_word byte_classes pg_grant_ops_def pg_Upsert_def
        clone_def trunc_micro_def)
  then show ?thesis
    by (intro grants_reached.step [OF grants_reached.empty] grants_step.create [where gid = "''u1''"]) auto
qed

lemma demo_api_production:
  "api_in_production mem_secrets_client (\<lambda>x. x) demo_env demo_methods None small_names (\<lambda>_. True) demo_api"
  using demo_production(3) demo_grants by (auto simp: api_in_production_def demo_api_def)

lemma demo_production_deps:
  "production_deps mem_secrets_client (\<lambda>x. x) demo_env demo_methods None None (\<lambda>_. True) demo_deps"
  by (simp add: production_deps_def)

lemma demo_reads: "reads_pure (demo_methods h)"
proof -
  have "reads_pure (focus snd (\<lambda>x (s :: node \<times> bucket). (fst s, x)) (s3_methods (mem_s3 [] []) b))" for b
    by (auto simp: reads_pure_def focus_def s3_methods_def s3_List_def s3_Read_def s3_ReadRange_def s3_Stat_def s3_open_def
        mem_s3_def mem_list_def mem_lookup_def Let_def split: sum.splits prod.splits option.splits if_splits)
  then show ?thesis by (simp add: demo_methods_def split: handle.splits)
qed

lemma demo_rec_proven: "reg_Get demo_service ''acme'' ''b1'' demo_st2 = (Inr (demo_rec\<lparr>rCreateOnlyVerified := True\<rparr>), demo_st2)"
proof -
  have "ValidateWorkspace ''acme'' = None" "rWorkspace demo_rec = ''acme''" "rID demo_rec = ''b1''" by code_simp+
  then show ?thesis by (simp add: reg_Get_def pg_call_def pgreg_meta_ops_def pgreg_Get_def row_is_def demo_st2_def)
qed

lemma demo_reopen: "reg_Open demo_service 7000000 7000000 ''acme'' ''b1'' demo_st2 = (Inr demo_handle, demo_st2)"
proof -
  have "rUpdatedAt demo_rec = 5000000" "trunc_us 7000000 = 7000000" by code_simp+
  moreover have "rgCache demo_st2 = [(key ''acme'' ''b1'', \<lparr>chUpdatedAt = 5000000, chLoadedAt = 6000000, chBackend = demo_handle\<rparr>)]"
    by (simp add: demo_st2_def)
  ultimately show ?thesis by (simp add: reg_Open_def demo_rec_proven openCacheTTL_def)
qed

lemma demo_put:
  "\<exists>oi. oiSize oi = 2 \<and> bWrite (demo_methods demo_handle) ''in/x.csv'' \<lparr>rdBytes = ''hi'', rdErr = None\<rparr>
     \<lparr>woContentType = [], woCreateOnly = True\<rparr> (Dir [], []) = (Inr oi, (Dir [], [(''team/in/x.csv'', ''hi'')]))"
proof -
  have "CleanPath ''in/x.csv'' = Inr ''in/x.csv''"
    by (simp add: CleanPath_def checkSegments_def TrimSuffix_def suffix_def maxPathLen_def)
  then show ?thesis
    by (simp add: demo_methods_handle s3_Write_def s3_put_result_def mem_s3_def mem_put_def mem_object_def s3_describe_def s3_describe_opt_def
        mem_del_def)
qed

lemma demo_run: "\<exists>oi. handleWriteObject demo_deps demo_tick ''b1'' demo_app demo_request demo_api = (writeJSON 200 (JInfo oi), demo_after)"
proof -
  have path: "CleanPath (objectPath demo_request ''b1'') = Inr ''in/x.csv''"
    by (simp add: objectPath_def demo_request_def TrimPrefix_def CleanPath_def checkSegments_def TrimSuffix_def suffix_def maxPathLen_def)
  have "\<not> CanWrite demo_app" "idWorkspace demo_app = ''acme''" "idSubject demo_app = ''streamlit:acme:app1''"
    by (simp_all add: CanWrite_def demo_app_def)
  note idn = this
  have hdr: "rqHeader demo_request ''If-None-Match'' = ''*''" "rqHeader demo_request ''Content-Type'' = []"
    "rqBody demo_request = \<lparr>rdBytes = ''hi'', rdErr = None\<rparr>"
    by (simp_all add: demo_request_def)
  have "MatchForUpload (pg_grant_ops None (\<lambda>_. True)) ''acme'' ''streamlit:acme:app1'' ''b1'' ''in/x.csv'' [demo_grant] =
      (Inr (Some demo_grant), [demo_grant])"
    by (simp add: MatchForUpload_def pg_grant_ops_def pg_List_def sort_by_id_def demo_grant_def dirOf_def cut_last_def cut_first_def)
  moreover have "HasExtension ''in/x.csv'' (gExtensions demo_grant)" by code_simp
  ultimately have adm: "write_admission demo_deps ''b1'' demo_app ''in/x.csv'' True demo_api = (Inr (Some demo_grant), demo_api)"
    by (simp add: write_admission_def idn in_grants_def demo_api_def)
  have co: "create_only_check demo_deps ''b1'' demo_app True demo_api = (None, demo_api)"
    by (simp add: create_only_check_def in_reg_def idn demo_api_def demo_rec_proven SupportsCreateOnly_def)
  have op: "openBackend demo_deps demo_tick ''b1'' demo_app demo_api = (Inr (demo_methods demo_handle), demo_api)"
    by (simp add: openBackend_def in_reg_def idn demo_tick_def demo_api_def demo_reopen)
  have body: "upload_limit 0 (Some demo_grant) = 100" by (simp add: upload_limit_def demo_grant_def)
  obtain oi where oi: "oiSize oi = 2" "bWrite (demo_methods demo_handle) ''in/x.csv'' \<lparr>rdBytes = ''hi'', rdErr = None\<rparr>
     \<lparr>woContentType = [], woCreateOnly = True\<rparr> (Dir [], []) = (Inr oi, (Dir [], [(''team/in/x.csv'', ''hi'')]))"
    using demo_put by blast
  have "rgWorld (apReg demo_api) = (Dir [], [])" by (simp add: demo_st2_def demo_api_def)
  with path hdr adm co op body oi have "handleWriteObject demo_deps demo_tick ''b1'' demo_app demo_request demo_api =
      (writeJSON 200 (JInfo oi), publishObjectCreated demo_app ''b1'' ''in/x.csv'' 2 True (set_world (Dir [], [(''team/in/x.csv'', ''hi'')]) demo_api))"
    by (simp add: handleWriteObject_def cleanContentType_def in_world_def MaxBytesReader_def)
  moreover have "publishObjectCreated demo_app ''b1'' ''in/x.csv'' 2 True (set_world (Dir [], [(''team/in/x.csv'', ''hi'')]) demo_api) = demo_after"
    by (simp add: publishObjectCreated_def set_world_def demo_api_def demo_after_def idn)
  ultimately show ?thesis by auto
qed

lemma demo_router: "\<exists>oi. NewRouter demo_deps demo_tick demo_request demo_api = Some (writeJSON 200 (JInfo oi), demo_after)"
  using demo_run by (auto simp: NewRouter_def unauthenticated_def demo_auth)

end
