(* ===== verification/Api_Claims.thy ===== *)
theory Api_Claims
  imports Api_Example Registry_Claims
begin

text \<open>
  The properties of the HTTP layer: who is let in, what an identity without write access can
  change, what one write does, on the production registry and grant table.
\<close>

section \<open>The gate\<close>

lemma route_roles_all: "r \<in> route_roles rt \<Longrightarrow> rank r = 0 \<Longrightarrow> route_roles rt = UNIV"
  by (cases rt) (auto simp: rank_def)

lemma NewRouter_cases:
  assumes "dpRoute d r = Some rt" "rt \<notin> unauthenticated" "NewRouter d tk r st = Some (resp, st')"
  obtains "st' = st" "rsStatus resp \<in> {400, 401, 403}"
  | idn where "authenticate (dpVerify d) r = Inr idn" "tier rt idn" "handle_route d tk rt idn r st = Some (resp, st')"
proof (cases "authenticate (dpVerify d) r")
  case (Inl e)
  then have "rsStatus e \<in> {400, 401, 403}"
    by (cases rule: authenticate_cases [of "dpVerify d" r]) auto
  with Inl assms that(1) show ?thesis by (simp add: NewRouter_def)
next
  case (Inr idn)
  with assms that show ?thesis by (cases "tier rt idn") (auto simp: NewRouter_def)
qed

lemma authenticate_token: "authenticate verify r = Inr idn \<Longrightarrow> bearerToken r \<noteq> []"
  by (auto simp: authenticate_def Middleware_def)

text \<open>
  C1. Nothing behind the authenticated routes happens without a token that allows it.  Such a
  request either is refused with 400, 401 or 403 and changes nothing; or its bearer token
  verified, the handler ran under the token's subject in the workspace of the header, and some
  group of the token gives a role there that the route accepts, at least as strong as the role the
  handler ran under (or the token is the grants-service's own for that workspace, on one of the
  routes that check for themselves).
\<close>

theorem authorization_gate:
  assumes "dpRoute d r = Some rt" and "rt \<notin> unauthenticated" and "NewRouter d tk r st = Some (resp, st')"
  shows "st' = st \<and> rsStatus resp \<in> {400, 401, 403} \<or>
    (\<exists>c idn. bearerToken r \<noteq> [] \<and> dpVerify d (bearerToken r) = Some c \<and>
       idSubject idn = clSubject c \<and> idWorkspace idn = rqHeader r ''X-Booth-Workspace'' \<and>
       idRole idn \<in> route_roles rt \<and> handle_route d tk rt idn r st = Some (resp, st') \<and>
       (if IsGrantsService idn
        then clBoothModule c = ''streamlit'' \<and> clSubject c = ''streamlit:'' @ idWorkspace idn @ '':grants'' \<and>
          ((\<exists>i. rt = RtWriteObject i) \<or> rt = RtRevokePrincipal)
        else (\<exists>role \<in> route_roles rt. member (clGroups c) (idWorkspace idn) role \<and> rank (idRole idn) \<le> rank role)))"
  using assms
proof (cases rule: NewRouter_cases)
  case (2 idn)
  note tok = authenticate_token [OF 2(1)]
  show ?thesis
  proof (cases rule: authenticate_cases [of "dpVerify d" r])
    case (2 c)
    let ?idn = "\<lparr>idSubject = clSubject c, idWorkspace = rqHeader r ''X-Booth-Workspace'', idRole = RoleGrantsService\<rparr>"
    from 2(1) \<open>authenticate (dpVerify d) r = Inr idn\<close> have "idn = ?idn" by simp
    moreover have "clBoothModule c = ''streamlit''" "clSubject c = ''streamlit:'' @ idWorkspace ?idn @ '':grants''"
      using 2(3) by (simp_all add: grantsServiceWorkspace_def grantsServiceRE_iff split: if_splits)
    moreover have "(\<exists>i. rt = RtWriteObject i) \<or> rt = RtRevokePrincipal" if "RoleGrantsService \<in> route_roles rt"
      using that assms(2) by (cases rt) (auto simp: unauthenticated_def)
    ultimately show ?thesis
      using 2(2) tok \<open>tier rt idn\<close> \<open>handle_route d tk rt idn r st = Some (resp, st')\<close>
      unfolding tier_roles by (intro disjI2 exI [of _ c] exI [of _ ?idn]) (auto simp: IsGrantsService_def)
  next
    case (3 c)
    let ?ws = "rqHeader r ''X-Booth-Workspace''" and ?f = "rqHeader r ''X-Booth-Role''"
    let ?g = "RoleInWorkspace (clGroups c) ?ws"
    have idn: "idn = \<lparr>idSubject = clSubject c, idWorkspace = ?ws, idRole = EffectiveRole ?f ?g\<rparr>"
      using 3(1) \<open>authenticate (dpVerify d) r = Inr idn\<close> by simp
    have m: "member (clGroups c) ?ws ?g" using RoleInWorkspace_member 3(3) by blast
    have le: "rank (idRole idn) \<le> rank ?g" unfolding idn using EffectiveRole_bounds(1) by simp
    have role: "idRole idn \<in> route_roles rt" using \<open>tier rt idn\<close> by (simp add: tier_roles)
    then have "?g \<in> route_roles rt"
      using route_roles_upward [OF role _ le] route_roles_all [OF role] by blast
    moreover have "\<not> IsGrantsService idn"
      using m EffectiveRole_cases [of ?f ?g] by (auto simp: idn IsGrantsService_def member_def EffectiveRole_def rank_def)
    ultimately show ?thesis
      using 3(2) tok m le role \<open>handle_route d tk rt idn r st = Some (resp, st')\<close>
      by (intro disjI2 exI [of _ c] exI [of _ idn]) (auto simp: idn)
  qed (use \<open>authenticate (dpVerify d) r = Inr idn\<close> in simp)
qed blast

lemma authorization_gate_witness:
  "(\<exists>resp. NewRouter demo_deps demo_tick demo_request demo_api = Some (resp, demo_after)) \<and> demo_after \<noteq> demo_api \<and>
   (\<exists>c. dpVerify demo_deps (bearerToken demo_request) = Some c \<and>
      (\<exists>role. member (clGroups c) ''acme'' role \<or> clSubject c = ''streamlit:acme:grants''))"
proof -
  obtain oi where run: "NewRouter demo_deps demo_tick demo_request demo_api = Some (writeJSON 200 (JInfo oi), demo_after)"
    using demo_router by blast
  have "dpRoute demo_deps demo_request = Some (RtWriteObject ''b1'')" "RtWriteObject ''b1'' \<notin> unauthenticated"
    by (simp_all add: unauthenticated_def)
  note gate = authorization_gate [OF this run]
  have ne: "demo_after \<noteq> demo_api" by (simp add: demo_after_def demo_api_def)
  have "rqHeader demo_request ''X-Booth-Workspace'' = ''acme''" by (simp add: demo_request_def)
  with gate ne run show ?thesis by (auto split: if_splits)
qed

section \<open>What an identity without write access can change\<close>

text \<open>The event that announces a write.\<close>

definition write_event :: "identity \<Rightarrow> string \<Rightarrow> string \<Rightarrow> int \<Rightarrow> event" where
  "write_event idn i clean sz =
     \<lparr>evWorkspace = idWorkspace idn, evType = ''storage.object.created'', evBackendId = i, evPath = clean, evSize = sz,
      evPrincipal = idSubject idn, evVia = (if CanWrite idn then ''workspace-user'' else ''app-upload'')\<rparr>"

text \<open>
  The one object change open to an app: a create-only write of a path right below the prefix of
  a grant held for exactly that workspace, principal and backend, with an extension and a size
  the grant allows, through the client of a backend whose create-only writes are allowed.
\<close>

definition admitted_upload ::
    "env \<Rightarrow> (handle \<Rightarrow> (node \<times> 'w) backend) \<Rightarrow> identity \<Rightarrow> request \<Rightarrow> route \<Rightarrow> grant set \<Rightarrow> (pg_state, 'c, 'w) regst \<Rightarrow> node \<times> 'w \<Rightarrow> bool" where
  "admitted_upload env methods idn r rt gs rg world' \<longleftrightarrow>
     (\<exists>i clean g rec kvs h ct body wr. rt = RtWriteObject i \<and> rqHeader r ''If-None-Match'' = ''*'' \<and>
        CleanPath (objectPath r i) = Inr clean \<and>
        g \<in> gs \<and> gWorkspace g = idWorkspace idn \<and> gPrincipal g = idSubject idn \<and> gBackendID g = i \<and>
        gPrefix g = dirOf clean \<and> HasExtension clean (gExtensions g) \<and> int (length (rdBytes body)) \<le> gMaxBytes g \<and>
        stored_rec rg (idWorkspace idn) i = Some rec \<and> SupportsCreateOnly rec \<and>
        buildBackend env (rKind rec) (rConfig rec) kvs (idWorkspace idn) = Some h \<and>
        bWrite (methods h) clean body \<lparr>woContentType = ct, woCreateOnly = True\<rparr> (rgWorld rg) = (wr, world'))"

lemma admitted_uploadI:
  assumes "rqHeader r ''If-None-Match'' = ''*''" "CleanPath (objectPath r i) = Inr clean" "g \<in> gs" "gWorkspace g = idWorkspace idn"
    "gPrincipal g = idSubject idn" "gBackendID g = i" "gPrefix g = dirOf clean" "HasExtension clean (gExtensions g)"
    "int (length (rdBytes body)) \<le> gMaxBytes g" "stored_rec rg (idWorkspace idn) i = Some rec" "SupportsCreateOnly rec"
    "buildBackend env (rKind rec) (rConfig rec) kvs (idWorkspace idn) = Some h"
    "bWrite (methods h) clean body \<lparr>woContentType = ct, woCreateOnly = True\<rparr> (rgWorld rg) = (wr, world')"
  shows "admitted_upload env methods idn r (RtWriteObject i) gs rg world'"
  using assms unfolding admitted_upload_def by blast

text \<open>The one change of grants: the workspace's grants service takes those of one of its apps away.\<close>

definition service_revocation :: "identity \<Rightarrow> route \<Rightarrow> grant set \<Rightarrow> grant set \<Rightarrow> bool" where
  "service_revocation idn rt gs gs' \<longleftrightarrow>
     rt = RtRevokePrincipal \<and> IsGrantsService idn \<and>
     (\<exists>p. ValidatePrincipal p (idWorkspace idn) = None \<and> gs' = {g \<in> gs. \<not> (gWorkspace g = idWorkspace idn \<and> gPrincipal g = p)})"

text \<open>An upload no larger than its grant allows.\<close>

lemma upload_bounded:
  assumes "0 < gMaxBytes g"
  shows "0 < upload_limit n (Some g)"
    and "int (length (rdBytes (MaxBytesReader (upload_limit n (Some g)) rd))) \<le> gMaxBytes g"
proof -
  show l: "0 < upload_limit n (Some g)" using assms by (auto simp: upload_limit_def)
  have "upload_limit n (Some g) \<le> gMaxBytes g" using assms by (auto simp: upload_limit_def)
  with l MaxBytesReader_bound [of "upload_limit n (Some g)" rd]
  show "int (length (rdBytes (MaxBytesReader (upload_limit n (Some g)) rd))) \<le> gMaxBytes g" by simp
qed

context kube_secrets
begin

lemma prod_sound:
  assumes "api_in_production c sha env methods mkErr used is_uuid st"
  shows "prod_api.sound env methods mkErr st"
proof -
  from assms obtain n P where p: "in_production c sha env methods mkErr used (apReg st) n P" "grants_reached is_uuid (apGrants st)"
    unfolding api_in_production_def by blast
  with prod_state(1) [OF p(1)] prod_state(3) [OF p(1)] grants_reached_valid [OF p(2)] show ?thesis
    by (simp add: prod_api.sound_def)
qed

lemma same_regs_registry:
  assumes "production.same_regs rg rg'"
  shows "same_registry secs sha used rg rg'"
proof -
  have "stored_secret secs sha rg' w i = stored_secret secs sha rg w i" if "used w i" for w i
    using assms held_secret [OF that, of rg] held_secret [OF that, of rg'] by (simp add: production.same_regs_def)
  moreover have "stored_rec rg' = stored_rec rg"
    using assms by (simp add: production.same_regs_def production.same_recs_def stored_rec_def fun_eq_iff)
  ultimately show ?thesis by (simp add: same_registry_def)
qed

text \<open>The route handlers, in production.\<close>

lemma prod_non_writer:
  assumes st: "api_in_production c sha env methods mkErr used is_uuid st"
    and d: "production_deps c sha env methods mkErr err is_uuid d" "\<And>h. reads_pure (methods h)"
    and t: "rt \<notin> unauthenticated" "tier rt idn" "\<not> CanWrite idn" "idSubject idn \<noteq> []"
    and u: "\<And>i. route_backend rt = Some i \<Longrightarrow> used (idWorkspace idn) i"
    and h: "handle_route d tk rt idn r st = Some (resp, st')"
  obtains (quiet) "prod_api.quiet st st'"
  | (upload) i where "rt = RtWriteObject i" "handleWriteObject d tk i idn r st = (resp, st')"
  | (revoke) "rt = RtRevokePrincipal" "handleRevokeUploadGrantsByPrincipal d idn r st = (resp, st')"
proof (cases "(\<exists>i. rt = RtWriteObject i) \<or> rt = RtRevokePrincipal")
  case True
  with h upload revoke show ?thesis by auto
next
  case False
  have reg: "dpRegistry d = production_service c sha env methods mkErr" using d(1) by (simp add: production_deps_def)
  have "used (idWorkspace idn) i" if "rt = RtListObjects i \<or> rt = RtReadObject i \<or> rt = RtStatObject i" for i
    using that u by auto
  from prod_api.non_writer_route [OF reg _ prod_sound [OF st] this t(1-3) _ _ h] False d(2) quiet
  show ?thesis by simp
qed

text \<open>What a request of an identity that may not write has done.\<close>

definition only_admitted ::
    "env \<Rightarrow> (handle \<Rightarrow> (node \<times> 'w) backend) \<Rightarrow> identity \<Rightarrow> request \<Rightarrow> route \<Rightarrow>
     (pg_state, 's, 'w, grant_rows) apist \<Rightarrow> (pg_state, 's, 'w, grant_rows) apist \<Rightarrow> bool" where
  "only_admitted env methods idn r rt st st' \<longleftrightarrow>
     same_registry secs sha used (apReg st) (apReg st') \<and>
     (rgWorld (apReg st') \<noteq> rgWorld (apReg st) \<or> apEvents st' \<noteq> apEvents st \<longrightarrow>
        admitted_upload env methods idn r rt (set (apGrants st)) (apReg st) (rgWorld (apReg st'))) \<and>
     (apGrants st' \<noteq> apGrants st \<longrightarrow> service_revocation idn rt (set (apGrants st)) (set (apGrants st')))"

lemma quiet_only: "prod_api.quiet st st' \<Longrightarrow> only_admitted env methods idn r rt st st'"
  by (simp add: only_admitted_def prod_api.quiet_def same_regs_registry)

lemma upload_only:
  assumes st: "api_in_production c sha env methods mkErr used is_uuid st"
    and d: "production_deps c sha env methods mkErr err is_uuid d"
    and u: "used (idWorkspace idn) i" "idSubject idn \<noteq> []" "\<not> CanWrite idn"
    and h: "handleWriteObject d tk i idn r st = (resp, st')"
  shows "only_admitted env methods idn r (RtWriteObject i) st st'"
proof -
  have deps: "dpRegistry d = production_service c sha env methods mkErr" "dpGrants d = pg_grant_ops err is_uuid"
    using d by (simp_all add: production_deps_def)
  from prod_api.write_effect [OF deps prod_sound [OF st] u(1,2) h, unfolded service_sel]
  show ?thesis
  proof (elim disjE conjE exE)
    assume "prod_api.quiet st st'"
    then show ?thesis by (rule quiet_only)
  next
    fix clean g' rec kvs h body wr
    assume clean: "CleanPath (objectPath r i) = Inr clean"
      and may: "may_write i idn clean (rqHeader r ''If-None-Match'' = ''*'') (set (apGrants st)) g'"
      and rec: "pgreg_view (fst (rgMeta (apReg st))) (idWorkspace idn) i = Some rec"
        "rqHeader r ''If-None-Match'' = ''*'' \<longrightarrow> SupportsCreateOnly rec"
        "buildBackend env (rKind rec) (rConfig rec) kvs (idWorkspace idn) = Some h"
      and body: "body = (if 0 < upload_limit (dpMaxUploadBytes d) g' then MaxBytesReader (upload_limit (dpMaxUploadBytes d) g') (rqBody r)
          else rqBody r)"
      and wrote: "bWrite (methods h) clean body
          \<lparr>woContentType = cleanContentType d (rqHeader r ''Content-Type''), woCreateOnly = rqHeader r ''If-None-Match'' = ''*''\<rparr>
          (rgWorld (apReg st)) = (wr, rgWorld (apReg st'))"
      and same: "production.same_regs (apReg st) (apReg st')" "apGrants st' = apGrants st"
    from may u(3) obtain g where g: "g' = Some g" "rqHeader r ''If-None-Match'' = ''*''" "g \<in> set (apGrants st)"
      "gWorkspace g = idWorkspace idn" "gPrincipal g = idSubject idn" "gBackendID g = i" "gPrefix g = dirOf clean"
      "HasExtension clean (gExtensions g)"
      by (auto simp: may_write_def split: option.splits)
    have "grant_valid g" using st grants_reached_valid g(3) by (auto simp: api_in_production_def)
    then have "0 < gMaxBytes g" by (simp add: grant_valid_def)
    from upload_bounded [OF this] body g(1) have "int (length (rdBytes body)) \<le> gMaxBytes g" by simp
    with clean g rec wrote have "admitted_upload env methods idn r (RtWriteObject i) (set (apGrants st)) (apReg st) (rgWorld (apReg st'))"
      by (intro admitted_uploadI) (simp_all add: stored_rec_def)
    with same same_regs_registry show ?thesis by (simp add: only_admitted_def)
  qed
qed

lemma limit_bounded:
  assumes "0 < n" "may_write i idn clean co (set rows) g" "\<forall>g \<in> set rows. grant_valid g"
    and "body = (if 0 < upload_limit n g then MaxBytesReader (upload_limit n g) rd else rd)"
  shows "int (length (rdBytes body)) \<le> n"
proof -
  have "0 < upload_limit n g \<and> upload_limit n g \<le> n"
    using assms(1-3) by (cases g) (auto simp: upload_limit_def may_write_def grant_valid_def)
  with MaxBytesReader_bound [of "upload_limit n g" rd] assms(4) show ?thesis by simp
qed

lemma prod_write:
  assumes st: "api_in_production c sha env methods mkErr used is_uuid st"
    and d: "production_deps c sha env methods mkErr err is_uuid d"
    and u: "used (idWorkspace idn) i" "idSubject idn \<noteq> []"
    and h: "handleWriteObject d tk i idn r st = (resp, st')"
  shows "same_registry secs sha used (apReg st) (apReg st') \<and> apGrants st' = apGrants st \<and>
    (rsStatus resp \<noteq> 200 \<and> apEvents st' = apEvents st \<and> rgWorld (apReg st') = rgWorld (apReg st) \<or>
     (\<exists>clean rec kvs h body ct wr. CleanPath (objectPath r i) = Inr clean \<and>
        stored_rec (apReg st) (idWorkspace idn) i = Some rec \<and>
        buildBackend env (rKind rec) (rConfig rec) kvs (idWorkspace idn) = Some h \<and>
        (0 < dpMaxUploadBytes d \<longrightarrow> int (length (rdBytes body)) \<le> dpMaxUploadBytes d) \<and>
        bWrite (methods h) clean body \<lparr>woContentType = ct, woCreateOnly = (rqHeader r ''If-None-Match'' = ''*'')\<rparr>
          (rgWorld (apReg st)) = (wr, rgWorld (apReg st')) \<and>
        (case wr of
           Inl e \<Rightarrow> resp = write_error e \<and> rsStatus resp \<noteq> 200 \<and> apEvents st' = apEvents st
         | Inr info \<Rightarrow> resp = writeJSON 200 (JInfo info) \<and>
             apEvents st' = apEvents st @ [write_event idn i clean (oiSize info)])))"
    (is "?same \<and> _ \<and> (_ \<or> ?written)")
proof -
  have deps: "dpRegistry d = production_service c sha env methods mkErr" "dpGrants d = pg_grant_ops err is_uuid"
    using d by (simp_all add: production_deps_def)
  from prod_api.write_effect [OF deps prod_sound [OF st] u h, unfolded service_sel]
  show ?thesis
  proof (elim disjE conjE exE)
    assume "prod_api.quiet st st'" "rsStatus resp \<noteq> 200"
    then show ?thesis by (simp add: prod_api.quiet_def same_regs_registry)
  next
    fix clean g rec kvs h body wr
    let ?co = "rqHeader r ''If-None-Match'' = ''*''"
    assume clean: "CleanPath (objectPath r i) = Inr clean" and may: "may_write i idn clean ?co (set (apGrants st)) g"
      and rec: "pgreg_view (fst (rgMeta (apReg st))) (idWorkspace idn) i = Some rec"
        "buildBackend env (rKind rec) (rConfig rec) kvs (idWorkspace idn) = Some h"
      and body: "body = (if 0 < upload_limit (dpMaxUploadBytes d) g then MaxBytesReader (upload_limit (dpMaxUploadBytes d) g) (rqBody r)
          else rqBody r)"
      and wrote: "bWrite (methods h) clean body
          \<lparr>woContentType = cleanContentType d (rqHeader r ''Content-Type''), woCreateOnly = ?co\<rparr> (rgWorld (apReg st)) =
          (wr, rgWorld (apReg st'))"
      and same: "production.same_regs (apReg st) (apReg st')" "apGrants st' = apGrants st"
      and out: "case wr of
          Inl e \<Rightarrow> resp = write_error e \<and> apEvents st' = apEvents st
        | Inr info \<Rightarrow> resp = writeJSON 200 (JInfo info) \<and>
            apEvents st' = apEvents (publishObjectCreated idn i clean (oiSize info) (g \<noteq> None) st)"
    have "\<forall>g \<in> set (apGrants st). grant_valid g" using st grants_reached_valid by (auto simp: api_in_production_def)
    note len = limit_bounded [OF _ may this body]
    have via: "g \<noteq> None \<longleftrightarrow> \<not> CanWrite idn" using may by (auto simp: may_write_def split: option.splits)
    have out': "case wr of
           Inl e \<Rightarrow> resp = write_error e \<and> rsStatus resp \<noteq> 200 \<and> apEvents st' = apEvents st
         | Inr info \<Rightarrow> resp = writeJSON 200 (JInfo info) \<and> apEvents st' = apEvents st @ [write_event idn i clean (oiSize info)]"
      using out prod_api.write_error_status via by (auto simp: publishObjectCreated_def write_event_def split: sum.splits)
    have "?written"
      unfolding stored_rec_def using clean rec len wrote out' by blast
    with same same_regs_registry show ?thesis by blast
  qed
qed

lemma revoke_only:
  assumes st: "api_in_production c sha env methods mkErr used is_uuid st"
    and d: "production_deps c sha env methods mkErr err is_uuid d" and idn: "\<not> CanWrite idn"
    and h: "handleRevokeUploadGrantsByPrincipal d idn r st = (resp, st')"
  shows "only_admitted env methods idn r RtRevokePrincipal st st'"
proof -
  have "dpGrants d = pg_grant_ops err is_uuid" using d by (simp add: production_deps_def)
  from prod_api.revoke_effect [OF this prod_sound [OF st] h] show ?thesis
  proof
    assume "prod_api.quiet st st'"
    then show ?thesis by (rule quiet_only)
  qed (use idn IsAdmin_writes [of idn] in \<open>auto simp: only_admitted_def same_registry_def service_revocation_def\<close>)
qed

end

text \<open>
  C2. What an app, or anyone else without write access, can change.  Whatever route such an
  identity calls, no registration and no credential changes.  Objects and events change only by
  one create-only write, of a path right below the prefix of a grant the table holds for that
  workspace, principal and backend, with an extension and a size it allows, on a backend whose
  create-only writes are allowed, with the client of its stored configuration.  Grants change
  only when the workspace's own grants service revokes those of one of the workspace's apps.
\<close>

theorem non_writer_effects:
  assumes k: "kube_secrets c secs sha used" and st: "api_in_production c sha env methods mkErr used is_uuid st"
    and d: "production_deps c sha env methods mkErr err is_uuid d" "\<forall>h. reads_pure (methods h)"
    and route: "dpRoute d r = Some rt" "rt \<notin> unauthenticated" "\<forall>i. route_backend rt = Some i \<longrightarrow> used (idWorkspace idn) i"
    and idn: "authenticate (dpVerify d) r = Inr idn" "idSubject idn \<noteq> []" "\<not> CanWrite idn"
    and run: "NewRouter d tk r st = Some (resp, st')"
  shows "same_registry secs sha used (apReg st) (apReg st') \<and>
    (rgWorld (apReg st') \<noteq> rgWorld (apReg st) \<or> apEvents st' \<noteq> apEvents st \<longrightarrow>
       admitted_upload env methods idn r rt (set (apGrants st)) (apReg st) (rgWorld (apReg st'))) \<and>
    (apGrants st' \<noteq> apGrants st \<longrightarrow> service_revocation idn rt (set (apGrants st)) (set (apGrants st')))"
  using route(1,2) run
proof (cases rule: NewRouter_cases)
  case 1
  then show ?thesis by (simp add: same_registry_def)
next
  case (2 idn')
  with idn(1) have h: "tier rt idn" "handle_route d tk rt idn r st = Some (resp, st')" by simp_all
  have u: "used (idWorkspace idn) i" if "route_backend rt = Some i" for i using route(3) that by blast
  have "kube_secrets.only_admitted secs sha used env methods idn r rt st st'"
  proof (rule kube_secrets.prod_non_writer [OF k st d(1) _ route(2) h(1) idn(3,2) u h(2)])
    show "reads_pure (methods h)" for h using d(2) by blast
  qed (use kube_secrets.quiet_only [OF k] kube_secrets.upload_only [OF k st d(1) _ idn(2,3)]
      kube_secrets.revoke_only [OF k st d(1) idn(3)] u in auto)
  then show ?thesis unfolding kube_secrets.only_admitted_def [OF k] .
qed


lemma non_writer_effects_witness:
  "\<exists>resp st'. NewRouter demo_deps demo_tick demo_request demo_api = Some (resp, st') \<and>
     rgWorld (apReg st') = (Dir [], [(''team/in/x.csv'', ''hi'')]) \<and>
     same_registry mem_secs (\<lambda>x. x) small_names (apReg demo_api) (apReg st') \<and>
     admitted_upload demo_env demo_methods demo_app demo_request (RtWriteObject ''b1'') {demo_grant} (apReg demo_api) (rgWorld (apReg st'))"
proof -
  obtain oi where run: "NewRouter demo_deps demo_tick demo_request demo_api = Some (writeJSON 200 (JInfo oi), demo_after)"
    using demo_router by blast
  have reads: "\<forall>h. reads_pure (demo_methods h)" using demo_reads by blast
  have route: "dpRoute demo_deps demo_request = Some (RtWriteObject ''b1'')" "RtWriteObject ''b1'' \<notin> unauthenticated"
    by (simp_all add: unauthenticated_def)
  have used: "\<forall>i. route_backend (RtWriteObject ''b1'') = Some i \<longrightarrow> small_names (idWorkspace demo_app) i"
    by (simp add: demo_app_def small_names_def)
  have idn: "idSubject demo_app \<noteq> []" "\<not> CanWrite demo_app" by (simp_all add: demo_app_def CanWrite_def)
  have world: "rgWorld (apReg demo_after) = (Dir [], [(''team/in/x.csv'', ''hi'')])" "apGrants demo_api = [demo_grant]"
    by (simp_all add: demo_after_def demo_api_def)
  have "apEvents demo_after \<noteq> apEvents demo_api" by (simp add: demo_after_def demo_api_def)
  with non_writer_effects [OF demo_kube demo_api_production demo_production_deps reads route used demo_auth idn run] run world
  show ?thesis by auto
qed

section \<open>What one write does\<close>

text \<open>
  C14. A write does one thing.  Whoever sends it, no registration, credential or grant changes.
  Answered 200, it was one successful write of the cleaned path, no longer than the server's
  limit, create-only exactly if the request said so, by the client of the stored configuration of
  the workspace's own backend, and exactly one event announces it, with its path, size and author.
  Answered otherwise, no event is published, and either no object was touched or it is the
  backend's own failed write.
\<close>

theorem write_route_exact:
  assumes k: "kube_secrets c secs sha used" and st: "api_in_production c sha env methods mkErr used is_uuid st"
    and d: "production_deps c sha env methods mkErr err is_uuid d"
    and u: "used (idWorkspace idn) i" "idSubject idn \<noteq> []"
    and run: "handleWriteObject d tk i idn r st = (resp, st')"
  shows "same_registry secs sha used (apReg st) (apReg st') \<and> apGrants st' = apGrants st \<and>
    (rsStatus resp \<noteq> 200 \<and> apEvents st' = apEvents st \<and> rgWorld (apReg st') = rgWorld (apReg st) \<or>
     (\<exists>clean rec kvs h body ct wr. CleanPath (objectPath r i) = Inr clean \<and>
        stored_rec (apReg st) (idWorkspace idn) i = Some rec \<and>
        buildBackend env (rKind rec) (rConfig rec) kvs (idWorkspace idn) = Some h \<and>
        (0 < dpMaxUploadBytes d \<longrightarrow> int (length (rdBytes body)) \<le> dpMaxUploadBytes d) \<and>
        bWrite (methods h) clean body \<lparr>woContentType = ct, woCreateOnly = (rqHeader r ''If-None-Match'' = ''*'')\<rparr>
          (rgWorld (apReg st)) = (wr, rgWorld (apReg st')) \<and>
        (case wr of
           Inl e \<Rightarrow> resp = write_error e \<and> rsStatus resp \<noteq> 200 \<and> apEvents st' = apEvents st
         | Inr info \<Rightarrow> resp = writeJSON 200 (JInfo info) \<and>
             apEvents st' = apEvents st @ [write_event idn i clean (oiSize info)])))"
  by (rule kube_secrets.prod_write [OF assms])


lemma write_route_exact_witness:
  "\<exists>resp st'. handleWriteObject demo_deps demo_tick ''b1'' demo_app demo_request demo_api = (resp, st') \<and> rsStatus resp = 200 \<and>
     apEvents st' = [write_event demo_app ''b1'' ''in/x.csv'' 2] \<and> apGrants st' = [demo_grant]"
proof -
  obtain oi where run: "handleWriteObject demo_deps demo_tick ''b1'' demo_app demo_request demo_api = (writeJSON 200 (JInfo oi), demo_after)"
    using demo_run by blast
  have "small_names (idWorkspace demo_app) ''b1''" "idSubject demo_app \<noteq> []" by (simp_all add: demo_app_def small_names_def)
  from write_route_exact [OF demo_kube demo_api_production demo_production_deps this run]
  have "apGrants demo_after = apGrants demo_api" by blast
  then have "apGrants demo_after = [demo_grant]" by (simp add: demo_api_def)
  moreover have "apEvents demo_after = [write_event demo_app ''b1'' ''in/x.csv'' 2]"
    by (simp add: demo_after_def write_event_def demo_app_def CanWrite_def)
  ultimately show ?thesis using run by simp
qed

end
