(* ===== verification/Api_Reading.thy ===== *)
theory Api_Reading
  imports Api_Example Fs_Claims
begin

text \<open>
  The reading route over an opened filesystem backend: what a client that asks for a byte range
  gets, from the header to the bytes.
\<close>

section \<open>An opened filesystem backend on the server's disk\<close>

text \<open>The directory at the backend's root path, and the disk with that directory changed.\<close>

definition fs_view :: "string \<Rightarrow> node \<times> 'w \<Rightarrow> node option" where
  "fs_view p wd = (case get (fst wd) (path_segs p) of Inl _ \<Rightarrow> None | Inr n \<Rightarrow> Some n)"

definition fs_put :: "string \<Rightarrow> node option \<Rightarrow> node \<times> 'w \<Rightarrow> node \<times> 'w" where
  "fs_put p x wd =
     (if x = fs_view p wd then wd else (if path_segs p = [] then the x else set_at (path_segs p) x (fst wd), snd wd))"

definition fs_opened :: "(string \<Rightarrow> string) \<Rightarrow> int \<Rightarrow> string option \<Rightarrow> disk \<Rightarrow> string \<Rightarrow> (node \<times> 'w) backend" where
  "fs_opened mime now rnd dk p = focus (fs_view p) (fs_put p) (fs_methods mime now rnd dk)"

lemma fs_put_same [simp]: "fs_put p (fs_view p wd) wd = wd"
  by (simp add: fs_put_def)

lemma fs_reads_same:
  "snd (fs_List mime opts s) = s" "snd (fs_Read mime p s) = s" "snd (fs_ReadRange mime p rg s) = s" "snd (fs_Stat mime p s) = s"
  by (auto simp: fs_List_def fs_Read_def fs_ReadRange_def fs_Stat_def Let_def split: sum.splits node.splits prod.splits)

lemma fs_opened_pure: "reads_pure (fs_opened mime now rnd dk p)"
  unfolding reads_pure_def fs_opened_def focus_def fs_methods_def
  using fs_reads_same by (auto split: prod.splits) (metis fs_put_same snd_conv fs_reads_same)+

lemma fs_opened_at:
  assumes "fs_view root wd = Some t" "is_dir t" "wf_path p" "file_at t (segs p) = Some (c, m)"
  shows "bStat (fs_opened mime now rnd dk root) p wd = (Inr (infoFor mime p c m), wd)"
    and "0 \<le> brStart rg \<Longrightarrow> brStart rg \<le> brEnd rg \<Longrightarrow> brEnd rg < int (length c) \<Longrightarrow>
      bReadRange (fs_opened mime now rnd dk root) p rg wd =
        (Inr (\<lparr>rdBytes = take (nat (brEnd rg - brStart rg + 1)) (drop (nat (brStart rg)) c), rdErr = None\<rparr>, infoFor mime p c m), wd)"
proof -
  have g: "root_Stat p t = Inr (File c m)"
    using assms(2-4) by (auto simp: root_Stat_def file_at_def split: sum.splits node.splits)
  have kept: "fs_put root (Some t) wd = wd" using fs_put_same [of root wd] assms(1) by simp
  show "bStat (fs_opened mime now rnd dk root) p wd = (Inr (infoFor mime p c m), wd)"
    using g assms kept by (simp add: fs_opened_def focus_def fs_methods_def fs_Stat_def CleanPath_Inr [THEN iffD2] openRoot_def)
  show "bReadRange (fs_opened mime now rnd dk root) p rg wd =
        (Inr (\<lparr>rdBytes = take (nat (brEnd rg - brStart rg + 1)) (drop (nat (brStart rg)) c), rdErr = None\<rparr>, infoFor mime p c m), wd)"
    if "0 \<le> brStart rg" "brStart rg \<le> brEnd rg" "brEnd rg < int (length c)"
    using g assms kept that
    by (simp add: fs_opened_def focus_def fs_methods_def fs_ReadRange_def CleanPath_Inr [THEN iffD2] openRoot_def)
qed

section \<open>What a range request gets\<close>

text \<open>The bytes of a slice, one offset at a time.\<close>

lemma slice_bytes:
  assumes "0 \<le> a" "a \<le> b" "b < int (length c)"
  shows "take (nat (b - a + 1)) (drop (nat a) c) = map (\<lambda>j. c ! nat j) [a..b]"
proof (rule nth_equalityI)
  show len: "length (take (nat (b - a + 1)) (drop (nat a) c)) = length (map (\<lambda>j. c ! nat j) [a..b])"
    using assms by simp
  fix k assume k: "k < length (take (nat (b - a + 1)) (drop (nat a) c))"
  then have "k < nat (b - a + 1)" by simp
  then have "[a..b] ! k = a + int k" by (intro nth_upto) simp
  moreover have "nat (a + int k) = nat a + k" using assms(1) by (simp add: nat_add_distrib)
  moreover have "take (nat (b - a + 1)) (drop (nat a) c) ! k = c ! (nat a + k)" using k assms by simp
  moreover have "map (\<lambda>j. c ! nat j) [a..b] ! k = c ! nat ([a..b] ! k)" using k len by (intro nth_map) simp
  ultimately show "take (nat (b - a + 1)) (drop (nat a) c) ! k = map (\<lambda>j. c ! nat j) [a..b] ! k"
    by simp
qed

lemma interval_ends:
  fixes a b :: int
  assumes "{a .. b} = A" "A \<noteq> {}"
  shows "Min A = a" "Max A = b" "a \<le> b"
proof -
  show le: "a \<le> b" using assms by auto
  show "Min A = a" "Max A = b" using le unfolding assms(1) [symmetric] by (auto intro: Min_eqI Max_eqI)
qed

text \<open>
  C30. A client that asks for a byte range of a file gets what the standard says.  For each
  well-formed range, if the range names some offsets of the file, the answer is 206 with exactly
  the bytes at those offsets in order, and its headers state their first and last offset, the size
  of the file, and how many bytes follow; if it names none, the answer is 416 with the file's size
  and no byte of the file.
\<close>

theorem range_read_exact:
  assumes opened: "openBackend d tk i idn st = (Inr (fs_opened mime now rnd dk root), st1)"
    and disk: "fs_view root (rgWorld (apReg st1)) = Some t" "is_dir t" "wf_path (objectPath r i)"
      "file_at t (segs (objectPath r i)) = Some (c, m)"
    and range: "rqHeader r ''Range'' = spec_header sp" "spec_ok sp"
    and run: "handleReadObject d tk i idn r st = (resp, st')" and named: "spec_bytes sp (int (length c)) = named"
  shows "if named = {}
     then rsStatus resp = 416 \<and> rsBody resp = ErrBody None \<and> (''Content-Range'', ''bytes */'' @ dec_int (int (length c))) \<in> set (rsHeaders resp)
     else rsStatus resp = 206 \<and> rsBody resp = Body (Content (map (\<lambda>j. c ! nat j) [Min named..Max named])) \<and>
       named = {Min named..Max named} \<and>
       (''Content-Range'', ''bytes '' @ dec_int (Min named) @ ''-'' @ dec_int (Max named) @ ''/'' @ dec_int (int (length c))) \<in> set (rsHeaders resp) \<and>
       (''Content-Length'', dec_int (int (card named))) \<in> set (rsHeaders resp)"
proof -
  let ?p = "objectPath r i" and ?b = "fs_opened mime now rnd dk root :: (node \<times> _) backend"
  have stat: "in_world (bStat ?b ?p) st1 = (Inr (infoFor mime ?p c m), st1)"
    using fs_opened_at(1) [OF disk, of mime now rnd dk] by (simp add: in_world_def)
  have size: "oiSize (infoFor mime ?p c m) = int (length c)" by (simp add: infoFor_def)
  have "spec_header sp \<noteq> []" by (cases sp) (simp_all add: spec_header_def)
  with run opened stat range(1)
  have "(resp, st') = (case parseRange (spec_header sp) (oiSize (infoFor mime ?p c m)) of
       Unsatisfiable \<Rightarrow>
         (\<lparr>rsStatus = 416,
           rsHeaders = [(''Content-Range'', ''bytes */'' @ dec_int (oiSize (infoFor mime ?p c m))), (''Content-Type'', ''application/json'')],
           rsBody = ErrBody None\<rparr>, st1)
     | NotParsed \<Rightarrow> serveWholeObject d ?b ?p st1
     | Parsed rg \<Rightarrow> serveObjectRange d ?b ?p rg (oiSize (infoFor mime ?p c m)) st1)"
    by (simp add: handleReadObject_def Let_def)
  note h = this [unfolded size]
  note spec = parseRange_spec [OF range(2), of "int (length c)", unfolded named]
  show ?thesis
  proof (cases "parseRange (spec_header sp) (int (length c))")
    case NotParsed
    with spec show ?thesis by simp
  next
    case Unsatisfiable
    with spec h show ?thesis by simp
  next
    case (Parsed rg)
    with spec have rg: "{brStart rg .. brEnd rg} = named" "named \<noteq> {}" by simp_all
    note ends = interval_ends [OF rg]
    have "brStart rg \<in> named" "brEnd rg \<in> named" using rg ends(3) by auto
    then have "0 \<le> brStart rg" "brEnd rg < int (length c)"
      unfolding named [symmetric] by (auto simp: spec_bytes_def split: range_spec.splits)
    note rd = fs_opened_at(2) [OF disk this(1) ends(3) this(2), of mime now rnd dk] and sl = slice_bytes [OF this(1) ends(3) this(2)]
    from h Parsed rd have resp: "resp = object_response d 206 (infoFor mime ?p c m)
             [(''Content-Range'', ''bytes '' @ dec_int (brStart rg) @ ''-'' @ dec_int (brEnd rg) @ ''/'' @ dec_int (int (length c))),
              (''Content-Length'', dec_int (brEnd rg - brStart rg + 1))]
             (Body (Content (map (\<lambda>j. c ! nat j) [brStart rg..brEnd rg])))"
      unfolding sl by (simp add: serveObjectRange_def in_world_def)
    have "int (card named) = brEnd rg - brStart rg + 1" unfolding rg(1) [symmetric] using ends(3) by simp
    with resp rg ends show ?thesis by (simp add: object_response_def)
  qed
qed

text \<open>An example: the file \<open>b\<close> of a registered directory, from its second byte on.\<close>

definition files_service :: "(memreg_recs, mem_creds, bucket) svc" where
  "files_service = memory_service demo_env
     (\<lambda>h. case h of FSHandle p \<Rightarrow> fs_opened no_mime 9 None good_disk p | _ \<Rightarrow> fs_opened no_mime 9 None good_disk []) None"

definition files_rec :: backend_rec where
  "files_rec = \<lparr>rWorkspace = ''acme'', rID = ''f1'', rDisplayName = ''f1'', rKind = KindFilesystem,
     rConfig = JObj [(''rootPath'', JStr ''/data/acme'')], rHasCredentials = False, rCreateOnlyVerified = False,
     rCreatedBy = ''ann'', rCreatedAt = 1000, rUpdatedAt = 1000\<rparr>"

definition files_deps :: "(memreg_recs, mem_creds, bucket, mem_grants) deps" where
  "files_deps =
     \<lparr>dpVerify = (\<lambda>_. None), dpRegistry = files_service, dpGrants = mem_grant_ops, dpMaxUploadBytes = 0,
      dpRoute = (\<lambda>_. Some (RtReadObject ''f1'')),
      dpBroker = (\<lambda>_ st. (WriteError 401, st)), dpParseMediaType = (\<lambda>_. None),
      dpFormatMediaType = (\<lambda>m _. m), dpHttpTime = (\<lambda>_. [])\<rparr>"

definition files_state :: "(memreg_recs, mem_creds, bucket, mem_grants) apist" where
  "files_state =
     \<lparr>apReg = \<lparr>rgMeta = [(key ''acme'' ''f1'', files_rec)], rgCreds = [], rgCache = [],
        rgWorld = (Dir [(''data'', Dir [(''acme'', example_tree)])], [])\<rparr>, apGrants = [], apEvents = []\<rparr>"

definition files_request :: request where
  "files_request =
     \<lparr>rqMethod = ''GET'', rqPath = ''/api/backends/f1/objects/b'',
      rqHeader = (\<lambda>h. if h = ''Range'' then ''bytes=1-5'' else []),
      rqQuery = (\<lambda>_. []), rqBody = \<lparr>rdBytes = [], rdErr = None\<rparr>, rqContentLength = 0\<rparr>"

lemma range_read_exact_witness:
  "\<exists>resp st'. handleReadObject files_deps demo_tick ''f1'' demo_app files_request files_state = (resp, st') \<and>
     rsStatus resp = 206 \<and> rsBody resp = Body (Content ''33'') \<and> (''Content-Length'', ''2'') \<in> set (rsHeaders resp)"
proof -
  have rec: "ValidateWorkspace ''acme'' = None" "clone_rec files_rec = files_rec" "\<not> rHasCredentials files_rec"
    "buildBackend demo_env (rKind files_rec) (rConfig files_rec) [] ''acme'' = Some (FSHandle ''/data/acme'')"
    by code_simp+
  obtain st1 where o: "openBackend files_deps demo_tick ''f1'' demo_app files_state =
      (Inr (fs_opened no_mime 9 None good_disk ''/data/acme''), st1)" "rgWorld (apReg st1) = rgWorld (apReg files_state)"
    using rec by (auto simp: openBackend_def in_reg_def reg_Open_def reg_Get_def files_deps_def files_service_def files_state_def
        memory_service_def memreg_meta_ops_def memreg_Get_def demo_app_def)
  have segs: "path_segs ''/data/acme'' = [''data'', ''acme'']" by code_simp
  have disk: "fs_view ''/data/acme'' (rgWorld (apReg st1)) = Some example_tree"
    using segs o(2) by (simp add: fs_view_def files_state_def)
  have path: "objectPath files_request ''f1'' = ''b''" by code_simp
  have found: "is_dir example_tree" "wf_path (objectPath files_request ''f1'')"
    "file_at example_tree (segs (objectPath files_request ''f1'')) = Some (''333'', 7)"
    unfolding path by code_simp+
  have header: "rqHeader files_request ''Range'' = spec_header (FromTo 1 5)" by code_simp
  have ok: "spec_ok (FromTo 1 5)" by code_simp
  have named: "spec_bytes (FromTo 1 5) (int (length ''333'')) = {1, 2}" by (auto simp: spec_bytes_def)
  obtain resp st' where run: "handleReadObject files_deps demo_tick ''f1'' demo_app files_request files_state = (resp, st')"
    by fastforce
  have "[1..2::int] = [1, 2]" "dec_int 2 = ''2''" by code_simp+
  with range_read_exact [OF o(1) disk found header ok run named] run show ?thesis by simp
qed

end
