(* ===== verification/Api_Events.thy ===== *)
theory Api_Events
  imports Api_Claims Event_Bus
begin

text \<open>
  From a request to the event bus: what \<^verbatim>\<open>publishObjectCreated\<close> of \<^verbatim>\<open>internal/api/server.go\<close> hands to
  the publisher of \<^verbatim>\<open>internal/eventbus\<close>, and what a subscriber reads back from the message.
\<close>

text \<open>The data of an event; \<^verbatim>\<open>json.Marshal\<close> writes a map with its keys sorted.\<close>

definition event_data :: "event \<Rightarrow> json" where
  "event_data e =
     JObj [(''backendId'', JStr (evBackendId e)), (''path'', JStr (evPath e)), (''principal'', JStr (evPrincipal e)),
           (''size'', JNum (dec_int (evSize e))), (''via'', JStr (evVia e))]"

text \<open>\<^verbatim>\<open>s.Events.Publish\<close> with the publisher the process runs with.\<close>

definition publish_event ::
    "('c, 'j, 'w) bus_env \<Rightarrow> int \<Rightarrow> event \<Rightarrow> ('c, 'j) lazy \<Rightarrow> 'w \<Rightarrow> bus_err option \<times> ('c, 'j) lazy \<times> 'w" where
  "publish_event env now e lp w = lazy_Publish env now (evWorkspace e) (evType e) (event_data e) lp w"

definition announcement :: "string \<Rightarrow> event \<Rightarrow> json" where
  "announcement at e =
     JObj [(''workspace'', JStr (evWorkspace e)), (''eventType'', JStr (evType e)), (''publishedAt'', JStr at),
           (''publishedBy'', JStr ModuleID), (''data'', event_data e)]"

lemma announcement_fits:
  assumes "to_valid at = at" "to_valid (evWorkspace e) = evWorkspace e" "to_valid (evType e) = evType e"
    "to_valid (evBackendId e) = evBackendId e" "to_valid (evPath e) = evPath e" "to_valid (evPrincipal e) = evPrincipal e"
    "to_valid (evVia e) = evVia e"
  shows "fits maxNestingDepth (announcement at e)"
  using assms by (simp add: announcement_def event_data_def ModuleID_def ascii_valid num_lit_dec_int maxNestingDepth_def)

lemma slug_valid: "list_all is_slug s \<Longrightarrow> to_valid s = s"
  by (intro ascii_valid) (auto simp: list_all_iff is_slug_def is_alnum_def is_lower_def is_digit_def)

lemma publish_connected:
  assumes "lzCurrent lp = Some p" "buTime env now = Some at"
  shows "publish_event env now e lp w =
    (case buSend env (npJS p) (Subject (evWorkspace e) (evType e)) (json_text (announcement at e)) w of
       (ok, w') \<Rightarrow> (if ok then None else Some PublishFailed, lp, w'))"
  using assms
  by (simp add: publish_event_def lazy_Publish_def nats_Publish_def envelope_json_def announcement_def split: prod.split bool.split)


definition demo_lazy :: "(unit, unit) lazy" where
  "demo_lazy = \<lparr>lzDir = ''/creds'', lzNoop = NewNoopPublisher True, lzCurrent = Some \<lparr>npJS = (), npConn = ()\<rparr>\<rparr>"


section \<open>A path that is not text\<close>

text \<open>
  \<^const>\<open>CleanPath\<close> lets any bytes but NUL and backslash through, and JSON carries only valid UTF-8: a file
  whose name is not text is announced, and listed, under another name.
\<close>

lemma member_read: "to_valid k = k \<Longrightarrow> Unmarshal (json_text (JObj [(k, JStr s)])) = Some (JObj [(k, JStr (to_valid s))])"
proof -
  assume k: "to_valid k = k"
  have "scan [] MValue (CHR ''{'' # u) = scan [FKey []] MKeyOrEnd u" for u
    by (simp add: begin_value_def is_space_def push_def maxNestingDepth_def)
  moreover have "scan [FKey []] MKeyOrEnd (quote_str k @ CHR '':'' # u) = scan [FVal [] k] MValue u" for u
    using scan_key [OF _ k] by (simp add: scan_member_end del: scan.simps)
  moreover have "scan [FVal [] k] MValue (quote_str s @ u) = scan [FVal [] k] (MDone (JStr (to_valid s))) u" for u
    using scan_quoted [of "[FVal [] k]" s u] by (simp add: quote_str_def begin_value_def is_space_def)
  moreover have "scan [FVal [] k] (MDone (JStr (to_valid s))) ''}'' = Value (JObj [(k, JStr (to_valid s))]) []"
    by (simp add: scan_member_end shut_def del: scan.simps)
  ultimately show ?thesis by (simp add: Unmarshal_def del: scan.simps)
qed

theorem announced_under_another_name:
  "CleanPath [CHR ''a'', CHR 0xFF] = Inr [CHR ''a'', CHR 0xFF] \<and>
   Unmarshal (json_text (JObj [(''path'', JStr [CHR ''a'', CHR 0xFF])])) = Some (JObj [(''path'', JStr (CHR ''a'' # replacement))])"
proof -
  have "to_valid [CHR ''a'', CHR 0xFF] = CHR ''a'' # replacement" by (simp add: to_valid.simps)
  moreover have "to_valid ''path'' = ''path''" by (simp add: ascii_valid)
  ultimately show ?thesis
    using member_read [of "''path''" "[CHR ''a'', CHR 0xFF]"]
    by (simp add: CleanPath_def checkSegments_def TrimSuffix_def suffix_def maxPathLen_def del: json_text.simps)
qed

end
