(* ===== verification/Lease_Store.thy ===== *)
theory Lease_Store
  imports Upload_Grants
begin

text \<open>
  \<^verbatim>\<open>internal/seaweedfslease\<close>: the record of every SeaweedFS credential the module has minted
  (\<^verbatim>\<open>model.go\<close>), in memory (\<^verbatim>\<open>memory.go\<close>) and in PostgreSQL (\<^verbatim>\<open>postgres.go\<close>).  The contract is
  the locale \<open>lease_store\<close>.  Times are nanoseconds; a timestamp column keeps microseconds.
\<close>

section \<open>Leases\<close>

record lease =
  leID :: string
  leWorkspace :: string
  leBackendID :: string
  leIAMUserName :: string
  leAccessKeyID :: string
  lePrefix :: string
  leAccess :: string
  leExpiresAt :: int
  leCreatedAt :: int
  leSweptAt :: "int option"

record 'l lease_ops =
  lsRecord :: "lease \<Rightarrow> 'l \<Rightarrow> string option \<times> 'l"
  lsPendingSweep :: "int \<Rightarrow> int \<Rightarrow> 'l \<Rightarrow> (string + lease list) \<times> 'l"
  lsMarkSwept :: "string \<Rightarrow> int \<Rightarrow> 'l \<Rightarrow> string option \<times> 'l"
  lsActiveCount :: "int \<Rightarrow> 'l \<Rightarrow> (string + nat) \<times> 'l"
  lsPing :: "'l \<Rightarrow> string option"

definition pending_lease :: "int \<Rightarrow> lease \<Rightarrow> bool" where
  "pending_lease now l \<longleftrightarrow> leSweptAt l = None \<and> leExpiresAt l < now"

section \<open>In memory\<close>

text \<open>The Go map from id to lease, as an association list in an iteration order of the map.\<close>

type_synonym mem_leases = "(string \<times> lease) list"

definition ml_put :: "string \<Rightarrow> lease \<Rightarrow> mem_leases \<Rightarrow> mem_leases" where
  "ml_put i l m = (i, l) # filter (\<lambda>e. fst e \<noteq> i) m"

definition ml_Record :: "lease \<Rightarrow> mem_leases \<Rightarrow> string option \<times> mem_leases" where
  "ml_Record l m = (None, ml_put (leID l) l m)"

definition ml_PendingSweep :: "int \<Rightarrow> int \<Rightarrow> mem_leases \<Rightarrow> (string + lease list) \<times> mem_leases" where
  "ml_PendingSweep now limit m =
     (let out = sort_key leExpiresAt (filter (pending_lease now) (map snd m)) in
      (Inr (if limit > 0 \<and> int (length out) > limit then take (nat limit) out else out), m))"

definition ml_MarkSwept :: "string \<Rightarrow> int \<Rightarrow> mem_leases \<Rightarrow> string option \<times> mem_leases" where
  "ml_MarkSwept i at m =
     (case map_of m i of None \<Rightarrow> (None, m) | Some l \<Rightarrow> (None, ml_put i (l\<lparr>leSweptAt := Some at\<rparr>) m))"

definition ml_ActiveCount :: "int \<Rightarrow> mem_leases \<Rightarrow> (string + nat) \<times> mem_leases" where
  "ml_ActiveCount now m =
     (Inr (length (filter (\<lambda>l. leSweptAt l = None \<and> \<not> leExpiresAt l < now) (map snd m))), m)"

definition ml_ops :: "mem_leases lease_ops" where
  "ml_ops = \<lparr>lsRecord = ml_Record, lsPendingSweep = ml_PendingSweep, lsMarkSwept = ml_MarkSwept,
     lsActiveCount = ml_ActiveCount, lsPing = (\<lambda>_. None)\<rparr>"

section \<open>In PostgreSQL\<close>

text \<open>
  The statements on the rows of \<^verbatim>\<open>storage_seaweedfs_leases\<close>.  \<open>err\<close> is the failure of the
  connection or statement, if any; \<open>is_uuid\<close> tells which ids PostgreSQL reads as a UUID.
\<close>

type_synonym lease_rows = "lease list"

definition pl_row :: "lease \<Rightarrow> lease" where
  "pl_row l = l\<lparr>leExpiresAt := trunc_micro (leExpiresAt l), leCreatedAt := trunc_micro (leCreatedAt l),
     leSweptAt := map_option trunc_micro (leSweptAt l)\<rparr>"

definition pl_Record :: "string option \<Rightarrow> (string \<Rightarrow> bool) \<Rightarrow> lease \<Rightarrow> lease_rows \<Rightarrow> string option \<times> lease_rows" where
  "pl_Record err is_uuid l rows =
     (case err of
        Some e \<Rightarrow> (Some e, rows)
      | None \<Rightarrow>
          if \<not> is_uuid (leID l) then (Some ''invalid input syntax for type uuid'', rows)
          else if leID l \<in> leID ` set rows then (Some ''unique violation'', rows)
          else (None, rows @ [pl_row l]))"

definition pl_PendingSweep :: "string option \<Rightarrow> int \<Rightarrow> int \<Rightarrow> lease_rows \<Rightarrow> (string + lease list) \<times> lease_rows" where
  "pl_PendingSweep err now limit rows =
     (case err of
        Some e \<Rightarrow> (Inl e, rows)
      | None \<Rightarrow>
          if limit < 0 then (Inl ''LIMIT must not be negative'', rows)
          else (Inr (take (nat limit) (sort_key leExpiresAt (filter (pending_lease (trunc_micro now)) rows))), rows))"

definition pl_MarkSwept :: "string option \<Rightarrow> (string \<Rightarrow> bool) \<Rightarrow> string \<Rightarrow> int \<Rightarrow> lease_rows \<Rightarrow> string option \<times> lease_rows" where
  "pl_MarkSwept err is_uuid i at rows =
     (case err of
        Some e \<Rightarrow> (Some e, rows)
      | None \<Rightarrow>
          if \<not> is_uuid i then (None, rows)
          else (None, map (\<lambda>l. if leID l = i then l\<lparr>leSweptAt := Some (trunc_micro at)\<rparr> else l) rows))"

definition pl_ActiveCount :: "string option \<Rightarrow> int \<Rightarrow> lease_rows \<Rightarrow> (string + nat) \<times> lease_rows" where
  "pl_ActiveCount err now rows =
     (case err of
        Some e \<Rightarrow> (Inl e, rows)
      | None \<Rightarrow> (Inr (length (filter (\<lambda>l. leSweptAt l = None \<and> leExpiresAt l \<ge> trunc_micro now) rows)), rows))"

definition pl_ops :: "string option \<Rightarrow> (string \<Rightarrow> bool) \<Rightarrow> lease_rows lease_ops" where
  "pl_ops err is_uuid = \<lparr>lsRecord = pl_Record err is_uuid, lsPendingSweep = pl_PendingSweep err, lsMarkSwept = pl_MarkSwept err is_uuid,
     lsActiveCount = pl_ActiveCount err, lsPing = (\<lambda>_. err)\<rparr>"

section \<open>The contract\<close>

text \<open>
  \<open>leased s i\<close> is the lease held under id \<open>i\<close>; \<open>canon\<close> is what a column keeps of a time.  Ids
  are fresh UUIDs.
\<close>

locale lease_store =
  fixes ops :: "'l lease_ops" and ok :: "'l \<Rightarrow> bool" and leased :: "'l \<Rightarrow> string \<rightharpoonup> lease" and canon :: "lease \<Rightarrow> lease"
    and is_id :: "string \<Rightarrow> bool"
  assumes leased_id: "ok s \<Longrightarrow> leased s i = Some l \<Longrightarrow> leID l = i \<and> is_id i"
    and canon_same: "leID (canon l) = leID l \<and> leWorkspace (canon l) = leWorkspace l \<and> leBackendID (canon l) = leBackendID l \<and>
      leIAMUserName (canon l) = leIAMUserName l \<and> leAccessKeyID (canon l) = leAccessKeyID l \<and> lePrefix (canon l) = lePrefix l \<and>
      leAccess (canon l) = leAccess l \<and> leExpiresAt (canon l) \<le> leExpiresAt l \<and> (leSweptAt (canon l) = None \<longleftrightarrow> leSweptAt l = None)"
    and recorded: "ok s \<Longrightarrow> is_id (leID l) \<Longrightarrow> leased s (leID l) = None \<Longrightarrow> lsRecord ops l s = (e, s') \<Longrightarrow>
      ok s' \<and> (if e = None then leased s' = (leased s)(leID l \<mapsto> canon l) else leased s' = leased s)"
    and pending: "ok s \<Longrightarrow> 0 < n \<Longrightarrow> lsPendingSweep ops now n s = (x, s') \<Longrightarrow>
      s' = s \<and> (\<forall>ls. x = Inr ls \<longrightarrow> distinct (map leID ls) \<and> sorted (map leExpiresAt ls) \<and> int (length ls) \<le> n \<and>
        (\<forall>l \<in> set ls. leased s (leID l) = Some l \<and> pending_lease now l) \<and>
        (int (length ls) < n \<longrightarrow> (\<forall>i l. leased s i = Some l \<longrightarrow> leSweptAt l = None \<longrightarrow> leExpiresAt l < now - 1000 \<longrightarrow> l \<in> set ls)))"
    and marked: "ok s \<Longrightarrow> lsMarkSwept ops i at s = (e, s') \<Longrightarrow>
      ok s' \<and> (if e = None
        then (\<exists>t. leased s' = (case leased s i of None \<Rightarrow> leased s | Some l \<Rightarrow> (leased s)(i \<mapsto> l\<lparr>leSweptAt := Some t\<rparr>)))
        else leased s' = leased s)"
    and counted: "ok s \<Longrightarrow> lsActiveCount ops now s = (c, s') \<Longrightarrow> s' = s"

section \<open>Both stores keep it\<close>

definition ml_ok :: "mem_leases \<Rightarrow> bool" where
  "ml_ok m \<longleftrightarrow> distinct (map fst m) \<and> (\<forall>e \<in> set m. leID (snd e) = fst e)"

definition pl_leased :: "lease_rows \<Rightarrow> string \<rightharpoonup> lease" where
  "pl_leased rows i = find (\<lambda>l. leID l = i) rows"

definition pl_ok :: "(string \<Rightarrow> bool) \<Rightarrow> lease_rows \<Rightarrow> bool" where
  "pl_ok is_uuid rows \<longleftrightarrow> distinct (map leID rows) \<and> (\<forall>l \<in> set rows. is_uuid (leID l))"

text \<open>The first leases in order of expiry: which they are, and when that is all of them.\<close>

lemma trunc_micro_le: "trunc_micro t \<le> t" "t - 1000 < trunc_micro t"
  unfolding trunc_micro_def by simp_all

lemma pending_page:
  fixes rows :: "lease list"
  assumes d: "distinct (map leID rows)" and n: "0 < n" and t: "t \<le> now" "now - 1000 < t"
    and ls: "ls = take (nat n) (sort_key leExpiresAt (filter (pending_lease t) rows))"
  shows "distinct (map leID ls) \<and> sorted (map leExpiresAt ls) \<and> int (length ls) \<le> n \<and>
    (\<forall>l \<in> set ls. l \<in> set rows \<and> pending_lease now l) \<and>
    (int (length ls) < n \<longrightarrow> (\<forall>l \<in> set rows. leSweptAt l = None \<longrightarrow> leExpiresAt l < now - 1000 \<longrightarrow> l \<in> set ls))"
proof -
  let ?all = "sort_key leExpiresAt (filter (pending_lease t) rows)"
  have "distinct (map leID (filter (pending_lease t) rows))" using d by (simp add: distinct_map_filter)
  then have "distinct (map leID ?all)" by (simp add: distinct_map)
  then have "distinct (map leID ls)" unfolding ls by (metis distinct_take take_map)
  moreover have "sorted (map leExpiresAt ls)" unfolding ls by (metis sorted_sort_key sorted_wrt_take take_map)
  moreover have "int (length ls) \<le> n" using n unfolding ls by simp
  moreover have "\<forall>l \<in> set ls. l \<in> set rows \<and> pending_lease now l"
    using t(1) unfolding ls by (auto simp: pending_lease_def dest: in_set_takeD)
  moreover have "\<forall>l \<in> set rows. leSweptAt l = None \<longrightarrow> leExpiresAt l < now - 1000 \<longrightarrow> l \<in> set ls" if "int (length ls) < n"
  proof -
    have "ls = ?all" using that n unfolding ls by simp
    then show ?thesis using t(2) by (auto simp: pending_lease_def)
  qed
  ultimately show ?thesis by blast
qed

lemma ml_leased_mem: "ml_ok m \<Longrightarrow> map_of m i = Some l \<longleftrightarrow> l \<in> set (map snd m) \<and> leID l = i"
  by (force simp: ml_ok_def dest: map_of_SomeD intro: map_of_is_SomeI)

lemma ml_put_ok: "ml_ok m \<Longrightarrow> leID l = i \<Longrightarrow> ml_ok (ml_put i l m) \<and> map_of (ml_put i l m) = (map_of m)(i \<mapsto> l)"
  by (auto simp: ml_ok_def ml_put_def distinct_map_filter map_of_filter_ne fun_eq_iff)

lemma ml_ids:
  assumes "ml_ok m"
  shows "distinct (map leID (map snd m))"
proof -
  have "map leID (map snd m) = map fst m" using assms by (auto simp: ml_ok_def)
  with assms show ?thesis by (simp only: ml_ok_def)
qed

lemma pl_leased_mem: "pl_ok u rows \<Longrightarrow> pl_leased rows i = Some l \<longleftrightarrow> l \<in> set rows \<and> leID l = i"
proof -
  assume ok: "pl_ok u rows"
  have one: "l = h" if "l \<in> set rows" "h \<in> set rows" "leID l = leID h" for l h
    using that ok by (auto simp: pl_ok_def distinct_map dest: inj_onD)
  show ?thesis
  proof
    assume "pl_leased rows i = Some l"
    then show "l \<in> set rows \<and> leID l = i" by (auto simp: pl_leased_def dest: find_Some_mem)
  next
    assume l: "l \<in> set rows \<and> leID l = i"
    then have "pl_leased rows i \<noteq> None" by (auto simp: pl_leased_def find_None_iff)
    then obtain h where h: "pl_leased rows i = Some h" by blast
    then have "h \<in> set rows" "leID h = i" by (auto simp: pl_leased_def dest: find_Some_mem)
    with one l h show "pl_leased rows i = Some l" by auto
  qed
qed

interpretation ml: lease_store ml_ops ml_ok map_of "\<lambda>l. l" "\<lambda>_. True"
proof (unfold_locales, goal_cases)
  case (1 s i l)
  then show ?case by (simp add: ml_leased_mem)
next
  case (3 s l e s')
  with ml_put_ok [of s l "leID l"] show ?case by (auto simp: ml_ops_def ml_Record_def)
next
  case (4 s n now x s')
  let ?all = "sort_key leExpiresAt (filter (pending_lease now) (map snd s))"
  from 4(2) have page: "(if n > 0 \<and> int (length ?all) > n then take (nat n) ?all else ?all) = take (nat n) ?all" by simp
  have "lsPendingSweep ml_ops now n s = (Inr (if n > 0 \<and> int (length ?all) > n then take (nat n) ?all else ?all), s)"
    by (simp only: ml_ops_def ml_PendingSweep_def Let_def lease_ops.simps)
  note r = trans [OF 4(3) [symmetric] this, unfolded page]
  have s: "s' = s" "x = Inr (take (nat n) ?all)"
    using arg_cong [OF r, of fst] arg_cong [OF r, of snd] by (simp_all only: fst_conv snd_conv)
  have mem: "l \<in> set (map snd s) \<Longrightarrow> map_of s (leID l) = Some l" "map_of s i = Some l \<Longrightarrow> l \<in> set (map snd s)" for i l
    using ml_leased_mem [OF 4(1), of "leID l" l] ml_leased_mem [OF 4(1), of i l] by blast+
  have "now \<le> now" "now - 1000 < now" by simp_all
  note page = pending_page [OF ml_ids [OF 4(1)] 4(2) this refl]
  show ?case
  proof (intro conjI allI impI s(1))
    fix ls assume "x = Inr ls"
    then have ls: "take (nat n) ?all = ls" unfolding s(2) by (simp only: sum.inject)
    note P = page [unfolded ls]
    show "distinct (map leID ls)" "sorted (map leExpiresAt ls)" "int (length ls) \<le> n" using P by blast+
    show "\<forall>l \<in> set ls. map_of s (leID l) = Some l \<and> pending_lease now l" using P mem(1) by blast
    show "l \<in> set ls" if "int (length ls) < n" "map_of s i = Some l" "leSweptAt l = None" "leExpiresAt l < now - 1000" for i l
      using P that mem(2) by blast
  qed
next
  case (5 s i t e s')
  show ?case
  proof (cases "map_of s i")
    case None
    with 5 show ?thesis by (auto simp: ml_ops_def ml_MarkSwept_def)
  next
    case (Some l)
    with ml_leased_mem [OF 5(1)] have "leID (l\<lparr>leSweptAt := Some t\<rparr>) = i" by simp
    from ml_put_ok [OF 5(1) this] Some 5(2) show ?thesis by (auto simp: ml_ops_def ml_MarkSwept_def)
  qed
qed (auto simp: ml_ops_def ml_ActiveCount_def)

lemma pl_row_sel [simp]:
  "leID (pl_row l) = leID l" "leWorkspace (pl_row l) = leWorkspace l" "leBackendID (pl_row l) = leBackendID l"
  "leIAMUserName (pl_row l) = leIAMUserName l" "leAccessKeyID (pl_row l) = leAccessKeyID l" "lePrefix (pl_row l) = lePrefix l"
  "leAccess (pl_row l) = leAccess l" "leExpiresAt (pl_row l) = trunc_micro (leExpiresAt l)" "leSweptAt (pl_row l) = map_option trunc_micro (leSweptAt l)"
  by (simp_all add: pl_row_def)

lemma pl_leased_map:
  assumes "\<And>l. leID (f l) = leID l"
  shows "pl_leased (map (\<lambda>l. if leID l = i then f l else l) rows) =
    (case pl_leased rows i of None \<Rightarrow> pl_leased rows | Some l \<Rightarrow> (pl_leased rows)(i \<mapsto> f l))"
proof (rule ext)
  fix j
  show "pl_leased (map (\<lambda>l. if leID l = i then f l else l) rows) j =
      (case pl_leased rows i of None \<Rightarrow> pl_leased rows | Some l \<Rightarrow> (pl_leased rows)(i \<mapsto> f l)) j"
    using assms by (induction rows) (auto simp: pl_leased_def split: option.splits)
qed

lemma pl_leased_snoc: "leID l \<notin> leID ` set rows \<Longrightarrow> pl_leased (rows @ [l]) = (pl_leased rows)(leID l \<mapsto> l)"
  by (rule ext, induction rows) (auto simp: pl_leased_def)

interpretation pl: lease_store "pl_ops err is_uuid" "pl_ok is_uuid" pl_leased pl_row is_uuid
  for err is_uuid
proof (unfold_locales, goal_cases)
  case (1 s i l)
  then show ?case using pl_leased_mem [of is_uuid s i l] by (auto simp: pl_ok_def)
next
  case (2 l)
  show ?case using trunc_micro_le by simp
next
  case (3 s l e s')
  show ?case
  proof (cases "e = None")
    case True
    with 3 have r: "leID l \<notin> leID ` set s" "s' = s @ [pl_row l]" by (auto simp: pl_ops_def pl_Record_def split: option.splits if_splits)
    then have "pl_leased s' = (pl_leased s)(leID l \<mapsto> pl_row l)" using pl_leased_snoc [of "pl_row l" s] by simp
    moreover have "pl_ok is_uuid s'" using 3(1,2) r by (auto simp: pl_ok_def)
    ultimately show ?thesis using True by simp
  qed (use 3 in \<open>auto simp: pl_ops_def pl_Record_def split: option.splits if_splits\<close>)
next
  case (4 s n now x s')
  show ?case
  proof (cases x)
    case (Inr ls)
    with 4(2,3) have s: "s' = s" "ls = take (nat n) (sort_key leExpiresAt (filter (pending_lease (trunc_micro now)) s))"
      by (auto simp: pl_ops_def pl_PendingSweep_def split: option.splits if_splits)
    have "distinct (map leID s)" using 4(1) by (simp add: pl_ok_def)
    from pending_page [OF this 4(2) trunc_micro_le s(2)] s(1) Inr pl_leased_mem [OF 4(1)] show ?thesis by simp
  qed (use 4 in \<open>auto simp: pl_ops_def pl_PendingSweep_def split: option.splits if_splits\<close>)
next
  case (5 s i t e s')
  show ?case
  proof (cases "e = None")
    case True
    with 5(2) have s': "\<not> is_uuid i \<and> s' = s \<or> s' = map (\<lambda>l. if leID l = i then l\<lparr>leSweptAt := Some (trunc_micro t)\<rparr> else l) s"
      by (auto simp: pl_ops_def pl_MarkSwept_def split: option.splits if_splits)
    then show ?thesis
    proof
      assume u: "\<not> is_uuid i \<and> s' = s"
      then have "i \<notin> leID ` set s" using 5(1) by (auto simp: pl_ok_def)
      then have "pl_leased s i = None" by (auto simp: pl_leased_def find_None_iff)
      with u True 5(1) show ?thesis by simp
    next
      assume m: "s' = map (\<lambda>l. if leID l = i then l\<lparr>leSweptAt := Some (trunc_micro t)\<rparr> else l) s"
      have ids: "map leID s' = map leID s" unfolding m by simp
      have "leID ` set s' = leID ` set s" using arg_cong [OF ids, of set] by simp
      with ids 5(1) have "pl_ok is_uuid s'" by (auto simp: pl_ok_def) (metis imageE imageI)
      with True pl_leased_map [of "\<lambda>l. l\<lparr>leSweptAt := Some (trunc_micro t)\<rparr>" i s] show ?thesis unfolding m by auto
    qed
  qed (use 5 in \<open>auto simp: pl_ops_def pl_MarkSwept_def split: option.splits if_splits\<close>)
qed (auto simp: pl_ops_def pl_ActiveCount_def split: option.splits)

end
