(* ===== verification/Broker_Mint.thy ===== *)
theory Broker_Mint
  imports Lease_Store Registry_Kinds
begin

text \<open>
  \<^verbatim>\<open>internal/backend/s3/credentials.go\<close> and \<^verbatim>\<open>seaweedfs_iam.go\<close>: minting a short-lived credential
  confined to one path of a backend, and taking a SeaweedFS one away again.  Parameters: MinIO's
  admin client and the IAM client (what each call answers and does to the remote services \<open>'w\<close>),
  the clock, the fresh user name.  A policy document is its JSON value; error texts are dropped.
\<close>

section \<open>Requests, services, results\<close>

datatype mint_err = ErrScopeNotSupported | MintFailed

record mint_request =
  mrPath :: string
  mrAccess :: string
  mrTTL :: int
  mrAllowSessionToken :: bool

record seaweed_lease =
  swIAMUserName :: string
  swAccessKeyID :: string
  swPrefix :: string
  swAccess :: string
  swExpiresAt :: int
  swCreatedAt :: int

record minted =
  mcAccessKeyID :: string
  mcSecretAccessKey :: string
  mcSessionToken :: string
  mcEndpoint :: string
  mcRegion :: string
  mcBucket :: string
  mcKeyPrefix :: string
  mcPathStyle :: bool
  mcExpiresAt :: int

definition AccessRead :: string where "AccessRead = ''read''"
definition AccessReadWrite :: string where "AccessReadWrite = ''readwrite''"

datatype iam_err = NoSuchEntity | IamError

text \<open>An IAM client, for the administrator whose key it signs with.\<close>

record 'w iam_client =
  iCreateUser :: "string \<Rightarrow> 'w \<Rightarrow> iam_err option \<times> 'w"
  iPutUserPolicy :: "string \<Rightarrow> json \<Rightarrow> 'w \<Rightarrow> iam_err option \<times> 'w"
  iCreateAccessKey :: "string \<Rightarrow> 'w \<Rightarrow> (iam_err + string \<times> string) \<times> 'w"
  iDeleteAccessKey :: "string \<Rightarrow> string \<Rightarrow> 'w \<Rightarrow> iam_err option \<times> 'w"
  iDeleteUser :: "string \<Rightarrow> 'w \<Rightarrow> iam_err option \<times> 'w"

text \<open>
  \<open>msMadmin\<close> is \<^verbatim>\<open>madmin.New\<close> with \<^verbatim>\<open>AddServiceAccount\<close>: for a host, an administrator's key and TLS,
  a policy and an expiry, the new key id, secret and session token.  \<open>msIam\<close> is the IAM client
  for a base URL and an administrator's key.
\<close>

record 'w mint_services =
  msMadmin :: "string \<Rightarrow> string \<Rightarrow> string \<Rightarrow> bool \<Rightarrow> (json \<Rightarrow> int \<Rightarrow> 'w \<Rightarrow> (string \<times> string \<times> string) option \<times> 'w) option"
  msIam :: "string \<Rightarrow> string \<Rightarrow> string \<Rightarrow> 'w iam_client"

type_synonym 'l recorder = "seaweed_lease \<Rightarrow> 'l \<Rightarrow> string option \<times> 'l"

section \<open>The policy\<close>

definition arn :: "string \<Rightarrow> string" where
  "arn bucket = ''arn:aws:s3:::'' @ bucket"

definition policy_statement :: "string list \<Rightarrow> string list \<Rightarrow> string list option \<Rightarrow> json" where
  "policy_statement actions resources conds =
     JObj ((''Action'', JArr (map JStr actions)) #
       (case conds of None \<Rightarrow> []
        | Some ps \<Rightarrow> [(''Condition'', JObj [(''StringLike'', JObj [(''s3:prefix'', JArr (map JStr ps))])])]) @
       [(''Effect'', JStr ''Allow''), (''Resource'', JArr (map JStr resources))])"

definition scopedPolicy :: "string \<Rightarrow> string \<Rightarrow> string \<Rightarrow> json" where
  "scopedPolicy bucket keyPrefix access =
     (let actions = [''s3:GetObject''] @ (if access = AccessReadWrite
                      then [''s3:PutObject'', ''s3:DeleteObject'', ''s3:AbortMultipartUpload''] else []);
          bucketARN = arn bucket;
          objectResource = (if keyPrefix = [] then bucketARN @ ''/*'' else bucketARN @ ''/'' @ keyPrefix @ ''/*'');
          listCondition = (if keyPrefix = [] then [''*''] else [keyPrefix, keyPrefix @ ''/*''])
      in JObj [(''Statement'', JArr [policy_statement actions [objectResource] None,
                                     policy_statement [''s3:GetBucketLocation''] [bucketARN] None,
                                     policy_statement [''s3:ListBucket''] [bucketARN] (Some listCondition)]),
               (''Version'', JStr ''2012-10-17'')])"

section \<open>Minting\<close>

definition second :: int where "second = 1000000000"

definition minServiceAccountTTL :: int where "minServiceAccountTTL = 15 * 60 * second + 5 * second"

definition defaultSeaweedFSLeaseTTL :: int where "defaultSeaweedFSLeaseTTL = 5 * 60 * second"

definition key_prefix :: "string \<Rightarrow> string \<Rightarrow> string" where
  "key_prefix base pre = TrimByte slash (TrimSuffix base ''/'' @ ''/'' @ TrimSuffix pre ''/'')"

definition minted_at :: "s3_config \<Rightarrow> string \<Rightarrow> string \<Rightarrow> string \<Rightarrow> string \<Rightarrow> int \<Rightarrow> minted" where
  "minted_at cfg keyPrefix ak sk tok expiry =
     \<lparr>mcAccessKeyID = ak, mcSecretAccessKey = sk, mcSessionToken = tok, mcEndpoint = s3Endpoint cfg, mcRegion = s3Region cfg,
      mcBucket = s3Bucket cfg, mcKeyPrefix = keyPrefix, mcPathStyle = s3PathStyle cfg, mcExpiresAt = expiry\<rparr>"

definition iam_endpoint :: "env \<Rightarrow> s3_config \<Rightarrow> string option" where
  "iam_endpoint env cfg =
     (case hostAndTLS env cfg of
        None \<Rightarrow> None
      | Some (host, secure) \<Rightarrow> Some ((if secure then ''https'' else ''http'') @ ''://'' @ host))"

definition seaweedfsIAMClient :: "env \<Rightarrow> 'w mint_services \<Rightarrow> s3_config \<Rightarrow> s3_creds \<Rightarrow> 'w iam_client option" where
  "seaweedfsIAMClient env ms cfg admin =
     (case iam_endpoint env cfg of
        None \<Rightarrow> None
      | Some endpoint \<Rightarrow> Some (msIam ms endpoint (s3AccessKeyID admin) (s3SecretAccessKey admin)))"

text \<open>Building the policy document cannot fail: it holds strings only.\<close>

definition mintSeaweedFSIAM ::
    "env \<Rightarrow> 'w mint_services \<Rightarrow> int \<Rightarrow> string \<Rightarrow> s3_config \<Rightarrow> s3_creds \<Rightarrow> mint_request \<Rightarrow> 'l recorder option \<Rightarrow> string \<Rightarrow> 'w \<times> 'l \<Rightarrow>
     (mint_err + minted) \<times> 'w \<times> 'l" where
  "mintSeaweedFSIAM env ms now uuid cfg admin req rec keyPrefix s =
     (case rec of
        None \<Rightarrow> (Inl ErrScopeNotSupported, s)
      | Some record_lease \<Rightarrow>
     (case seaweedfsIAMClient env ms cfg admin of
        None \<Rightarrow> (Inl ErrScopeNotSupported, s)
      | Some client \<Rightarrow>
     (let username = ''booth-'' @ uuid; w = fst s; l = snd s in
      case iCreateUser client username w of
        (Some e, w1) \<Rightarrow> (Inl MintFailed, w1, l)
      | (None, w1) \<Rightarrow>
     (case iPutUserPolicy client username (scopedPolicy (s3Bucket cfg) keyPrefix (mrAccess req)) w1 of
        (Some e, w2) \<Rightarrow> (Inl MintFailed, snd (iDeleteUser client username w2), l)
      | (None, w2) \<Rightarrow>
     (case iCreateAccessKey client username w2 of
        (Inl e, w3) \<Rightarrow> (Inl MintFailed, snd (iDeleteUser client username w3), l)
      | (Inr (ak, sk), w3) \<Rightarrow>
     (let ttl = (if mrTTL req \<le> 0 then defaultSeaweedFSLeaseTTL else mrTTL req); expiry = now + ttl in
      case record_lease \<lparr>swIAMUserName = username, swAccessKeyID = ak, swPrefix = keyPrefix, swAccess = mrAccess req,
                         swExpiresAt = expiry, swCreatedAt = now\<rparr> l of
        (Some e, l') \<Rightarrow>
          (Inl MintFailed, snd (iDeleteUser client username (snd (iDeleteAccessKey client username ak w3))), l')
      | (None, l') \<Rightarrow> (Inr (minted_at cfg keyPrefix ak sk [] expiry), w3, l')))))))"

definition mint_minio ::
    "env \<Rightarrow> 'w mint_services \<Rightarrow> int \<Rightarrow> s3_config \<Rightarrow> s3_creds \<Rightarrow> mint_request \<Rightarrow> string \<Rightarrow> 'w \<times> 'l \<Rightarrow> (mint_err + minted) \<times> 'w \<times> 'l" where
  "mint_minio env ms now cfg admin req keyPrefix s =
     (case hostAndTLS env cfg of
        None \<Rightarrow> (Inl ErrScopeNotSupported, s)
      | Some (host, secure) \<Rightarrow>
     (case msMadmin ms host (s3AccessKeyID admin) (s3SecretAccessKey admin) secure of
        None \<Rightarrow> (Inl MintFailed, s)
      | Some addServiceAccount \<Rightarrow>
     (let ttl = (if mrTTL req < minServiceAccountTTL then minServiceAccountTTL else mrTTL req); expiry = now + ttl in
      case addServiceAccount (scopedPolicy (s3Bucket cfg) keyPrefix (mrAccess req)) expiry (fst s) of
        (None, w) \<Rightarrow> (Inl MintFailed, w, snd s)
      | (Some (ak, sk, tok), w) \<Rightarrow>
          (Inr (minted_at cfg keyPrefix ak sk (if mrAllowSessionToken req then tok else []) expiry), w, snd s))))"

definition MintScopedCredential ::
    "env \<Rightarrow> 'w mint_services \<Rightarrow> int \<Rightarrow> string \<Rightarrow> s3_config \<Rightarrow> s3_creds \<Rightarrow> mint_request \<Rightarrow> 'l recorder option \<Rightarrow> 'w \<times> 'l \<Rightarrow>
     (mint_err + minted) \<times> 'w \<times> 'l" where
  "MintScopedCredential env ms now uuid cfg admin req rec s =
     (if mrAccess req \<noteq> AccessRead \<and> mrAccess req \<noteq> AccessReadWrite then (Inl ErrScopeNotSupported, s)
      else case CleanPrefix (mrPath req) of
        Inl e \<Rightarrow> (Inl ErrScopeNotSupported, s)
      | Inr pre \<Rightarrow>
          if s3AccessKeyID admin = [] \<or> s3SecretAccessKey admin = [] then (Inl ErrScopeNotSupported, s)
          else
            (let keyPrefix = key_prefix (s3Prefix cfg) pre in
             if s3CredentialProvider cfg = ''seaweedfs-iam'' then
               (if s3Endpoint cfg = [] then (Inl ErrScopeNotSupported, s)
                else mintSeaweedFSIAM env ms now uuid cfg admin req rec keyPrefix s)
             else if s3Endpoint cfg = [] then (Inl ErrScopeNotSupported, s)
             else mint_minio env ms now cfg admin req keyPrefix s))"

definition DeleteSeaweedFSIAMLease ::
    "env \<Rightarrow> 'w mint_services \<Rightarrow> s3_config \<Rightarrow> s3_creds \<Rightarrow> string \<Rightarrow> string \<Rightarrow> 'w \<Rightarrow> mint_err option \<times> 'w" where
  "DeleteSeaweedFSIAMLease env ms cfg admin iamUserName accessKeyID w =
     (case seaweedfsIAMClient env ms cfg admin of
        None \<Rightarrow> (Some ErrScopeNotSupported, w)
      | Some client \<Rightarrow>
     (case iDeleteAccessKey client iamUserName accessKeyID w of
        (Some IamError, w1) \<Rightarrow> (Some MintFailed, w1)
      | (_, w1) \<Rightarrow>
     (case iDeleteUser client iamUserName w1 of
        (Some IamError, w2) \<Rightarrow> (Some MintFailed, w2)
      | (_, w2) \<Rightarrow> (None, w2))))"

end
