(* ===== verification/Broker_Scope.thy ===== *)
theory Broker_Scope
  imports Broker_Mint
begin

text \<open>
  What a minted policy lets its holder do.  \<open>iam_allows\<close> is the documented meaning of an IAM policy
  document without \<^verbatim>\<open>Deny\<close>: a statement applies when an action, a resource and its conditions
  match, and patterns match with \<open>*\<close> and \<open>?\<close>.  The lemmas compute it on the documents
  \<^const>\<open>scopedPolicy\<close> builds.
\<close>

section \<open>The meaning of a policy document\<close>

text \<open>A request to the object store: \<open>irPrefix\<close> is the \<^verbatim>\<open>prefix\<close> parameter of a listing.\<close>

record iam_request =
  irAction :: string
  irResource :: string
  irPrefix :: "string option"

fun glob :: "string \<Rightarrow> string \<Rightarrow> bool" where
  "glob [] [] = True"
| "glob [] (d # s) = False"
| "glob (c # p) [] = (c = CHR ''*'' \<and> glob p [])"
| "glob (c # p) (d # s) =
     (if c = CHR ''*'' then glob p (d # s) \<or> glob (c # p) s else (c = CHR ''?'' \<or> c = d) \<and> glob p s)"

definition json_get :: "string \<Rightarrow> json \<Rightarrow> json option" where
  "json_get k j = (case j of JObj kvs \<Rightarrow> map_of kvs k | _ \<Rightarrow> None)"

definition json_strs :: "json option \<Rightarrow> string list" where
  "json_strs j = (case j of Some (JArr js) \<Rightarrow> concat (map (\<lambda>x. case x of JStr s \<Rightarrow> [s] | _ \<Rightarrow> []) js) | _ \<Rightarrow> [])"

definition condition_holds :: "json \<Rightarrow> iam_request \<Rightarrow> bool" where
  "condition_holds c rq =
     (case irPrefix rq of
        None \<Rightarrow> False
      | Some p \<Rightarrow> list_ex (\<lambda>q. glob q p) (json_strs (Option.bind (json_get ''StringLike'' c) (json_get ''s3:prefix''))))"

definition statement_allows :: "json \<Rightarrow> iam_request \<Rightarrow> bool" where
  "statement_allows st rq \<longleftrightarrow>
     json_get ''Effect'' st = Some (JStr ''Allow'') \<and>
     list_ex (\<lambda>a. glob a (irAction rq)) (json_strs (json_get ''Action'' st)) \<and>
     list_ex (\<lambda>r. glob r (irResource rq)) (json_strs (json_get ''Resource'' st)) \<and>
     (case json_get ''Condition'' st of None \<Rightarrow> True | Some c \<Rightarrow> condition_holds c rq)"

definition iam_allows :: "json \<Rightarrow> iam_request \<Rightarrow> bool" where
  "iam_allows doc rq =
     (case json_get ''Statement'' doc of Some (JArr sts) \<Rightarrow> list_ex (\<lambda>st. statement_allows st rq) sts | _ \<Rightarrow> False)"

section \<open>Patterns\<close>

definition wild_free :: "string \<Rightarrow> bool" where
  "wild_free s \<longleftrightarrow> CHR ''*'' \<notin> set s \<and> CHR ''?'' \<notin> set s"

lemma wild_free_append [simp]: "wild_free (a @ b) \<longleftrightarrow> wild_free a \<and> wild_free b"
  by (auto simp: wild_free_def)

lemma glob_star [simp]: "glob ''*'' s"
  by (induction s) simp_all

lemma glob_append: "wild_free p \<Longrightarrow> glob (p @ q) s \<longleftrightarrow> (\<exists>r. s = p @ r \<and> glob q r)"
proof (induction p arbitrary: s)
  case (Cons c p)
  then show ?case by (cases s) (auto simp: wild_free_def)
qed simp

lemma glob_Nil [simp]: "glob [] s \<longleftrightarrow> s = []"
  by (cases s) simp_all

lemma glob_literal: "wild_free p \<Longrightarrow> glob p s \<longleftrightarrow> s = p"
  using glob_append [of p "[]" s] by simp

lemma glob_below: "wild_free p \<Longrightarrow> glob (p @ ''*'') s \<longleftrightarrow> prefix p s"
  by (simp add: glob_append prefix_def)

section \<open>The scoped policy\<close>

lemma json_strs_map [simp]: "json_strs (Some (JArr (map JStr ss))) = ss"
  by (induction ss) (simp_all add: json_strs_def)

lemma statement_allows_policy:
  "statement_allows (policy_statement acts ress conds) rq \<longleftrightarrow>
     (\<exists>a \<in> set acts. glob a (irAction rq)) \<and> (\<exists>r \<in> set ress. glob r (irResource rq)) \<and>
     (case conds of None \<Rightarrow> True | Some ps \<Rightarrow> (\<exists>p. irPrefix rq = Some p \<and> (\<exists>q \<in> set ps. glob q p)))"
  by (auto simp: statement_allows_def policy_statement_def json_get_def condition_holds_def list_ex_iff split: option.splits)

definition object_actions :: "string \<Rightarrow> string list" where
  "object_actions access =
     ''s3:GetObject'' # (if access = AccessReadWrite then [''s3:PutObject'', ''s3:DeleteObject'', ''s3:AbortMultipartUpload''] else [])"

lemma object_actions_literal: "a \<in> set (object_actions access) \<Longrightarrow> glob a s \<longleftrightarrow> s = a"
  by (rule glob_literal) (auto simp: object_actions_def wild_free_def split: if_splits)

lemma arn_wild_free [simp]: "wild_free (arn b) \<longleftrightarrow> wild_free b"
  by (simp add: arn_def wild_free_def)

text \<open>The policy for bucket \<open>b\<close> and key prefix \<open>kp\<close>, where \<open>base\<close> is \<open>kp\<close> with its final slash.\<close>

lemma scoped_policy_allows:
  assumes w: "wild_free b" "wild_free kp" and base: "base = (if kp = [] then [] else kp @ ''/'')"
  shows "iam_allows (scopedPolicy b kp access) rq \<longleftrightarrow>
     irAction rq \<in> set (object_actions access) \<and> prefix (arn b @ ''/'' @ base) (irResource rq) \<or>
     irAction rq = ''s3:GetBucketLocation'' \<and> irResource rq = arn b \<or>
     irAction rq = ''s3:ListBucket'' \<and> irResource rq = arn b \<and>
       (\<exists>p. irPrefix rq = Some p \<and> (prefix base p \<or> p @ ''/'' = base))"
proof -
  let ?obj = "if kp = [] then arn b @ ''/*'' else arn b @ ''/'' @ kp @ ''/*''"
  let ?conds = "if kp = [] then [''*''] else [kp, kp @ ''/*'']"
  have obj: "glob ?obj s \<longleftrightarrow> prefix (arn b @ ''/'' @ base) s" for s
    using glob_below [of "arn b @ ''/'' @ base" s] w unfolding base by (cases "kp = []") (simp_all add: wild_free_def arn_def)
  have list: "(\<exists>q \<in> set ?conds. glob q p) \<longleftrightarrow> prefix base p \<or> p @ ''/'' = base" for p
    using glob_below [of "kp @ ''/''" p] glob_literal [of kp p] w unfolding base by (auto simp: wild_free_def)
  have lit: "glob ''s3:GetBucketLocation'' s \<longleftrightarrow> s = ''s3:GetBucketLocation''" "glob ''s3:ListBucket'' s \<longleftrightarrow> s = ''s3:ListBucket''"
    "glob (arn b) s \<longleftrightarrow> s = arn b" for s
    using glob_literal [of "arn b" s] w(1) by (simp_all add: glob_literal wild_free_def arn_wild_free [unfolded wild_free_def])
  have acts: "(\<exists>a \<in> set (object_actions access). glob a s) \<longleftrightarrow> s \<in> set (object_actions access)" for s
    using object_actions_literal by auto
  have doc: "iam_allows (scopedPolicy b kp access) rq \<longleftrightarrow>
     statement_allows (policy_statement (object_actions access) [?obj] None) rq \<or>
     statement_allows (policy_statement [''s3:GetBucketLocation''] [arn b] None) rq \<or>
     statement_allows (policy_statement [''s3:ListBucket''] [arn b] (Some ?conds)) rq"
    by (simp add: iam_allows_def scopedPolicy_def json_get_def Let_def object_actions_def)
  show ?thesis
    unfolding doc statement_allows_policy using obj list lit acts by (simp split: option.splits)
qed

section \<open>The key prefix\<close>

text \<open>A cleaned prefix without a doubled final slash.\<close>

definition plain_prefix :: "string \<Rightarrow> bool" where
  "plain_prefix p \<longleftrightarrow> p = [] \<or> (\<exists>q. p = q @ ''/'' \<and> wf_path q)"

lemma TrimByte_ends [simp]: "TrimByte c (c # s) = TrimByte c s" "TrimByte c (s @ [c]) = TrimByte c s"
proof -
  show "TrimByte c (c # s) = TrimByte c s" by (simp add: TrimByte_def)
  show "TrimByte c (s @ [c]) = TrimByte c s"
  proof (cases "\<forall>x \<in> set s. x = c")
    case True
    then show ?thesis by (auto simp: TrimByte_def dropWhile_append dest: set_dropWhileD)
  next
    case False
    then have "dropWhile (\<lambda>x. x = c) (s @ [c]) = dropWhile (\<lambda>x. x = c) s @ [c]" by (auto simp: dropWhile_append1)
    then show ?thesis by (simp add: TrimByte_def)
  qed
qed

lemma TrimSuffix_clean:
  assumes "CleanPrefix p = Inr q" "plain_prefix q"
  shows "TrimSuffix p ''/'' = TrimSuffix q ''/'' \<and> (q = [] \<or> q = TrimSuffix q ''/'' @ ''/'' \<and> wf_path (TrimSuffix q ''/''))"
  using assms by (auto simp: CleanPrefix_Inr plain_prefix_def TrimSuffix_no TrimSuffix_def suffix_def)

lemma key_prefix_base:
  assumes "CleanPrefix base = Inr B" "plain_prefix B" "plain_prefix P"
  shows "B @ P = (if key_prefix base P = [] then [] else key_prefix base P @ ''/'')"
proof -
  obtain b where b: "TrimSuffix base ''/'' = b" "B = [] \<and> b = [] \<or> B = b @ ''/'' \<and> wf_path b"
    using TrimSuffix_clean [OF assms(1,2)] by (cases "B = []") (auto simp: TrimSuffix_def suffix_def)
  obtain p where p: "TrimSuffix P ''/'' = p" "P = [] \<and> p = [] \<or> P = p @ ''/'' \<and> wf_path p"
    using assms(3) by (auto simp: plain_prefix_def TrimSuffix_def suffix_def)
  have id: "TrimByte slash q = q" "q \<noteq> []" if "wf_path q" for q
    using that wf_path_hd [OF that] wf_path_last [OF that] wf_path_nonempty [OF that] by (simp_all add: TrimByte_id)
  have "TrimByte slash (b @ slash # p) = b @ slash # p" if "wf_path b" "wf_path p"
    using that wf_path_hd [OF that(1)] wf_path_last [OF that(2)] wf_path_nonempty by (intro TrimByte_id) auto
  moreover have "TrimByte slash [] = []" by (simp add: TrimByte_def)
  ultimately show ?thesis using b p id by (auto simp: key_prefix_def)
qed

text \<open>What a policy minted for a path of a backend allows, in terms of the backend's own key prefix.\<close>

lemma minted_policy_allows:
  assumes "CleanPrefix (s3Prefix cfg) = Inr B" "plain_prefix B" "plain_prefix P"
    and w: "wild_free (s3Bucket cfg)" "wild_free (B @ P)"
  shows "iam_allows (scopedPolicy (s3Bucket cfg) (key_prefix (s3Prefix cfg) P) access) rq \<longleftrightarrow>
     irAction rq \<in> set (object_actions access) \<and> prefix (arn (s3Bucket cfg) @ ''/'' @ B @ P) (irResource rq) \<or>
     irAction rq = ''s3:GetBucketLocation'' \<and> irResource rq = arn (s3Bucket cfg) \<or>
     irAction rq = ''s3:ListBucket'' \<and> irResource rq = arn (s3Bucket cfg) \<and>
       (\<exists>p. irPrefix rq = Some p \<and> (prefix (B @ P) p \<or> p @ ''/'' = B @ P))"
proof (rule scoped_policy_allows [OF w(1)])
  note k = key_prefix_base [OF assms(1-3)]
  show "B @ P = (if key_prefix (s3Prefix cfg) P = [] then [] else key_prefix (s3Prefix cfg) P @ ''/'')" by (rule k)
  show "wild_free (key_prefix (s3Prefix cfg) P)" using w(2) k by (auto simp: wild_free_def split: if_splits)
qed

text \<open>
  A \<open>*\<close> in a path passes \<^const>\<open>CleanPrefix\<close> and stays a wildcard in the policy: the credential for
  the folder \<open>r*\<close> reads the folder \<open>rome\<close> too.
\<close>

lemma wildcard_path_widens:
  "CleanPrefix ''r*'' = Inr ''r*/'' \<and>
   iam_allows (scopedPolicy ''data'' (key_prefix ''t'' ''r*/'') AccessRead)
     \<lparr>irAction = ''s3:GetObject'', irResource = ''arn:aws:s3:::data/t/rome/x'', irPrefix = None\<rparr>"
  by code_simp

end
