(* ===== verification/Broker_Leases.thy ===== *)
theory Broker_Leases
  imports Broker_Mint
begin

text \<open>
  What minting does to the outside: the contract of the services that hold the credentials
  (\<open>credential_host\<close>: IAM users with their inline policy and keys, and MinIO service accounts), a
  reference service that keeps it, and the books of keys and leases that minting keeps straight.
  A call that answers with an error has done nothing; a call that never answers is not modelled.
\<close>

section \<open>The contract of the credential services\<close>

type_synonym iam_users = "string \<times> string \<rightharpoonup> json option \<times> string set"
type_synonym service_accounts = "string \<times> string \<rightharpoonup> json \<times> int"

definition live_keys :: "iam_users \<Rightarrow> (string \<times> string \<times> string) set" where
  "live_keys us = {(base, u, k). \<exists>p ks. us (base, u) = Some (p, ks) \<and> k \<in> ks}"

definition without_key :: "string \<times> string \<Rightarrow> string \<Rightarrow> iam_users \<Rightarrow> iam_users" where
  "without_key x k us = (case us x of None \<Rightarrow> us | Some (p, ks) \<Rightarrow> us(x \<mapsto> (p, ks - {k})))"

lemma live_keys_keyless: "us x = None \<or> (\<exists>p. us x = Some (p, {})) \<Longrightarrow> live_keys (us(x \<mapsto> (p, {}))) = live_keys us"
  by (cases x) (auto simp: live_keys_def split: if_splits)

lemma live_keys_removed: "us x = None \<or> (\<exists>p. us x = Some (p, {})) \<Longrightarrow> live_keys (us(x := None)) = live_keys us"
  by (cases x) (auto simp: live_keys_def split: if_splits)

lemma live_keys_added: "us (b, u) = None \<Longrightarrow> live_keys (us((b, u) \<mapsto> (p, {k}))) = insert (b, u, k) (live_keys us)"
  by (auto simp: live_keys_def split: if_splits)

lemma live_keys_without_key: "live_keys (without_key (b, u) k us) = live_keys us - {(b, u, k)}"
  by (auto simp: live_keys_def without_key_def split: option.splits if_splits)

lemma live_keys_user_gone: "live_keys (us((b, u) := None)) = live_keys us - {x. \<exists>k. x = (b, u, k)}"
  by (auto simp: live_keys_def split: if_splits)

text \<open>
  \<open>users v (base, u)\<close> is the user \<open>u\<close> of the service at \<open>base\<close>: its policy and its access keys.
  \<open>accounts v (host, k)\<close> is the service account behind the key \<open>k\<close>: its policy and its expiry.
\<close>

locale credential_host =
  fixes ms :: "'v mint_services" and users :: "'v \<Rightarrow> iam_users" and accounts :: "'v \<Rightarrow> service_accounts"
  assumes create_user: "iCreateUser (msIam ms base ak sk) u v = (e, v') \<Longrightarrow> accounts v' = accounts v \<and>
      (if e = None then users v (base, u) = None \<and> users v' = (users v)((base, u) \<mapsto> (None, {})) else users v' = users v)"
    and put_policy: "iPutUserPolicy (msIam ms base ak sk) u doc v = (e, v') \<Longrightarrow> accounts v' = accounts v \<and>
      (if e = None then (\<exists>p ks. users v (base, u) = Some (p, ks) \<and> users v' = (users v)((base, u) \<mapsto> (Some doc, ks)))
       else users v' = users v)"
    and create_key: "iCreateAccessKey (msIam ms base ak sk) u v = (x, v') \<Longrightarrow> accounts v' = accounts v \<and>
      (case x of Inl e \<Rightarrow> users v' = users v
       | Inr (k, s) \<Rightarrow> (\<exists>p ks. users v (base, u) = Some (p, ks) \<and> k \<notin> ks \<and> users v' = (users v)((base, u) \<mapsto> (p, insert k ks))))"
    and delete_key: "iDeleteAccessKey (msIam ms base ak sk) u k v = (e, v') \<Longrightarrow> accounts v' = accounts v \<and>
      users v' = (if e = Some IamError then users v else without_key (base, u) k (users v))"
    and delete_user: "iDeleteUser (msIam ms base ak sk) u v = (e, v') \<Longrightarrow> accounts v' = accounts v \<and>
      users v' = (if e = Some IamError then users v else (users v)((base, u) := None))"
    and add_account: "msMadmin ms host ak sk secure = Some add \<Longrightarrow> add doc expiry v = (r, v') \<Longrightarrow> users v' = users v \<and>
      (case r of None \<Rightarrow> accounts v' = accounts v
       | Some (k, s, t) \<Rightarrow> accounts v (host, k) = None \<and> accounts v' = (accounts v)((host, k) \<mapsto> (doc, expiry)))"
begin

lemma delete_user_keys:
  assumes "iDeleteUser (msIam ms base ak sk) u v = (e, v')" "users v (base, u) = Some (p, {})"
  shows "live_keys (users v') = live_keys (users v)"
  using delete_user [OF assms(1)] assms(2) live_keys_removed [of "users v" "(base, u)"] by auto

end

section \<open>A reference service\<close>

text \<open>
  Users as an association list from base URL and name, service accounts likewise; the next key
  is a counter.  A SeaweedFS server and a MinIO server at every address.
\<close>

record ref_host =
  rhUsers :: "((string \<times> string) \<times> json option \<times> string list) list"
  rhAccounts :: "((string \<times> string) \<times> json \<times> int) list"
  rhNext :: nat

definition ref_key :: "nat \<Rightarrow> string" where
  "ref_key n = ''K'' @ replicate n CHR ''1''"

definition fresh_from :: "nat \<Rightarrow> string list \<Rightarrow> string" where
  "fresh_from n ks = ref_key (Max (set (n # map length ks)))"

definition ref_iam :: "string \<Rightarrow> string \<Rightarrow> string \<Rightarrow> ref_host iam_client" where
  "ref_iam base ak sk =
     \<lparr>iCreateUser = (\<lambda>u h. if map_of (rhUsers h) (base, u) \<noteq> None then (Some IamError, h)
          else (None, h\<lparr>rhUsers := ((base, u), None, []) # rhUsers h\<rparr>)),
      iPutUserPolicy = (\<lambda>u doc h. case map_of (rhUsers h) (base, u) of
          None \<Rightarrow> (Some NoSuchEntity, h)
        | Some (p, ks) \<Rightarrow> (None, h\<lparr>rhUsers := ((base, u), Some doc, ks) # rhUsers h\<rparr>)),
      iCreateAccessKey = (\<lambda>u h. case map_of (rhUsers h) (base, u) of
          None \<Rightarrow> (Inl NoSuchEntity, h)
        | Some (p, ks) \<Rightarrow>
            (let k = fresh_from (rhNext h) ks in
             (Inr (k, ''secret''), h\<lparr>rhUsers := ((base, u), p, k # ks) # rhUsers h, rhNext := Suc (rhNext h)\<rparr>))),
      iDeleteAccessKey = (\<lambda>u k h. case map_of (rhUsers h) (base, u) of
          None \<Rightarrow> (Some NoSuchEntity, h)
        | Some (p, ks) \<Rightarrow>
            (if k \<in> set ks then None else Some NoSuchEntity, h\<lparr>rhUsers := ((base, u), p, removeAll k ks) # rhUsers h\<rparr>)),
      iDeleteUser = (\<lambda>u h. case map_of (rhUsers h) (base, u) of
          None \<Rightarrow> (Some NoSuchEntity, h)
        | Some _ \<Rightarrow> (None, h\<lparr>rhUsers := filter (\<lambda>e. fst e \<noteq> (base, u)) (rhUsers h)\<rparr>))\<rparr>"

definition ref_add :: "string \<Rightarrow> json \<Rightarrow> int \<Rightarrow> ref_host \<Rightarrow> (string \<times> string \<times> string) option \<times> ref_host" where
  "ref_add host doc expiry h =
     (let k = fresh_from (rhNext h) (map (snd \<circ> fst) (rhAccounts h)) in
      (Some (k, ''secret'', []), h\<lparr>rhAccounts := ((host, k), doc, expiry) # rhAccounts h, rhNext := Suc (rhNext h)\<rparr>))"

definition ref_services :: "ref_host mint_services" where
  "ref_services = \<lparr>msMadmin = (\<lambda>host ak sk secure. Some (ref_add host)), msIam = ref_iam\<rparr>"

definition ref_users :: "ref_host \<Rightarrow> iam_users" where
  "ref_users h x = map_option (\<lambda>(p, ks). (p, set ks)) (map_of (rhUsers h) x)"

definition ref_accounts :: "ref_host \<Rightarrow> service_accounts" where
  "ref_accounts h = map_of (rhAccounts h)"

lemma fresh_from_new: "fresh_from n ks \<notin> set ks"
proof
  assume h: "fresh_from n ks \<in> set ks"
  let ?m = "Max (set (n # map length ks))"
  have "length (fresh_from n ks) \<le> ?m" using h by (intro Max_ge) auto
  moreover have "length (fresh_from n ks) = Suc ?m" unfolding fresh_from_def ref_key_def by simp
  ultimately show False by simp
qed

lemma map_of_drop: "map_of (filter (\<lambda>e. fst e \<noteq> x) m) = (map_of m)(x := None)"
  by (induction m) (auto simp: fun_eq_iff)

interpretation ref_host: credential_host ref_services ref_users ref_accounts
proof (unfold_locales, goal_cases)
  case (1 base ak sk u v e v')
  then show ?case
    by (cases "map_of (rhUsers v) (base, u)")
      (auto simp: ref_services_def ref_iam_def ref_users_def ref_accounts_def fun_eq_iff)
next
  case (6 host ak sk secure add doc expiry v x v')
  let ?k = "fresh_from (rhNext v) (map (snd \<circ> fst) (rhAccounts v))"
  have "(host, ?k) \<notin> fst ` set (rhAccounts v)" using fresh_from_new [of "rhNext v" "map (snd \<circ> fst) (rhAccounts v)"] by force
  then have "map_of (rhAccounts v) (host, ?k) = None" by (simp add: map_of_eq_None_iff)
  moreover have "add = ref_add host" using 6(1) by (simp add: ref_services_def)
  ultimately show ?case using 6(2) by (auto simp: ref_add_def ref_users_def ref_accounts_def Let_def fun_eq_iff)
qed (auto simp: ref_services_def ref_iam_def ref_users_def ref_accounts_def without_key_def map_of_drop fresh_from_new Let_def fun_eq_iff
  split: option.splits if_splits sum.splits)

section \<open>Minting keeps the books\<close>

text \<open>
  The key of a minted credential hangs on one fresh user whose policy is the scoped one, and its
  lease was recorded before.  When minting fails, no key is left behind, unless the recording
  failed and so did the deletion of the key.
\<close>

definition minted_lease :: "int \<Rightarrow> string \<Rightarrow> mint_request \<Rightarrow> string \<Rightarrow> string \<Rightarrow> seaweed_lease" where
  "minted_lease now user req kp k =
     \<lparr>swIAMUserName = user, swAccessKeyID = k, swPrefix = kp, swAccess = mrAccess req,
      swExpiresAt = now + (if mrTTL req \<le> 0 then defaultSeaweedFSLeaseTTL else mrTTL req), swCreatedAt = now\<rparr>"

context credential_host
begin

lemma mint_iam_cases:
  assumes "mintSeaweedFSIAM env ms now uuid cfg admin req (Some record_lease) kp (v, l) = (r, v', l')"
  obtains
    (refused) e where "r = Inl e" "l' = l" "live_keys (users v') = live_keys (users v)" "accounts v' = accounts v"
  | (undone) base k err w where "r = Inl MintFailed" "iam_endpoint env cfg = Some base" "accounts v' = accounts v"
      "record_lease (minted_lease now (''booth-'' @ uuid) req kp k) l = (Some err, l')"
      "fst (iDeleteAccessKey (msIam ms base (s3AccessKeyID admin) (s3SecretAccessKey admin)) (''booth-'' @ uuid) k w) = Some IamError \<or>
        live_keys (users v') = live_keys (users v)"
  | (minted) base k s where "iam_endpoint env cfg = Some base"
      "r = Inr (minted_at cfg kp k s [] (swExpiresAt (minted_lease now (''booth-'' @ uuid) req kp k)))"
      "record_lease (minted_lease now (''booth-'' @ uuid) req kp k) l = (None, l')" "accounts v' = accounts v"
      "users v (base, ''booth-'' @ uuid) = None"
      "users v' = (users v)((base, ''booth-'' @ uuid) \<mapsto> (Some (scopedPolicy (s3Bucket cfg) kp (mrAccess req)), {k}))"
proof (cases "iam_endpoint env cfg")
  case None
  with assms that(1) show ?thesis by (auto simp: mintSeaweedFSIAM_def seaweedfsIAMClient_def)
next
  case (Some base)
  let ?c = "msIam ms base (s3AccessKeyID admin) (s3SecretAccessKey admin)" and ?u = "''booth-'' @ uuid"
  let ?doc = "scopedPolicy (s3Bucket cfg) kp (mrAccess req)"
  obtain e1 v1 where c1: "iCreateUser ?c ?u v = (e1, v1)" by fastforce
  obtain e2 v2 where c2: "iPutUserPolicy ?c ?u ?doc v1 = (e2, v2)" by fastforce
  obtain x3 v3 where c3: "iCreateAccessKey ?c ?u v2 = (x3, v3)" by fastforce
  note m = assms [unfolded mintSeaweedFSIAM_def seaweedfsIAMClient_def Some option.case Let_def fst_conv snd_conv c1 prod.case]
  show ?thesis
  proof (cases e1)
    case (Some e)
    with m create_user [OF c1] show ?thesis by (intro that(1) [of MintFailed]) auto
  next
    case e1: None
    note s1 = create_user [OF c1, unfolded e1]
    then have k1: "users v1 (base, ?u) = Some (None, {})" "live_keys (users v1) = live_keys (users v)"
      using live_keys_keyless [of "users v" "(base, ?u)"] by simp_all
    show ?thesis
    proof (cases e2)
      case (Some e)
      obtain e' w where d: "iDeleteUser ?c ?u v2 = (e', w)" by fastforce
      from put_policy [OF c2] Some have "users v2 = users v1" "accounts v2 = accounts v1" by simp_all
      with delete_user_keys [OF d] delete_user [OF d] k1 s1 have "live_keys (users w) = live_keys (users v)" "accounts w = accounts v" by simp_all
      with m e1 c2 d Some show ?thesis by (intro that(1) [of MintFailed]) auto
    next
      case e2: None
      from put_policy [OF c2] k1 e2 s1 have s2: "users v2 = (users v)((base, ?u) \<mapsto> (Some ?doc, {}))" "accounts v2 = accounts v" by simp_all
      then have k2: "live_keys (users v2) = live_keys (users v)" using s1 live_keys_keyless [of "users v" "(base, ?u)"] by simp
      show ?thesis
      proof (cases x3)
        case (Inl e)
        obtain e' w where d: "iDeleteUser ?c ?u v3 = (e', w)" by fastforce
        from create_key [OF c3] Inl have "users v3 = users v2" "accounts v3 = accounts v2" by simp_all
        with delete_user_keys [OF d] delete_user [OF d] k2 s2 have "live_keys (users w) = live_keys (users v)" "accounts w = accounts v" by simp_all
        with m e1 c2 e2 c3 d Inl show ?thesis by (intro that(1) [of MintFailed]) auto
      next
        case (Inr ks)
        obtain k s where ks: "ks = (k, s)" by fastforce
        from create_key [OF c3] Inr ks s2 have s3: "users v3 = (users v)((base, ?u) \<mapsto> (Some ?doc, {k}))" "accounts v3 = accounts v" by auto
        let ?lease = "minted_lease now ?u req kp k"
        obtain e4 l4 where rl: "record_lease ?lease l = (e4, l4)" by fastforce
        note m' = m [unfolded e1 c2 e2 c3 Inr ks option.case sum.case prod.case]
        show ?thesis
        proof (cases e4)
          case e4: (Some err)
          obtain e5 v5 where c5: "iDeleteAccessKey ?c ?u k v3 = (e5, v5)" by fastforce
          obtain e6 v6 where c6: "iDeleteUser ?c ?u v5 = (e6, v6)" by fastforce
          have r: "r = Inl MintFailed" "v' = v6" "l' = l4"
            using m' rl e4 c5 c6 by (simp_all add: minted_lease_def)
          have "e5 = Some IamError \<or> live_keys (users v6) = live_keys (users v)"
          proof (cases "e5 = Some IamError")
            case False
            with delete_key [OF c5] s3 s1 have "users v5 = (users v)((base, ?u) \<mapsto> (Some ?doc, {}))" by (simp add: without_key_def)
            with delete_user [OF c6] s1 have "live_keys (users v6) = live_keys (users v)"
              using live_keys_keyless [of "users v" "(base, ?u)"] live_keys_removed [of "users v" "(base, ?u)"] by auto
            then show ?thesis ..
          qed simp
          moreover have "accounts v6 = accounts v" using delete_key [OF c5] delete_user [OF c6] s3 by simp
          ultimately show ?thesis using r \<open>iam_endpoint env cfg = Some base\<close> rl e4 c5 by (intro that(2) [of base k err v3]) auto
        next
          case e4: None
          have "r = Inr (minted_at cfg kp k s [] (swExpiresAt ?lease))" "v' = v3" "l' = l4"
            using m' rl e4 by (simp_all add: minted_lease_def)
          with rl e4 s1 s3 \<open>iam_endpoint env cfg = Some base\<close> show ?thesis by (intro that(3) [of base k s]) simp_all
        qed
      qed
    qed
  qed
qed

lemma mint_minio_cases:
  assumes "mint_minio env ms now cfg admin req kp (v, l) = (r, v', l')"
  obtains (refused) e where "r = Inl e" "l' = l" "users v' = users v" "accounts v' = accounts v"
  | (minted) host k s tok expiry where "r = Inr (minted_at cfg kp k s tok expiry)" "l' = l" "users v' = users v"
      "accounts v' = (accounts v)((host, k) \<mapsto> (scopedPolicy (s3Bucket cfg) kp (mrAccess req), expiry))"
      "expiry = now + max (mrTTL req) minServiceAccountTTL"
proof -
  let ?ttl = "if mrTTL req < minServiceAccountTTL then minServiceAccountTTL else mrTTL req"
  let ?doc = "scopedPolicy (s3Bucket cfg) kp (mrAccess req)"
  have ttl: "?ttl = max (mrTTL req) minServiceAccountTTL" by simp
  show ?thesis
  proof (cases "hostAndTLS env cfg")
    case None
    with assms refused show ?thesis by (auto simp: mint_minio_def)
  next
    case (Some hs)
    obtain host secure where hs: "hs = (host, secure)" by fastforce
    show ?thesis
    proof (cases "msMadmin ms host (s3AccessKeyID admin) (s3SecretAccessKey admin) secure")
      case None
      with assms refused Some hs show ?thesis by (auto simp: mint_minio_def)
    next
      case add: (Some add)
      obtain x w where c: "add ?doc (now + ?ttl) v = (x, w)" by fastforce
      note m = assms [unfolded mint_minio_def Some hs option.case prod.case add Let_def fst_conv snd_conv c]
      note A = add_account [OF add c]
      show ?thesis
      proof (cases x)
        case None
        with m A show ?thesis by (intro refused [of MintFailed]) auto
      next
        case (Some kst)
        obtain k s t where k: "kst = (k, s, t)" by (rule prod_cases3)
        with m A Some show ?thesis unfolding ttl
          by (intro minted [of k s "if mrAllowSessionToken req then t else []" "now + max (mrTTL req) minServiceAccountTTL" host]) auto
      qed
    qed
  qed
qed

text \<open>\<^const>\<open>MintScopedCredential\<close> as a whole.\<close>

lemma mint_scoped_cases:
  assumes "MintScopedCredential env ms now uuid cfg admin req (Some record_lease) (v, l) = (r, v', l')"
  obtains
    (refused) e where "r = Inl e" "l' = l" "live_keys (users v') = live_keys (users v)" "accounts v' = accounts v"
  | (undone) pre base k err w where "r = Inl MintFailed" "accounts v' = accounts v"
      "record_lease (minted_lease now (''booth-'' @ uuid) req (key_prefix (s3Prefix cfg) pre) k) l = (Some err, l')"
      "fst (iDeleteAccessKey (msIam ms base (s3AccessKeyID admin) (s3SecretAccessKey admin)) (''booth-'' @ uuid) k w) = Some IamError \<or>
        live_keys (users v') = live_keys (users v)"
  | (iam) pre base k s where "CleanPrefix (mrPath req) = Inr pre" "iam_endpoint env cfg = Some base" "s3CredentialProvider cfg = ''seaweedfs-iam''"
      "r = Inr (minted_at cfg (key_prefix (s3Prefix cfg) pre) k s []
        (swExpiresAt (minted_lease now (''booth-'' @ uuid) req (key_prefix (s3Prefix cfg) pre) k)))"
      "record_lease (minted_lease now (''booth-'' @ uuid) req (key_prefix (s3Prefix cfg) pre) k) l = (None, l')" "accounts v' = accounts v"
      "users v (base, ''booth-'' @ uuid) = None"
      "users v' = (users v)((base, ''booth-'' @ uuid) \<mapsto>
        (Some (scopedPolicy (s3Bucket cfg) (key_prefix (s3Prefix cfg) pre) (mrAccess req)), {k}))"
  | (minio) pre host k s tok expiry where "CleanPrefix (mrPath req) = Inr pre"
      "r = Inr (minted_at cfg (key_prefix (s3Prefix cfg) pre) k s tok expiry)" "l' = l" "users v' = users v"
      "accounts v' = (accounts v)((host, k) \<mapsto> (scopedPolicy (s3Bucket cfg) (key_prefix (s3Prefix cfg) pre) (mrAccess req), expiry))"
      "expiry = now + max (mrTTL req) minServiceAccountTTL"
proof (cases "CleanPrefix (mrPath req)")
  case (Inl e)
  with assms show ?thesis by (intro refused [of ErrScopeNotSupported]) (auto simp: MintScopedCredential_def split: if_splits)
next
  case (Inr pre)
  have guarded: "z = e \<or> C \<and> x = z \<or> y = z"
    if "(if A then e else if B then e else if C then (if D then e else x) else if D then e else y) = z"
    for A B C D and e x y z :: "(mint_err + minted) \<times> 'v \<times> 'c"
    using that by (auto split: if_splits)
  note m = assms [unfolded MintScopedCredential_def Inr sum.case Let_def]
  let ?kp = "key_prefix (s3Prefix cfg) pre"
  consider (early) "(r, v', l') = (Inl ErrScopeNotSupported, v, l)"
    | (sw) "s3CredentialProvider cfg = ''seaweedfs-iam''" "mintSeaweedFSIAM env ms now uuid cfg admin req (Some record_lease) ?kp (v, l) = (r, v', l')"
    | (mn) "mint_minio env ms now cfg admin req ?kp (v, l) = (r, v', l')"
    using guarded [OF m] by metis
  then show ?thesis
  proof cases
    case early
    then show ?thesis by (intro refused [of ErrScopeNotSupported]) auto
  next
    case sw
    from sw(2) show ?thesis
    proof (cases rule: mint_iam_cases)
      case (refused e)
      then show ?thesis by (rule that(1))
    next
      case (undone base k err w)
      then show ?thesis by (intro that(2) [of pre k err base w]) simp_all
    next
      case (minted base k s)
      then show ?thesis using Inr sw(1) by (intro that(3) [of pre base k s]) simp_all
    qed
  next
    case mn
    then show ?thesis
    proof (cases rule: mint_minio_cases)
      case (refused e)
      then show ?thesis by (intro that(1) [of e]) simp_all
    next
      case (minted host k s tok expiry)
      then show ?thesis using Inr by (intro that(4) [of pre k s tok expiry host]) simp_all
    qed
  qed
qed

end

end
