(* ===== verification/Broker_Provider.thy ===== *)
theory Broker_Provider
  imports Broker_Mint Auth Registry_Service
begin

text \<open>
  \<^verbatim>\<open>internal/credentialbroker/provider.go\<close>: the endpoint on which the platform's credential broker
  asks for a short-lived credential.  Its state is the registry, the remote services that mint and
  the lease store.  Parameters: the clock, the fresh lease id and user name
  (\<open>btick\<close>).  Message texts and the audit log are not modelled; an error body is its code.
\<close>

section \<open>The handler's dependencies\<close>

record ('m, 'c, 'w, 'v, 'l) broker_state =
  bsReg :: "('m, 'c, 'w) regst"
  bsRemote :: 'v
  bsLeases :: 'l

record btick =
  btNow :: int
  btUserID :: string
  btLeaseID :: string

type_synonym ('v, 'l) minter =
  "btick \<Rightarrow> s3_config \<Rightarrow> s3_creds \<Rightarrow> mint_request \<Rightarrow> 'l recorder option \<Rightarrow> 'v \<times> 'l \<Rightarrow> (mint_err + minted) \<times> 'v \<times> 'l"

record ('m, 'c, 'w, 'v, 'l) broker =
  bkCredential :: string
  bkRegistry :: "('m, 'c, 'w) svc"
  bkLeases :: "'l lease_ops option"
  bkMint :: "('v, 'l) minter option"
  bkServices :: "'v mint_services"

text \<open>\<^verbatim>\<open>NewHandler\<close>'s default for \<^verbatim>\<open>Mint\<close>; its other defaults are the clock and the fresh id.\<close>

definition broker_mint :: "('m, 'c, 'w, 'v, 'l) broker \<Rightarrow> ('v, 'l) minter" where
  "broker_mint b =
     (case bkMint b of
        Some mint \<Rightarrow> mint
      | None \<Rightarrow> (\<lambda>tk cfg admin req rec s.
          MintScopedCredential (svEnv (bkRegistry b)) (bkServices b) (btNow tk) (btUserID tk) cfg admin req rec s))"

definition maxRequestBytes :: int where "maxRequestBytes = 16 * 1024"

section \<open>Wire shapes\<close>

record requester =
  rqrSubject :: string
  rqrWorkspace :: string
  rqrRole :: string

record inbound =
  inKind :: string
  inTTLSeconds :: int
  inAccess :: string
  inScope :: "json option"
  inOptions :: "json option"
  inRequester :: requester

record scope_echo =
  seBackendID :: string
  sePath :: string
  seAccess :: string

record outbound =
  obLeaseID :: string
  obKind :: string
  obExpiresAt :: int
  obScope :: scope_echo
  obCredential :: minted

datatype broker_body = BrokerError string | BrokerGrant outbound

type_synonym bresp = "broker_body response"

text \<open>A nested struct is filled in place: a second value for its key updates the first.\<close>

definition upd_requester :: "requester \<Rightarrow> json \<Rightarrow> requester option" where
  "upd_requester acc j =
     (case struct_fields True [''subject'', ''workspace'', ''role''] j of
        None \<Rightarrow> None
      | Some fs \<Rightarrow>
          (case (decode_field dec_str ''subject'' (rqrSubject acc) fs, decode_field dec_str ''workspace'' (rqrWorkspace acc) fs,
                 decode_field dec_str ''role'' (rqrRole acc) fs) of
             (Some s, Some w, Some r) \<Rightarrow> Some \<lparr>rqrSubject = s, rqrWorkspace = w, rqrRole = r\<rparr>
           | _ \<Rightarrow> None))"

definition dec_inbound :: "json \<Rightarrow> inbound option" where
  "dec_inbound j =
     (case struct_fields True [''kind'', ''ttlSeconds'', ''access'', ''scope'', ''options'', ''requester''] j of
        None \<Rightarrow> None
      | Some fs \<Rightarrow>
          (case (decode_field dec_str ''kind'' [] fs, decode_field dec_int64 ''ttlSeconds'' 0 fs, decode_field dec_str ''access'' [] fs,
                 fold_field upd_raw ''scope'' None fs, fold_field upd_raw ''options'' None fs,
                 fold_field upd_requester ''requester'' \<lparr>rqrSubject = [], rqrWorkspace = [], rqrRole = []\<rparr> fs) of
             (Some k, Some t, Some a, Some s, Some ops, Some r) \<Rightarrow>
               Some \<lparr>inKind = k, inTTLSeconds = t, inAccess = a, inScope = s, inOptions = ops, inRequester = r\<rparr>
           | _ \<Rightarrow> None))"

text \<open>The scope: backend id and path.  Unknown keys are ignored here, unlike above.\<close>

definition dec_scope :: "json option \<Rightarrow> (string \<times> string) option" where
  "dec_scope raw =
     (case Option.bind raw (struct_fields False [''backendId'', ''path'']) of
        None \<Rightarrow> None
      | Some fs \<Rightarrow>
          (case (decode_field dec_str ''backendId'' [] fs, decode_field dec_str ''path'' [] fs) of
             (Some i, Some p) \<Rightarrow> if i = [] then None else Some (i, p)
           | _ \<Rightarrow> None))"

definition dec_options :: "json option \<Rightarrow> string option" where
  "dec_options raw =
     (case raw of
        None \<Rightarrow> Some []
      | Some j \<Rightarrow> Option.bind (struct_fields False [''sessionToken''] j) (decode_field dec_str ''sessionToken'' []))"

section \<open>The handler\<close>

definition kindS3 :: string where "kindS3 = ''s3''"

definition provider_bearerToken :: "request \<Rightarrow> string" where
  "provider_bearerToken r =
     (let h = rqHeader r ''Authorization'' in
      if length h < 7 \<or> \<not> EqualFoldAscii (take 7 h) ''Bearer '' then [] else TrimSpace (drop 7 h))"

definition provider_authenticate :: "('m, 'c, 'w, 'v, 'l) broker \<Rightarrow> request \<Rightarrow> bool" where
  "provider_authenticate b r =
     (let presented = provider_bearerToken r in
      if presented = [] then False else if bkCredential b = [] then False else presented = bkCredential b)"

definition broker_error :: "nat \<Rightarrow> string \<Rightarrow> bresp" where
  "broker_error status code = writeJSON status (BrokerError code)"

text \<open>\<^verbatim>\<open>time.Duration(n) * time.Second\<close>: an \<^verbatim>\<open>int64\<close> product, which wraps.\<close>

definition ttl_of :: "int \<Rightarrow> int" where
  "ttl_of n = signed_take_bit 63 (n * second)"

text \<open>The request after decoding and checking: the request, the backend id and path, whether a session token may come along.\<close>

definition broker_request :: "request \<Rightarrow> bresp + inbound \<times> string \<times> string \<times> bool" where
  "broker_request r =
     (case (case Decode (MaxBytesReader maxRequestBytes (rqBody r)) of Inl e \<Rightarrow> None | Inr j \<Rightarrow> dec_inbound j) of
        None \<Rightarrow> Inl (broker_error 400 ''invalid_request'')
      | Some req \<Rightarrow>
          if inKind req \<noteq> kindS3 then Inl (broker_error 422 ''scope_not_supported'')
          else if inAccess req \<noteq> AccessRead \<and> inAccess req \<noteq> AccessReadWrite then Inl (broker_error 400 ''invalid_request'')
          else case dec_scope (inScope req) of
                 None \<Rightarrow> Inl (broker_error 400 ''bad_scope'')
               | Some (backendID, path) \<Rightarrow>
                   (case dec_options (inOptions req) of
                      None \<Rightarrow> Inl (broker_error 400 ''invalid_request'')
                    | Some token \<Rightarrow>
                        if token \<noteq> [] \<and> token \<noteq> ''forbidden'' \<and> token \<noteq> ''allowed'' then Inl (broker_error 400 ''invalid_request'')
                        else Inr (req, backendID, path, token \<noteq> ''forbidden'')))"

text \<open>The backend a request names: its S3 configuration and its own credentials.\<close>

definition broker_backend ::
    "('m, 'c, 'w, 'v, 'l) broker \<Rightarrow> string \<Rightarrow> string \<Rightarrow> ('m, 'c, 'w) regst \<Rightarrow> (bresp + s3_config \<times> s3_creds) \<times> ('m, 'c, 'w) regst" where
  "broker_backend b workspace backendID st =
     (case RawCredentials (bkRegistry b) workspace backendID st of
        ((r, res), st1) \<Rightarrow>
          (case res of
             Inl RNotFound \<Rightarrow> (Inl (broker_error 404 ''no_such_backend''), st1)
           | _ \<Rightarrow>
          if isl res \<and> res \<noteq> Inl RNoCredentials then (Inl (broker_error 500 ''internal_error''), st1)
          else (case r of
                  None \<Rightarrow> (Inl (broker_error 422 ''scope_not_supported''), st1)
                | Some rec \<Rightarrow>
          if rKind rec \<noteq> KindS3 then (Inl (broker_error 422 ''scope_not_supported''), st1)
          else (case dec_s3 False (rConfig rec) of
                  None \<Rightarrow> (Inl (broker_error 500 ''internal_error''), st1)
                | Some cfg \<Rightarrow>
                    (let kvs = (case res of Inl e \<Rightarrow> [] | Inr kvs \<Rightarrow> kvs) in
                     (Inr (cfg, \<lparr>s3AccessKeyID = cred kvs ''accessKeyId'', s3SecretAccessKey = cred kvs ''secretAccessKey'',
                                 s3SessionToken = cred kvs ''sessionToken''\<rparr>), st1))))))"

definition broker_recorder :: "('m, 'c, 'w, 'v, 'l) broker \<Rightarrow> string \<Rightarrow> string \<Rightarrow> string \<Rightarrow> 'l recorder" where
  "broker_recorder b leaseID workspace backendID lease l =
     (case bkLeases b of
        None \<Rightarrow> (Some ''no lease store configured'', l)
      | Some ops \<Rightarrow>
          lsRecord ops
            \<lparr>leID = leaseID, leWorkspace = workspace, leBackendID = backendID, leIAMUserName = swIAMUserName lease,
             leAccessKeyID = swAccessKeyID lease, lePrefix = swPrefix lease, leAccess = swAccess lease,
             leExpiresAt = swExpiresAt lease, leCreatedAt = swCreatedAt lease, leSweptAt = None\<rparr> l)"

definition mint_for :: "inbound \<Rightarrow> string \<Rightarrow> bool \<Rightarrow> mint_request" where
  "mint_for req path allowToken =
     \<lparr>mrPath = path, mrAccess = inAccess req, mrTTL = ttl_of (inTTLSeconds req), mrAllowSessionToken = allowToken\<rparr>"

definition provider_serve ::
    "('m, 'c, 'w, 'v, 'l) broker \<Rightarrow> btick \<Rightarrow> request \<Rightarrow> ('m, 'c, 'w, 'v, 'l) broker_state \<Rightarrow> bresp \<times> ('m, 'c, 'w, 'v, 'l) broker_state" where
  "provider_serve b tk r st =
     (if \<not> provider_authenticate b r then (broker_error 401 ''unauthorized'', st)
      else case broker_request r of
        Inl e \<Rightarrow> (e, st)
      | Inr (req, backendID, path, allowToken) \<Rightarrow>
     (case broker_backend b (rqrWorkspace (inRequester req)) backendID (bsReg st) of
        (Inl e, rg) \<Rightarrow> (e, st\<lparr>bsReg := rg\<rparr>)
      | (Inr (cfg, admin), rg) \<Rightarrow>
     (case broker_mint b tk cfg admin (mint_for req path allowToken)
             (Some (broker_recorder b (btLeaseID tk) (rqrWorkspace (inRequester req)) backendID)) (bsRemote st, bsLeases st) of
        (res, v, l) \<Rightarrow>
          (case res of
             Inl ErrScopeNotSupported \<Rightarrow> broker_error 422 ''scope_not_supported''
           | Inl MintFailed \<Rightarrow> broker_error 502 ''mint_failed''
           | Inr m \<Rightarrow>
               writeJSON 201 (BrokerGrant
                 \<lparr>obLeaseID = btLeaseID tk, obKind = kindS3, obExpiresAt = mcExpiresAt m,
                  obScope = \<lparr>seBackendID = backendID, sePath = TrimByte slash path, seAccess = inAccess req\<rparr>,
                  obCredential = m\<rparr>),
           \<lparr>bsReg = rg, bsRemote = v, bsLeases = l\<rparr>))))"

text \<open>Every answer carries \<^verbatim>\<open>Cache-Control: no-store\<close>.\<close>

definition provider_ServeHTTP ::
    "('m, 'c, 'w, 'v, 'l) broker \<Rightarrow> btick \<Rightarrow> request \<Rightarrow> ('m, 'c, 'w, 'v, 'l) broker_state \<Rightarrow> bresp \<times> ('m, 'c, 'w, 'v, 'l) broker_state" where
  "provider_ServeHTTP b tk r st =
     (case provider_serve b tk r st of (rs, st') \<Rightarrow> (rs\<lparr>rsHeaders := (''Cache-Control'', ''no-store'') # rsHeaders rs\<rparr>, st'))"

end
