(* ===== verification/Broker_Sweep.thy ===== *)
theory Broker_Sweep
  imports Broker_Provider
begin

text \<open>
  \<^verbatim>\<open>internal/seaweedfssweep/sweep.go\<close>: the sweeper that deletes the SeaweedFS keys whose lease has
  expired.  It shares the broker's state (\<^typ>\<open>('m, 'c, 'w, 'v, 'l) broker_state\<close>).  The ticker and
  the cancellation of \<^verbatim>\<open>Run\<close>'s context come as a list of events; log texts are not modelled.
\<close>

section \<open>The sweeper\<close>

definition DefaultInterval :: int where "DefaultInterval = 60 * second"

definition batchSize :: int where "batchSize = 200"

record ('m, 'c, 'w, 'v, 'l) sweeper =
  spLeases :: "'l lease_ops"
  spRegistry :: "('m, 'c, 'w) svc"
  spServices :: "'v mint_services"
  spInterval :: int
  spNow :: "(int \<Rightarrow> int) option"

record cycle_result =
  crSwept :: nat
  crFailed :: nat
  crActive :: nat
  crOldestBacklogAge :: int

definition empty_cycle :: cycle_result where
  "empty_cycle = \<lparr>crSwept = 0, crFailed = 0, crActive = 0, crOldestBacklogAge = 0\<rparr>"

text \<open>\<open>spNow\<close>, when set, replaces the clock: it maps its reading to the time used.\<close>

definition withDefaults :: "('m, 'c, 'w, 'v, 'l) sweeper \<Rightarrow> ('m, 'c, 'w, 'v, 'l) sweeper" where
  "withDefaults d =
     d\<lparr>spInterval := (if spInterval d \<le> 0 then DefaultInterval else spInterval d),
       spNow := (case spNow d of None \<Rightarrow> Some (\<lambda>t. t) | Some f \<Rightarrow> Some f)\<rparr>"

text \<open>Deleting one lease's user and key; \<open>False\<close> is an error.\<close>

definition sweepLease ::
    "('m, 'c, 'w, 'v, 'l) sweeper \<Rightarrow> lease \<Rightarrow> ('m, 'c, 'w, 'v, 'l) broker_state \<Rightarrow> bool \<times> ('m, 'c, 'w, 'v, 'l) broker_state" where
  "sweepLease d le st =
     (case RawCredentials (spRegistry d) (leWorkspace le) (leBackendID le) (bsReg st) of
        ((r, res), rg) \<Rightarrow>
          (let st1 = st\<lparr>bsReg := rg\<rparr> in
           case res of
             Inl e \<Rightarrow> (e = RNotFound, st1)
           | Inr kvs \<Rightarrow>
               (case r of
                  None \<Rightarrow> (True, st1)
                | Some rec \<Rightarrow>
                    if rKind rec \<noteq> KindS3 then (True, st1)
                    else (case dec_s3 False (rConfig rec) of
                            None \<Rightarrow> (False, st1)
                          | Some cfg \<Rightarrow>
                              (case DeleteSeaweedFSIAMLease (svEnv (spRegistry d)) (spServices d) cfg
                                      \<lparr>s3AccessKeyID = cred kvs ''accessKeyId'', s3SecretAccessKey = cred kvs ''secretAccessKey'',
                                       s3SessionToken = []\<rparr> (leIAMUserName le) (leAccessKeyID le) (bsRemote st1) of
                                 (e, v) \<Rightarrow> (e = None, st1\<lparr>bsRemote := v\<rparr>))))))"

text \<open>One turn of the loop over the pending leases: whether the lease was swept.\<close>

definition sweep_one ::
    "('m, 'c, 'w, 'v, 'l) sweeper \<Rightarrow> int \<Rightarrow> lease \<Rightarrow> ('m, 'c, 'w, 'v, 'l) broker_state \<Rightarrow> bool \<times> ('m, 'c, 'w, 'v, 'l) broker_state" where
  "sweep_one d now le st =
     (case sweepLease d le st of
        (False, st1) \<Rightarrow> (False, st1)
      | (True, st1) \<Rightarrow>
          (case lsMarkSwept (spLeases d) (leID le) now (bsLeases st1) of
             (e, l) \<Rightarrow> (e = None, st1\<lparr>bsLeases := l\<rparr>)))"

fun sweep_all ::
    "('m, 'c, 'w, 'v, 'l) sweeper \<Rightarrow> int \<Rightarrow> lease list \<Rightarrow> cycle_result \<Rightarrow> ('m, 'c, 'w, 'v, 'l) broker_state \<Rightarrow>
     cycle_result \<times> ('m, 'c, 'w, 'v, 'l) broker_state" where
  "sweep_all d now [] res st = (res, st)"
| "sweep_all d now (le # ls) res st =
     (case sweep_one d now le st of
        (ok, st1) \<Rightarrow>
          sweep_all d now ls (if ok then res\<lparr>crSwept := Suc (crSwept res)\<rparr> else res\<lparr>crFailed := Suc (crFailed res)\<rparr>) st1)"

definition sweepOnce ::
    "('m, 'c, 'w, 'v, 'l) sweeper \<Rightarrow> int \<Rightarrow> ('m, 'c, 'w, 'v, 'l) broker_state \<Rightarrow> cycle_result \<times> ('m, 'c, 'w, 'v, 'l) broker_state" where
  "sweepOnce d0 clock st =
     (let d = withDefaults d0; now = the (spNow d) clock in
      case lsPendingSweep (spLeases d) now batchSize (bsLeases st) of
        (Inl e, l) \<Rightarrow> (empty_cycle, st\<lparr>bsLeases := l\<rparr>)
      | (Inr pend, l) \<Rightarrow>
          (let res0 = (case pend of [] \<Rightarrow> empty_cycle | le # _ \<Rightarrow> empty_cycle\<lparr>crOldestBacklogAge := now - leExpiresAt le\<rparr>) in
           case sweep_all d now pend res0 (st\<lparr>bsLeases := l\<rparr>) of
             (res, st1) \<Rightarrow>
               (case lsActiveCount (spLeases d) now (bsLeases st1) of
                  (Inl e, l1) \<Rightarrow> (res, st1\<lparr>bsLeases := l1\<rparr>)
                | (Inr n, l1) \<Rightarrow> (res\<lparr>crActive := n\<rparr>, st1\<lparr>bsLeases := l1\<rparr>))))"

datatype sweep_event = Tick int | Cancelled

fun sweep_Run :: "('m, 'c, 'w, 'v, 'l) sweeper \<Rightarrow> sweep_event list \<Rightarrow> ('m, 'c, 'w, 'v, 'l) broker_state \<Rightarrow> ('m, 'c, 'w, 'v, 'l) broker_state" where
  "sweep_Run d [] st = st"
| "sweep_Run d (Tick clock # es) st = sweep_Run d es (snd (sweepOnce (withDefaults d) clock st))"
| "sweep_Run d (Cancelled # es) st = st"

end
