(* ===== verification/Broker_Laws.thy ===== *)
theory Broker_Laws
  imports Broker_Scope Broker_Leases Broker_Sweep Registry_Laws
begin

text \<open>
  What the credential endpoint and the sweeper do together, over any registry, credential service
  and lease store that keep their contracts (\<open>broker_host\<close>).  The invariant is \<open>books\<close>: every live
  key the broker made has an unswept lease under a backend whose service it lives at.
\<close>

section \<open>The books\<close>

text \<open>The service a backend's keys live at: the base URL of its stored S3 configuration.\<close>

definition home :: "env \<Rightarrow> backend_rec option \<Rightarrow> string option" where
  "home env r =
     (case r of
        None \<Rightarrow> None
      | Some rec \<Rightarrow> if rKind rec = KindS3 then Option.bind (dec_s3 False (rConfig rec)) (iam_endpoint env) else None)"

definition covers :: "env \<Rightarrow> (string \<Rightarrow> string \<Rightarrow> backend_rec option) \<Rightarrow> lease \<Rightarrow> string \<Rightarrow> string \<Rightarrow> string \<Rightarrow> bool" where
  "covers env recs le base u k \<longleftrightarrow> leSweptAt le = None \<and> leIAMUserName le = u \<and> leAccessKeyID le = k \<and>
     home env (recs (leWorkspace le) (leBackendID le)) = Some base"

definition books ::
    "env \<Rightarrow> (string \<Rightarrow> string \<Rightarrow> backend_rec option) \<Rightarrow> (string \<rightharpoonup> lease) \<Rightarrow> (string \<times> string \<times> string) set \<Rightarrow> bool" where
  "books env recs L K \<longleftrightarrow> (\<forall>base u k. (base, u, k) \<in> K \<longrightarrow> prefix ''booth-'' u \<longrightarrow> (\<exists>i le. L i = Some le \<and> covers env recs le base u k))"

lemma books_shrink: "books env recs L K \<Longrightarrow> K' \<subseteq> K \<Longrightarrow> books env recs L K'"
  unfolding books_def by blast

lemma books_record:
  assumes "books env recs L K" "L i = None" "covers env recs le base u k"
  shows "books env recs (L(i \<mapsto> le)) (insert (base, u, k) K)"
  unfolding books_def
proof (intro allI impI)
  fix b' u' k' assume x: "(b', u', k') \<in> insert (base, u, k) K" "prefix ''booth-'' u'"
  show "\<exists>j le'. (L(i \<mapsto> le)) j = Some le' \<and> covers env recs le' b' u' k'"
  proof (cases "(b', u', k') \<in> K")
    case True
    with assms(1) x(2) obtain j le' where "L j = Some le'" "covers env recs le' b' u' k'" unfolding books_def by blast
    moreover from this assms(2) have "j \<noteq> i" by auto
    ultimately show ?thesis by (intro exI [of _ j]) auto
  next
    case False
    with x assms(3) show ?thesis by (intro exI [of _ i]) auto
  qed
qed

text \<open>Striking off a lease whose user has no key left where its backend is.\<close>

lemma books_sweep:
  assumes "books env recs L K" "L i = Some le"
    and gone: "\<And>base k. home env (recs (leWorkspace le) (leBackendID le)) = Some base \<Longrightarrow> (base, leIAMUserName le, k) \<notin> K"
  shows "books env recs (L(i \<mapsto> le\<lparr>leSweptAt := Some t\<rparr>)) K"
  unfolding books_def
proof (intro allI impI)
  fix base u k assume x: "(base, u, k) \<in> K" "prefix ''booth-'' u"
  with assms(1) obtain j le' where j: "L j = Some le'" "covers env recs le' base u k" unfolding books_def by blast
  have "j \<noteq> i"
  proof
    assume "j = i"
    with j assms(2) have "covers env recs le base u k" by simp
    with gone [of base k] x(1) show False by (simp add: covers_def)
  qed
  with j show "\<exists>j le'. (L(i \<mapsto> le\<lparr>leSweptAt := Some t\<rparr>)) j = Some le' \<and> covers env recs le' base u k"
    by (intro exI [of _ j]) simp
qed

text \<open>The backend a request names is one of those that \<open>used\<close> holds of.\<close>

definition known_request :: "(string \<Rightarrow> string \<Rightarrow> bool) \<Rightarrow> request \<Rightarrow> bool" where
  "known_request used r \<longleftrightarrow>
     (case broker_request r of Inl e \<Rightarrow> True | Inr (req, i, path, token) \<Rightarrow> used (rqrWorkspace (inRequester req)) i)"

section \<open>Deleting one lease's user\<close>

context credential_host
begin

lemma delete_lease_spec:
  assumes "DeleteSeaweedFSIAMLease env ms cfg admin u k v = (e, v')"
  shows "accounts v' = accounts v \<and> live_keys (users v') \<subseteq> live_keys (users v) \<and>
    (\<forall>b u' k'. (b, u', k') \<in> live_keys (users v) \<longrightarrow> (b, u', k') \<notin> live_keys (users v') \<longrightarrow> u' = u) \<and>
    (e = None \<longrightarrow> (\<exists>base. iam_endpoint env cfg = Some base \<and> (\<forall>k'. (base, u, k') \<notin> live_keys (users v'))))"
proof (cases "iam_endpoint env cfg")
  case None
  with assms show ?thesis by (auto simp: DeleteSeaweedFSIAMLease_def seaweedfsIAMClient_def)
next
  case (Some base)
  let ?c = "msIam ms base (s3AccessKeyID admin) (s3SecretAccessKey admin)"
  obtain e1 v1 where c1: "iDeleteAccessKey ?c u k v = (e1, v1)" by fastforce
  obtain e2 v2 where c2: "iDeleteUser ?c u v1 = (e2, v2)" by fastforce
  have r: "(e, v') = (if e1 = Some IamError then (Some MintFailed, v1) else if e2 = Some IamError then (Some MintFailed, v2) else (None, v2))"
    using assms Some c1 c2
    by (cases e1; cases e2; cases "the e1"; cases "the e2") (auto simp: DeleteSeaweedFSIAMLease_def seaweedfsIAMClient_def)
  note k1 = delete_key [OF c1] and k2 = delete_user [OF c2]
  have l1: "live_keys (users v1) = (if e1 = Some IamError then live_keys (users v) else live_keys (users v) - {(base, u, k)})"
    using k1 by (simp add: live_keys_without_key)
  have l2: "live_keys (users v2) = (if e2 = Some IamError then live_keys (users v1) else live_keys (users v1) - {x. \<exists>k. x = (base, u, k)})"
    using k2 by (simp add: live_keys_user_gone)
  show ?thesis using r Some k1 k2 l1 l2 by (auto split: if_splits)
qed

end

section \<open>The registry, the credential services and the leases together\<close>

context registry
begin

lemma raw_found:
  assumes "served w i" "ok (rgMeta st)" "RawCredentials sv w i st = ((r, x), st')"
  shows "(x = Inl RNotFound \<longrightarrow> recs (rgMeta st) w i = None) \<and> (\<forall>rec. r = Some rec \<longrightarrow> recs (rgMeta st) w i = Some rec) \<and>
    (\<forall>kvs. x = Inr kvs \<longrightarrow> r \<noteq> None \<and> held (rgCreds st) w i = Some (map_of kvs)) \<and> same_regs st st' \<and> rgWorld st' = rgWorld st"
proof -
  note raw = raw_spec [OF assms]
  obtain y st1 where g: "reg_Get sv w i st = (y, st1)" by fastforce
  obtain z c where cg: "cGet (svCreds sv) w i (rgCreds st1) = (z, c)" by fastforce
  note G = get_spec [OF assms(2) g] and C = C.get [OF assms(1) cg]
  have nf: "recs (rgMeta st) w i = None" if "y = Inl RNotFound"
  proof (cases "ValidateWorkspace w")
    case None
    obtain y' m where m: "mGet (svMeta sv) w i (rgMeta st) = (y', m)" by fastforce
    with g None that have "y' = Inl RNotFound" by (simp add: reg_Get_def)
    with M.get [OF assms(2) valid_slash [OF None] m] show ?thesis by simp
  next
    case (Some e)
    with g that show ?thesis by (auto simp: reg_Get_def ValidateWorkspace_def split: if_splits)
  qed
  from assms(3) g cg have "x = Inl RNotFound \<Longrightarrow> y = Inl RNotFound \<or> z = Inl RNotFound" "x = Inr kvs \<Longrightarrow> z = Inr kvs" for kvs
    by (auto simp: RawCredentials_def split: sum.splits if_splits)
  with raw nf G C show ?thesis by (auto split: sum.splits)
qed

end

locale broker_host =
  R: registry sv recs ok canon held served + H: credential_host ms users accounts + L: lease_store lops lok leased lcanon is_id
  for sv :: "('m, 'c, 'w) svc"
    and recs :: "'m \<Rightarrow> string \<Rightarrow> string \<Rightarrow> backend_rec option" and ok canon
    and held :: "'c \<Rightarrow> string \<Rightarrow> string \<Rightarrow> (string \<rightharpoonup> string) option" and served
    and ms :: "'v mint_services" and users accounts
    and lops :: "'l lease_ops" and lok and leased :: "'l \<Rightarrow> string \<rightharpoonup> lease" and lcanon is_id
begin

definition sound :: "('m, 'c, 'w, 'v, 'l) broker_state \<Rightarrow> bool" where
  "sound st \<longleftrightarrow> ok (rgMeta (bsReg st)) \<and> lok (bsLeases st)"

definition keys :: "('m, 'c, 'w, 'v, 'l) broker_state \<Rightarrow> (string \<times> string \<times> string) set" where
  "keys st = live_keys (users (bsRemote st))"

definition balanced :: "('m, 'c, 'w, 'v, 'l) broker_state \<Rightarrow> bool" where
  "balanced st \<longleftrightarrow> books (svEnv sv) (recs (rgMeta (bsReg st))) (leased (bsLeases st)) (keys st)"

text \<open>Records and backend credentials are as they were, and so is every disk and bucket.\<close>

definition registry_kept :: "('m, 'c, 'w, 'v, 'l) broker_state \<Rightarrow> ('m, 'c, 'w, 'v, 'l) broker_state \<Rightarrow> bool" where
  "registry_kept st st' \<longleftrightarrow> R.same_regs (bsReg st) (bsReg st') \<and> rgWorld (bsReg st') = rgWorld (bsReg st)"

lemma kept_trans: "registry_kept st st1 \<Longrightarrow> registry_kept st1 st2 \<Longrightarrow> registry_kept st st2"
  using R.same_regs_trans by (auto simp: registry_kept_def)

lemma kept_recs: "registry_kept st st' \<Longrightarrow> ok (rgMeta (bsReg st')) \<and> recs (rgMeta (bsReg st')) = recs (rgMeta (bsReg st))"
  by (simp add: registry_kept_def R.same_regs_def R.same_recs_def)

text \<open>What sweeping one lease does: it takes keys of that lease's user away, and nothing else.\<close>

definition swept_from :: "lease \<Rightarrow> ('m, 'c, 'w, 'v, 'l) broker_state \<Rightarrow> ('m, 'c, 'w, 'v, 'l) broker_state \<Rightarrow> bool" where
  "swept_from le st st' \<longleftrightarrow> registry_kept st st' \<and> accounts (bsRemote st') = accounts (bsRemote st) \<and> keys st' \<subseteq> keys st \<and>
     (\<forall>b u k. (b, u, k) \<in> keys st \<longrightarrow> (b, u, k) \<notin> keys st' \<longrightarrow> u = leIAMUserName le)"

lemma sweepLease_spec:
  assumes d: "spRegistry d = sv" "spServices d = ms" and st: "ok (rgMeta (bsReg st))" "served (leWorkspace le) (leBackendID le)"
    and r: "sweepLease d le st = (b, st')"
  shows "swept_from le st st' \<and> bsLeases st' = bsLeases st \<and>
    (b \<longrightarrow> (\<forall>base k. home (svEnv sv) (recs (rgMeta (bsReg st)) (leWorkspace le) (leBackendID le)) = Some base \<longrightarrow>
       (base, leIAMUserName le, k) \<notin> keys st'))"
proof -
  obtain rc x rg where raw: "RawCredentials sv (leWorkspace le) (leBackendID le) (bsReg st) = ((rc, x), rg)" by (metis prod.exhaust)
  note R = R.raw_found [OF st(2,1) raw]
  have same: "swept_from le st (st\<lparr>bsReg := rg\<rparr>)" using R by (simp add: swept_from_def registry_kept_def keys_def)
  show ?thesis
  proof (cases x)
    case (Inl e)
    with r raw d have "b = (e = RNotFound)" "st' = st\<lparr>bsReg := rg\<rparr>" by (simp_all add: sweepLease_def)
    with same R Inl show ?thesis by (auto simp: home_def)
  next
    case (Inr kvs)
    with R obtain rec where rec: "rc = Some rec" "recs (rgMeta (bsReg st)) (leWorkspace le) (leBackendID le) = Some rec" by auto
    show ?thesis
    proof (cases "rKind rec = KindS3")
      case False
      with r raw d Inr rec have "st' = st\<lparr>bsReg := rg\<rparr>" by (simp add: sweepLease_def)
      with same rec False show ?thesis by (simp add: home_def)
    next
      case True
      show ?thesis
      proof (cases "dec_s3 False (rConfig rec)")
        case None
        with r raw d Inr rec True have "\<not> b" "st' = st\<lparr>bsReg := rg\<rparr>" by (simp_all add: sweepLease_def)
        with same show ?thesis by simp
      next
        case (Some cfg)
        let ?admin = "\<lparr>s3AccessKeyID = cred kvs ''accessKeyId'', s3SecretAccessKey = cred kvs ''secretAccessKey'', s3SessionToken = []\<rparr>"
        obtain e v where del: "DeleteSeaweedFSIAMLease (svEnv sv) ms cfg ?admin (leIAMUserName le) (leAccessKeyID le) (bsRemote st) = (e, v)"
          by fastforce
        with r raw d Inr rec True Some have b: "b = (e = None)" "st' = st\<lparr>bsReg := rg, bsRemote := v\<rparr>" by (simp_all add: sweepLease_def)
        from H.delete_lease_spec [OF del] R b rec True Some show ?thesis
          by (auto simp: swept_from_def registry_kept_def keys_def home_def)
      qed
    qed
  qed
qed

text \<open>The same lease, swept or not.\<close>

definition same_lease :: "lease \<Rightarrow> lease \<Rightarrow> bool" where
  "same_lease a b \<longleftrightarrow> a\<lparr>leSweptAt := None\<rparr> = b\<lparr>leSweptAt := None\<rparr>"

lemma same_lease_fields:
  assumes "same_lease a b"
  shows "leID a = leID b" "leWorkspace a = leWorkspace b" "leBackendID a = leBackendID b" "leIAMUserName a = leIAMUserName b"
    "leAccessKeyID a = leAccessKeyID b" "leExpiresAt a = leExpiresAt b"
  using assms by (cases a; cases b; simp add: same_lease_def)+

lemma same_lease_refl [simp]: "same_lease a a" "same_lease (a\<lparr>leSweptAt := t\<rparr>) b \<longleftrightarrow> same_lease a b" "same_lease b (a\<lparr>leSweptAt := t\<rparr>) \<longleftrightarrow> same_lease b a"
  by (simp_all add: same_lease_def)

text \<open>Leases before and after: the same ones, and only those in \<open>I\<close> may have been struck off.\<close>

definition only_marked :: "string set \<Rightarrow> (string \<rightharpoonup> lease) \<Rightarrow> (string \<rightharpoonup> lease) \<Rightarrow> bool" where
  "only_marked I L L' \<longleftrightarrow>
     (\<forall>i. L' i = L i \<or> i \<in> I \<and> (\<exists>l t. L i = Some l \<and> L' i = Some (l\<lparr>leSweptAt := Some t\<rparr>)))"

lemma only_marked_trans:
  assumes "only_marked I L L1" "only_marked J L1 L2"
  shows "only_marked (I \<union> J) L L2"
  unfolding only_marked_def
proof (intro allI)
  fix i
  from assms(1) have "L1 i = L i \<or> i \<in> I \<and> (\<exists>l t. L i = Some l \<and> L1 i = Some (l\<lparr>leSweptAt := Some t\<rparr>))" by (simp add: only_marked_def)
  moreover from assms(2) have "L2 i = L1 i \<or> i \<in> J \<and> (\<exists>l t. L1 i = Some l \<and> L2 i = Some (l\<lparr>leSweptAt := Some t\<rparr>))" by (simp add: only_marked_def)
  ultimately show "L2 i = L i \<or> i \<in> I \<union> J \<and> (\<exists>l t. L i = Some l \<and> L2 i = Some (l\<lparr>leSweptAt := Some t\<rparr>))"
    by (cases "L i") (auto 4 4)
qed

lemma only_marked_upd: "L i = Some l \<Longrightarrow> only_marked {i} L (L(i \<mapsto> l\<lparr>leSweptAt := Some t\<rparr>))"
  by (simp add: only_marked_def) blast

lemma only_marked_refl [simp]: "only_marked I L L"
  by (simp add: only_marked_def)

lemma only_marked_same: "only_marked I L L' \<Longrightarrow> L i = Some l \<Longrightarrow> \<exists>l'. L' i = Some l' \<and> same_lease l' l"
  unfolding only_marked_def by (drule spec [of _ i]) auto

text \<open>One turn of the loop.\<close>

lemma sweep_one_spec:
  assumes d: "spRegistry d = sv" "spServices d = ms" "spLeases d = lops"
    and st: "sound st" "served (leWorkspace le) (leBackendID le)"
    and le: "leased (bsLeases st) (leID le) = Some l" "same_lease l le"
    and r: "sweep_one d now le st = (b, st')"
  shows "sound st'" and "swept_from le st st'" and "only_marked {leID le} (leased (bsLeases st)) (leased (bsLeases st'))"
    and "balanced st \<longrightarrow> balanced st'"
    and "b \<longrightarrow> (\<exists>l' t. leased (bsLeases st') (leID le) = Some l' \<and> leSweptAt l' = Some t)"
proof -
  obtain b1 st1 where one: "sweepLease d le st = (b1, st1)" by fastforce
  have okm: "ok (rgMeta (bsReg st))" "lok (bsLeases st)" using st(1) by (simp_all add: sound_def)
  note S = sweepLease_spec [OF d(1,2) okm(1) st(2) one]
  then have kept: "registry_kept st st1" by (simp add: swept_from_def)
  note k = kept_recs [OF kept]
  have same: "leWorkspace l = leWorkspace le" "leBackendID l = leBackendID le" "leIAMUserName l = leIAMUserName le"
    using same_lease_fields [OF le(2)] by simp_all
  have bal1: "balanced st \<longrightarrow> balanced st1"
    using S k books_shrink unfolding balanced_def swept_from_def by fastforce
  have goal: "sound st' \<and> swept_from le st st' \<and> only_marked {leID le} (leased (bsLeases st)) (leased (bsLeases st')) \<and>
    (balanced st \<longrightarrow> balanced st') \<and> (b \<longrightarrow> (\<exists>l' t. leased (bsLeases st') (leID le) = Some l' \<and> leSweptAt l' = Some t))"
  proof (cases b1)
    case False
    with r one have "st' = st1" "\<not> b" by (simp_all add: sweep_one_def)
    with S k bal1 okm show ?thesis by (simp add: sound_def only_marked_def)
  next
    case True
    obtain e m where mk: "lsMarkSwept lops (leID le) now (bsLeases st1) = (e, m)" by fastforce
    with r one True d have st': "b = (e = None)" "st' = st1\<lparr>bsLeases := m\<rparr>" by (simp_all add: sweep_one_def)
    have ls: "bsLeases st1 = bsLeases st" "lok (bsLeases st1)" using S okm by simp_all
    from L.marked [OF ls(2) mk] le(1) ls(1)
    have m: "lok m" "e = None \<Longrightarrow> \<exists>t. leased m = (leased (bsLeases st))(leID le \<mapsto> l\<lparr>leSweptAt := Some t\<rparr>)"
      "e \<noteq> None \<Longrightarrow> leased m = leased (bsLeases st)" by (auto split: if_splits)
    have gone: "home (svEnv sv) (recs (rgMeta (bsReg st)) (leWorkspace l) (leBackendID l)) = Some base \<Longrightarrow>
        (base, leIAMUserName l, k) \<notin> keys st1" for base k
      using S True same by simp
    have "balanced st \<longrightarrow> balanced st'"
    proof
      assume "balanced st"
      with bal1 k ls have b1: "books (svEnv sv) (recs (rgMeta (bsReg st))) (leased (bsLeases st)) (keys st1)" by (simp add: balanced_def)
      show "balanced st'"
      proof (cases "e = None")
        case True
        with m obtain t where "leased m = (leased (bsLeases st))(leID le \<mapsto> l\<lparr>leSweptAt := Some t\<rparr>)" by blast
        with books_sweep [OF b1 le(1) gone] st' k show ?thesis by (simp add: balanced_def keys_def)
      next
        case False
        with m b1 st' k show ?thesis by (simp add: balanced_def keys_def)
      qed
    qed
    moreover have "swept_from le st st'" using S st' by (simp add: swept_from_def registry_kept_def keys_def)
    moreover have "sound st'" using k m st' by (simp add: sound_def)
    moreover have "only_marked {leID le} (leased (bsLeases st)) (leased (bsLeases st'))"
      using m only_marked_upd [of "leased (bsLeases st)" "leID le" l] le(1) st' by (cases "e = None") auto
    moreover have "b \<longrightarrow> (\<exists>l' t. leased (bsLeases st') (leID le) = Some l' \<and> leSweptAt l' = Some t)"
      using m st' by auto
    ultimately show ?thesis by simp
  qed
  then show "sound st'" "swept_from le st st'" "only_marked {leID le} (leased (bsLeases st)) (leased (bsLeases st'))"
    "balanced st \<longrightarrow> balanced st'" "b \<longrightarrow> (\<exists>l' t. leased (bsLeases st') (leID le) = Some l' \<and> leSweptAt l' = Some t)" by simp_all
qed

text \<open>What a run over a list of leases does.\<close>

definition key_user :: "string \<times> string \<times> string \<Rightarrow> string" where
  "key_user x = fst (snd x)"

definition swept_over :: "lease list \<Rightarrow> ('m, 'c, 'w, 'v, 'l) broker_state \<Rightarrow> ('m, 'c, 'w, 'v, 'l) broker_state \<Rightarrow> bool" where
  "swept_over ls st st' \<longleftrightarrow> sound st' \<and> registry_kept st st' \<and> accounts (bsRemote st') = accounts (bsRemote st) \<and> keys st' \<subseteq> keys st \<and>
     key_user ` (keys st - keys st') \<subseteq> leIAMUserName ` set ls \<and>
     only_marked (leID ` set ls) (leased (bsLeases st)) (leased (bsLeases st')) \<and> (balanced st \<longrightarrow> balanced st')"

lemma swept_over_trans:
  assumes "swept_over [le] st st1" "swept_over ls st1 st2"
  shows "swept_over (le # ls) st st2"
proof -
  have "only_marked (leID ` set (le # ls)) (leased (bsLeases st)) (leased (bsLeases st2))"
    using only_marked_trans [of "leID ` set [le]" _ _ "leID ` set ls"] assms unfolding swept_over_def by fastforce
  moreover have "key_user ` (keys st - keys st2) \<subseteq> leIAMUserName ` set (le # ls)"
  proof -
    have "keys st - keys st2 \<subseteq> (keys st - keys st1) \<union> (keys st1 - keys st2)" by blast
    from image_mono [OF this, of key_user]
    have "key_user ` (keys st - keys st2) \<subseteq> key_user ` (keys st - keys st1) \<union> key_user ` (keys st1 - keys st2)" by (simp add: image_Un)
    also have "\<dots> \<subseteq> leIAMUserName ` set [le] \<union> leIAMUserName ` set ls"
      using assms unfolding swept_over_def by (intro Un_mono) blast+
    finally show ?thesis by simp
  qed
  ultimately show ?thesis using assms kept_trans unfolding swept_over_def by (metis (no_types, lifting) subset_trans)
qed

definition swept_in :: "('m, 'c, 'w, 'v, 'l) broker_state \<Rightarrow> string \<Rightarrow> bool" where
  "swept_in st i \<longleftrightarrow> (\<exists>l t. leased (bsLeases st) i = Some l \<and> leSweptAt l = Some t)"

lemma swept_stays:
  assumes "swept_in st i" "swept_over ls st st'"
  shows "swept_in st' i"
proof -
  obtain l t where "leased (bsLeases st) i = Some l" "leSweptAt l = Some t" using assms(1) by (auto simp: swept_in_def)
  moreover from assms(2) have "only_marked (leID ` set ls) (leased (bsLeases st)) (leased (bsLeases st'))" by (simp add: swept_over_def)
  ultimately show ?thesis unfolding only_marked_def swept_in_def by (drule_tac spec [of _ i]) auto
qed

lemma sweep_all_spec:
  assumes "spRegistry d = sv" "spServices d = ms" "spLeases d = lops" "sound st"
    and "\<forall>le \<in> set ls. served (leWorkspace le) (leBackendID le) \<and> (\<exists>l. leased (bsLeases st) (leID le) = Some l \<and> same_lease l le)"
    and "sweep_all d now ls res st = (res', st')"
  shows "swept_over ls st st' \<and> crSwept res' + crFailed res' = crSwept res + crFailed res + length ls \<and> crFailed res \<le> crFailed res' \<and>
    crSwept res \<le> crSwept res' \<and> (crFailed res' = crFailed res \<longrightarrow> (\<forall>le \<in> set ls. swept_in st' (leID le)))"
  using assms(4-)
proof (induction ls arbitrary: st res)
  case Nil
  then show ?case by (simp add: swept_over_def registry_kept_def sound_def R.same_regs_refl)
next
  case (Cons le ls)
  obtain ok1 st1 where one: "sweep_one d now le st = (ok1, st1)" by fastforce
  let ?res1 = "if ok1 then res\<lparr>crSwept := Suc (crSwept res)\<rparr> else res\<lparr>crFailed := Suc (crFailed res)\<rparr>"
  obtain l where l: "served (leWorkspace le) (leBackendID le)" "leased (bsLeases st) (leID le) = Some l" "same_lease l le" using Cons.prems(2) by auto
  note S = sweep_one_spec [OF assms(1-3) Cons.prems(1) l one]
  then have o: "swept_over [le] st st1" by (auto simp: swept_over_def swept_from_def key_user_def)
  have ls: "\<forall>le' \<in> set ls. served (leWorkspace le') (leBackendID le') \<and> (\<exists>l. leased (bsLeases st1) (leID le') = Some l \<and> same_lease l le')"
  proof
    fix le' assume "le' \<in> set ls"
    with Cons.prems(2) obtain l' where l': "served (leWorkspace le') (leBackendID le')" "leased (bsLeases st) (leID le') = Some l'" "same_lease l' le'" by auto
    from only_marked_same [OF S(3) l'(2)] obtain l'' where "leased (bsLeases st1) (leID le') = Some l''" "same_lease l'' l'" by blast
    with l' show "served (leWorkspace le') (leBackendID le') \<and> (\<exists>l. leased (bsLeases st1) (leID le') = Some l \<and> same_lease l le')"
      by (auto simp: same_lease_def)
  qed
  have rest: "sweep_all d now ls ?res1 st1 = (res', st')" using Cons.prems(3) one by simp
  note I = Cons.IH [OF S(1) ls rest]
  have all: "swept_in st' (leID le)" if "ok1"
    using swept_stays [of st1 "leID le" ls st'] S(5) I that by (simp add: swept_in_def)
  show ?case using swept_over_trans [OF o] I all by (auto split: if_splits)
qed

lemma pendingD:
  assumes "sound st" "lsPendingSweep lops now batchSize (bsLeases st) = (Inr ls, m)"
  shows "m = bsLeases st" "distinct (map leID ls)" "int (length ls) \<le> batchSize"
    "\<And>le. le \<in> set ls \<Longrightarrow> leased (bsLeases st) (leID le) = Some le \<and> pending_lease now le"
    "\<And>i le. int (length ls) < batchSize \<Longrightarrow> leased (bsLeases st) i = Some le \<Longrightarrow> leSweptAt le = None \<Longrightarrow> leExpiresAt le < now - 1000 \<Longrightarrow> le \<in> set ls"
proof -
  have "lok (bsLeases st)" "0 < batchSize" using assms(1) by (simp_all add: sound_def batchSize_def)
  from L.pending [OF this assms(2)] show "m = bsLeases st" "distinct (map leID ls)" "int (length ls) \<le> batchSize"
    "\<And>le. le \<in> set ls \<Longrightarrow> leased (bsLeases st) (leID le) = Some le \<and> pending_lease now le"
    "\<And>i le. int (length ls) < batchSize \<Longrightarrow> leased (bsLeases st) i = Some le \<Longrightarrow> leSweptAt le = None \<Longrightarrow> leExpiresAt le < now - 1000 \<Longrightarrow> le \<in> set ls"
    by blast+
qed

text \<open>One cycle, at time \<open>now\<close>.\<close>

lemma sweepOnce_spec:
  assumes d: "spRegistry d = sv" "spServices d = ms" "spLeases d = lops" "the (spNow (withDefaults d)) clock = now"
    and st: "sound st" "\<forall>i le. leased (bsLeases st) i = Some le \<longrightarrow> served (leWorkspace le) (leBackendID le)"
    and r: "sweepOnce d clock st = (res, st')"
  shows "\<exists>ls. (\<forall>le \<in> set ls. leased (bsLeases st) (leID le) = Some le \<and> pending_lease now le) \<and> swept_over ls st st' \<and>
    (isl (fst (lsPendingSweep lops now batchSize (bsLeases st))) \<longrightarrow> ls = []) \<and>
    (\<not> isl (fst (lsPendingSweep lops now batchSize (bsLeases st))) \<longrightarrow> crSwept res + crFailed res = length ls \<and>
       int (length ls) \<le> batchSize \<and>
       (crFailed res = 0 \<longrightarrow> (\<forall>le \<in> set ls. swept_in st' (leID le))) \<and>
       (int (length ls) < batchSize \<longrightarrow>
         (\<forall>i le. leased (bsLeases st) i = Some le \<longrightarrow> leSweptAt le = None \<longrightarrow> leExpiresAt le < now - 1000 \<longrightarrow> le \<in> set ls)))"
proof -
  have w: "spRegistry (withDefaults d) = sv" "spServices (withDefaults d) = ms" "spLeases (withDefaults d) = lops"
    using d by (simp_all add: withDefaults_def)
  obtain x m where p: "lsPendingSweep lops now batchSize (bsLeases st) = (x, m)" by fastforce
  have pos: "lok (bsLeases st)" "0 < batchSize" using st(1) by (simp_all add: sound_def batchSize_def)
  from L.pending [OF pos p] have m: "st\<lparr>bsLeases := m\<rparr> = st" by simp
  note once = r [unfolded sweepOnce_def Let_def d(4) w p prod.case]
  show ?thesis
  proof (cases x)
    case (Inl e)
    with once m have "st' = st" by simp
    then have "swept_over [] st st'" using st(1) by (simp add: swept_over_def registry_kept_def sound_def R.same_regs_refl)
    with Inl p show ?thesis by (intro exI [of _ "[]"]) simp
  next
    case (Inr ls)
    note P = pendingD [OF st(1) p [unfolded Inr]]
    let ?res0 = "case ls of [] \<Rightarrow> empty_cycle | le # _ \<Rightarrow> empty_cycle\<lparr>crOldestBacklogAge := now - leExpiresAt le\<rparr>"
    obtain res1 st1 where all: "sweep_all (withDefaults d) now ls ?res0 st = (res1, st1)" by fastforce
    have zero: "crSwept ?res0 = 0" "crFailed ?res0 = 0" by (simp_all add: empty_cycle_def split: list.splits)
    have "\<forall>le \<in> set ls. served (leWorkspace le) (leBackendID le) \<and> (\<exists>l. leased (bsLeases st) (leID le) = Some l \<and> same_lease l le)"
      using P(4) st(2) by fastforce
    note A = sweep_all_spec [OF w st(1) this all, unfolded zero]
    obtain c l1 where ac: "lsActiveCount lops now (bsLeases st1) = (c, l1)" by fastforce
    have "lok (bsLeases st1)" using A by (simp add: swept_over_def sound_def)
    from L.counted [OF this ac] have "st1\<lparr>bsLeases := l1\<rparr> = st1" by simp
    with once all ac m Inr have fin: "st' = st1" "crSwept res = crSwept res1" "crFailed res = crFailed res1"
      by (auto split: sum.splits)
    show ?thesis using A fin P p Inr by (intro exI [of _ ls]) simp
  qed
qed

section \<open>The endpoint\<close>

lemma backend_spec:
  assumes "bkRegistry b = sv" "served w i" "ok (rgMeta st)" "broker_backend b w i st = (x, st')"
  shows "R.same_regs st st' \<and> rgWorld st' = rgWorld st \<and>
    (\<forall>e. x = Inl e \<longrightarrow> (\<exists>n code. e = broker_error n code \<and> n \<in> {404, 422, 500})) \<and>
    (\<forall>cfg admin. x = Inr (cfg, admin) \<longrightarrow> (\<exists>rec. recs (rgMeta st) w i = Some rec \<and> rKind rec = KindS3 \<and> dec_s3 False (rConfig rec) = Some cfg))"
proof -
  obtain rc res st1 where raw: "RawCredentials sv w i st = ((rc, res), st1)" by (metis prod.exhaust)
  note B = assms(4) [unfolded broker_backend_def assms(1) raw prod.case Let_def]
  note R = R.raw_found [OF assms(2,3) raw]
  show ?thesis
  proof (cases rc)
    case None
    with B R show ?thesis by (auto split: sum.splits rerr.splits if_splits)
  next
    case (Some rec)
    show ?thesis
    proof (cases res)
      case (Inl e)
      with B R Some show ?thesis by (cases e) (auto split: option.splits if_splits)
    next
      case (Inr kvs)
      with B R Some show ?thesis by (auto split: option.splits if_splits)
    qed
  qed
qed

lemma request_error: "broker_request r = Inl e \<Longrightarrow> \<exists>n code. e = broker_error n code \<and> n \<in> {400, 422}"
  by (auto simp: broker_request_def split: sum.splits option.splits if_splits prod.splits)

lemma request_access: "broker_request r = Inr (req, i, path, token) \<Longrightarrow> inAccess req = AccessRead \<or> inAccess req = AccessReadWrite"
  by (auto simp: broker_request_def split: sum.splits option.splits if_splits prod.splits)

text \<open>
  A credential was issued: \<open>P\<close> is the cleaned path, the policy of the new key is the scoped one, and
  either the key hangs on a fresh user whose lease was recorded, or it is a service account that
  expires by itself.
\<close>

definition issued_key ::
    "btick \<Rightarrow> inbound \<Rightarrow> string \<Rightarrow> s3_config \<Rightarrow> json \<Rightarrow> outbound \<Rightarrow> ('m, 'c, 'w, 'v, 'l) broker_state \<Rightarrow> ('m, 'c, 'w, 'v, 'l) broker_state \<Rightarrow> bool" where
  "issued_key tk req i cfg doc g st st' \<longleftrightarrow>
     (\<exists>base u le. iam_endpoint (svEnv sv) cfg = Some base \<and> u = ''booth-'' @ btUserID tk \<and> users (bsRemote st) (base, u) = None \<and>
        users (bsRemote st') = (users (bsRemote st))((base, u) \<mapsto> (Some doc, {mcAccessKeyID (obCredential g)})) \<and>
        accounts (bsRemote st') = accounts (bsRemote st) \<and>
        leased (bsLeases st') = (leased (bsLeases st))(btLeaseID tk \<mapsto> le) \<and> leSweptAt le = None \<and> leIAMUserName le = u \<and>
        leAccessKeyID le = mcAccessKeyID (obCredential g) \<and> leWorkspace le = rqrWorkspace (inRequester req) \<and> leBackendID le = i \<and>
        leExpiresAt le \<le> obExpiresAt g \<and>
        obExpiresAt g = btNow tk + (if ttl_of (inTTLSeconds req) \<le> 0 then defaultSeaweedFSLeaseTTL else ttl_of (inTTLSeconds req)))"

definition issued_account ::
    "btick \<Rightarrow> inbound \<Rightarrow> json \<Rightarrow> outbound \<Rightarrow> ('m, 'c, 'w, 'v, 'l) broker_state \<Rightarrow> ('m, 'c, 'w, 'v, 'l) broker_state \<Rightarrow> bool" where
  "issued_account tk req doc g st st' \<longleftrightarrow>
     (\<exists>host. users (bsRemote st') = users (bsRemote st) \<and> bsLeases st' = bsLeases st \<and>
        accounts (bsRemote st') = (accounts (bsRemote st))((host, mcAccessKeyID (obCredential g)) \<mapsto> (doc, obExpiresAt g)) \<and>
        obExpiresAt g = btNow tk + max (ttl_of (inTTLSeconds req)) minServiceAccountTTL)"

definition issued ::
    "('m, 'c, 'w, 'v, 'l) broker \<Rightarrow> btick \<Rightarrow> request \<Rightarrow> ('m, 'c, 'w, 'v, 'l) broker_state \<Rightarrow> ('m, 'c, 'w, 'v, 'l) broker_state \<Rightarrow> outbound \<Rightarrow>
     inbound \<Rightarrow> string \<Rightarrow> s3_config \<Rightarrow> string \<Rightarrow> bool" where
  "issued b tk r st st' g req i cfg P \<longleftrightarrow>
     (\<exists>path token rec. broker_request r = Inr (req, i, path, token) \<and> CleanPrefix path = Inr P \<and>
        recs (rgMeta (bsReg st)) (rqrWorkspace (inRequester req)) i = Some rec \<and> rKind rec = KindS3 \<and> dec_s3 False (rConfig rec) = Some cfg \<and>
        obLeaseID g = btLeaseID tk \<and> obScope g = \<lparr>seBackendID = i, sePath = TrimByte slash path, seAccess = inAccess req\<rparr> \<and>
        mcBucket (obCredential g) = s3Bucket cfg \<and> mcKeyPrefix (obCredential g) = key_prefix (s3Prefix cfg) P) \<and>
     (issued_key tk req i cfg (scopedPolicy (s3Bucket cfg) (key_prefix (s3Prefix cfg) P) (inAccess req)) g st st' \<or>
      issued_account tk req (scopedPolicy (s3Bucket cfg) (key_prefix (s3Prefix cfg) P) (inAccess req)) g st st')"

text \<open>No credential was issued: nothing is left behind, unless an undo failed.\<close>

definition nothing_issued :: "btick \<Rightarrow> ('m, 'c, 'w, 'v, 'l) broker_state \<Rightarrow> ('m, 'c, 'w, 'v, 'l) broker_state \<Rightarrow> bool" where
  "nothing_issued tk st st' \<longleftrightarrow> accounts (bsRemote st') = accounts (bsRemote st) \<and> leased (bsLeases st') = leased (bsLeases st) \<and>
     (keys st' = keys st \<or> (\<exists>base ak sk k w. fst (iDeleteAccessKey (msIam ms base ak sk) (''booth-'' @ btUserID tk) k w) = Some IamError))"

definition provider_deps :: "('m, 'c, 'w, 'v, 'l) broker \<Rightarrow> bool" where
  "provider_deps b \<longleftrightarrow> bkRegistry b = sv \<and> bkMint b = None \<and> bkServices b = ms \<and> (\<forall>ops. bkLeases b = Some ops \<longrightarrow> ops = lops)"

lemma recorder_spec:
  assumes "provider_deps b" "lok l" "is_id leaseID" "leased l leaseID = None" "broker_recorder b leaseID w i x l = (e, l')"
  shows "lok l' \<and> (e = None \<longrightarrow> (\<exists>le. leased l' = (leased l)(leaseID \<mapsto> le) \<and> leSweptAt le = None \<and> leIAMUserName le = swIAMUserName x \<and>
      leAccessKeyID le = swAccessKeyID x \<and> leWorkspace le = w \<and> leBackendID le = i \<and> leExpiresAt le \<le> swExpiresAt x)) \<and>
    (e \<noteq> None \<longrightarrow> leased l' = leased l)"
proof (cases "bkLeases b")
  case None
  with assms show ?thesis by (auto simp: broker_recorder_def)
next
  case (Some ops)
  let ?le = "\<lparr>leID = leaseID, leWorkspace = w, leBackendID = i, leIAMUserName = swIAMUserName x, leAccessKeyID = swAccessKeyID x,
     lePrefix = swPrefix x, leAccess = swAccess x, leExpiresAt = swExpiresAt x, leCreatedAt = swCreatedAt x, leSweptAt = None\<rparr>"
  have r: "lsRecord lops ?le l = (e, l')" using assms(1,5) Some by (simp add: broker_recorder_def provider_deps_def)
  from L.recorded [OF assms(2) _ _ r] assms(3,4) L.canon_same [of ?le] show ?thesis by (auto split: if_splits)
qed

lemma serve_cases:
  assumes b: "provider_deps b" and st: "sound st"
    and req: "known_request served r"
    and lease: "is_id (btLeaseID tk)" "leased (bsLeases st) (btLeaseID tk) = None"
    and run: "provider_serve b tk r st = (rs, st')"
  obtains (refused) code n where "rs = broker_error n code" "n \<in> {400, 401, 404, 422, 500, 502}" "nothing_issued tk st st'"
      "registry_kept st st'" "sound st'"
  | (issued) g req i cfg P where "rs = writeJSON 201 (BrokerGrant g)" "provider_authenticate b r" "issued b tk r st st' g req i cfg P"
      "registry_kept st st'" "sound st'"
proof -
  have same: "nothing_issued tk st st" "registry_kept st st"
    using st by (simp_all add: nothing_issued_def registry_kept_def sound_def R.same_regs_refl)
  note run' = run [unfolded provider_serve_def]
  show ?thesis
  proof (cases "provider_authenticate b r")
    case False
    with run' same st refused show ?thesis by auto
  next
    case auth: True
    show ?thesis
    proof (cases "broker_request r")
      case (Inl e)
      with request_error [OF Inl] run' auth same st refused show ?thesis by auto
    next
      case (Inr x)
      obtain rq i path token where x: "x = (rq, i, path, token)" by (rule prod_cases4)
      let ?w = "rqrWorkspace (inRequester rq)"
      obtain y rg where be: "broker_backend b ?w i (bsReg st) = (y, rg)" by fastforce
      have "bkRegistry b = sv" "served ?w i" "ok (rgMeta (bsReg st))" "lok (bsLeases st)"
        using b st req Inr x by (simp_all add: provider_deps_def sound_def known_request_def)
      note B = backend_spec [OF this(1-3) be]
      note run2 = run' [unfolded Inr x sum.case prod.case be]
      show ?thesis
      proof (cases y)
        case Inl': (Inl e)
        then obtain n code where e: "e = broker_error n code" "n \<in> {404, 422, 500}" using B by auto
        have "rs = e" "st' = st\<lparr>bsReg := rg\<rparr>" using run2 auth Inl' by simp_all
        with B st e show ?thesis
          by (intro refused [of n code]) (auto simp: nothing_issued_def registry_kept_def sound_def keys_def R.same_regs_def R.same_recs_def)
      next
        case Inr': (Inr ca)
        obtain cfg admin where ca: "ca = (cfg, admin)" by fastforce
        with B Inr' obtain rec where rec: "recs (rgMeta (bsReg st)) ?w i = Some rec" "rKind rec = KindS3" "dec_s3 False (rConfig rec) = Some cfg" by auto
        let ?mr = "mint_for rq path token" and ?rl = "broker_recorder b (btLeaseID tk) ?w i"
        obtain res v l where mint: "MintScopedCredential (svEnv sv) ms (btNow tk) (btUserID tk) cfg admin ?mr (Some ?rl) (bsRemote st, bsLeases st) = (res, v, l)"
          by (metis prod.exhaust)
        have st': "st' = \<lparr>bsReg = rg, bsRemote = v, bsLeases = l\<rparr>"
          and rs: "rs = (case res of Inl ErrScopeNotSupported \<Rightarrow> broker_error 422 ''scope_not_supported'' | Inl MintFailed \<Rightarrow> broker_error 502 ''mint_failed''
             | Inr m \<Rightarrow> writeJSON 201 (BrokerGrant \<lparr>obLeaseID = btLeaseID tk, obKind = kindS3, obExpiresAt = mcExpiresAt m,
                 obScope = \<lparr>seBackendID = i, sePath = TrimByte slash path, seAccess = inAccess rq\<rparr>, obCredential = m\<rparr>))"
          using run2 auth Inr' ca mint b by (simp_all add: broker_mint_def provider_deps_def)
        have kept: "registry_kept st st'" using B st' by (simp add: registry_kept_def)
        have okm: "ok (rgMeta rg)" using B by (simp add: R.same_regs_def R.same_recs_def)
        note rec_spec = recorder_spec [OF b \<open>lok (bsLeases st)\<close> lease]
        have mr: "mrPath ?mr = path" "mrAccess ?mr = inAccess rq" "mrTTL ?mr = ttl_of (inTTLSeconds rq)" by (simp_all add: mint_for_def)
        have err: "\<exists>n code. rs = broker_error n code \<and> n \<in> {400, 401, 404, 422, 500, 502}" if "res = Inl e" for e
          using rs that by (cases e) auto
        from mint show ?thesis
        proof (cases rule: H.mint_scoped_cases)
          case (refused e)
          from err [OF refused(1)] obtain n code where "rs = broker_error n code" "n \<in> {400, 401, 404, 422, 500, 502}" by blast
          then show ?thesis
            by (rule that(1)) (use refused kept okm st st' in \<open>simp_all add: nothing_issued_def keys_def sound_def\<close>)
        next
          case (undone pre base k er w)
          from err [OF undone(1)] obtain n code where n: "rs = broker_error n code" "n \<in> {400, 401, 404, 422, 500, 502}" by blast
          from rec_spec [OF undone(3)] have "lok l" "leased l = leased (bsLeases st)" by simp_all
          moreover from undone(4) have "keys st' = keys st \<or> (\<exists>base ak sk k w. fst (iDeleteAccessKey (msIam ms base ak sk) (''booth-'' @ btUserID tk) k w) = Some IamError)"
            using st' by (auto simp: keys_def)
          ultimately have "nothing_issued tk st st'" "sound st'" using undone(2) okm st' by (simp_all add: nothing_issued_def sound_def)
          with n kept show ?thesis by (intro that(1))
        next
          case (iam pre base k s)
          from rec_spec [OF iam(5)] obtain le where le: "lok l" "leased l = (leased (bsLeases st))(btLeaseID tk \<mapsto> le)" "leSweptAt le = None"
            "leIAMUserName le = ''booth-'' @ btUserID tk" "leAccessKeyID le = k" "leWorkspace le = ?w" "leBackendID le = i"
            "leExpiresAt le \<le> swExpiresAt (minted_lease (btNow tk) (''booth-'' @ btUserID tk) ?mr (key_prefix (s3Prefix cfg) pre) k)"
            by (auto simp: minted_lease_def)
          have "sound st'" using le(1) okm st' by (simp add: sound_def)
          moreover obtain g where g: "rs = writeJSON 201 (BrokerGrant g)" "g = \<lparr>obLeaseID = btLeaseID tk, obKind = kindS3,
              obExpiresAt = swExpiresAt (minted_lease (btNow tk) (''booth-'' @ btUserID tk) ?mr (key_prefix (s3Prefix cfg) pre) k),
              obScope = \<lparr>seBackendID = i, sePath = TrimByte slash path, seAccess = inAccess rq\<rparr>,
              obCredential = minted_at cfg (key_prefix (s3Prefix cfg) pre) k s []
                (swExpiresAt (minted_lease (btNow tk) (''booth-'' @ btUserID tk) ?mr (key_prefix (s3Prefix cfg) pre) k))\<rparr>"
            using rs iam(4) by (simp add: minted_at_def)
          moreover have "issued_key tk rq i cfg (scopedPolicy (s3Bucket cfg) (key_prefix (s3Prefix cfg) pre) (inAccess rq)) g st st'"
            unfolding issued_key_def
            by (intro exI [of _ base] exI [of _ "''booth-'' @ btUserID tk"] exI [of _ le])
              (use iam le st' g(2) mr in \<open>simp add: minted_at_def minted_lease_def\<close>)
          then have "issued b tk r st st' g rq i cfg pre"
            using Inr x iam(1) rec mr g(2) by (simp add: issued_def minted_at_def)
          ultimately show ?thesis using auth kept by (intro that(2))
        next
          case (minio pre host k s tok expiry)
          let ?g = "\<lparr>obLeaseID = btLeaseID tk, obKind = kindS3, obExpiresAt = expiry,
              obScope = \<lparr>seBackendID = i, sePath = TrimByte slash path, seAccess = inAccess rq\<rparr>,
              obCredential = minted_at cfg (key_prefix (s3Prefix cfg) pre) k s tok expiry\<rparr>"
          have g: "rs = writeJSON 201 (BrokerGrant ?g)" using rs minio(2) by (simp add: minted_at_def)
          have "sound st'" using minio(3) okm st st' by (simp add: sound_def)
          moreover have "issued_account tk rq (scopedPolicy (s3Bucket cfg) (key_prefix (s3Prefix cfg) pre) (inAccess rq)) ?g st st'"
            unfolding issued_account_def
            by (intro exI [of _ host]) (use minio st' mr in \<open>simp add: minted_at_def\<close>)
          then have "issued b tk r st st' ?g rq i cfg pre"
            using Inr x minio(1) rec mr by (simp add: issued_def minted_at_def)
          ultimately show ?thesis using g auth kept by (intro that(2))
        qed
      qed
    qed
  qed
qed

lemma serve_balanced:
  assumes b: "provider_deps b" and st: "sound st" "balanced st"
    and req: "known_request served r"
    and lease: "is_id (btLeaseID tk)" "leased (bsLeases st) (btLeaseID tk) = None"
    and undo: "\<forall>base ak sk u k w. fst (iDeleteAccessKey (msIam ms base ak sk) u k w) \<noteq> Some IamError"
    and run: "provider_serve b tk r st = (rs, st')"
  shows "balanced st'"
proof (rule serve_cases [OF b st(1) req lease run])
  fix code n assume "nothing_issued tk st st'" and k: "registry_kept st st'"
  then have "leased (bsLeases st') = leased (bsLeases st)" "keys st' = keys st" using undo by (simp_all add: nothing_issued_def)
  with st(2) kept_recs [OF k] show "balanced st'" by (simp add: balanced_def)
next
  fix g req i cfg P assume iss: "issued b tk r st st' g req i cfg P" and k: "registry_kept st st'"
  then obtain rec where rec: "recs (rgMeta (bsReg st)) (rqrWorkspace (inRequester req)) i = Some rec" "rKind rec = KindS3"
    "dec_s3 False (rConfig rec) = Some cfg" by (auto simp: issued_def)
  let ?doc = "scopedPolicy (s3Bucket cfg) (key_prefix (s3Prefix cfg) P) (inAccess req)"
  from iss consider "issued_key tk req i cfg ?doc g st st'" | "issued_account tk req ?doc g st st'" by (auto simp: issued_def)
  then show "balanced st'"
  proof cases
    case 1
    then obtain base u le where le: "iam_endpoint (svEnv sv) cfg = Some base" "users (bsRemote st) (base, u) = None"
      "users (bsRemote st') = (users (bsRemote st))((base, u) \<mapsto> (Some ?doc, {mcAccessKeyID (obCredential g)}))"
      "leased (bsLeases st') = (leased (bsLeases st))(btLeaseID tk \<mapsto> le)" "leSweptAt le = None" "leIAMUserName le = u"
      "leAccessKeyID le = mcAccessKeyID (obCredential g)" "leWorkspace le = rqrWorkspace (inRequester req)" "leBackendID le = i"
      unfolding issued_key_def by blast
    have "covers (svEnv sv) (recs (rgMeta (bsReg st))) le base u (mcAccessKeyID (obCredential g))"
      using le rec by (simp add: covers_def home_def)
    with books_record [of "svEnv sv" "recs (rgMeta (bsReg st))" "leased (bsLeases st)" "keys st" "btLeaseID tk"] st(2) lease(2)
    have "books (svEnv sv) (recs (rgMeta (bsReg st))) ((leased (bsLeases st))(btLeaseID tk \<mapsto> le))
      (insert (base, u, mcAccessKeyID (obCredential g)) (keys st))" by (simp add: balanced_def)
    with le kept_recs [OF k] show ?thesis by (simp add: balanced_def keys_def live_keys_added)
  next
    case 2
    then have "users (bsRemote st') = users (bsRemote st)" "bsLeases st' = bsLeases st" by (auto simp: issued_account_def)
    with st(2) kept_recs [OF k] show ?thesis by (simp add: balanced_def keys_def)
  qed
qed

text \<open>A cycle that reports no failure and did not fill its batch left no key of an expired lease.\<close>

lemma sweep_clean:
  assumes d: "spRegistry d = sv" "spServices d = ms" "spLeases d = lops" "the (spNow (withDefaults d)) clock = now"
    and st: "sound st" "balanced st" "\<forall>i le. leased (bsLeases st) i = Some le \<longrightarrow> served (leWorkspace le) (leBackendID le)"
    and r: "sweepOnce d clock st = (res, st')"
    and clean: "\<not> isl (fst (lsPendingSweep lops now batchSize (bsLeases st)))" "crFailed res = 0" "int (crSwept res) < batchSize"
    and key: "(base, u, k) \<in> keys st'" "prefix ''booth-'' u"
  shows "\<exists>i le. leased (bsLeases st') i = Some le \<and> covers (svEnv sv) (recs (rgMeta (bsReg st'))) le base u k \<and> now - 1000 \<le> leExpiresAt le"
proof -
  from sweepOnce_spec [OF d st(1,3) r] clean obtain ls where ls: "swept_over ls st st'" "\<forall>le \<in> set ls. swept_in st' (leID le)"
    "\<And>i le. leased (bsLeases st) i = Some le \<Longrightarrow> leSweptAt le = None \<Longrightarrow> leExpiresAt le < now - 1000 \<Longrightarrow> le \<in> set ls" by auto
  then have "balanced st'" "sound st'" "only_marked (leID ` set ls) (leased (bsLeases st)) (leased (bsLeases st'))" using st(2) by (simp_all add: swept_over_def)
  with key obtain i le where le: "leased (bsLeases st') i = Some le" "covers (svEnv sv) (recs (rgMeta (bsReg st'))) le base u k"
    unfolding balanced_def books_def by blast
  then have un: "leSweptAt le = None" by (simp add: covers_def)
  have before: "leased (bsLeases st) i = Some le"
    using \<open>only_marked _ _ _\<close> le(1) un unfolding only_marked_def by (drule_tac spec [of _ i]) auto
  have "now - 1000 \<le> leExpiresAt le"
  proof (rule ccontr)
    assume "\<not> now - 1000 \<le> leExpiresAt le"
    with ls(3) [OF before un] ls(2) have "swept_in st' (leID le)" by simp
    moreover have "leID le = i" using L.leased_id [of "bsLeases st'" i le] \<open>sound st'\<close> le(1) by (simp add: sound_def)
    ultimately show False using le(1) un by (simp add: swept_in_def)
  qed
  with le show ?thesis by blast
qed

end

section \<open>In memory, and in production\<close>

interpretation mem_broker: broker_host "memory_service env methods mkErr" memreg_view memreg_ok "\<lambda>j. j" memcred_held
    "\<lambda>w i. slash \<notin> set w" ref_services ref_users ref_accounts ml_ops ml_ok map_of "\<lambda>l. l" "\<lambda>_. True"
  for env methods mkErr
  by (rule broker_host.intro) (rule mem_registry.registry_axioms ref_host.credential_host_axioms ml.lease_store_axioms)+

text \<open>Records and leases in PostgreSQL, credentials in Secrets, any credential services that keep their contract.\<close>

locale production_broker = K: kube_secrets c secs sha used + H: credential_host ms users accounts
  for c :: "'s secrets_client" and secs sha used and ms :: "'v mint_services" and users accounts

sublocale production_broker \<subseteq> prod: broker_host "production_service c sha env methods mkErr"
    "\<lambda>s. pgreg_view (fst s)" "\<lambda>s. pgreg_ok (fst s)" jsonb K.kube_held used ms users accounts
    "pl_ops err is_uuid" "pl_ok is_uuid" pl_leased pl_row is_uuid
  for env methods mkErr err is_uuid
  by (rule broker_host.intro) (rule K.production.registry_axioms H.credential_host_axioms pl.lease_store_axioms)+

end
