(* ===== verification/Broker_Example.thy ===== *)
theory Broker_Example
  imports Broker_Laws Registry_Example
begin

text \<open>
  A concrete run of the credential endpoint and the sweeper: a backend on a SeaweedFS server is
  registered, a credential for one of its folders is issued, and swept after its lease expired.
\<close>

section \<open>The backend\<close>

definition weed_config :: json where
  "weed_config = JObj [(''endpoint'', JStr ''weed:8333''), (''bucket'', JStr ''b1''), (''prefix'', JStr ''team''),
     (''credentialProvider'', JStr ''seaweedfs-iam'')]"

definition weed_input :: create_input where
  "weed_input = \<lparr>ciID = ''b1'', ciDisplayName = [], ciKind = KindS3, ciConfig = Some weed_config, ciCredentials = demo_creds\<rparr>"

definition weed_rec :: backend_rec where
  "weed_rec = \<lparr>rWorkspace = ''acme'', rID = ''b1'', rDisplayName = ''b1'', rKind = KindS3, rConfig = jsonb weed_config,
     rHasCredentials = True, rCreateOnlyVerified = False, rCreatedBy = ''ann'', rCreatedAt = 5000000, rUpdatedAt = 5000000\<rparr>"

definition weed_reg :: "(pg_state, mem_secrets, bucket) regst" where
  "weed_reg = \<lparr>rgMeta = ([weed_rec], []), rgCreds = demo_secrets, rgCache = [], rgWorld = (Dir [], [])\<rparr>"

definition weed_create :: reg_call where
  "weed_create = CallCreate 5000000 ''acme'' ''ann'' weed_input"

lemma weed_checks: "create_checks demo_service ''acme'' weed_input = Inr (''b1'', weed_config)"
proof -
  have "ValidateWorkspace ''acme'' = None" "ValidateID (ciID weed_input) = None"
    "kind_Valid (ciKind weed_input)"
    "normalizeConfig demo_env (ciKind weed_input) (ciConfig weed_input) ''acme'' = Inr weed_config"
    by code_simp+
  moreover have "TrimSpace ''k'' = ''k''" "TrimSpace ''s'' = ''s''" by (rule TrimSpace_word; code_simp)+
  then have "cred_entries (cred_keys KindS3) 0 (ciCredentials weed_input) = Inr 2" by (simp add: cred_keys_def weed_input_def demo_creds_def)
  then have "validateCredentials demo_env (ciKind weed_input) (ciCredentials weed_input) = None"
    by (simp add: validateCredentials_def weed_input_def maxCredentialBytes_def cred_def demo_creds_def)
  moreover have "display_name (ciID weed_input) (ciDisplayName weed_input) = Inr ''b1''"
    by (simp add: display_name_def weed_input_def TrimSpace_def trim_left.simps trim_right.simps)
  ultimately show ?thesis by (simp add: create_checks_def)
qed

lemma weed_run: "reg_run demo_service weed_create demo_st0 = weed_reg"
proof -
  have "new_record 5000000 ''acme'' ''ann'' weed_input ''b1'' weed_config = weed_rec\<lparr>rConfig := weed_config\<rparr>"
    "pgreg_rec (weed_rec\<lparr>rConfig := weed_config\<rparr>) = weed_rec" "rWorkspace weed_rec = ''acme''" "rID weed_rec = ''b1''"
    "ciKind weed_input = KindS3" "ciCredentials weed_input = demo_creds" "demo_creds \<noteq> []"
    by code_simp+
  note parts = this
  moreover have "buildBackend demo_env KindS3 weed_config demo_creds ''acme'' \<noteq> None" by code_simp
  ultimately show ?thesis
    by (auto simp: weed_create_def reg_Create_def weed_checks create_root_def create_store_def parts
        pg_call_def pgreg_meta_ops_def pgreg_Create_def demo_st0_def weed_reg_def kube_cred_ops_def kube_Put_def
        demo_secrets_def Let_def kwrap_def)
qed

lemma weed_production: "\<exists>P. in_production mem_secrets_client (\<lambda>x. x) demo_env demo_methods None small_names weed_reg 0 P"
proof -
  have r0: "reg_reach demo_service small_names (\<lambda>s. fst s = []) ([], []) [] (Dir [], []) (\<lambda>_. []) {}"
    by (rule reg_reach.started) simp
  have u: "small_names ''acme'' ''b1''" by code_simp
  have t: "call_target weed_create = (''acme'', ''b1'')" by code_simp
  have "\<forall>t n' e. call_clock weed_create = Some t \<longrightarrow> map_of ((\<lambda>_. []) n') (key ''acme'' ''b1'') = Some e \<longrightarrow> chUpdatedAt e < t"
    by simp
  from in_productionI [OF reg_reach.called [OF r0 t u this demo_st0_def weed_run]] show ?thesis by (rule exI)
qed

section \<open>The endpoint\<close>

definition weed_json :: json where
  "weed_json = JObj [(''kind'', JStr ''s3''), (''ttlSeconds'', JNum ''300''), (''access'', JStr ''readwrite''),
     (''scope'', JObj [(''backendId'', JStr ''b1''), (''path'', JStr ''in/'')]),
     (''requester'', JObj [(''subject'', JStr ''ann''), (''workspace'', JStr ''acme''), (''role'', JStr ''editor'')])]"

definition weed_broker :: "(pg_state, mem_secrets, bucket, ref_host, lease_rows) broker" where
  "weed_broker = \<lparr>bkCredential = ''sesame'', bkRegistry = demo_service, bkLeases = Some (pl_ops None (\<lambda>i. i = ''L1'')), bkMint = None,
     bkServices = ref_services\<rparr>"

definition weed_request :: request where
  "weed_request = \<lparr>rqMethod = ''POST'', rqPath = ''/internal/credentials'',
     rqHeader = (\<lambda>h. if h = ''Authorization'' then ''Bearer sesame'' else []), rqQuery = (\<lambda>_. []),
     rqBody = \<lparr>rdBytes = json_text weed_json, rdErr = None\<rparr>, rqContentLength = 0\<rparr>"

definition weed_tick :: btick where
  "weed_tick = \<lparr>btNow = 1000000000, btUserID = ''u1'', btLeaseID = ''L1''\<rparr>"

definition weed_state :: "(pg_state, mem_secrets, bucket, ref_host, lease_rows) broker_state" where
  "weed_state = \<lparr>bsReg = weed_reg, bsRemote = \<lparr>rhUsers = [], rhAccounts = [], rhNext = 0\<rparr>, bsLeases = []\<rparr>"

definition weed_cfg :: s3_config where
  "weed_cfg = \<lparr>s3Endpoint = ''weed:8333'', s3Region = [], s3Bucket = ''b1'', s3Prefix = ''team'', s3PathStyle = False,
     s3CredentialProvider = ''seaweedfs-iam''\<rparr>"

definition weed_admin :: s3_creds where
  "weed_admin = \<lparr>s3AccessKeyID = ''k'', s3SecretAccessKey = ''s'', s3SessionToken = []\<rparr>"

definition weed_requester :: requester where
  "weed_requester = \<lparr>rqrSubject = ''ann'', rqrWorkspace = ''acme'', rqrRole = ''editor''\<rparr>"

definition weed_inbound :: inbound where
  "weed_inbound = \<lparr>inKind = ''s3'', inTTLSeconds = 300, inAccess = ''readwrite'',
     inScope = Some (JObj [(''backendId'', JStr ''b1''), (''path'', JStr ''in/'')]), inOptions = None, inRequester = weed_requester\<rparr>"

lemma weed_decoded: "dec_inbound weed_json = Some weed_inbound" "dec_scope (inScope weed_inbound) = Some (''b1'', ''in/'')"
  by code_simp+

lemma weed_body: "Decode (MaxBytesReader maxRequestBytes (rqBody weed_request)) = Inr weed_json"
proof -
  have "num_lit ''300''" by code_simp
  then have "fits maxNestingDepth weed_json" by (simp add: weed_json_def maxNestingDepth_def ascii_valid)
  moreover have "length (json_text weed_json) \<le> 1024" by code_simp
  ultimately show ?thesis
    using Decode_written [of weed_json "[]" None] MaxBytesReader_short [of "rqBody weed_request" maxRequestBytes]
    by (simp add: weed_request_def maxRequestBytes_def weed_json_def)
qed

lemma weed_decode: "broker_request weed_request = Inr (weed_inbound, ''b1'', ''in/'', True)"
proof -
  have "inKind weed_inbound = kindS3" "inAccess weed_inbound = AccessReadWrite" "inOptions weed_inbound = None" by code_simp+
  with weed_decoded weed_body show ?thesis by (simp add: broker_request_def dec_options_def)
qed

lemma weed_raw: "RawCredentials demo_service ''acme'' ''b1'' weed_reg = ((Some weed_rec, Inr demo_creds), weed_reg)"
  by code_simp

definition weed_lease :: lease where
  "weed_lease = \<lparr>leID = ''L1'', leWorkspace = ''acme'', leBackendID = ''b1'', leIAMUserName = ''booth-u1'', leAccessKeyID = ''K'',
     lePrefix = ''team/in'', leAccess = ''readwrite'', leExpiresAt = 301000000000, leCreatedAt = 1000000000, leSweptAt = None\<rparr>"

definition weed_issued :: "(pg_state, mem_secrets, bucket, ref_host, lease_rows) broker_state" where
  "weed_issued = \<lparr>bsReg = weed_reg,
     bsRemote = \<lparr>rhUsers = [((''https://weed:8333'', ''booth-u1''), Some (scopedPolicy ''b1'' ''team/in'' ''readwrite''), [''K'']),
        ((''https://weed:8333'', ''booth-u1''), Some (scopedPolicy ''b1'' ''team/in'' ''readwrite''), []),
        ((''https://weed:8333'', ''booth-u1''), None, [])], rhAccounts = [], rhNext = 1\<rparr>,
     bsLeases = [weed_lease]\<rparr>"

definition weed_grant :: outbound where
  "weed_grant = \<lparr>obLeaseID = ''L1'', obKind = ''s3'', obExpiresAt = 301000000000,
     obScope = \<lparr>seBackendID = ''b1'', sePath = ''in'', seAccess = ''readwrite''\<rparr>,
     obCredential = \<lparr>mcAccessKeyID = ''K'', mcSecretAccessKey = ''secret'', mcSessionToken = [], mcEndpoint = ''weed:8333'',
       mcRegion = [], mcBucket = ''b1'', mcKeyPrefix = ''team/in'', mcPathStyle = False, mcExpiresAt = 301000000000\<rparr>\<rparr>"

lemma weed_mint:
  "MintScopedCredential demo_env ref_services 1000000000 ''u1'' weed_cfg weed_admin (mint_for weed_inbound ''in/'' True)
     (Some (broker_recorder weed_broker ''L1'' ''acme'' ''b1'')) (bsRemote weed_state, []) =
   (Inr (obCredential weed_grant), bsRemote weed_issued, bsLeases weed_issued)"
  by code_simp

lemma weed_serve: "provider_ServeHTTP weed_broker weed_tick weed_request weed_state =
   ((writeJSON 201 (BrokerGrant weed_grant))\<lparr>rsHeaders := [(''Cache-Control'', ''no-store''), (''Content-Type'', ''application/json'')]\<rparr>, weed_issued)"
proof -
  have auth: "provider_authenticate weed_broker weed_request"
  proof -
    have "TrimSpace ''sesame'' = ''sesame''" by (rule TrimSpace_word; code_simp)
    moreover have "EqualFoldAscii ''Bearer '' ''Bearer ''" by code_simp
    ultimately show ?thesis by (simp add: provider_authenticate_def provider_bearerToken_def weed_request_def weed_broker_def)
  qed
  have be: "broker_backend weed_broker ''acme'' ''b1'' weed_reg = (Inr (weed_cfg, weed_admin), weed_reg)"
  proof -
    have "rKind weed_rec = KindS3" "dec_s3 False (rConfig weed_rec) = Some weed_cfg" "cred demo_creds ''accessKeyId'' = ''k''"
      "cred demo_creds ''secretAccessKey'' = ''s''" "cred demo_creds ''sessionToken'' = []" by code_simp+
    with weed_raw show ?thesis by (simp add: broker_backend_def weed_broker_def weed_admin_def)
  qed
  have m: "broker_mint weed_broker weed_tick = MintScopedCredential demo_env ref_services 1000000000 ''u1''"
    by (simp add: broker_mint_def weed_broker_def weed_tick_def fun_eq_iff)
  have f: "rqrWorkspace (inRequester weed_inbound) = ''acme''" "btLeaseID weed_tick = ''L1''" "bsReg weed_state = weed_reg" "bsLeases weed_state = []"
    "bsReg weed_issued = weed_reg" "inAccess weed_inbound = ''readwrite''" "TrimByte slash ''in/'' = ''in''"
    "mcExpiresAt (obCredential weed_grant) = 301000000000" by code_simp+
  have w: "\<lparr>bsReg = weed_reg, bsRemote = bsRemote weed_issued, bsLeases = bsLeases weed_issued\<rparr> = weed_issued" by (simp add: weed_issued_def)
  have g: "\<lparr>obLeaseID = ''L1'', obKind = kindS3, obExpiresAt = 301000000000,
     obScope = \<lparr>seBackendID = ''b1'', sePath = ''in'', seAccess = ''readwrite''\<rparr>, obCredential = obCredential weed_grant\<rparr> = weed_grant"
    by (simp add: weed_grant_def kindS3_def)
  show ?thesis
    by (simp add: provider_ServeHTTP_def provider_serve_def auth weed_decode f be m weed_mint w g writeJSON_def)
qed

section \<open>The sweep\<close>

definition weed_sweeper :: "(pg_state, mem_secrets, bucket, ref_host, lease_rows) sweeper" where
  "weed_sweeper = \<lparr>spLeases = pl_ops None (\<lambda>i. i = ''L1''), spRegistry = demo_service, spServices = ref_services, spInterval = 0, spNow = None\<rparr>"

definition weed_swept :: "(pg_state, mem_secrets, bucket, ref_host, lease_rows) broker_state" where
  "weed_swept = \<lparr>bsReg = weed_reg, bsRemote = \<lparr>rhUsers = [], rhAccounts = [], rhNext = 1\<rparr>,
     bsLeases = [weed_lease\<lparr>leSweptAt := Some 400000000000\<rparr>]\<rparr>"

lemma weed_delete:
  "DeleteSeaweedFSIAMLease demo_env ref_services weed_cfg weed_admin ''booth-u1'' ''K'' (bsRemote weed_issued) = (None, bsRemote weed_swept)"
  by code_simp

lemma weed_sweep: "sweepOnce weed_sweeper 400000000000 weed_issued =
   (\<lparr>crSwept = 1, crFailed = 0, crActive = 0, crOldestBacklogAge = 99000000000\<rparr>, weed_swept)"
  by code_simp

end
