(* ===== verification/Broker_Claims.thy ===== *)
theory Broker_Claims
  imports Broker_Example Registry_Claims
begin

text \<open>
  The properties of the credential broker's provider and of the sweeper, on the production
  registry and the lease table, over any credential services that keep their contract.
\<close>

section \<open>The parts in production\<close>

definition production_provider ::
    "'c secrets_client \<Rightarrow> (string \<Rightarrow> string) \<Rightarrow> env \<Rightarrow> (handle \<Rightarrow> (node \<times> 'w) backend) \<Rightarrow> fs_err option \<Rightarrow> 'v mint_services \<Rightarrow>
     string option \<Rightarrow> (string \<Rightarrow> bool) \<Rightarrow> (pg_state, 'c, 'w, 'v, lease_rows) broker \<Rightarrow> bool" where
  "production_provider c sha env methods mkErr ms err is_uuid b \<longleftrightarrow>
     bkRegistry b = production_service c sha env methods mkErr \<and> bkMint b = None \<and> bkServices b = ms \<and>
     bkLeases b = Some (pl_ops err is_uuid)"

definition production_sweeper ::
    "'c secrets_client \<Rightarrow> (string \<Rightarrow> string) \<Rightarrow> env \<Rightarrow> (handle \<Rightarrow> (node \<times> 'w) backend) \<Rightarrow> fs_err option \<Rightarrow> 'v mint_services \<Rightarrow>
     string option \<Rightarrow> (string \<Rightarrow> bool) \<Rightarrow> (pg_state, 'c, 'w, 'v, lease_rows) sweeper \<Rightarrow> bool" where
  "production_sweeper c sha env methods mkErr ms err is_uuid d \<longleftrightarrow>
     spRegistry d = production_service c sha env methods mkErr \<and> spServices d = ms \<and> spLeases d = pl_ops err is_uuid"

text \<open>Every name on a lease is one of the deployment's backends.\<close>

definition known_leases :: "(string \<Rightarrow> string \<Rightarrow> bool) \<Rightarrow> lease_rows \<Rightarrow> bool" where
  "known_leases used rows \<longleftrightarrow> (\<forall>le \<in> set rows. used (leWorkspace le) (leBackendID le))"

definition fresh_lease :: "(string \<Rightarrow> bool) \<Rightarrow> btick \<Rightarrow> lease_rows \<Rightarrow> bool" where
  "fresh_lease is_uuid tk rows \<longleftrightarrow> is_uuid (btLeaseID tk) \<and> pl_leased rows (btLeaseID tk) = None"

text \<open>The policy a key is under, at whichever service it lives.\<close>

definition key_policy :: "iam_users \<Rightarrow> service_accounts \<Rightarrow> string \<Rightarrow> json \<Rightarrow> bool" where
  "key_policy us acc k doc \<longleftrightarrow>
     (\<exists>base u ks. us (base, u) = Some (Some doc, ks) \<and> k \<in> ks) \<or> (\<exists>host e. acc (host, k) = Some (doc, e))"

text \<open>
  The abstract scope: reading (and, with \<open>readwrite\<close>, writing and deleting) the objects of \<open>bucket\<close>
  below the key prefix \<open>pre\<close>, listing them, and asking where the bucket is.
\<close>

definition in_scope :: "string \<Rightarrow> string \<Rightarrow> string \<Rightarrow> iam_request \<Rightarrow> bool" where
  "in_scope bucket pre access rq \<longleftrightarrow>
     irAction rq \<in> set (object_actions access) \<and> (\<exists>x. irResource rq = arn bucket @ ''/'' @ pre @ x) \<or>
     irAction rq = ''s3:GetBucketLocation'' \<and> irResource rq = arn bucket \<or>
     irAction rq = ''s3:ListBucket'' \<and> irResource rq = arn bucket \<and>
       (\<exists>p. irPrefix rq = Some p \<and> (prefix pre p \<or> p @ ''/'' = pre))"

lemma policy_in_scope:
  assumes "CleanPrefix (s3Prefix cfg) = Inr B" "plain_prefix B" "plain_prefix P" "wild_free (s3Bucket cfg)" "wild_free (B @ P)"
  shows "iam_allows (scopedPolicy (s3Bucket cfg) (key_prefix (s3Prefix cfg) P) access) rq \<longleftrightarrow> in_scope (s3Bucket cfg) (B @ P) access rq"
  unfolding minted_policy_allows [OF assms] in_scope_def by (simp add: prefix_def)

text \<open>The credential services carry out every deletion of a key they are asked for.\<close>

definition deletions_work :: "'v mint_services \<Rightarrow> bool" where
  "deletions_work ms \<longleftrightarrow> (\<forall>base ak sk u k w. fst (iDeleteAccessKey (msIam ms base ak sk) u k w) \<noteq> Some IamError)"

context production_broker
begin

abbreviation view :: "pg_state \<Rightarrow> string \<Rightarrow> string \<Rightarrow> backend_rec option" where
  "view s \<equiv> pgreg_view (fst s)"

lemma stored_view: "stored_rec rg = view (rgMeta rg)"
  by (intro ext) (simp add: stored_rec_def)

lemma provider_run:
  assumes st: "in_production c sha env methods mkErr used (bsReg st) n Q" "pl_ok is_uuid (bsLeases st)"
    and b: "production_provider c sha env methods mkErr ms err is_uuid b"
    and r: "known_request used r" "fresh_lease is_uuid tk (bsLeases st)"
    and run: "provider_ServeHTTP b tk r st = (rs, st')"
  shows "prod.provider_deps env methods mkErr err is_uuid b \<and> prod.sound is_uuid st \<and>
    known_request used r \<and>
    is_uuid (btLeaseID tk) \<and> pl_leased (bsLeases st) (btLeaseID tk) = None \<and>
    (\<exists>rs0. provider_serve b tk r st = (rs0, st') \<and> rsBody rs = rsBody rs0)"
proof -
  obtain rs0 where "provider_serve b tk r st = (rs0, st')" "rsBody rs = rsBody rs0"
    using run by (auto simp: provider_ServeHTTP_def split: prod.splits)
  moreover have "prod.provider_deps env methods mkErr err is_uuid b" using b by (simp add: prod.provider_deps_def production_provider_def)
  moreover have "prod.sound is_uuid st" using st K.prod_state(1) by (simp add: prod.sound_def)
  ultimately show ?thesis using r by (simp add: fresh_lease_def)
qed

lemma issued_policy:
  assumes "prod.issued env methods mkErr b tk r st st' g req i cfg P"
  shows "key_policy (users (bsRemote st')) (accounts (bsRemote st')) (mcAccessKeyID (obCredential g))
    (scopedPolicy (s3Bucket cfg) (key_prefix (s3Prefix cfg) P) (inAccess req))"
  using assms unfolding prod.issued_def prod.issued_key_def prod.issued_account_def key_policy_def by fastforce

text \<open>A credential that was handed out, in terms of what is stored and of what its key may do.\<close>

lemma prod_confined:
  assumes "in_production c sha env methods mkErr used (bsReg st) n Q" "pl_ok is_uuid (bsLeases st)"
    and "production_provider c sha env methods mkErr ms err is_uuid b" "known_request used r" "fresh_lease is_uuid tk (bsLeases st)"
    and "provider_ServeHTTP b tk r st = (rs, st')" and g: "rsBody rs = Body (BrokerGrant g)"
  shows "provider_authenticate b r \<and>
    (\<exists>req i path token rec cfg P. broker_request r = Inr (req, i, path, token) \<and>
       stored_rec (bsReg st) (rqrWorkspace (inRequester req)) i = Some rec \<and> rKind rec = KindS3 \<and> dec_s3 False (rConfig rec) = Some cfg \<and>
       CleanPrefix path = Inr P \<and> obScope g = \<lparr>seBackendID = i, sePath = TrimByte slash path, seAccess = inAccess req\<rparr> \<and>
       mcBucket (obCredential g) = s3Bucket cfg \<and>
       (\<exists>doc. key_policy (users (bsRemote st')) (accounts (bsRemote st')) (mcAccessKeyID (obCredential g)) doc \<and>
          (\<forall>B. CleanPrefix (s3Prefix cfg) = Inr B \<longrightarrow> plain_prefix B \<longrightarrow> plain_prefix P \<longrightarrow> wild_free (s3Bucket cfg) \<longrightarrow> wild_free (B @ P) \<longrightarrow>
             (\<forall>rq. iam_allows doc rq \<longleftrightarrow> in_scope (s3Bucket cfg) (B @ P) (inAccess req) rq))))"
proof -
  from provider_run [OF assms(1-6)] obtain rs0 where p: "prod.provider_deps env methods mkErr err is_uuid b" "prod.sound is_uuid st"
      "known_request used r"
      "is_uuid (btLeaseID tk)" "pl_leased (bsLeases st) (btLeaseID tk) = None" "provider_serve b tk r st = (rs0, st')" "rsBody rs = rsBody rs0"
    by blast
  from p(1-6) show ?thesis
  proof (cases rule: prod.serve_cases)
    case (refused code n)
    with p(7) g show ?thesis by (simp add: broker_error_def)
  next
    case (issued g' req i cfg P)
    with p(7) g have g': "g' = g" by simp
    note iss = issued(3) [unfolded g']
    from iss obtain path token rec where rec: "broker_request r = Inr (req, i, path, token)" "CleanPrefix path = Inr P"
      "view (rgMeta (bsReg st)) (rqrWorkspace (inRequester req)) i = Some rec" "rKind rec = KindS3" "dec_s3 False (rConfig rec) = Some cfg"
      "obScope g = \<lparr>seBackendID = i, sePath = TrimByte slash path, seAccess = inAccess req\<rparr>" "mcBucket (obCredential g) = s3Bucket cfg"
      unfolding prod.issued_def by blast
    have "\<exists>doc. key_policy (users (bsRemote st')) (accounts (bsRemote st')) (mcAccessKeyID (obCredential g)) doc \<and>
          (\<forall>B. CleanPrefix (s3Prefix cfg) = Inr B \<longrightarrow> plain_prefix B \<longrightarrow> plain_prefix P \<longrightarrow> wild_free (s3Bucket cfg) \<longrightarrow> wild_free (B @ P) \<longrightarrow>
             (\<forall>rq. iam_allows doc rq \<longleftrightarrow> in_scope (s3Bucket cfg) (B @ P) (inAccess req) rq))"
      by (rule exI, rule conjI, rule issued_policy [OF iss]) (use policy_in_scope in blast)
    with rec issued(2) show ?thesis unfolding stored_view by blast
  qed
qed

lemma prod_balanced:
  "prod.balanced env methods mkErr st \<longleftrightarrow>
     books env (stored_rec (bsReg st)) (pl_leased (bsLeases st)) (live_keys (users (bsRemote st)))"
  by (simp add: prod.balanced_def prod.keys_def stored_view)

lemma prod_books:
  assumes "in_production c sha env methods mkErr used (bsReg st) n Q" "pl_ok is_uuid (bsLeases st)"
    and "production_provider c sha env methods mkErr ms err is_uuid b" "known_request used r" "fresh_lease is_uuid tk (bsLeases st)"
    and "deletions_work ms"
    and "provider_ServeHTTP b tk r st = (rs, st')"
    and "books env (stored_rec (bsReg st)) (pl_leased (bsLeases st)) (live_keys (users (bsRemote st)))"
  shows "books env (stored_rec (bsReg st')) (pl_leased (bsLeases st')) (live_keys (users (bsRemote st')))"
proof -
  from provider_run [OF assms(1-5,7)] obtain rs0 where p: "prod.provider_deps env methods mkErr err is_uuid b" "prod.sound is_uuid st"
      "known_request used r"
      "is_uuid (btLeaseID tk)" "pl_leased (bsLeases st) (btLeaseID tk) = None" "provider_serve b tk r st = (rs0, st')"
    by blast
  have bal: "prod.balanced env methods mkErr st" unfolding prod_balanced by (rule assms(8))
  from prod.serve_balanced [OF p(1,2) bal p(3-5) assms(6) [unfolded deletions_work_def] p(6)] show ?thesis unfolding prod_balanced .
qed

lemma sweeper_run:
  assumes "in_production c sha env methods mkErr used (bsReg st) n Q" "pl_ok is_uuid (bsLeases st)"
    and "production_sweeper c sha env methods mkErr ms err is_uuid d" "known_leases used (bsLeases st)"
  shows "spRegistry d = production_service c sha env methods mkErr" "spServices d = ms" "spLeases d = pl_ops err is_uuid"
    "prod.sound is_uuid st" "\<forall>i le. pl_leased (bsLeases st) i = Some le \<longrightarrow> used (leWorkspace le) (leBackendID le)"
proof -
  show "\<forall>i le. pl_leased (bsLeases st) i = Some le \<longrightarrow> used (leWorkspace le) (leBackendID le)"
    using assms(4) pl_leased_mem [OF assms(2)] by (simp add: known_leases_def)
qed (use assms K.prod_state(1) in \<open>simp_all add: production_sweeper_def prod.sound_def\<close>)

lemma prod_sweep:
  assumes "in_production c sha env methods mkErr used (bsReg st) n Q" "pl_ok is_uuid (bsLeases st)"
    and "production_sweeper c sha env methods mkErr ms err is_uuid d" "known_leases used (bsLeases st)"
    and "the (spNow (withDefaults d)) clock = now" and "sweepOnce d clock st = (res, st')"
  shows "stored_rec (bsReg st') = stored_rec (bsReg st) \<and> rgWorld (bsReg st') = rgWorld (bsReg st) \<and>
    accounts (bsRemote st') = accounts (bsRemote st) \<and> live_keys (users (bsRemote st')) \<subseteq> live_keys (users (bsRemote st)) \<and>
    (\<forall>base u k. (base, u, k) \<in> live_keys (users (bsRemote st)) - live_keys (users (bsRemote st')) \<longrightarrow>
       (\<exists>le \<in> set (bsLeases st). pending_lease now le \<and> leIAMUserName le = u)) \<and>
    (\<forall>i. pl_leased (bsLeases st') i = pl_leased (bsLeases st) i \<or>
       (\<exists>le t. pl_leased (bsLeases st) i = Some le \<and> pending_lease now le \<and> pl_leased (bsLeases st') i = Some (le\<lparr>leSweptAt := Some t\<rparr>))) \<and>
    (books env (stored_rec (bsReg st)) (pl_leased (bsLeases st)) (live_keys (users (bsRemote st))) \<longrightarrow>
     books env (stored_rec (bsReg st')) (pl_leased (bsLeases st')) (live_keys (users (bsRemote st'))))"
proof -
  note sp = sweeper_run [OF assms(1-4)]
  from prod.sweepOnce_spec [OF sp(1-3) assms(5) sp(4,5) assms(6)] obtain ls where
    ls: "\<And>le. le \<in> set ls \<Longrightarrow> pl_leased (bsLeases st) (leID le) = Some le \<and> pending_lease now le" "prod.swept_over env methods mkErr is_uuid ls st st'"
    by blast
  note o = ls(2) [unfolded prod.swept_over_def prod.keys_def prod_balanced]
  have k: "prod.registry_kept st st'" using o by simp
  have "stored_rec (bsReg st') = stored_rec (bsReg st)" using prod.kept_recs [OF k] by (simp add: stored_view)
  moreover have "rgWorld (bsReg st') = rgWorld (bsReg st)" using k by (simp add: prod.registry_kept_def)
  moreover have "\<exists>le \<in> set (bsLeases st). pending_lease now le \<and> leIAMUserName le = u"
    if x: "(base, u, k) \<in> live_keys (users (bsRemote st)) - live_keys (users (bsRemote st'))" for base u k
  proof -
    have "u \<in> leIAMUserName ` set ls" using o x by (force simp: prod.key_user_def)
    with ls(1) pl_leased_mem [OF assms(2)] show ?thesis by fastforce
  qed
  moreover have "pl_leased (bsLeases st') i = pl_leased (bsLeases st) i \<or>
       (\<exists>le t. pl_leased (bsLeases st) i = Some le \<and> pending_lease now le \<and> pl_leased (bsLeases st') i = Some (le\<lparr>leSweptAt := Some t\<rparr>))" for i
  proof -
    have "prod.only_marked (leID ` set ls) (pl_leased (bsLeases st)) (pl_leased (bsLeases st'))" using o by simp
    with ls(1) show ?thesis unfolding prod.only_marked_def by (drule_tac spec [of _ i]) fastforce
  qed
  ultimately show ?thesis using o by simp
qed

lemma prod_sweep_clean:
  assumes "in_production c sha env methods mkErr used (bsReg st) n Q" "pl_ok is_uuid (bsLeases st)"
    and "production_sweeper c sha env methods mkErr ms err is_uuid d" "known_leases used (bsLeases st)"
    and "the (spNow (withDefaults d)) clock = now" "sweepOnce d clock st = (res, st')"
    and "books env (stored_rec (bsReg st)) (pl_leased (bsLeases st)) (live_keys (users (bsRemote st)))"
    and "err = None" "crFailed res = 0" "crSwept res < 200"
    and "(base, u, k) \<in> live_keys (users (bsRemote st'))" "prefix ''booth-'' u"
  shows "\<exists>i le. pl_leased (bsLeases st') i = Some le \<and> covers env (stored_rec (bsReg st')) le base u k \<and> now - 1000 \<le> leExpiresAt le"
proof -
  note sp = sweeper_run [OF assms(1-4)]
  have bal: "prod.balanced env methods mkErr st" unfolding prod_balanced by (rule assms(7))
  have l: "\<not> isl (fst (lsPendingSweep (pl_ops err is_uuid) now batchSize (bsLeases st)))" "int (crSwept res) < batchSize"
    using assms(8,10) by (simp_all add: pl_ops_def pl_PendingSweep_def batchSize_def)
  from prod.sweep_clean [OF sp(1-3) assms(5) sp(4) bal sp(5) assms(6) l(1) assms(9) l(2)] assms(11,12)
  show ?thesis by (simp add: prod.keys_def stored_view)
qed

end

lemma weed_parts:
  "production_broker mem_secrets_client mem_secs (\<lambda>x. x) small_names ref_services ref_users ref_accounts"
  "production_provider mem_secrets_client (\<lambda>x. x) demo_env demo_methods None ref_services None (\<lambda>i. i = ''L1'') weed_broker"
  "production_sweeper mem_secrets_client (\<lambda>x. x) demo_env demo_methods None ref_services None (\<lambda>i. i = ''L1'') weed_sweeper"
  by (rule production_broker.intro demo_kube ref_host.credential_host_axioms)+
    (simp_all add: production_provider_def production_sweeper_def weed_broker_def weed_sweeper_def)

interpretation weed: production_broker mem_secrets_client mem_secs "\<lambda>x. x" small_names ref_services ref_users ref_accounts
  by (rule weed_parts(1))

lemma weed_fits:
  "pl_ok (\<lambda>i. i = ''L1'') (bsLeases weed_state)" "pl_ok (\<lambda>i. i = ''L1'') (bsLeases weed_issued)"
  "fresh_lease (\<lambda>i. i = ''L1'') weed_tick (bsLeases weed_state)" "known_leases small_names (bsLeases weed_issued)"
  "known_request small_names weed_request" "deletions_work ref_services"
  "bsReg weed_state = weed_reg" "bsReg weed_issued = weed_reg"
proof -
  have f: "rqrWorkspace (inRequester weed_inbound) = ''acme''" "small_names ''acme'' ''b1''" by code_simp+
  show "known_request small_names weed_request" by (simp add: known_request_def weed_decode f)
  show "deletions_work ref_services"
    by (auto simp: deletions_work_def ref_services_def ref_iam_def split: option.splits)
  show "known_leases small_names (bsLeases weed_issued)" using f by (simp add: known_leases_def weed_issued_def weed_lease_def)
qed (simp_all add: weed_state_def weed_issued_def pl_ok_def fresh_lease_def weed_tick_def pl_leased_def weed_lease_def)

section \<open>Handing out a credential\<close>




lemma weed_keys:
  "live_keys (ref_users (bsRemote weed_state)) = {}" "(''https://weed:8333'', ''booth-u1'', ''K'') \<in> live_keys (ref_users (bsRemote weed_issued))"
  by (simp_all add: live_keys_def ref_users_def weed_state_def weed_issued_def)


section \<open>Sweeping\<close>

text \<open>
  C13. A sweep only takes away what has expired: it changes no record, no disk, no bucket and no
  service account, it creates no key, every key it removes belonged to the user of an unswept
  lease whose expiry had passed, it strikes off such leases only and changes nothing else about
  any lease, and it keeps the books: a lease whose key is still live at its backend's service
  stays on them.
\<close>

theorem sweep_expired_only:
  assumes "production_broker c secs sha used ms users accounts"
    and "in_production c sha env methods mkErr used (bsReg st) n Q" and "pl_ok is_uuid (bsLeases st)"
    and "production_sweeper c sha env methods mkErr ms err is_uuid d" and "known_leases used (bsLeases st)"
    and "the (spNow (withDefaults d)) clock = now" and "sweepOnce d clock st = (res, st')"
  shows "stored_rec (bsReg st') = stored_rec (bsReg st) \<and> rgWorld (bsReg st') = rgWorld (bsReg st) \<and>
    accounts (bsRemote st') = accounts (bsRemote st) \<and> live_keys (users (bsRemote st')) \<subseteq> live_keys (users (bsRemote st)) \<and>
    (\<forall>base u k. (base, u, k) \<in> live_keys (users (bsRemote st)) - live_keys (users (bsRemote st')) \<longrightarrow>
       (\<exists>le \<in> set (bsLeases st). pending_lease now le \<and> leIAMUserName le = u)) \<and>
    (\<forall>i. pl_leased (bsLeases st') i = pl_leased (bsLeases st) i \<or>
       (\<exists>le t. pl_leased (bsLeases st) i = Some le \<and> pending_lease now le \<and> pl_leased (bsLeases st') i = Some (le\<lparr>leSweptAt := Some t\<rparr>))) \<and>
    (books env (stored_rec (bsReg st)) (pl_leased (bsLeases st)) (live_keys (users (bsRemote st))) \<longrightarrow>
     books env (stored_rec (bsReg st')) (pl_leased (bsLeases st')) (live_keys (users (bsRemote st'))))"
  by (rule production_broker.prod_sweep [OF assms])

lemma weed_now: "the (spNow (withDefaults weed_sweeper)) 400000000000 = 400000000000"
  by (simp add: weed_sweeper_def withDefaults_def)

lemma sweep_expired_only_witness:
  "live_keys (ref_users (bsRemote weed_swept)) \<subset> live_keys (ref_users (bsRemote weed_issued)) \<and>
   (\<exists>le \<in> set (bsLeases weed_issued). pending_lease 400000000000 le \<and> leIAMUserName le = ''booth-u1'')"
proof -
  obtain Q where Q: "in_production mem_secrets_client (\<lambda>x. x) demo_env demo_methods None small_names (bsReg weed_issued) 0 Q"
    using weed_production unfolding weed_fits(8) by blast
  have "(''https://weed:8333'', ''booth-u1'', ''K'') \<notin> live_keys (ref_users (bsRemote weed_swept))"
    by (simp add: live_keys_def ref_users_def weed_swept_def)
  with sweep_expired_only [OF weed_parts(1) Q weed_fits(2) weed_parts(3) weed_fits(4) weed_now weed_sweep] weed_keys(2)
  show ?thesis by blast
qed



section \<open>When a cycle gets nowhere\<close>

text \<open>
  A lease whose backend cannot be read stays pending, and leases that stay pending come first in
  every later cycle: once the batch is full of them, no other lease is swept.
\<close>

lemma unreadable_stays:
  assumes "RawCredentials (spRegistry d) (leWorkspace le) (leBackendID le) (bsReg st) = ((r, Inl e), bsReg st)" "e \<noteq> RNotFound"
  shows "sweep_one d now le st = (False, st)"
  using assms by (simp add: sweep_one_def sweepLease_def)

lemma unreadable_batch_stays:
  assumes "\<forall>le \<in> set ls. \<exists>r e. RawCredentials (spRegistry d) (leWorkspace le) (leBackendID le) (bsReg st) = ((r, Inl e), bsReg st) \<and> e \<noteq> RNotFound"
  shows "snd (sweep_all d now ls res st) = st"
  using assms
proof (induction ls arbitrary: res)
  case (Cons le ls)
  then obtain r e where "RawCredentials (spRegistry d) (leWorkspace le) (leBackendID le) (bsReg st) = ((r, Inl e), bsReg st)" "e \<noteq> RNotFound" by auto
  from unreadable_stays [OF this] Cons show ?case by simp
qed simp

lemma unreadable_batch_starves:
  assumes "spNow d = None" "lsPendingSweep (spLeases d) now batchSize (bsLeases st) = (Inr ls, bsLeases st)"
    and "\<forall>le \<in> set ls. \<exists>r e. RawCredentials (spRegistry d) (leWorkspace le) (leBackendID le) (bsReg st) = ((r, Inl e), bsReg st) \<and> e \<noteq> RNotFound"
    and "\<And>s. snd (lsActiveCount (spLeases d) now s) = s"
  shows "snd (sweepOnce d now st) = st"
proof -
  have w: "spLeases (withDefaults d) = spLeases d" "spRegistry (withDefaults d) = spRegistry d" "the (spNow (withDefaults d)) now = now"
    using assms(1) by (simp_all add: withDefaults_def)
  let ?res0 = "case ls of [] \<Rightarrow> empty_cycle | le # _ \<Rightarrow> empty_cycle\<lparr>crOldestBacklogAge := now - leExpiresAt le\<rparr>"
  have "snd (sweep_all (withDefaults d) now ls ?res0 st) = st"
    using unreadable_batch_stays [of ls "withDefaults d" st now ?res0] assms(3) w by simp
  then obtain r1 where all: "sweep_all (withDefaults d) now ls ?res0 st = (r1, st)" by (metis prod.collapse)
  obtain c where "lsActiveCount (spLeases d) now (bsLeases st) = (c, bsLeases st)" using assms(4) by (metis prod.collapse)
  then show ?thesis using assms(2) all unfolding sweepOnce_def Let_def w by (cases c) simp_all
qed

text \<open>
  A lease whose backend has been deleted is struck off although its key, which never expires by
  itself, stays live at the service: here the backend's record is removed after the credential
  was issued.
\<close>

lemma deleted_backend_leaves_key:
  assumes "st = weed_issued\<lparr>bsReg := weed_reg\<lparr>rgMeta := ([], [])\<rparr>\<rparr>" "sweepOnce weed_sweeper 400000000000 st = (res, st')"
  shows "crFailed res = 0 \<and> leSweptAt (hd (bsLeases st')) \<noteq> None \<and>
    (''https://weed:8333'', ''booth-u1'', ''K'') \<in> live_keys (ref_users (bsRemote st'))"
proof -
  let ?st = "weed_issued\<lparr>bsReg := weed_reg\<lparr>rgMeta := ([], [])\<rparr>\<rparr>"
  have "crFailed (fst (sweepOnce weed_sweeper 400000000000 ?st)) = 0"
    "leSweptAt (hd (bsLeases (snd (sweepOnce weed_sweeper 400000000000 ?st)))) = Some 400000000000"
    "bsRemote (snd (sweepOnce weed_sweeper 400000000000 ?st)) = bsRemote weed_issued" by code_simp+
  with assms weed_keys(2) show ?thesis by simp
qed

end
