(* ===== verification/Spec2Isabelle.thy ===== *)
theory Spec2Isabelle
  imports Flat_Claims Cloud_Claims Conformance_Claims Startup Auth Upload_Grants Http_Range Fs_Claims Registry_Claims
    Registry_Race Api_Claims Api_Reading Api_Events Broker_Claims
begin

text \<open>
  A verification development for booth-storage, the storage module of the Booth platform.

  The program.  Workspaces register storage backends (an S3 bucket, an Azure container, a Google
  Cloud Storage bucket, or a directory of the server's file system) and read and write objects in
  them over HTTP.  A request passes the authentication middleware, is routed, and its handler opens
  the backend through the registry, which keeps records in PostgreSQL and credentials in Kubernetes
  Secrets and caches clients.  Apps may upload through grants, the platform's credential broker
  fetches short-lived S3 credentials, a sweeper removes the keys of expired ones, and every object
  written is announced on the event bus.

  How to read the theories.  A component has a theory with its state (records), its data and its
  operations, in the order of the Go file, every early return a branch; operations are functions
  that take and return the state they change.  Contracts between components are locales:
  what a client relies on is proved inside the locale, and each provider the module has interprets
  it.  Services outside the repository (cloud SDKs, the IAM and MinIO admin endpoints, the
  Kubernetes client) are records of functions; what the module relies on about them is a locale as
  well, interpreted on an executable reference service, on which the examples run.  Errors are
  values: \<open>berr\<close> for backends, \<open>rerr\<close> for the registry, \<open>gerr\<close> for grants, sums and options
  elsewhere; message texts and logging are dropped.

  Shared ground.
    \<^item> \<open>Prelude\<close>: Go's \<^verbatim>\<open>strings\<close>, \<^verbatim>\<open>strconv\<close> and \<^verbatim>\<open>path\<close> functions on byte strings.
    \<^item> \<open>Http_Core\<close>: requests, responses, \<^verbatim>\<open>MaxBytesReader\<close>, decoding a JSON value into a struct.
    \<^item> \<open>Json_Text\<close>, \<open>Json_Laws\<close>: JSON text as \<^verbatim>\<open>encoding/json\<close> reads it (a scanner with one step per
      byte over a stack of at most 10,000 frames) and writes it, UTF-8 included.  A value that was
      written is read back, whatever follows; a value that was read can be written.

  Backends (\<^verbatim>\<open>internal/backend\<close>).
    \<^item> \<open>Backend_Core\<close> (\<^verbatim>\<open>backend.go\<close>): kinds, sentinel errors, path rules with an exact account of the
      paths accepted, the \<^verbatim>\<open>Backend\<close> interface.
    \<^item> \<open>Flat_Store\<close> (\<^verbatim>\<open>flatstore.go\<close>): folder delete, object and folder moves over a flat key space.  The
      locale \<open>paged_store\<close> is what a paged service promises, \<open>flat_store\<close> adds that a non-empty folder
      shows in its first page, \<open>reliable_flat_store\<close> that copies fail cleanly.  The paging loop is a
      partial function (it may not return); that it does return under the contract is proved with
      the number of keys still to deliver as measure.  \<open>Flat_Claims\<close> has the properties.
    \<^item> \<open>Cloud_Store\<close>: what the three object-store kinds share: keys under a prefix, confinement to it,
      create-only writes, writes whose body breaks.
    \<^item> \<open>S3_Backend\<close>, \<open>Azure_Backend\<close>, \<open>GCS_Backend\<close>: every method of \<^verbatim>\<open>s3.go\<close>, \<^verbatim>\<open>azure.go\<close>, \<^verbatim>\<open>gcs.go\<close> over the
      client of the service.  Azure's copies finish late: \<open>await_copy\<close> polls as often as the
      request's context allows (\<open>zWaits\<close>), so it returns.  \<open>Mem_Service\<close> is the reference bucket; \<open>Cloud_Claims\<close>
      has the properties of all three kinds.
    \<^item> \<open>Fs_Tree\<close>, \<open>Fs_Backend\<close> (\<^verbatim>\<open>filesystem.go\<close>): a directory tree with the calls of \<^verbatim>\<open>os.Root\<close>, and every
      method.  \<open>Fs_Laws\<close> tells what each does to the files of the tree, \<open>Fs_Listing\<close> why paging through a
      listing ends with every visible entry once, \<open>Fs_Claims\<close> has the properties.
    \<^item> \<open>Conformance\<close>, \<open>Conformance_Claims\<close> (\<^verbatim>\<open>backendtest\<close>): the repository's conformance suite as executable
      predicates, evaluated in the kernel for all four kinds; racing writers in every order.

  Registry (\<^verbatim>\<open>internal/registry\<close>).
    \<^item> \<open>Registry_Store\<close> (\<^verbatim>\<open>model.go\<close>, \<^verbatim>\<open>memory.go\<close>, \<^verbatim>\<open>postgres.go\<close>): records and both metadata stores behind
      \<open>meta_store\<close>, what a JSONB column keeps of a configuration included.
    \<^item> \<open>Registry_Creds\<close> (\<^verbatim>\<open>kubernetes.go\<close>): both credential stores behind \<open>cred_store\<close>.
    \<^item> \<open>Registry_Policy\<close> (\<^verbatim>\<open>fspolicy.go\<close>, \<^verbatim>\<open>fsroot.go\<close>): which directories a workspace may register.
    \<^item> \<open>Registry_Kinds\<close> (\<^verbatim>\<open>kinds.go\<close>): configurations, credentials, the construction of a backend.
    \<^item> \<open>Registry_Service\<close> (\<^verbatim>\<open>service.go\<close>, \<^verbatim>\<open>probe.go\<close>): every operation.  \<open>Registry_Laws\<close> proves them over any
      stores that keep their contracts (the locale \<open>registry\<close>), for deployments of several replicas
      with a cache each; \<open>Registry_Claims\<close> has the properties.  \<open>Registry_Race\<close> takes \<^verbatim>\<open>TestSaved\<close> apart and
      shows what an update in between does.

  Requests (\<^verbatim>\<open>internal/auth\<close>, \<^verbatim>\<open>internal/uploadgrant\<close>, \<^verbatim>\<open>internal/api\<close>, \<^verbatim>\<open>internal/eventbus\<close>).
    \<^item> \<open>Auth\<close> (\<^verbatim>\<open>auth.go\<close>): verifiers, claims, roles, the middleware.
    \<^item> \<open>Upload_Grants\<close>: validation, matching, both stores behind \<open>grant_store\<close>.
    \<^item> \<open>Http_Range\<close>: the Range header against the forms of RFC 9110, integers at 64 bits.
    \<^item> \<open>Api_Server\<close> (\<^verbatim>\<open>server.go\<close>): routes, tiers, every handler.  \<open>Api_Laws\<close> proves what they do over any
      registry and grant store (\<open>http_api\<close>); \<open>Api_Claims\<close> and \<open>Api_Reading\<close> have the properties.
    \<^item> \<open>Event_Bus\<close> (\<^verbatim>\<open>eventbus.go\<close>, \<^verbatim>\<open>lazy.go\<close>): the publishers, and the lazy one as a machine whose steps are
      polls, publishes and changes from outside.  \<open>Api_Events\<close> follows a write to the message a
      subscriber reads.

  Credentials (\<^verbatim>\<open>internal/credentialbroker\<close>, \<^verbatim>\<open>internal/backend/s3\<close>, \<^verbatim>\<open>internal/seaweedfslease\<close>,
  \<^verbatim>\<open>internal/seaweedfssweep\<close>).
    \<^item> \<open>Lease_Store\<close>: leases in memory and as rows, behind \<open>lease_store\<close>.
    \<^item> \<open>Broker_Mint\<close> (\<^verbatim>\<open>credentials.go\<close>, \<^verbatim>\<open>seaweedfs_iam.go\<close>): the policy and both ways of minting;
      \<open>Broker_Scope\<close>: the requests a policy allows; \<open>Broker_Leases\<close>: the contract \<open>credential_host\<close>.
    \<^item> \<open>Broker_Provider\<close> (\<^verbatim>\<open>provider.go\<close>), \<open>Broker_Sweep\<close> (\<^verbatim>\<open>sweep.go\<close>); \<open>Broker_Laws\<close> proves their common
      invariant, that every live key has a lease that is not swept, and \<open>Broker_Claims\<close> the properties.

  The process (\<^verbatim>\<open>cmd/storage\<close>, \<^verbatim>\<open>internal/config\<close>, \<^verbatim>\<open>internal/dbwait\<close>).
    \<^item> \<open>Config_Load\<close>: the environment variables.  \<open>Db_Wait\<close>: the retry loop; it ends because the time left
      before the deadline shrinks with every round.  \<open>Pg_Start\<close>: the migrations, with every statement
      and the commit able to fail.  \<open>Startup\<close>: the order in which the process opens, serves and closes.

  The theories named \<open>_Example\<close> run the operations on concrete services; the witnesses of the
  properties rest on them.

  Bounds.  Sizes and offsets are integers with Go's \<^verbatim>\<open>int64\<close> range where the code parses or
  multiplies (\<open>ParseInt64\<close>, \<open>ttl_of\<close>, which wraps).  Times are integers in the unit of the column or
  clock they come from.  Recursion is structural or has a measure, but for the paging loop and its
  callers, which are options over whether they return.

  Not modelled.
    \<^item> Interleaving inside one call: handlers and registry operations are atomic, but for the racing
      writers of the conformance suite, the replicas (which interleave whole calls) and \<open>Registry_Race\<close>.
    \<^item> Crashes between system calls, symbolic links inside a backend's directory, timeouts, and time
      passing during a call.
    \<^item> The OIDC package's signature checks, chi's route matching, \<^verbatim>\<open>url.Parse\<close>, \<^verbatim>\<open>mime\<close>, time formats, SHA-256,
      the SDK constructors and the SQL inside the migrations: parameters, each an argument.
    \<^item> Message and log texts, the audit log, the web interface, the charts and the scripts: they
      take no part in the behaviour proved here.
\<close>

end
